(* ===== verification/Builda_Prelude.thy ===== *)
theory Builda_Prelude
  imports Main "HOL-Library.AList" "HOL-Library.Char_ord" "HOL-Library.List_Lexorder"
    "HOL-Library.Word"
begin

text \<open>
  Shared vocabulary of the development.

  A Go \<^verbatim>\<open>string\<close> is a sequence of bytes, and so is the HOL type \<^typ>\<open>string\<close>: a
  \<^typ>\<open>char\<close> is one byte.  The order of \<^verbatim>\<open>HOL-Library.Char_ord\<close> and
  \<^verbatim>\<open>HOL-Library.List_Lexorder\<close> is Go's byte-wise string order.  A Go map is an association list
  (\<^verbatim>\<open>gomap\<close>): its order stands for the iteration order, which Go leaves open.
  An instant (\<^verbatim>\<open>time.Time\<close>) is an \<^typ>\<open>int\<close> counting from the zero time, so that
  \<^verbatim>\<open>IsZero\<close> is equality with 0 and \<^verbatim>\<open>Before\<close> is \<open><\<close>.  Signed 64-bit arithmetic is integer
  arithmetic with the wrap-around written out (\<^verbatim>\<open>wrap64\<close>).  The first part of the theory models
  what the sources use of the package \<^verbatim>\<open>strings\<close>; the second part holds the generic lemmas on
  lists and maps that the component theories share.
\<close>

named_theorems builda_defs \<open>definitions of operations, unfolded by the component proofs\<close>
named_theorems inv_intros \<open>preservation lemmas of the state invariants\<close>

type_synonym time = int
type_synonym 'v gomap = "(string \<times> 'v) list"

section \<open>Strings\<close>

text \<open>The byte sequences of the runes for which \<^verbatim>\<open>unicode.IsSpace\<close> holds.\<close>

definition go_spaces :: "string list" where
  "go_spaces =
     [[CHR 0x09], [CHR 0x0A], [CHR 0x0B], [CHR 0x0C], [CHR 0x0D], [CHR 0x20],
      [CHR 0xC2, CHR 0x85], [CHR 0xC2, CHR 0xA0],
      [CHR 0xE1, CHR 0x9A, CHR 0x80],
      [CHR 0xE2, CHR 0x80, CHR 0x80], [CHR 0xE2, CHR 0x80, CHR 0x81],
      [CHR 0xE2, CHR 0x80, CHR 0x82], [CHR 0xE2, CHR 0x80, CHR 0x83],
      [CHR 0xE2, CHR 0x80, CHR 0x84], [CHR 0xE2, CHR 0x80, CHR 0x85],
      [CHR 0xE2, CHR 0x80, CHR 0x86], [CHR 0xE2, CHR 0x80, CHR 0x87],
      [CHR 0xE2, CHR 0x80, CHR 0x88], [CHR 0xE2, CHR 0x80, CHR 0x89],
      [CHR 0xE2, CHR 0x80, CHR 0x8A],
      [CHR 0xE2, CHR 0x80, CHR 0xA8], [CHR 0xE2, CHR 0x80, CHR 0xA9],
      [CHR 0xE2, CHR 0x80, CHR 0xAF], [CHR 0xE2, CHR 0x81, CHR 0x9F],
      [CHR 0xE3, CHR 0x80, CHR 0x80]]"

definition has_prefix :: "string \<Rightarrow> string \<Rightarrow> bool" where
  "has_prefix s p \<longleftrightarrow> take (length p) s = p"

definition has_suffix :: "string \<Rightarrow> string \<Rightarrow> bool" where
  "has_suffix s p \<longleftrightarrow> has_prefix (rev s) (rev p)"

text \<open>The length of the white-space rune at the head of a string, 0 when there is none.\<close>

definition head_len :: "string list \<Rightarrow> string \<Rightarrow> nat" where
  "head_len ws s = (case find (has_prefix s) ws of None \<Rightarrow> 0 | Some w \<Rightarrow> length w)"

text \<open>Drop leading occurrences of the given byte sequences; the number counts the bytes of the
  current occurrence that are still to be dropped.\<close>

fun trim_with :: "string list \<Rightarrow> nat \<Rightarrow> string \<Rightarrow> string" where
  "trim_with ws k [] = []"
| "trim_with ws (Suc k) (c # cs) = trim_with ws k cs"
| "trim_with ws 0 (c # cs) =
     (case head_len ws (c # cs) of 0 \<Rightarrow> c # cs | Suc k \<Rightarrow> trim_with ws k cs)"

definition trim_left :: "string \<Rightarrow> string" where
  "trim_left s = trim_with go_spaces 0 s"

definition trim_right :: "string \<Rightarrow> string" where
  "trim_right s = rev (trim_with (map rev go_spaces) 0 (rev s))"

definition trim_space :: "string \<Rightarrow> string" where
  "trim_space s = trim_right (trim_left s)"

text \<open>\<^verbatim>\<open>strings.ToLower\<close>.  The two letters outside ASCII whose lower case is an ASCII letter
  (U+0130 and U+212A) are mapped as Go maps them.  The lower case of every other letter outside
  ASCII is again outside ASCII; the model leaves it as it is, which no use in the sources can tell
  apart, since each of them compares the result with ASCII words or requires an ASCII
  identifier.\<close>

definition lower_char :: "char \<Rightarrow> char" where
  "lower_char c = (if CHR ''A'' \<le> c \<and> c \<le> CHR ''Z'' then char_of (of_char c + 32 :: nat) else c)"

fun to_lower :: "string \<Rightarrow> string" where
  "to_lower (a # b # c # s) =
     (if [a, b] = [CHR 0xC4, CHR 0xB0] then CHR ''i'' # to_lower (c # s)
      else if [a, b, c] = [CHR 0xE2, CHR 0x84, CHR 0xAA] then CHR ''k'' # to_lower s
      else lower_char a # to_lower (b # c # s))"
| "to_lower [a, b] =
     (if [a, b] = [CHR 0xC4, CHR 0xB0] then ''i'' else [lower_char a, lower_char b])"
| "to_lower [a] = [lower_char a]"
| "to_lower [] = []"

text \<open>\<^verbatim>\<open>strings.Split(s, sep)\<close> for a separator of one byte, and \<^verbatim>\<open>strings.Join\<close>.\<close>

fun split_on :: "char \<Rightarrow> string \<Rightarrow> string list" where
  "split_on d [] = [[]]"
| "split_on d (c # cs) =
     (if c = d then [] # split_on d cs
      else (case split_on d cs of [] \<Rightarrow> [[c]] | w # ws \<Rightarrow> (c # w) # ws))"

fun join_with :: "string \<Rightarrow> string list \<Rightarrow> string" where
  "join_with sep [] = []"
| "join_with sep [w] = w"
| "join_with sep (w # ws) = w @ sep @ join_with sep ws"

text \<open>\<^verbatim>\<open>strings.Cut\<close> at a one-byte separator: the part before, the part after, and whether the
  separator occurs.\<close>

fun cut_at :: "char \<Rightarrow> string \<Rightarrow> string \<times> string \<times> bool" where
  "cut_at d [] = ([], [], False)"
| "cut_at d (c # cs) =
     (if c = d then ([], cs, True)
      else (case cut_at d cs of (b, a, found) \<Rightarrow> if found then (c # b, a, True) else (c # cs, [], False)))"

text \<open>\<^verbatim>\<open>strings.TrimRight\<close> and \<^verbatim>\<open>strings.Trim\<close> with a set of ASCII characters, and
  \<^verbatim>\<open>strings.Fields\<close>.\<close>

definition trim_right_set :: "char list \<Rightarrow> string \<Rightarrow> string" where
  "trim_right_set cutset s = rev (dropWhile (\<lambda>c. c \<in> set cutset) (rev s))"

definition trim_set :: "char list \<Rightarrow> string \<Rightarrow> string" where
  "trim_set cutset s = trim_right_set cutset (dropWhile (\<lambda>c. c \<in> set cutset) s)"

fun fields_loop :: "nat \<Rightarrow> string \<Rightarrow> string \<Rightarrow> string list" where
  "fields_loop k word [] = (if word = [] then [] else [rev word])"
| "fields_loop (Suc k) word (c # cs) = fields_loop k word cs"
| "fields_loop 0 word (c # cs) =
     (case head_len go_spaces (c # cs) of
        0 \<Rightarrow> fields_loop 0 (c # word) cs
      | Suc k \<Rightarrow> (if word = [] then [] else [rev word]) @ fields_loop k [] cs)"

definition split_fields :: "string \<Rightarrow> string list" where
  "split_fields s = fields_loop 0 [] s"

text \<open>\<^verbatim>\<open>strings.EqualFold\<close>: equality up to simple case folding.  Besides the ASCII letters the two
  runes that fold to an ASCII letter (U+017F to s, U+212A to k) are folded; letters that fold outside
  ASCII only are compared as they are, which the uses in the sources (the words \<^verbatim>\<open>Bearer\<close> and
  \<^verbatim>\<open>https\<close>, and host names) cannot tell apart for ASCII host names.\<close>

fun fold_case :: "string \<Rightarrow> string" where
  "fold_case (a # b # c # s) =
     (if [a, b, c] = [CHR 0xE2, CHR 0x84, CHR 0xAA] then CHR ''k'' # fold_case s
      else if [a, b] = [CHR 0xC5, CHR 0xBF] then CHR ''s'' # fold_case (c # s)
      else lower_char a # fold_case (b # c # s))"
| "fold_case [a, b] = (if [a, b] = [CHR 0xC5, CHR 0xBF] then ''s'' else [lower_char a, lower_char b])"
| "fold_case [a] = [lower_char a]"
| "fold_case [] = []"

definition equal_fold :: "string \<Rightarrow> string \<Rightarrow> bool" where
  "equal_fold s t \<longleftrightarrow> fold_case s = fold_case t"

section \<open>Integers\<close>

text \<open>Decimal notation, as \<^verbatim>\<open>%d\<close> prints it.\<close>

fun dec_nat :: "nat \<Rightarrow> string" where
  "dec_nat n = (if n < 10 then [char_of (48 + n)] else dec_nat (n div 10) @ [char_of (48 + n mod 10)])"

declare dec_nat.simps [simp del]

definition dec :: "int \<Rightarrow> string" where
  "dec i = (if i < 0 then CHR ''-'' # dec_nat (nat (- i)) else dec_nat (nat i))"

definition wrap64 :: "int \<Rightarrow> int" where
  "wrap64 x = (x + 2 ^ 63) mod 2 ^ 64 - 2 ^ 63"

definition int64 :: "int \<Rightarrow> bool" where
  "int64 x \<longleftrightarrow> - (2 ^ 63) \<le> x \<and> x < 2 ^ 63"

lemma wrap64_id [simp]: "int64 x \<Longrightarrow> wrap64 x = x"
  by (simp add: wrap64_def int64_def)

lemma int64_wrap64 [simp, intro]: "int64 (wrap64 x)"
proof -
  have "0 \<le> (x + 2 ^ 63) mod 2 ^ 64" "(x + 2 ^ 63) mod 2 ^ 64 < (2 :: int) ^ 64"
    by simp_all
  then show ?thesis by (simp add: wrap64_def int64_def)
qed

section \<open>Lists and maps\<close>

text \<open>A pointer into a slice found by a predicate, and an update through it.\<close>

fun upd_first :: "('a \<Rightarrow> bool) \<Rightarrow> ('a \<Rightarrow> 'a) \<Rightarrow> 'a list \<Rightarrow> 'a list" where
  "upd_first P f [] = []"
| "upd_first P f (x # xs) = (if P x then f x # xs else x # upd_first P f xs)"

text \<open>Removing the first element that satisfies a predicate.\<close>

fun del_first :: "('a \<Rightarrow> bool) \<Rightarrow> 'a list \<Rightarrow> 'a list" where
  "del_first P [] = []"
| "del_first P (x # xs) = (if P x then xs else x # del_first P xs)"

lemma length_upd_first [simp]: "length (upd_first P f xs) = length xs"
  by (induction xs) auto

lemma upd_first_None: "find P xs = None \<Longrightarrow> upd_first P f xs = xs"
  by (induction xs) (auto split: if_splits)

lemma map_upd_first:
  assumes "\<And>x. P x \<Longrightarrow> g (f x) = g x"
  shows "map g (upd_first P f xs) = map g xs"
  using assms by (induction xs) auto

lemma set_upd_first:
  "find P xs = Some x \<Longrightarrow> y \<in> set (upd_first P f xs) \<Longrightarrow> y = f x \<or> y \<in> set xs"
  by (induction xs) (auto split: if_splits)

lemma upd_first_mem: "find P xs = Some x \<Longrightarrow> f x \<in> set (upd_first P f xs)"
  by (induction xs) (auto split: if_splits)

lemma set_upd_first_sub: "y \<in> set (upd_first P f xs) \<Longrightarrow> y \<in> set xs \<or> (\<exists>x \<in> set xs. P x \<and> y = f x)"
  by (induction xs) (auto split: if_splits)

lemma find_Some_mem: "find P xs = Some x \<Longrightarrow> x \<in> set xs \<and> P x"
  by (induction xs) (auto split: if_splits)

lemma find_None_iff_all: "find P xs = None \<longleftrightarrow> (\<forall>x \<in> set xs. \<not> P x)"
  by (induction xs) auto

lemma find_upd_first_same:
  assumes "find P xs = Some x" "P (f x)"
  shows "find P (upd_first P f xs) = Some (f x)"
  using assms by (induction xs) (auto split: if_splits)

lemma find_upd_first_other:
  assumes "\<And>x. P x \<Longrightarrow> \<not> Q x" "\<And>x. P x \<Longrightarrow> \<not> Q (f x)"
  shows "find Q (upd_first P f xs) = find Q xs"
  using assms by (induction xs) auto

lemma set_del_first: "set (del_first P xs) \<subseteq> set xs"
  by (induction xs) auto

lemma del_first_remaining: "x \<in> set xs \<Longrightarrow> \<not> P x \<Longrightarrow> x \<in> set (del_first P xs)"
  by (induction xs) auto

lemma distinct_map_del_first: "distinct (map g xs) \<Longrightarrow> distinct (map g (del_first P xs))"
proof (induction xs)
  case (Cons x xs)
  then show ?case using set_del_first [of P xs] by auto
qed simp

lemma find_filter_other:
  assumes "\<And>x. P x \<Longrightarrow> Q x"
  shows "find P (filter Q xs) = find P xs"
  using assms by (induction xs) auto

lemma distinct_map_filter_sub: "distinct (map f xs) \<Longrightarrow> distinct (map f (filter P xs))"
  by (simp add: distinct_map_filter)

end
