(* ===== verification/Ctrl_State.thy ===== *)
theory Ctrl_State
  imports Builda_Prelude
begin

text \<open>
  The data of the controller: the configuration types of \<^verbatim>\<open>ctrlconfig.go\<close>, the execution
  lifecycle and the persisted snapshot of \<^verbatim>\<open>ctrlstate.go\<close>, the sentinel errors, and the lookups
  into the snapshot.  Statuses are strings, as in the source.  A slice of execution pointers is the
  list of the executions it points to; a nil entry, which every loop of the source skips, has no
  counterpart.  The deep copies (\<^verbatim>\<open>clone\<close>) are the identity on HOL values.
\<close>

section \<open>Configuration\<close>

record OptionConfig =
  opt_Value :: string
  opt_Label :: string
  opt_Labels :: "string list"
  opt_Values :: "string gomap"

record CatalogConfig =
  cat_ID :: string
  cat_Name :: string
  cat_Description :: string
  cat_Options :: "OptionConfig list"

record ParameterConfig =
  par_ID :: string
  par_Name :: string
  par_Description :: string
  par_Type :: string
  par_Default :: string
  par_Required :: bool
  par_Options :: "OptionConfig list"
  par_Catalog :: string
  par_CatalogLabels :: "string list"

record JobConfig =
  job_ID :: string
  job_Name :: string
  job_Description :: string
  job_Enabled :: "bool option"
  job_Labels :: "string list"
  job_Timeout :: string
  job_Script :: string
  job_WorkdirParam :: string
  job_Parameters :: "ParameterConfig list"

record AgentDefinition =
  agd_ID :: string
  agd_Name :: string
  agd_Description :: string
  agd_Labels :: "string list"
  agd_Enabled :: "bool option"
  agd_Paused :: bool

record ControllerServer =
  srv_Address :: string
  srv_Addresses :: "string list"
  srv_StateDir :: string
  srv_MaxHistory :: int
  srv_HeartbeatInterval :: string
  srv_OfflineAfter :: string
  srv_LongPollTimeout :: string
  srv_MaxLogBytes :: int
  srv_PublicURL :: string

record ControllerConfig =
  cfg_Role :: string
  cfg_Server :: ControllerServer
  cfg_Catalogs :: "CatalogConfig list"
  cfg_Jobs :: "JobConfig list"
  cfg_Agents :: "AgentDefinition list"

definition boolValue :: "bool option \<Rightarrow> bool \<Rightarrow> bool" where
  "boolValue value fallback = (case value of None \<Rightarrow> fallback | Some b \<Rightarrow> b)"

definition JobConfig_IsEnabled :: "JobConfig \<Rightarrow> bool" where
  "JobConfig_IsEnabled j = boolValue (job_Enabled j) True"

definition AgentDefinition_IsEnabled :: "AgentDefinition \<Rightarrow> bool" where
  "AgentDefinition_IsEnabled a = boolValue (agd_Enabled a) True"

definition findJob :: "ControllerConfig \<Rightarrow> string \<Rightarrow> JobConfig option" where
  "findJob cfg i = find (\<lambda>job. job_ID job = i) (cfg_Jobs cfg)"

definition findCatalog :: "ControllerConfig \<Rightarrow> string \<Rightarrow> CatalogConfig option" where
  "findCatalog cfg i = find (\<lambda>catalog. cat_ID catalog = i) (cfg_Catalogs cfg)"

definition findAgentDefinition :: "ControllerConfig \<Rightarrow> string \<Rightarrow> AgentDefinition option" where
  "findAgentDefinition cfg i = find (\<lambda>agent. agd_ID agent = i) (cfg_Agents cfg)"

section \<open>Execution lifecycle\<close>

definition StatusQueued :: string where "StatusQueued = ''QUEUED''"
definition StatusAssigned :: string where "StatusAssigned = ''ASSIGNED''"
definition StatusRunning :: string where "StatusRunning = ''RUNNING''"
definition StatusCanceling :: string where "StatusCanceling = ''CANCELING''"
definition StatusSuccess :: string where "StatusSuccess = ''SUCCESS''"
definition StatusFailed :: string where "StatusFailed = ''FAILED''"
definition StatusCanceled :: string where "StatusCanceled = ''CANCELED''"
definition StatusAborted :: string where "StatusAborted = ''ABORTED''"

lemmas status_defs = StatusQueued_def StatusAssigned_def StatusRunning_def StatusCanceling_def
  StatusSuccess_def StatusFailed_def StatusCanceled_def StatusAborted_def

definition FailureReasonTimeout :: string where "FailureReasonTimeout = ''timeout''"
definition FailureReasonScript :: string where "FailureReasonScript = ''script''"
definition FailureReasonAgent :: string where "FailureReasonAgent = ''agent''"

definition isExecutionTerminal :: "string \<Rightarrow> bool" where
  "isExecutionTerminal status \<longleftrightarrow>
     status = StatusSuccess \<or> status = StatusFailed \<or> status = StatusCanceled \<or> status = StatusAborted"

definition isExecutionActive :: "string \<Rightarrow> bool" where
  "isExecutionActive status \<longleftrightarrow>
     status = StatusAssigned \<or> status = StatusRunning \<or> status = StatusCanceling"

lemma status_distinct [simp]:
  "StatusQueued \<noteq> StatusAssigned" "StatusQueued \<noteq> StatusRunning" "StatusQueued \<noteq> StatusCanceling"
  "StatusQueued \<noteq> StatusSuccess" "StatusQueued \<noteq> StatusFailed" "StatusQueued \<noteq> StatusCanceled"
  "StatusQueued \<noteq> StatusAborted" "StatusAssigned \<noteq> StatusRunning" "StatusAssigned \<noteq> StatusCanceling"
  "StatusAssigned \<noteq> StatusSuccess" "StatusAssigned \<noteq> StatusFailed" "StatusAssigned \<noteq> StatusCanceled"
  "StatusAssigned \<noteq> StatusAborted" "StatusRunning \<noteq> StatusCanceling" "StatusRunning \<noteq> StatusSuccess"
  "StatusRunning \<noteq> StatusFailed" "StatusRunning \<noteq> StatusCanceled" "StatusRunning \<noteq> StatusAborted"
  "StatusCanceling \<noteq> StatusSuccess" "StatusCanceling \<noteq> StatusFailed" "StatusCanceling \<noteq> StatusCanceled"
  "StatusCanceling \<noteq> StatusAborted" "StatusSuccess \<noteq> StatusFailed" "StatusSuccess \<noteq> StatusCanceled"
  "StatusSuccess \<noteq> StatusAborted" "StatusFailed \<noteq> StatusCanceled" "StatusFailed \<noteq> StatusAborted"
  "StatusCanceled \<noteq> StatusAborted"
  by (simp_all add: status_defs)

lemmas status_distinct_sym [simp] = status_distinct [symmetric]

lemma terminal_simps [simp]:
  "isExecutionTerminal StatusSuccess" "isExecutionTerminal StatusFailed"
  "isExecutionTerminal StatusCanceled" "isExecutionTerminal StatusAborted"
  "\<not> isExecutionTerminal StatusQueued" "\<not> isExecutionTerminal StatusAssigned"
  "\<not> isExecutionTerminal StatusRunning" "\<not> isExecutionTerminal StatusCanceling"
  by (simp_all add: isExecutionTerminal_def)

lemma active_simps [simp]:
  "isExecutionActive StatusAssigned" "isExecutionActive StatusRunning"
  "isExecutionActive StatusCanceling" "\<not> isExecutionActive StatusQueued"
  "\<not> isExecutionActive StatusSuccess" "\<not> isExecutionActive StatusFailed"
  "\<not> isExecutionActive StatusCanceled" "\<not> isExecutionActive StatusAborted"
  by (simp_all add: isExecutionActive_def)

lemma active_not_terminal: "isExecutionActive st \<Longrightarrow> \<not> isExecutionTerminal st"
  by (auto simp: isExecutionActive_def)

lemma terminal_not_active: "isExecutionTerminal st \<Longrightarrow> \<not> isExecutionActive st"
  by (auto simp: isExecutionActive_def)

section \<open>The persisted snapshot\<close>

record ExecutionOrigin =
  org_Machine :: string
  org_LegacyRunID :: string
  org_LegacyTask :: string
  org_TaskName :: string
  org_TimeoutText :: string
  org_Script :: string
  org_ScriptHdr :: string
  org_Inputs :: "string gomap"
  org_ImportedAt :: time
  org_LogImported :: bool
  org_LogNote :: string

record Execution =
  ex_ID :: string
  ex_JobID :: string
  ex_JobName :: string
  ex_Labels :: "string list"
  ex_Script :: string
  ex_TimeoutText :: string
  ex_WorkdirPath :: string
  ex_Parameters :: "string gomap"
  ex_ParameterEnv :: "string gomap"
  ex_SelectedOptions :: "OptionConfig gomap"
  ex_JobSnapshot :: JobConfig
  ex_Status :: string
  ex_AgentID :: string
  ex_RequestedBy :: string
  ex_CancelRequested :: bool
  ex_PermitGranted :: bool
  ex_PermitRevoked :: bool
  ex_NeedsAttention :: bool
  ex_Attention :: string
  ex_LogOffset :: int
  ex_LogComplete :: bool
  ex_LogTruncated :: bool
  ex_ExitCode :: int
  ex_Error :: string
  ex_FailureReason :: string
  ex_RequestedAt :: time
  ex_AssignedAt :: time
  ex_StartedAt :: time
  ex_FinishedAt :: time
  ex_CanceledAt :: time
  ex_Origin :: "ExecutionOrigin option"

record AgentState =
  ags_ID :: string
  ags_LastAssignedAt :: time

record ImportedOrigin =
  imp_Machine :: string
  imp_LegacyRunID :: string
  imp_ExecutionID :: string
  imp_ImportedAt :: time

type_synonym originKey = "string \<times> string"

definition ImportedOrigin_key :: "ImportedOrigin \<Rightarrow> originKey" where
  "ImportedOrigin_key imp = (imp_Machine imp, imp_LegacyRunID imp)"

record controllerStateData =
  sd_Version :: int
  sd_Sequence :: "64 word"
  sd_Executions :: "Execution list"
  sd_Agents :: "AgentState gomap"
  sd_ImportedOrigins :: "ImportedOrigin list"

text \<open>The errors of the controller: the sentinels of the source by name, the formatted errors by
  what they say.  \<open>PanicSliceBounds\<close> and \<open>PanicNilPointer\<close> are the run-time panics of a slice
  expression out of range and of a nil dereference.\<close>

datatype ctrl_error =
    ErrExecutionNotFound
  | ErrExecutionActive
  | ErrJobNotFound
  | ErrJobDisabled
  | ErrExecutionDone
  | ErrLogClosed
  | ErrNotExecutionOwner
  | ErrNoStateChange
  | ErrNotBlockedOnAttention
  | ErrJobGone string
  | ErrParameterGone string string
  | ErrInvalidResultStatus string
  | ErrPersist
  | ErrIO
  | ErrExecutionIDInUse string
  | ErrImportedConcurrently string
  | ErrHistoryCapTooSmall
  | ErrImportLogCopy string
  | ErrUnknownParameter string string
  | ErrRepeatedParameter string nat
  | ErrParameterRequired string
  | ErrParameterNotBoolean string
  | ErrParameterNotOption string "string list"
  | ErrParameterPath string string
  | ErrWorkdirParameter string string
  | ErrHistoricalParameter string string
  | PanicSliceBounds
  | PanicNilPointer

definition hasOrigin :: "controllerStateData \<Rightarrow> originKey \<Rightarrow> bool" where
  "hasOrigin d key = list_ex (\<lambda>imp. ImportedOrigin_key imp = key) (sd_ImportedOrigins d)"

definition find_execution :: "controllerStateData \<Rightarrow> string \<Rightarrow> Execution option" where
  "find_execution d i = find (\<lambda>execution. ex_ID execution = i) (sd_Executions d)"

text \<open>Writing through the pointer that \<^const>\<open>find_execution\<close> returned.\<close>

definition update_execution ::
    "string \<Rightarrow> (Execution \<Rightarrow> Execution) \<Rightarrow> controllerStateData \<Rightarrow> controllerStateData" where
  "update_execution i f d =
     d\<lparr>sd_Executions := upd_first (\<lambda>execution. ex_ID execution = i) f (sd_Executions d)\<rparr>"

text \<open>\<^verbatim>\<open>st.agent(id)\<close> creates the record on demand; the pointer it returns is written with
  \<open>f\<close>.\<close>

definition update_agent ::
    "string \<Rightarrow> (AgentState \<Rightarrow> AgentState) \<Rightarrow> controllerStateData \<Rightarrow> controllerStateData" where
  "update_agent i f d =
     (let state = (case map_of (sd_Agents d) i of
                     Some existing \<Rightarrow> existing
                   | None \<Rightarrow> \<lparr>ags_ID = i, ags_LastAssignedAt = 0\<rparr>)
      in d\<lparr>sd_Agents := AList.update i (f state) (sd_Agents d)\<rparr>)"

section \<open>Lemmas on the snapshot\<close>

lemma find_execution_Some:
  "find_execution d i = Some e \<Longrightarrow> e \<in> set (sd_Executions d) \<and> ex_ID e = i"
  unfolding find_execution_def by (drule find_Some_mem) simp

lemma find_execution_None:
  "find_execution d i = None \<longleftrightarrow> i \<notin> ex_ID ` set (sd_Executions d)"
  unfolding find_execution_def by (auto simp: find_None_iff_all)

lemma update_execution_simps [simp]:
  "sd_Agents (update_execution i f d) = sd_Agents d"
  "sd_ImportedOrigins (update_execution i f d) = sd_ImportedOrigins d"
  "sd_Sequence (update_execution i f d) = sd_Sequence d"
  "sd_Version (update_execution i f d) = sd_Version d"
  by (simp_all add: update_execution_def)

lemma update_agent_simps [simp]:
  "sd_Executions (update_agent i f d) = sd_Executions d"
  "sd_ImportedOrigins (update_agent i f d) = sd_ImportedOrigins d"
  "sd_Sequence (update_agent i f d) = sd_Sequence d"
  "sd_Version (update_agent i f d) = sd_Version d"
  by (simp_all add: update_agent_def Let_def)

lemma find_update_agent [simp]: "find_execution (update_agent i f d) j = find_execution d j"
  by (simp add: find_execution_def)

lemma find_update_same:
  assumes "find_execution d i = Some e" "ex_ID (f e) = i"
  shows "find_execution (update_execution i f d) i = Some (f e)"
  using assms by (simp add: find_execution_def update_execution_def find_upd_first_same)

lemma find_update_other:
  assumes "i \<noteq> j" "\<And>e. ex_ID (f e) = ex_ID e"
  shows "find_execution (update_execution i f d) j = find_execution d j"
  using assms by (auto simp: find_execution_def update_execution_def intro!: find_upd_first_other)

lemma ids_update [simp]:
  assumes "\<And>e. ex_ID (f e) = ex_ID e"
  shows "map ex_ID (sd_Executions (update_execution i f d)) = map ex_ID (sd_Executions d)"
  using assms by (simp add: update_execution_def map_upd_first)

lemma find_unique:
  assumes "distinct (map ex_ID (sd_Executions d))" "e \<in> set (sd_Executions d)"
  shows "find_execution d (ex_ID e) = Some e"
proof -
  have "find (\<lambda>x. ex_ID x = ex_ID e) xs = Some e" if "distinct (map ex_ID xs)" "e \<in> set xs" for xs
    using that by (induction xs) force+
  with assms show ?thesis by (simp add: find_execution_def)
qed

end
