(* ===== verification/Ctrl_Store.thy ===== *)
theory Ctrl_Store
  imports Ctrl_State Path_Safe
begin

text \<open>
  The controller's durable store: \<^verbatim>\<open>ctrlstore.go\<close> and the atomic file replacement of
  \<^verbatim>\<open>util.go\<close>.  \<^verbatim>\<open>ControllerStore\<close> keeps the live snapshot, the snapshot file, the log files by
  path, and the number of times the \<^verbatim>\<open>changed\<close> channel was closed.  The snapshot file is
  represented by the snapshot it encodes (\<^verbatim>\<open>encoding/json\<close> is taken at its word).  Which system
  call fails is an argument (\<^verbatim>\<open>io_env\<close>), so that every error path is a branch of the model.  A
  transaction (\<^verbatim>\<open>txn\<close>) is the callback of \<^verbatim>\<open>mutate\<close>: it sees the cloned snapshot and gives
  what it leaves in captured variables together with an error or the changed snapshot.
  The locales at the end are the contract of \<^verbatim>\<open>mutate\<close> for its clients: what a property of
  snapshots needs so that every transaction that keeps it keeps it through persistence and pruning.
\<close>

section \<open>Files\<close>

datatype io_step = CreateTemp | ChmodTemp | WriteTemp | SyncTemp | CloseTemp | RenameTemp | OpenDir

record io_env =
  io_fails :: "io_step \<Rightarrow> bool"
  io_rmfails :: "string \<Rightarrow> bool"

text \<open>\<^verbatim>\<open>writeFileAtomicSync\<close> on the content of the target file: whether it returns nil, and the
  content afterwards.  The temporary file is private to the call and removed by it.  A failing
  directory sync is ignored (\<^verbatim>\<open>syncDir\<close>), a directory that cannot be opened is an error after
  the rename.\<close>

definition writeFileAtomicSync :: "io_env \<Rightarrow> 'c \<Rightarrow> 'c option \<Rightarrow> bool \<times> 'c option" where
  "writeFileAtomicSync io data old =
     (if io_fails io CreateTemp then (False, old)
      else if io_fails io ChmodTemp then (False, old)
      else if io_fails io WriteTemp then (False, old)
      else if io_fails io SyncTemp then (False, old)
      else if io_fails io CloseTemp then (False, old)
      else if io_fails io RenameTemp then (False, old)
      else (\<not> io_fails io OpenDir, Some data))"

definition io_ok :: io_env where
  "io_ok = \<lparr>io_fails = (\<lambda>_. False), io_rmfails = (\<lambda>_. False)\<rparr>"

definition executionLogPath :: "string \<Rightarrow> string \<Rightarrow> string" where
  "executionLogPath logDir i = path_join logDir (path_base i @ ''.log'')"

definition executionLogSize :: "string gomap \<Rightarrow> string \<Rightarrow> string \<Rightarrow> int option" where
  "executionLogSize logs logDir i =
     map_option (\<lambda>bytes. int (length bytes)) (map_of logs (executionLogPath logDir i))"

definition removeExecutionLog :: "io_env \<Rightarrow> string \<Rightarrow> string \<Rightarrow> string gomap \<Rightarrow> string gomap" where
  "removeExecutionLog io logDir i logs =
     (let path = executionLogPath logDir i
      in if io_rmfails io path then logs else AList.delete path logs)"

section \<open>The store\<close>

record ControllerStore =
  st_logDir :: string
  st_maxHistory :: int
  st_data :: controllerStateData
  st_changed :: nat
  st_disk :: "controllerStateData option"
  st_logs :: "string gomap"

definition controllerStateVersion :: int where "controllerStateVersion = 1"
definition defaultMaxHistory :: int where "defaultMaxHistory = 5000"

definition normalizeMaxHistory :: "int \<Rightarrow> int" where
  "normalizeMaxHistory maxHistory = (if maxHistory \<le> 0 then defaultMaxHistory else maxHistory)"

definition terminal_ex :: "Execution \<Rightarrow> bool" where
  "terminal_ex e = isExecutionTerminal (ex_Status e)"

definition active_ex :: "Execution \<Rightarrow> bool" where
  "active_ex e = isExecutionActive (ex_Status e)"

text \<open>The loop of \<^verbatim>\<open>pruneExecutions\<close>: the identifiers pruned and the executions kept.\<close>

fun prune_loop :: "int \<Rightarrow> Execution list \<Rightarrow> string list \<times> Execution list" where
  "prune_loop remove [] = ([], [])"
| "prune_loop remove (execution # rest) =
     (if remove > 0 \<and> isExecutionTerminal (ex_Status execution)
      then (case prune_loop (remove - 1) rest of
              (pruned, kept) \<Rightarrow> (ex_ID execution # pruned, kept))
      else (case prune_loop remove rest of (pruned, kept) \<Rightarrow> (pruned, execution # kept)))"

definition pruneExecutions :: "controllerStateData \<Rightarrow> int \<Rightarrow> string list \<times> controllerStateData" where
  "pruneExecutions st maxHistory =
     (let maxHistory = normalizeMaxHistory maxHistory;
          terminal = int (length (filter (\<lambda>e. isExecutionTerminal (ex_Status e)) (sd_Executions st)));
          remove = terminal - maxHistory
      in if remove \<le> 0 then ([], st)
         else (case prune_loop remove (sd_Executions st) of
                 (pruned, kept) \<Rightarrow> (pruned, st\<lparr>sd_Executions := kept\<rparr>)))"

type_synonym 'r txn = "controllerStateData \<Rightarrow> 'r \<times> (ctrl_error + controllerStateData)"

definition mutate ::
    "io_env \<Rightarrow> 'r txn \<Rightarrow> ControllerStore \<Rightarrow> 'r \<times> ctrl_error option \<times> ControllerStore" where
  "mutate io fn s =
     (case fn (st_data s) of
        (r, Inl err) \<Rightarrow> (r, Some err, s)
      | (r, Inr next0) \<Rightarrow>
        (case pruneExecutions (next0\<lparr>sd_Sequence := sd_Sequence next0 + 1\<rparr>) (st_maxHistory s) of
           (pruned, next) \<Rightarrow>
             (case writeFileAtomicSync io next (st_disk s) of
                (False, disk) \<Rightarrow> (r, Some ErrPersist, s\<lparr>st_disk := disk\<rparr>)
              | (True, disk) \<Rightarrow>
                  (r, None,
                   s\<lparr>st_data := next, st_disk := disk, st_changed := Suc (st_changed s),
                     st_logs := fold (removeExecutionLog io (st_logDir s)) pruned (st_logs s)\<rparr>))))"

definition SetMaxHistory :: "io_env \<Rightarrow> int \<Rightarrow> ControllerStore \<Rightarrow> ctrl_error option \<times> ControllerStore" where
  "SetMaxHistory io maxHistory s =
     (let next = normalizeMaxHistory maxHistory
      in if next = st_maxHistory s then (None, s)
         else snd (mutate io (\<lambda>st. ((), Inr st)) (s\<lparr>st_maxHistory := next\<rparr>)))"

definition Find :: "ControllerStore \<Rightarrow> string \<Rightarrow> Execution option" where
  "Find s i = find_execution (st_data s) i"

definition Executions :: "ControllerStore \<Rightarrow> Execution list" where
  "Executions s = sort_key (\<lambda>e. - ex_RequestedAt e) (sd_Executions (st_data s))"

definition QueuedExecutions :: "ControllerStore \<Rightarrow> Execution list" where
  "QueuedExecutions s =
     sort_key ex_RequestedAt (filter (\<lambda>e. ex_Status e = StatusQueued) (sd_Executions (st_data s)))"

definition HasImportedOrigin :: "ControllerStore \<Rightarrow> string \<Rightarrow> string \<Rightarrow> bool" where
  "HasImportedOrigin s machine legacyRunID = hasOrigin (st_data s) (machine, legacyRunID)"

definition SetLogOffset :: "string \<Rightarrow> int \<Rightarrow> ControllerStore \<Rightarrow> ControllerStore" where
  "SetLogOffset i offset s =
     s\<lparr>st_data := update_execution i
        (\<lambda>e. if offset > ex_LogOffset e then e\<lparr>ex_LogOffset := offset\<rparr> else e) (st_data s)\<rparr>"

definition DeleteExecution_txn :: "string \<Rightarrow> unit txn" where
  "DeleteExecution_txn i st =
     ((), case find (\<lambda>e. ex_ID e = i) (sd_Executions st) of
            None \<Rightarrow> Inl ErrExecutionNotFound
          | Some execution \<Rightarrow>
              if \<not> isExecutionTerminal (ex_Status execution) then Inl ErrExecutionActive
              else Inr (st\<lparr>sd_Executions := del_first (\<lambda>e. ex_ID e = i) (sd_Executions st)\<rparr>))"

definition DeleteExecution ::
    "io_env \<Rightarrow> string \<Rightarrow> ControllerStore \<Rightarrow> ctrl_error option \<times> ControllerStore" where
  "DeleteExecution io i s =
     (case mutate io (DeleteExecution_txn i) s of
        (_, Some err, s') \<Rightarrow> (Some err, s')
      | (_, None, s') \<Rightarrow>
          (None, s'\<lparr>st_logs := removeExecutionLog io (st_logDir s') i (st_logs s')\<rparr>))"

text \<open>\<^verbatim>\<open>Wait\<close> looks at the store, then sleeps until the next committed mutation or until the
  caller goes away.  The list gives what wakes it; \<open>None\<close> is still waiting.\<close>

datatype wake = Changed ControllerStore | Done

fun Wait :: "ControllerStore \<Rightarrow> string \<Rightarrow> wake list \<Rightarrow> bool option" where
  "Wait s i wakes =
     (case Find s i of
        None \<Rightarrow> Some False
      | Some execution \<Rightarrow>
          if isExecutionTerminal (ex_Status execution) then Some True
          else (case wakes of
                  [] \<Rightarrow> None
                | Done # _ \<Rightarrow> Some False
                | Changed s' # rest \<Rightarrow> Wait s' i rest))"

section \<open>Loading\<close>

text \<open>The loop of \<^verbatim>\<open>backfillImportedOrigins\<close>: \<open>known\<close> is the set of keys already in the
  ledger.\<close>

fun backfill_loop :: "originKey list \<Rightarrow> Execution list \<Rightarrow> ImportedOrigin list" where
  "backfill_loop known [] = []"
| "backfill_loop known (execution # rest) =
     (case ex_Origin execution of
        None \<Rightarrow> backfill_loop known rest
      | Some origin \<Rightarrow>
          (let key = (org_Machine origin, org_LegacyRunID origin)
           in if fst key = '''' \<or> snd key = '''' \<or> key \<in> set known
              then backfill_loop known rest
              else \<lparr>imp_Machine = fst key, imp_LegacyRunID = snd key,
                    imp_ExecutionID = ex_ID execution, imp_ImportedAt = org_ImportedAt origin\<rparr>
                   # backfill_loop (key # known) rest))"

definition backfillImportedOrigins :: "controllerStateData \<Rightarrow> controllerStateData" where
  "backfillImportedOrigins st =
     st\<lparr>sd_ImportedOrigins := sd_ImportedOrigins st
          @ backfill_loop (map ImportedOrigin_key (sd_ImportedOrigins st)) (sd_Executions st)\<rparr>"

datatype 'a read_result = NotExist | ReadError | ParseError | Loaded 'a

definition load :: "controllerStateData read_result \<Rightarrow> ControllerStore \<Rightarrow> ctrl_error option \<times> ControllerStore" where
  "load file s =
     (case file of
        NotExist \<Rightarrow> (None, s)
      | ReadError \<Rightarrow> (Some ErrIO, s)
      | ParseError \<Rightarrow> (Some ErrIO, s)
      | Loaded loaded \<Rightarrow>
          (let recovered = map (\<lambda>e. case executionLogSize (st_logs s) (st_logDir s) (ex_ID e) of
                                      None \<Rightarrow> e | Some n \<Rightarrow> e\<lparr>ex_LogOffset := n\<rparr>)
                               (sd_Executions loaded)
           in (None, s\<lparr>st_data := backfillImportedOrigins
                         (loaded\<lparr>sd_Version := controllerStateVersion, sd_Executions := recovered\<rparr>)\<rparr>)))"

definition empty_state :: controllerStateData where
  "empty_state = \<lparr>sd_Version = controllerStateVersion, sd_Sequence = 0, sd_Executions = [],
                  sd_Agents = [], sd_ImportedOrigins = []\<rparr>"

text \<open>Opening the store on the files it finds: the snapshot file and the log files.
  \<open>mkdir_fails\<close> is the outcome of \<^verbatim>\<open>os.MkdirAll\<close>, which only a creating caller runs.\<close>

definition openControllerStore ::
    "bool \<Rightarrow> string \<Rightarrow> int \<Rightarrow> bool \<Rightarrow> controllerStateData option \<Rightarrow> controllerStateData read_result
      \<Rightarrow> string gomap \<Rightarrow> ctrl_error + ControllerStore" where
  "openControllerStore mkdir_fails logDir maxHistory create disk file logs =
     (if create \<and> mkdir_fails then Inl ErrIO
      else case load file \<lparr>st_logDir = logDir, st_maxHistory = normalizeMaxHistory maxHistory,
                          st_data = empty_state, st_changed = 0, st_disk = disk, st_logs = logs\<rparr> of
             (Some err, _) \<Rightarrow> Inl err
           | (None, store) \<Rightarrow> Inr store)"

section \<open>Lemmas on pruning\<close>

lemma prune_loop_spec:
  "prune_loop k xs = (pruned, kept) \<Longrightarrow>
     filter (\<lambda>e. \<not> terminal_ex e) kept = filter (\<lambda>e. \<not> terminal_ex e) xs \<and>
     filter terminal_ex kept = drop (nat k) (filter terminal_ex xs) \<and>
     pruned = map ex_ID (take (nat k) (filter terminal_ex xs))"
proof (induction k xs arbitrary: pruned kept rule: prune_loop.induct)
  case (2 k e xs)
  show ?case
  proof (cases "k > 0 \<and> isExecutionTerminal (ex_Status e)")
    case True
    then obtain n where n: "nat k = Suc n" "nat (k - 1) = n"
      by (metis Suc_nat_eq_nat_zadd1 diff_add_cancel zle_diff1_eq add.commute)
    from True "2.prems" obtain p' where "prune_loop (k - 1) xs = (p', kept)" "pruned = ex_ID e # p'"
      by (auto split: prod.splits)
    with "2.IH"(1) [OF True] True n show ?thesis by (auto simp: terminal_ex_def)
  next
    case False
    with "2.prems" obtain k' where k': "prune_loop k xs = (pruned, k')" "kept = e # k'"
      by (auto split: prod.splits)
    note ih = "2.IH"(2) [OF False k'(1)]
    show ?thesis
    proof (cases "terminal_ex e")
      case True
      with False have "k \<le> 0" by (auto simp: terminal_ex_def)
      with ih k' True show ?thesis by simp
    next
      case False
      with ih k' show ?thesis by simp
    qed
  qed
qed simp

lemma prune_loop_subseq: "set (snd (prune_loop k xs)) \<subseteq> set xs"
  by (induction k xs rule: prune_loop.induct) (auto split: prod.splits)

lemma prune_loop_distinct: "distinct (map g xs) \<Longrightarrow> distinct (map g (snd (prune_loop k xs)))"
proof (induction k xs rule: prune_loop.induct)
  case (2 k e xs)
  then show ?case using prune_loop_subseq [of k xs] prune_loop_subseq [of "k - 1" xs]
    by (auto split: prod.splits)
qed simp

lemma prune_loop_filter:
  assumes "\<And>e. P e \<Longrightarrow> \<not> terminal_ex e"
  shows "filter P (snd (prune_loop k xs)) = filter P xs"
  using assms
  by (induction k xs rule: prune_loop.induct) (auto simp: terminal_ex_def split: prod.splits)

lemma prune_simps [simp]:
  "sd_Agents (snd (pruneExecutions d n)) = sd_Agents d"
  "sd_ImportedOrigins (snd (pruneExecutions d n)) = sd_ImportedOrigins d"
  "sd_Sequence (snd (pruneExecutions d n)) = sd_Sequence d"
  by (auto simp: pruneExecutions_def Let_def split: prod.splits)

lemma prune_executions:
  "\<exists>k. sd_Executions (snd (pruneExecutions d n)) = snd (prune_loop k (sd_Executions d))"
proof -
  have "snd (prune_loop 0 xs) = xs" for xs
    by (induction xs) (auto split: prod.splits)
  then show ?thesis
    by (auto simp: pruneExecutions_def Let_def split: prod.splits intro: exI [of _ 0])
       (metis snd_conv)
qed

lemma prune_subset: "set (sd_Executions (snd (pruneExecutions d n))) \<subseteq> set (sd_Executions d)"
  using prune_executions [of d n] prune_loop_subseq by metis

lemma prune_keeps_live:
  assumes "\<And>e. P e \<Longrightarrow> \<not> terminal_ex e"
  shows "filter P (sd_Executions (snd (pruneExecutions d n))) = filter P (sd_Executions d)"
  using prune_executions [of d n] prune_loop_filter [of P] assms by metis

lemma prune_distinct:
  "distinct (map g (sd_Executions d)) \<Longrightarrow> distinct (map g (sd_Executions (snd (pruneExecutions d n))))"
  using prune_executions [of d n] prune_loop_distinct by metis

text \<open>The terminal history is cut down to the cap, oldest entries first.\<close>

lemma prune_terminal:
  "filter terminal_ex (sd_Executions (snd (pruneExecutions d n))) =
   (let ts = filter terminal_ex (sd_Executions d)
    in drop (length ts - nat (normalizeMaxHistory n)) ts)"
proof -
  have pos: "0 < normalizeMaxHistory n" by (simp add: normalizeMaxHistory_def defaultMaxHistory_def)
  let ?ts = "filter terminal_ex (sd_Executions d)"
  show ?thesis
  proof (cases "int (length ?ts) - normalizeMaxHistory n \<le> 0")
    case True
    then show ?thesis by (simp add: pruneExecutions_def Let_def terminal_ex_def [abs_def])
  next
    case False
    then have "nat (int (length ?ts) - normalizeMaxHistory n) = length ?ts - nat (normalizeMaxHistory n)"
      using pos by simp
    with False show ?thesis
      using prune_loop_spec [of "int (length ?ts) - normalizeMaxHistory n" "sd_Executions d"]
      by (auto simp: pruneExecutions_def Let_def terminal_ex_def [abs_def] split: prod.splits)
  qed
qed

lemma prune_cap:
  "int (length (filter terminal_ex (sd_Executions (snd (pruneExecutions d n))))) \<le> normalizeMaxHistory n"
proof -
  have pos: "0 < normalizeMaxHistory n" by (simp add: normalizeMaxHistory_def defaultMaxHistory_def)
  then show ?thesis by (simp add: prune_terminal Let_def)
qed

lemma prune_reported:
  "fst (pruneExecutions d n) =
     map ex_ID (take (length (filter terminal_ex (sd_Executions d)) - nat (normalizeMaxHistory n))
       (filter terminal_ex (sd_Executions d)))"
proof -
  have pos: "0 < normalizeMaxHistory n" by (simp add: normalizeMaxHistory_def defaultMaxHistory_def)
  let ?ts = "filter terminal_ex (sd_Executions d)"
  have ts: "filter (\<lambda>e. isExecutionTerminal (ex_Status e)) (sd_Executions d) = ?ts"
    by (simp add: terminal_ex_def [abs_def])
  obtain p k where pk: "prune_loop (int (length ?ts) - normalizeMaxHistory n) (sd_Executions d) = (p, k)"
    by fastforce
  have "nat (int (length ?ts) - normalizeMaxHistory n) = length ?ts - nat (normalizeMaxHistory n)"
    using pos by simp
  with prune_loop_spec [OF pk] pk ts show ?thesis
    by (auto simp: pruneExecutions_def Let_def split: prod.splits)
qed

section \<open>The contract of mutate\<close>

text \<open>The write replaces the file completely or not at all, and reports success only when it did.\<close>

lemma write_cases:
  "writeFileAtomicSync io data old = (ok, new) \<Longrightarrow> (new = old \<and> \<not> ok) \<or> new = Some data"
  by (auto simp: writeFileAtomicSync_def split: if_splits)

lemma write_ok: "writeFileAtomicSync io data old = (True, new) \<Longrightarrow> new = Some data"
  by (auto simp: writeFileAtomicSync_def split: if_splits)

lemma write_io_ok [simp]: "writeFileAtomicSync io_ok data old = (True, Some data)"
  by (simp add: writeFileAtomicSync_def io_ok_def)

text \<open>The two outcomes of a mutation, which every client proof starts from.\<close>

definition committed :: "controllerStateData \<Rightarrow> int \<Rightarrow> controllerStateData" where
  "committed d n = snd (pruneExecutions (d\<lparr>sd_Sequence := sd_Sequence d + 1\<rparr>) n)"

lemma mutate_cases:
  assumes "mutate io fn s = (r, e, s')"
  obtains (commit) d where "fn (st_data s) = (r, Inr d)" "e = None"
      "st_data s' = committed d (st_maxHistory s)" "st_disk s' = Some (st_data s')"
      "st_changed s' = Suc (st_changed s)" "st_maxHistory s' = st_maxHistory s"
      "st_logDir s' = st_logDir s"
    | (refused) "fn (st_data s) = (r, Inl (the e))" "e \<noteq> None" "s' = s"
    | (lost) d where "fn (st_data s) = (r, Inr d)" "e = Some ErrPersist"
      "\<exists>disk. s' = s\<lparr>st_disk := disk\<rparr> \<and>
         (disk = st_disk s \<or> disk = Some (committed d (st_maxHistory s)))"
proof (cases "fn (st_data s)")
  case (Pair r0 res)
  show thesis
  proof (cases res)
    case (Inl err)
    with Pair assms show thesis by (intro refused) (auto simp: mutate_def)
  next
    case (Inr d)
    obtain pruned nxt where p: "pruneExecutions (d\<lparr>sd_Sequence := sd_Sequence d + 1\<rparr>) (st_maxHistory s) = (pruned, nxt)"
      by fastforce
    obtain ok disk where w: "writeFileAtomicSync io nxt (st_disk s) = (ok, disk)"
      by fastforce
    have c: "committed d (st_maxHistory s) = nxt" by (simp add: committed_def p)
    show thesis
    proof (cases ok)
      case True
      with Pair Inr assms p w c write_ok show thesis
        by (intro commit) (auto simp: mutate_def)
    next
      case False
      from write_cases [OF w] False c have "disk = st_disk s \<or> disk = Some (committed d (st_maxHistory s))"
        by auto
      with Pair Inr assms p w False show thesis
        by (intro lost) (auto simp: mutate_def)
    qed
  qed
qed

lemma mutate_acknowledged:
  assumes "mutate io fn s = (r, None, s')"
  obtains d where "fn (st_data s) = (r, Inr d)" "st_data s' = committed d (st_maxHistory s)"
    "st_disk s' = Some (st_data s')" "st_changed s' = Suc (st_changed s)"
  using assms
proof (cases rule: mutate_cases)
  case (commit d)
  then show ?thesis using that by blast
qed simp_all

lemma mutate_io_ok:
  "fn (st_data s) = (r, Inr d) \<Longrightarrow>
     \<exists>s'. mutate io_ok fn s = (r, None, s') \<and> st_data s' = committed d (st_maxHistory s)"
  by (auto simp: mutate_def committed_def split: prod.splits)

text \<open>A property of snapshots that survives the bookkeeping of a commit.  Every transaction that
  keeps it keeps it through \<^const>\<open>mutate\<close>, whether the commit succeeds, is refused or cannot be
  persisted; this is how a client of the store proves an invariant.\<close>

locale snapshot_property =
  fixes I :: "controllerStateData \<Rightarrow> bool"
  assumes I_sequence: "I d \<Longrightarrow> I (d\<lparr>sd_Sequence := q\<rparr>)"
    and I_prune: "I d \<Longrightarrow> I (snd (pruneExecutions d n))"
begin

lemma I_committed: "I d \<Longrightarrow> I (committed d n)"
  by (simp add: committed_def I_sequence I_prune)

lemma I_mutate:
  assumes "I (st_data s)" "mutate io fn s = (r, e, s')"
    and "\<And>r d. fn (st_data s) = (r, Inr d) \<Longrightarrow> I d"
  shows "I (st_data s')"
  using assms(2) by (rule mutate_cases) (use assms(1,3) I_committed in auto)

end

text \<open>A property of single executions, required of every execution in the snapshot.\<close>

locale execution_property =
  fixes P :: "Execution \<Rightarrow> bool"
begin

definition all_executions :: "controllerStateData \<Rightarrow> bool" where
  "all_executions d \<longleftrightarrow> (\<forall>e \<in> set (sd_Executions d). P e)"

sublocale snapshot_property all_executions
  by unfold_locales (use prune_subset in \<open>auto simp: all_executions_def\<close>)

end

end
