(* ===== verification/Ctrl_Invariants.thy ===== *)
theory Ctrl_Invariants
  imports Ctrl_Store
begin

text \<open>
  The invariants of the controller snapshot, stated once and used by every component that runs
  transactions on it: execution identifiers are unique; an agent holds at most one active
  execution; every execution is in a consistent lifecycle state; and one transaction lets an
  execution only move forward (\<open>evolves\<close>).  Each is an instance of the store's contract.
\<close>

section \<open>Invariants\<close>

definition unique_ids :: "controllerStateData \<Rightarrow> bool" where
  "unique_ids d \<longleftrightarrow> distinct (map ex_ID (sd_Executions d))"

definition one_active :: "controllerStateData \<Rightarrow> bool" where
  "one_active d \<longleftrightarrow> distinct (map ex_AgentID (filter active_ex (sd_Executions d)))"

text \<open>What the flags of an execution say in each state: who owns it, whether its start permit was
  granted or revoked, whether its cancellation is outstanding, and whether its log is closed.\<close>

definition lifecycle_ok :: "Execution \<Rightarrow> bool" where
  "lifecycle_ok e \<longleftrightarrow>
     (if ex_Status e = StatusQueued then
        ex_AgentID e = '''' \<and> \<not> ex_PermitGranted e \<and> \<not> ex_PermitRevoked e
        \<and> \<not> ex_CancelRequested e \<and> \<not> ex_LogComplete e
      else if ex_Status e = StatusAssigned then
        ex_AgentID e \<noteq> '''' \<and> \<not> ex_PermitGranted e \<and> \<not> ex_PermitRevoked e
        \<and> \<not> ex_CancelRequested e \<and> \<not> ex_LogComplete e
      else if ex_Status e = StatusRunning then
        ex_AgentID e \<noteq> '''' \<and> ex_PermitGranted e \<and> \<not> ex_PermitRevoked e
        \<and> \<not> ex_CancelRequested e \<and> \<not> ex_LogComplete e
      else if ex_Status e = StatusCanceling then
        ex_AgentID e \<noteq> '''' \<and> ex_PermitGranted e \<and> \<not> ex_PermitRevoked e
        \<and> ex_CancelRequested e \<and> \<not> ex_LogComplete e
      else terminal_ex e \<and> ex_LogComplete e
        \<and> (ex_PermitRevoked e \<longrightarrow> ex_Status e = StatusCanceled \<and> \<not> ex_PermitGranted e))"

definition lifecycle :: "controllerStateData \<Rightarrow> bool" where
  "lifecycle d \<longleftrightarrow> (\<forall>e \<in> set (sd_Executions d). lifecycle_ok e)"

text \<open>The immutable part of an execution, fixed when it is enqueued or imported.\<close>

definition work_packet where
  "work_packet e =
     (ex_ID e, ex_JobID e, ex_JobName e, ex_Labels e, ex_Script e, ex_TimeoutText e,
      ex_WorkdirPath e, ex_Parameters e, ex_ParameterEnv e, ex_SelectedOptions e,
      ex_JobSnapshot e, ex_RequestedBy e, ex_RequestedAt e, ex_Origin e)"

text \<open>The outcome of a finished execution.\<close>

definition outcome where
  "outcome e = (ex_Status e, ex_AgentID e, ex_ExitCode e, ex_Error e, ex_FailureReason e,
     ex_CancelRequested e, ex_PermitGranted e, ex_PermitRevoked e, ex_LogComplete e, ex_StartedAt e,
     ex_FinishedAt e, ex_CanceledAt e)"

definition evolves :: "Execution \<Rightarrow> Execution \<Rightarrow> bool" where
  "evolves e e' \<longleftrightarrow>
     work_packet e' = work_packet e
     \<and> (terminal_ex e \<longrightarrow> outcome e' = outcome e)
     \<and> (ex_PermitGranted e \<longrightarrow> ex_PermitGranted e' \<and> ex_AgentID e' = ex_AgentID e)
     \<and> (ex_CancelRequested e \<longrightarrow> ex_CancelRequested e')"

text \<open>A new execution is either waiting in the queue, or imported history that is already over; nobody
  was permitted to start it.\<close>

definition newborn :: "Execution \<Rightarrow> bool" where
  "newborn e \<longleftrightarrow>
     (ex_Status e = StatusQueued \<or> (terminal_ex e \<and> ex_Origin e \<noteq> None)) \<and> \<not> ex_PermitGranted e"

definition forward :: "controllerStateData \<Rightarrow> controllerStateData \<Rightarrow> bool" where
  "forward d d' \<longleftrightarrow>
     (\<forall>e' \<in> set (sd_Executions d').
        case find_execution d (ex_ID e') of None \<Rightarrow> newborn e' | Some e \<Rightarrow> evolves e e')"

definition snapshot_ok :: "controllerStateData \<Rightarrow> bool" where
  "snapshot_ok d \<longleftrightarrow> unique_ids d \<and> one_active d \<and> lifecycle d"

lemma snapshot_ok_unique: "snapshot_ok d \<Longrightarrow> unique_ids d"
  by (simp add: snapshot_ok_def)

section \<open>Instances of the store's contract\<close>

lemma active_not_terminal_ex: "active_ex e \<Longrightarrow> \<not> terminal_ex e"
  by (simp add: active_ex_def terminal_ex_def active_not_terminal)

interpretation ids: snapshot_property unique_ids
  by unfold_locales (auto simp: unique_ids_def prune_distinct)

interpretation slots: snapshot_property one_active
  by unfold_locales (auto simp: one_active_def prune_keeps_live active_not_terminal_ex)

interpretation life: execution_property lifecycle_ok
  rewrites "execution_property.all_executions lifecycle_ok = lifecycle"
  by (auto simp: lifecycle_def execution_property.all_executions_def fun_eq_iff)

interpretation ok: snapshot_property snapshot_ok
  by unfold_locales
     (auto simp: snapshot_ok_def ids.I_sequence ids.I_prune slots.I_sequence slots.I_prune
        life.I_sequence life.I_prune)

section \<open>Looking up after a commit\<close>

lemma committed_find:
  assumes "find_execution (committed d n) i = Some e" "unique_ids d"
  shows "find_execution d i = Some e"
proof -
  have "e \<in> set (sd_Executions (committed d n))" "ex_ID e = i" using find_execution_Some [OF assms(1)] by auto
  then have "e \<in> set (sd_Executions d)" using prune_subset [of "d\<lparr>sd_Sequence := sd_Sequence d + 1\<rparr>" n]
    by (auto simp: committed_def)
  with assms(2) \<open>ex_ID e = i\<close> show ?thesis using find_unique [of d e] by (simp add: unique_ids_def)
qed

lemma committed_find_live:
  assumes "find_execution d i = Some e" "\<not> terminal_ex e" "unique_ids d"
  shows "find_execution (committed d n) i = Some e"
proof -
  have e: "e \<in> set (filter (\<lambda>e. \<not> terminal_ex e) (sd_Executions d))" "ex_ID e = i"
    using find_execution_Some [OF assms(1)] assms(2) by auto
  have "filter (\<lambda>e. \<not> terminal_ex e) (sd_Executions (committed d n)) = filter (\<lambda>e. \<not> terminal_ex e) (sd_Executions d)"
    using prune_keeps_live [of "\<lambda>e. \<not> terminal_ex e" "d\<lparr>sd_Sequence := sd_Sequence d + 1\<rparr>" n]
    by (simp add: committed_def)
  with e(1) have "e \<in> set (sd_Executions (committed d n))" by (metis filter_is_subset subsetD)
  with ids.I_committed [OF assms(3), of n] e(2) show ?thesis
    using find_unique [of "committed d n" e] by (simp add: unique_ids_def)
qed

section \<open>Updating one execution\<close>

lemma one_active_update_execution:
  assumes "one_active d"
    and "\<And>e. find_execution d i = Some e \<Longrightarrow> active_ex (f e) \<Longrightarrow>
           active_ex e \<and> ex_AgentID (f e) = ex_AgentID e"
  shows "one_active (update_execution i f d)"
proof -
  have "distinct (map ex_AgentID (filter active_ex (upd_first (\<lambda>e. ex_ID e = i) f xs))) \<and>
        set (map ex_AgentID (filter active_ex (upd_first (\<lambda>e. ex_ID e = i) f xs)))
          \<subseteq> set (map ex_AgentID (filter active_ex xs))"
    if "distinct (map ex_AgentID (filter active_ex xs))"
       "\<And>e. find (\<lambda>e. ex_ID e = i) xs = Some e \<Longrightarrow> active_ex (f e) \<Longrightarrow>
           active_ex e \<and> ex_AgentID (f e) = ex_AgentID e" for xs
    using that
  proof (induction xs)
    case (Cons x xs)
    show ?case
    proof (cases "ex_ID x = i")
      case True
      with Cons.prems show ?thesis by (auto split: if_splits)
    next
      case False
      have "distinct (map ex_AgentID (filter active_ex xs))"
        using Cons.prems(1) by (auto split: if_splits)
      moreover have "\<And>e. find (\<lambda>e. ex_ID e = i) xs = Some e \<Longrightarrow> active_ex (f e) \<Longrightarrow>
           active_ex e \<and> ex_AgentID (f e) = ex_AgentID e"
        using Cons.prems(2) False by simp
      ultimately show ?thesis using Cons.IH Cons.prems(1) False by (auto split: if_splits)
    qed
  qed simp
  from this [of "sd_Executions d"] assms show ?thesis
    by (simp add: one_active_def update_execution_def find_execution_def)
qed

lemma lifecycle_update_execution:
  assumes "lifecycle d" "\<And>e. find_execution d i = Some e \<Longrightarrow> lifecycle_ok e \<Longrightarrow> lifecycle_ok (f e)"
  shows "lifecycle (update_execution i f d)"
proof (cases "find_execution d i")
  case None
  then have "update_execution i f d = d"
    by (simp add: update_execution_def find_execution_def upd_first_None)
  with assms(1) show ?thesis by simp
next
  case (Some e)
  then have "lifecycle_ok (f e)" using assms find_execution_Some by (auto simp: lifecycle_def)
  with Some assms(1) show ?thesis
    by (auto simp: lifecycle_def update_execution_def find_execution_def dest!: set_upd_first)
qed

lemma snapshot_ok_update_execution:
  assumes "snapshot_ok d" "\<And>e. ex_ID (f e) = ex_ID e"
    and "\<And>e. find_execution d i = Some e \<Longrightarrow> lifecycle_ok e \<Longrightarrow>
          lifecycle_ok (f e) \<and> (active_ex (f e) \<longrightarrow> active_ex e \<and> ex_AgentID (f e) = ex_AgentID e)"
  shows "snapshot_ok (update_execution i f d)"
proof -
  have "lifecycle_ok e" if "find_execution d i = Some e" for e
    using that assms(1) find_execution_Some by (auto simp: snapshot_ok_def lifecycle_def)
  with assms show ?thesis
    by (auto simp: snapshot_ok_def unique_ids_def intro!: one_active_update_execution
        lifecycle_update_execution)
qed

section \<open>Moving forward\<close>

lemma evolves_refl [simp, intro]: "evolves e e"
  by (simp add: evolves_def)

lemma evolves_id: "evolves e e' \<Longrightarrow> ex_ID e' = ex_ID e"
  by (simp add: evolves_def work_packet_def)

lemma forward_refl: "unique_ids d \<Longrightarrow> forward d d"
  by (auto simp: forward_def unique_ids_def find_unique)

lemma forward_same_executions:
  "unique_ids d \<Longrightarrow> sd_Executions d' = sd_Executions d \<Longrightarrow> forward d d'"
  by (auto simp: forward_def unique_ids_def find_unique)

lemma forward_subset:
  "forward d d' \<Longrightarrow> set (sd_Executions d'') \<subseteq> set (sd_Executions d') \<Longrightarrow> forward d d''"
  by (auto simp: forward_def)

lemma forward_committed: "forward d d' \<Longrightarrow> forward d (committed d' n)"
  unfolding committed_def
  by (erule forward_subset) (use prune_subset in fastforce)

lemma forward_update_execution:
  assumes "unique_ids d" "\<And>e. find_execution d i = Some e \<Longrightarrow> evolves e (f e)"
  shows "forward d (update_execution i f d)"
proof (cases "find_execution d i")
  case None
  then have "update_execution i f d = d"
    by (simp add: update_execution_def find_execution_def upd_first_None)
  with assms(1) show ?thesis by (simp add: forward_refl)
next
  case (Some e)
  have "case find_execution d (ex_ID x) of None \<Rightarrow> newborn x | Some e \<Rightarrow> evolves e x"
    if "x \<in> set (sd_Executions (update_execution i f d))" for x
  proof -
    from that Some consider "x = f e" | "x \<in> set (sd_Executions d)"
      by (auto simp: update_execution_def find_execution_def dest: set_upd_first)
    then show ?thesis
    proof cases
      case 1
      with assms(2) [OF Some] have "ex_ID x = i"
        using Some find_execution_Some evolves_id by metis
      with 1 Some assms(2) show ?thesis by simp
    next
      case 2
      with assms(1) show ?thesis by (simp add: unique_ids_def find_unique)
    qed
  qed
  then show ?thesis by (simp add: forward_def)
qed

end
