(* ===== verification/Param_Env.thy ===== *)
theory Param_Env
  imports Ctrl_State Path_Safe
begin

text \<open>
  Parameters and their environment variables: \<^verbatim>\<open>paramenv.go\<close> and \<^verbatim>\<open>paramresolve.go\<close>.  A value
  a caller supplies is checked against the job's declared parameters and becomes environment
  variables of the job script.  Identifiers are checked to be ASCII before a variable name is made
  of them, so case folding works on bytes.
\<close>

section \<open>Names\<close>

definition paramTypeString :: string where "paramTypeString = ''string''"
definition paramTypeChoice :: string where "paramTypeChoice = ''choice''"
definition paramTypeBoolean :: string where "paramTypeBoolean = ''boolean''"
definition paramEnvPrefix :: string where "paramEnvPrefix = ''BUILDA_PARAM_''"
definition buildaEnvPrefix :: string where "buildaEnvPrefix = ''BUILDA_''"
definition optionLabelField :: string where "optionLabelField = ''label''"
definition optionPathField :: string where "optionPathField = ''path''"
definition runWaitParam :: string where "runWaitParam = ''wait''"

lemmas param_consts = paramTypeString_def paramTypeChoice_def paramTypeBoolean_def
  paramEnvPrefix_def buildaEnvPrefix_def optionLabelField_def optionPathField_def runWaitParam_def

definition reservedEnvNames :: "string list" where
  "reservedEnvNames =
     [''BUILDA_AGENT_ID'', ''BUILDA_CONTROLLER_URL'', ''BUILDA_EXECUTION_ID'', ''BUILDA_JOB_ID'',
      ''BUILDA_JOB_NAME'', ''BUILDA_LOG_PATH'', ''BUILDA_WORKSPACE'']"

definition isReservedEnvName :: "string \<Rightarrow> bool" where
  "isReservedEnvName name = (name \<in> set reservedEnvNames)"

definition env_char :: "char \<Rightarrow> char" where
  "env_char c =
     (if c = CHR ''-'' then CHR ''_''
      else if CHR ''a'' \<le> c \<and> c \<le> CHR ''z'' then char_of (of_char c - 32 :: nat)
      else c)"

definition normalizeEnvSegment :: "string \<Rightarrow> string" where
  "normalizeEnvSegment value = map env_char value"

definition paramEnvName :: "string \<Rightarrow> string" where
  "paramEnvName paramID = paramEnvPrefix @ normalizeEnvSegment paramID"

definition paramFieldEnvName :: "string \<Rightarrow> string \<Rightarrow> string" where
  "paramFieldEnvName paramID field = paramEnvName paramID @ ''_'' @ normalizeEnvSegment field"

definition ident_char :: "char \<Rightarrow> bool" where
  "ident_char c \<longleftrightarrow>
     list_ex (\<lambda>(lo, hi). lo \<le> c \<and> c \<le> hi)
       [(CHR ''a'', CHR ''z''), (CHR ''A'', CHR ''Z''), (CHR ''0'', CHR ''9'')]
     \<or> c = CHR ''_'' \<or> c = CHR ''-''"

definition validIdentifier :: "string \<Rightarrow> bool" where
  "validIdentifier value = (value \<noteq> '''' \<and> list_all ident_char value)"

text \<open>The fields an option list may emit: the label and every key of an option's values, without
  repetition, sorted.\<close>

definition option_fields :: "OptionConfig list \<Rightarrow> string list" where
  "option_fields options =
     sort (remdups (optionLabelField # concat (map (\<lambda>option. map fst (opt_Values option)) options)))"

definition paramEnvNames :: "ParameterConfig \<Rightarrow> OptionConfig list \<Rightarrow> string list" where
  "paramEnvNames param options =
     paramEnvName (par_ID param) #
     (if options = [] then [] else map (paramFieldEnvName (par_ID param)) (option_fields options))"

text \<open>\<^verbatim>\<open>envCollisionChecker.add\<close>: the owners so far, by variable name.\<close>

datatype collision = ReservedName string | DuplicateName string

definition collisions_add :: "string \<Rightarrow> string list \<Rightarrow> collision + string list" where
  "collisions_add name owners =
     (if isReservedEnvName name then Inl (ReservedName name)
      else if name \<in> set owners then Inl (DuplicateName name)
      else Inr (name # owners))"

fun collisions_add_all :: "string list \<Rightarrow> string list \<Rightarrow> collision + string list" where
  "collisions_add_all [] owners = Inr owners"
| "collisions_add_all (name # names) owners =
     (case collisions_add name owners of
        Inl e \<Rightarrow> Inl e
      | Inr owners' \<Rightarrow> collisions_add_all names owners')"

definition sanitizeInheritedEnv :: "string list \<Rightarrow> string list" where
  "sanitizeInheritedEnv environ =
     filter (\<lambda>entry. case cut_at CHR ''='' entry of
                      (name, _, ok) \<Rightarrow> \<not> (ok \<and> has_prefix name buildaEnvPrefix)) environ"

definition sortedEnv :: "string gomap \<Rightarrow> string list" where
  "sortedEnv values =
     map (\<lambda>name. name @ ''='' @ (case map_of values name of None \<Rightarrow> '''' | Some v \<Rightarrow> v))
         (sort (map fst values))"

section \<open>Resolving\<close>

definition labelsSatisfied :: "string list \<Rightarrow> string list \<Rightarrow> bool" where
  "labelsSatisfied required available =
     (required = [] \<or> list_all (\<lambda>label. label \<in> set available) required)"

definition filterCatalogOptions :: "OptionConfig list \<Rightarrow> string list \<Rightarrow> OptionConfig list" where
  "filterCatalogOptions options required =
     (if required = [] then options
      else filter (\<lambda>option. labelsSatisfied required (opt_Labels option)) options)"

definition normalizeBooleanValue :: "string \<Rightarrow> string option" where
  "normalizeBooleanValue value =
     (let v = to_lower (trim_space value) in
      if v \<in> set [''1'', ''true'', ''yes'', ''on''] then Some ''true''
      else if v \<in> set [''0'', ''false'', ''no'', ''off''] then Some ''false''
      else None)"

record ResolvedParameters =
  res_Values :: "string gomap"
  res_Env :: "string gomap"
  res_Options :: "OptionConfig gomap"
  res_WorkdirPath :: string
  res_Paths :: "string gomap"

definition no_parameters :: ResolvedParameters where
  "no_parameters = \<lparr>res_Values = [], res_Env = [], res_Options = [], res_WorkdirPath = '''', res_Paths = []\<rparr>"

definition parameterOptions :: "ControllerConfig \<Rightarrow> ParameterConfig \<Rightarrow> OptionConfig list" where
  "parameterOptions cfg param =
     (if par_Type param \<noteq> paramTypeChoice then []
      else if par_Catalog param = '''' then par_Options param
      else case findCatalog cfg (par_Catalog param) of
             None \<Rightarrow> []
           | Some catalog \<Rightarrow> filterCatalogOptions (cat_Options catalog) (par_CatalogLabels param))"

definition findOption :: "OptionConfig list \<Rightarrow> string \<Rightarrow> OptionConfig option" where
  "findOption options value = find (\<lambda>option. opt_Value option = value) options"

definition optionValues :: "OptionConfig list \<Rightarrow> string list" where
  "optionValues options = sort (map opt_Value options)"

text \<open>\<^verbatim>\<open>url.Values\<close>: every key with its list of values; \<^verbatim>\<open>Get\<close> is the first one.\<close>

type_synonym url_values = "(string list) gomap"

definition values_Get :: "url_values \<Rightarrow> string \<Rightarrow> string" where
  "values_Get values key = (case map_of values key of Some (v # _) \<Rightarrow> v | _ \<Rightarrow> '''')"

fun check_names :: "JobConfig \<Rightarrow> url_values \<Rightarrow> ctrl_error option" where
  "check_names job [] = None"
| "check_names job ((key, vs) # rest) =
     (if key = runWaitParam then check_names job rest
      else if key \<notin> set (map par_ID (job_Parameters job)) then Some (ErrUnknownParameter key (job_ID job))
      else if length vs > 1 then Some (ErrRepeatedParameter key (length vs))
      else check_names job rest)"

definition set_env :: "string \<Rightarrow> string \<Rightarrow> ResolvedParameters \<Rightarrow> ResolvedParameters" where
  "set_env name value r = r\<lparr>res_Env := AList.update name value (res_Env r)\<rparr>"

definition set_value :: "string \<Rightarrow> string \<Rightarrow> ResolvedParameters \<Rightarrow> ResolvedParameters" where
  "set_value i value r = set_env (paramEnvName i) value (r\<lparr>res_Values := AList.update i value (res_Values r)\<rparr>)"

text \<open>The loop over the metadata of the selected option.\<close>

fun emit_fields :: "string \<Rightarrow> OptionConfig \<Rightarrow> string gomap \<Rightarrow> ResolvedParameters \<Rightarrow> ctrl_error + ResolvedParameters" where
  "emit_fields i selected [] r = Inr r"
| "emit_fields i selected ((field, fieldValue) # rest) r =
     (if field = optionPathField \<and> validateRelativeWorkspacePath fieldValue \<noteq> None
      then Inl (ErrParameterPath i (opt_Value selected))
      else
        let r' = (if field = optionPathField
                  then r\<lparr>res_Paths := AList.update i fieldValue (res_Paths r)\<rparr> else r)
        in emit_fields i selected rest (set_env (paramFieldEnvName i field) fieldValue r'))"

definition select_option :: "string \<Rightarrow> OptionConfig \<Rightarrow> ResolvedParameters \<Rightarrow> ResolvedParameters" where
  "select_option i selected r =
     set_env (paramFieldEnvName i optionLabelField) (opt_Label selected)
       (r\<lparr>res_Options := AList.update i selected (res_Options r)\<rparr>)"

definition default_value :: "string \<Rightarrow> ParameterConfig \<Rightarrow> string" where
  "default_value supplied param =
     (let value = trim_space supplied in if value = '''' then trim_space (par_Default param) else value)"

definition resolve_parameter ::
    "ControllerConfig \<Rightarrow> url_values \<Rightarrow> ParameterConfig \<Rightarrow> ResolvedParameters
      \<Rightarrow> ctrl_error + ResolvedParameters" where
  "resolve_parameter cfg values param r =
     (let i = par_ID param; value = default_value (values_Get values i) param in
      if value = '''' then
        (if par_Required param then Inl (ErrParameterRequired i) else Inr (set_value i '''' r))
      else if par_Type param = paramTypeBoolean then
        (case normalizeBooleanValue value of
           None \<Rightarrow> Inl (ErrParameterNotBoolean i)
         | Some normalized \<Rightarrow> Inr (set_value i normalized r))
      else if par_Type param = paramTypeChoice then
        (case findOption (parameterOptions cfg param) value of
           None \<Rightarrow> Inl (ErrParameterNotOption i (optionValues (parameterOptions cfg param)))
         | Some selected \<Rightarrow>
             (case emit_fields i selected (opt_Values selected) (select_option i selected r) of
                Inl e \<Rightarrow> Inl e
              | Inr r' \<Rightarrow> Inr (set_value i value r')))
      else Inr (set_value i value r))"

fun resolve_loop ::
    "ControllerConfig \<Rightarrow> url_values \<Rightarrow> ParameterConfig list \<Rightarrow> ResolvedParameters
      \<Rightarrow> ctrl_error + ResolvedParameters" where
  "resolve_loop cfg values [] r = Inr r"
| "resolve_loop cfg values (param # rest) r =
     (case resolve_parameter cfg values param r of
        Inl e \<Rightarrow> Inl e
      | Inr r' \<Rightarrow> resolve_loop cfg values rest r')"

definition resolveParameters ::
    "ControllerConfig \<Rightarrow> JobConfig \<Rightarrow> url_values \<Rightarrow> ctrl_error + ResolvedParameters" where
  "resolveParameters cfg job values =
     (case check_names job values of
        Some e \<Rightarrow> Inl e
      | None \<Rightarrow>
        (case resolve_loop cfg values (job_Parameters job) no_parameters of
           Inl e \<Rightarrow> Inl e
         | Inr resolved \<Rightarrow>
             if job_WorkdirParam job \<noteq> '''' then
               (case map_of (res_Paths resolved) (job_WorkdirParam job) of
                  None \<Rightarrow> Inl (ErrWorkdirParameter (job_ID job) (job_WorkdirParam job))
                | Some path \<Rightarrow> Inr (resolved\<lparr>res_WorkdirPath := path\<rparr>))
             else Inr resolved))"

section \<open>Resolving recorded history\<close>

fun emit_historical :: "string \<Rightarrow> string gomap \<Rightarrow> ResolvedParameters \<Rightarrow> ResolvedParameters" where
  "emit_historical i [] r = r"
| "emit_historical i ((field, fieldValue) # rest) r =
     (let r' = (if field = optionPathField
                then r\<lparr>res_Paths := AList.update i fieldValue (res_Paths r)\<rparr> else r)
      in emit_historical i rest (set_env (paramFieldEnvName i field) fieldValue r'))"

text \<open>One recorded parameter; the second component collects retired choices.\<close>

definition resolve_recorded ::
    "ControllerConfig \<Rightarrow> string gomap \<Rightarrow> ParameterConfig \<Rightarrow> ResolvedParameters \<times> string list
      \<Rightarrow> ResolvedParameters \<times> string list" where
  "resolve_recorded cfg values param acc =
     (case acc of (r, retired) \<Rightarrow>
      (let i = par_ID param;
           value = default_value (case map_of values i of None \<Rightarrow> '''' | Some v \<Rightarrow> v) param in
       if value = '''' then (set_value i '''' r, retired)
       else if par_Type param = paramTypeChoice then
         (case findOption (parameterOptions cfg param) value of
            Some selected \<Rightarrow>
              (set_value i value (emit_historical i (opt_Values selected) (select_option i selected r)), retired)
          | None \<Rightarrow> (set_value i value r, retired @ [i @ ''='' @ value]))
       else (set_value i value r, retired)))"

definition resolveHistoricalParameters ::
    "ControllerConfig \<Rightarrow> JobConfig \<Rightarrow> string gomap \<Rightarrow> ctrl_error + ResolvedParameters \<times> string list" where
  "resolveHistoricalParameters cfg job values =
     (case find (\<lambda>name. name \<notin> set (map par_ID (job_Parameters job))) (map fst values) of
        Some name \<Rightarrow> Inl (ErrHistoricalParameter (job_ID job) name)
      | None \<Rightarrow>
        (case fold (resolve_recorded cfg values) (job_Parameters job) (no_parameters, []) of
           (resolved, retired) \<Rightarrow>
             Inr (if job_WorkdirParam job \<noteq> ''''
                  then resolved\<lparr>res_WorkdirPath :=
                         (case map_of (res_Paths resolved) (job_WorkdirParam job) of
                            None \<Rightarrow> '''' | Some path \<Rightarrow> path)\<rparr>
                  else resolved,
                  sort retired)))"

text \<open>\<^verbatim>\<open>parameterValuesToQuery\<close>: empty values are left out.\<close>

definition parameterValuesToQuery :: "string gomap \<Rightarrow> url_values" where
  "parameterValuesToQuery values =
     map (\<lambda>name. (name, [case map_of values name of None \<Rightarrow> '''' | Some v \<Rightarrow> v]))
         (filter (\<lambda>name. map_of values name \<noteq> Some '''') (sort (map fst values)))"

end
