(* ===== verification/Ctrl_Core.thy ===== *)
theory Ctrl_Core
  imports Ctrl_Invariants Param_Env
begin

text \<open>
  The controller object of \<^verbatim>\<open>controller.go\<close>: its configuration, its resolved runtime values, the
  store, and the in-memory liveness of the agents.  A call of \<^verbatim>\<open>time.Now\<close> is an argument.
\<close>

record ControllerRuntime =
  rt_ConfigPath :: string
  rt_StateDir :: string
  rt_LogDir :: string
  rt_StatePath :: string
  rt_CredentialsPath :: string
  rt_MaxHistory :: int
  rt_MaxLogBytes :: int
  rt_HeartbeatInterval :: int
  rt_OfflineAfter :: int
  rt_LongPollTimeout :: int
  rt_ListenAddresses :: "string list"

record fileStamp =
  fs_modTime :: time
  fs_size :: int

record agentLiveness =
  liv_lastSeen :: time
  liv_version :: string

record Controller =
  c_cfg :: ControllerConfig
  c_runtime :: ControllerRuntime
  c_configStamp :: fileStamp
  c_store :: ControllerStore
  c_live :: "agentLiveness gomap"

definition markAgentSeen :: "time \<Rightarrow> string \<Rightarrow> string \<Rightarrow> Controller \<Rightarrow> Controller" where
  "markAgentSeen now agentID version c =
     (let state = (case map_of (c_live c) agentID of
                     Some state \<Rightarrow> state
                   | None \<Rightarrow> \<lparr>liv_lastSeen = 0, liv_version = ''''\<rparr>);
          state = state\<lparr>liv_lastSeen := now\<rparr>;
          state = (if trim_space version \<noteq> '''' then state\<lparr>liv_version := version\<rparr> else state)
      in c\<lparr>c_live := AList.update agentID state (c_live c)\<rparr>)"

definition agentOnline :: "time \<Rightarrow> Controller \<Rightarrow> string \<Rightarrow> bool" where
  "agentOnline now c agentID =
     (case map_of (c_live c) agentID of
        None \<Rightarrow> False
      | Some state \<Rightarrow> now - liv_lastSeen state < rt_OfflineAfter (c_runtime c))"

lemma agentOnline_markAgentSeen:
  "0 < rt_OfflineAfter (c_runtime c) \<Longrightarrow> agentOnline now (markAgentSeen now a v c) a"
  by (simp add: agentOnline_def markAgentSeen_def Let_def update_conv)

lemma markAgentSeen_simps [simp]:
  "c_store (markAgentSeen now a v c) = c_store c"
  "c_cfg (markAgentSeen now a v c) = c_cfg c"
  "c_runtime (markAgentSeen now a v c) = c_runtime c"
  by (simp_all add: markAgentSeen_def Let_def)

end
