(* ===== verification/Ctrl_Sched.thy ===== *)
theory Ctrl_Sched
  imports Ctrl_Core
begin

text \<open>
  The scheduler, \<^verbatim>\<open>ctrlsched.go\<close>: the combined view of the agents, why an execution is still
  queued, and the assignment of queued executions to free agents.  The lemmas show that one
  scheduling transaction keeps the invariants of the snapshot, only ever assigns a queued
  execution to a free eligible agent, gives each agent at most one, lets no blocked execution stall
  the ones behind it, and picks the least recently used agent.
\<close>

section \<open>Views\<close>

record agentView =
  av_Definition :: AgentDefinition
  av_Online :: bool
  av_Busy :: bool
  av_Blocked :: bool
  av_BlockedReason :: string
  av_CurrentExecutionID :: string
  av_CurrentStatus :: string
  av_LastAssignedAt :: time
  av_LastSeen :: time
  av_Version :: string

definition schedulable :: "agentView \<Rightarrow> bool" where
  "schedulable v \<longleftrightarrow> av_Online v \<and> AgentDefinition_IsEnabled (av_Definition v)
     \<and> \<not> agd_Paused (av_Definition v) \<and> \<not> av_Busy v \<and> \<not> av_Blocked v"

record occupancy =
  occ_busy :: "string gomap"
  occ_status :: "string gomap"
  occ_blocked :: "string gomap"

definition occupancy_step :: "Execution \<Rightarrow> occupancy \<Rightarrow> occupancy" where
  "occupancy_step execution result =
     (if ex_AgentID execution = '''' then result
      else if isExecutionTerminal (ex_Status execution) then result
      else
        let agent = ex_AgentID execution;
            result = (if isExecutionActive (ex_Status execution)
                      then result\<lparr>occ_busy := AList.update agent (ex_ID execution) (occ_busy result),
                                 occ_status := AList.update agent (ex_Status execution) (occ_status result)\<rparr>
                      else result)
        in if ex_NeedsAttention execution
           then result\<lparr>occ_blocked := AList.update agent (ex_Attention execution) (occ_blocked result)\<rparr>
           else result)"

definition computeOccupancy :: "controllerStateData \<Rightarrow> occupancy" where
  "computeOccupancy st =
     fold occupancy_step (sd_Executions st) \<lparr>occ_busy = [], occ_status = [], occ_blocked = []\<rparr>"

definition str_at :: "string gomap \<Rightarrow> string \<Rightarrow> string" where
  "str_at m k = (case map_of m k of None \<Rightarrow> '''' | Some v \<Rightarrow> v)"

definition agent_view :: "time \<Rightarrow> Controller \<Rightarrow> occupancy \<Rightarrow> AgentDefinition \<Rightarrow> agentView" where
  "agent_view now c occ definition =
     (let i = agd_ID definition;
          live = (case map_of (c_live c) i of
                    None \<Rightarrow> \<lparr>liv_lastSeen = 0, liv_version = ''''\<rparr> | Some l \<Rightarrow> l)
      in \<lparr>av_Definition = definition,
          av_Online = (liv_lastSeen live \<noteq> 0 \<and> now - liv_lastSeen live < rt_OfflineAfter (c_runtime c)),
          av_Busy = (map_of (occ_busy occ) i \<noteq> None),
          av_Blocked = (map_of (occ_blocked occ) i \<noteq> None),
          av_BlockedReason = str_at (occ_blocked occ) i,
          av_CurrentExecutionID = str_at (occ_busy occ) i,
          av_CurrentStatus = str_at (occ_status occ) i,
          av_LastAssignedAt = (case map_of (sd_Agents (st_data (c_store c))) i of
                                 None \<Rightarrow> 0 | Some state \<Rightarrow> ags_LastAssignedAt state),
          av_LastSeen = liv_lastSeen live,
          av_Version = liv_version live\<rparr>)"

definition AgentViews :: "time \<Rightarrow> Controller \<Rightarrow> agentView list" where
  "AgentViews now c =
     (let occ = computeOccupancy (st_data (c_store c))
      in sort_key (\<lambda>v. agd_ID (av_Definition v)) (map (agent_view now c occ) (cfg_Agents (c_cfg c))))"

definition EligibleAgents :: "agentView list \<Rightarrow> string list \<Rightarrow> agentView list" where
  "EligibleAgents views required =
     filter (\<lambda>view. labelsSatisfied required (agd_Labels (av_Definition view))) views"

section \<open>Why an execution waits\<close>

definition QueueReasonNoMatchingLabels :: string where "QueueReasonNoMatchingLabels = ''no-matching-labels''"
definition QueueReasonOffline :: string where "QueueReasonOffline = ''offline''"
definition QueueReasonPaused :: string where "QueueReasonPaused = ''paused''"
definition QueueReasonBusy :: string where "QueueReasonBusy = ''busy''"
definition QueueReasonDisabled :: string where "QueueReasonDisabled = ''disabled''"
definition QueueReasonReady :: string where "QueueReasonReady = ''ready''"

lemmas queue_reason_defs = QueueReasonNoMatchingLabels_def QueueReasonOffline_def
  QueueReasonPaused_def QueueReasonBusy_def QueueReasonDisabled_def QueueReasonReady_def

record reason_flags =
  onlineBusy :: bool
  onlinePaused :: bool
  onlineDisabled :: bool
  offlineUsable :: bool
  offlinePaused :: bool

text \<open>The loop over the matching agents; \<open>None\<close> is the early return of \<^verbatim>\<open>ready\<close>.\<close>

fun reason_loop :: "agentView list \<Rightarrow> reason_flags \<Rightarrow> reason_flags option" where
  "reason_loop [] fl = Some fl"
| "reason_loop (view # rest) fl =
     (let enabled = AgentDefinition_IsEnabled (av_Definition view);
          paused = agd_Paused (av_Definition view)
      in if av_Online view \<and> enabled \<and> \<not> paused then
           (if \<not> av_Busy view \<and> \<not> av_Blocked view then None
            else reason_loop rest (fl\<lparr>onlineBusy := True\<rparr>))
         else if av_Online view \<and> enabled then reason_loop rest (fl\<lparr>onlinePaused := True\<rparr>)
         else if av_Online view then reason_loop rest (fl\<lparr>onlineDisabled := True\<rparr>)
         else if enabled \<and> \<not> paused then reason_loop rest (fl\<lparr>offlineUsable := True\<rparr>)
         else if enabled then reason_loop rest (fl\<lparr>offlinePaused := True\<rparr>)
         else reason_loop rest fl)"

definition queueReason :: "agentView list \<Rightarrow> string list \<Rightarrow> string" where
  "queueReason views required =
     (let matching = EligibleAgents views required in
      if matching = [] then QueueReasonNoMatchingLabels
      else case reason_loop matching
             \<lparr>onlineBusy = False, onlinePaused = False, onlineDisabled = False,
              offlineUsable = False, offlinePaused = False\<rparr> of
             None \<Rightarrow> QueueReasonReady
           | Some fl \<Rightarrow>
               if onlineBusy fl then QueueReasonBusy
               else if onlinePaused fl then QueueReasonPaused
               else if onlineDisabled fl then QueueReasonDisabled
               else if offlineUsable fl then QueueReasonOffline
               else if offlinePaused fl then QueueReasonPaused
               else QueueReasonDisabled)"

section \<open>Assignment\<close>

text \<open>The agents that may take work as far as configuration and liveness go, by identifier.\<close>

definition available_agents :: "agentView list \<Rightarrow> agentView gomap" where
  "available_agents views =
     fold (\<lambda>view available.
             if av_Online view \<and> AgentDefinition_IsEnabled (av_Definition view)
                \<and> \<not> agd_Paused (av_Definition view)
             then AList.update (agd_ID (av_Definition view)) view available else available) views []"

definition last_assigned :: "controllerStateData \<Rightarrow> string \<Rightarrow> time" where
  "last_assigned st i = (case map_of (sd_Agents st) i of None \<Rightarrow> 0 | Some s \<Rightarrow> ags_LastAssignedAt s)"

definition free_agents :: "agentView gomap \<Rightarrow> controllerStateData \<Rightarrow> string list" where
  "free_agents available st =
     (let occupied = computeOccupancy st
      in filter (\<lambda>i. map_of (occ_busy occupied) i = None \<and> map_of (occ_blocked occupied) i = None)
                (map fst available))"

text \<open>The candidates for one execution, in the order of \<^verbatim>\<open>sort.Slice\<close>: oldest last assignment
  first, ties by identifier.\<close>

definition candidates :: "agentView gomap \<Rightarrow> (string \<Rightarrow> time) \<Rightarrow> string list \<Rightarrow> string list \<Rightarrow> string list" where
  "candidates available lastAssigned free labels =
     sort_key lastAssigned
       (sort (filter (\<lambda>i. case map_of available i of
                            None \<Rightarrow> False
                          | Some view \<Rightarrow> labelsSatisfied labels (agd_Labels (av_Definition view))) free))"

definition assign_execution :: "time \<Rightarrow> string \<Rightarrow> string \<Rightarrow> controllerStateData \<Rightarrow> controllerStateData" where
  "assign_execution now chosen i st =
     update_agent chosen (\<lambda>s. s\<lparr>ags_LastAssignedAt := now\<rparr>)
       (update_execution i
          (\<lambda>e. e\<lparr>ex_Status := StatusAssigned, ex_AgentID := chosen, ex_AssignedAt := now\<rparr>) st)"

text \<open>The loop over the queue.  The last component is the flag \<^verbatim>\<open>assigned\<close>.\<close>

fun assign_loop ::
    "time \<Rightarrow> agentView gomap \<Rightarrow> (string \<Rightarrow> time) \<Rightarrow> string list \<Rightarrow> Execution list
      \<Rightarrow> controllerStateData \<Rightarrow> bool \<Rightarrow> controllerStateData \<times> bool" where
  "assign_loop now available lastAssigned free [] st assigned = (st, assigned)"
| "assign_loop now available lastAssigned free (execution # rest) st assigned =
     (case candidates available lastAssigned free (ex_Labels execution) of
        [] \<Rightarrow> assign_loop now available lastAssigned free rest st assigned
      | chosen # _ \<Rightarrow>
          (let st' = assign_execution now chosen (ex_ID execution) st;
               free' = filter (\<lambda>i. i \<noteq> chosen) free
           in if free' = [] then (st', True)
              else assign_loop now available lastAssigned free' rest st' True))"

definition queued_for_assignment :: "controllerStateData \<Rightarrow> Execution list" where
  "queued_for_assignment st =
     sort_key ex_RequestedAt
       (filter (\<lambda>e. ex_Status e = StatusQueued \<and> \<not> ex_CancelRequested e) (sd_Executions st))"

definition scheduleOnce_txn :: "time \<Rightarrow> agentView gomap \<Rightarrow> unit txn" where
  "scheduleOnce_txn now available st =
     ((), let free = free_agents available st in
          if free = [] then Inl ErrNoStateChange
          else case assign_loop now available (last_assigned st) free (queued_for_assignment st) st False of
                 (st', assigned) \<Rightarrow> if \<not> assigned then Inl ErrNoStateChange else Inr st')"

record sched_env =
  se_viewNow :: time
  se_now :: time
  se_io :: io_env

definition scheduleOnce :: "sched_env \<Rightarrow> Controller \<Rightarrow> ctrl_error option \<times> Controller" where
  "scheduleOnce env c =
     (let available = available_agents (AgentViews (se_viewNow env) c) in
      if available = [] then (None, c)
      else case mutate (se_io env) (scheduleOnce_txn (se_now env) available) (c_store c) of
             (_, err, s') \<Rightarrow> (if err = Some ErrNoStateChange then None else err, c\<lparr>c_store := s'\<rparr>))"

section \<open>Occupancy\<close>

lemma occupancy_step_busy:
  "map_of (occ_busy (occupancy_step e occ)) a \<noteq> None \<longleftrightarrow>
     map_of (occ_busy occ) a \<noteq> None \<or> (a \<noteq> '''' \<and> ex_AgentID e = a \<and> active_ex e)"
  by (auto simp: occupancy_step_def Let_def update_conv active_ex_def active_not_terminal
      split: if_splits)

lemma occupancy_step_blocked:
  "map_of (occ_blocked (occupancy_step e occ)) a \<noteq> None \<longleftrightarrow>
     map_of (occ_blocked occ) a \<noteq> None
     \<or> (a \<noteq> '''' \<and> ex_AgentID e = a \<and> \<not> terminal_ex e \<and> ex_NeedsAttention e)"
  by (auto simp: occupancy_step_def Let_def update_conv terminal_ex_def split: if_splits)

lemma fold_occupancy_busy:
  "map_of (occ_busy (fold occupancy_step es occ)) a \<noteq> None \<longleftrightarrow>
     map_of (occ_busy occ) a \<noteq> None \<or> (a \<noteq> '''' \<and> (\<exists>e \<in> set es. ex_AgentID e = a \<and> active_ex e))"
proof (induction es arbitrary: occ)
  case (Cons e es)
  show ?case
    by (simp only: fold_simps Cons.IH occupancy_step_busy) auto
qed simp

lemma fold_occupancy_blocked:
  "map_of (occ_blocked (fold occupancy_step es occ)) a \<noteq> None \<longleftrightarrow>
     map_of (occ_blocked occ) a \<noteq> None
     \<or> (a \<noteq> '''' \<and> (\<exists>e \<in> set es. ex_AgentID e = a \<and> \<not> terminal_ex e \<and> ex_NeedsAttention e))"
proof (induction es arbitrary: occ)
  case (Cons e es)
  show ?case
    by (simp only: fold_simps Cons.IH occupancy_step_blocked) auto
qed simp

text \<open>An agent is busy exactly when it owns an active execution, and blocked exactly when it owns
  an unfinished one that needs attention.\<close>

lemma busy_iff:
  "map_of (occ_busy (computeOccupancy st)) a \<noteq> None \<longleftrightarrow>
     a \<noteq> '''' \<and> (\<exists>e \<in> set (sd_Executions st). ex_AgentID e = a \<and> active_ex e)"
  by (simp only: computeOccupancy_def fold_occupancy_busy) simp

lemma blocked_iff:
  "map_of (occ_blocked (computeOccupancy st)) a \<noteq> None \<longleftrightarrow>
     a \<noteq> '''' \<and> (\<exists>e \<in> set (sd_Executions st).
                      ex_AgentID e = a \<and> \<not> terminal_ex e \<and> ex_NeedsAttention e)"
  by (simp only: computeOccupancy_def fold_occupancy_blocked) simp

definition holds_slot :: "controllerStateData \<Rightarrow> string \<Rightarrow> bool" where
  "holds_slot st a \<longleftrightarrow> (\<exists>e \<in> set (sd_Executions st). ex_AgentID e = a \<and> active_ex e)"

definition awaits_operator :: "controllerStateData \<Rightarrow> string \<Rightarrow> bool" where
  "awaits_operator st a \<longleftrightarrow>
     (\<exists>e \<in> set (sd_Executions st). ex_AgentID e = a \<and> \<not> terminal_ex e \<and> ex_NeedsAttention e)"

lemma free_agents_iff:
  "a \<in> set (free_agents available st) \<longleftrightarrow>
     a \<in> fst ` set available \<and> (a = '''' \<or> \<not> holds_slot st a \<and> \<not> awaits_operator st a)"
  using busy_iff [of st a] blocked_iff [of st a]
  by (auto simp: free_agents_def Let_def holds_slot_def awaits_operator_def)

section \<open>The assignment as a plan\<close>

text \<open>The loop without its early exit and without its state: which execution goes to which agent.\<close>

fun assign_plan ::
    "agentView gomap \<Rightarrow> (string \<Rightarrow> time) \<Rightarrow> string list \<Rightarrow> Execution list \<Rightarrow> (string \<times> string) list" where
  "assign_plan available lastAssigned free [] = []"
| "assign_plan available lastAssigned free (e # rest) =
     (case candidates available lastAssigned free (ex_Labels e) of
        [] \<Rightarrow> assign_plan available lastAssigned free rest
      | chosen # _ \<Rightarrow>
          (ex_ID e, chosen) # assign_plan available lastAssigned (filter (\<lambda>i. i \<noteq> chosen) free) rest)"

definition eligible :: "agentView gomap \<Rightarrow> string list \<Rightarrow> string \<Rightarrow> bool" where
  "eligible available labels a \<longleftrightarrow>
     (case map_of available a of None \<Rightarrow> False
      | Some view \<Rightarrow> labelsSatisfied labels (agd_Labels (av_Definition view)))"

lemma set_candidates:
  "set (candidates available la free labels) = {a \<in> set free. eligible available labels a}"
  by (auto simp: candidates_def eligible_def split: option.splits)

lemma candidates_Nil [simp]: "candidates available la [] labels = []"
  by (simp add: candidates_def)

lemma candidates_empty_iff:
  "candidates available la free labels = [] \<longleftrightarrow> (\<forall>a \<in> set free. \<not> eligible available labels a)"
  using set_candidates [of available la free labels] by (cases "candidates available la free labels") auto

lemma assign_plan_Nil [simp]: "assign_plan available la [] q = []"
  by (induction q) auto

lemma assign_loop_plan:
  "assign_loop now available la free q st b =
     (fold (\<lambda>(i, a). assign_execution now a i) (assign_plan available la free q) st,
      b \<or> assign_plan available la free q \<noteq> [])"
  by (induction now available la free q st b rule: assign_loop.induct)
     (auto simp: Let_def split: list.splits)

lemma plan_sound:
  "(i, a) \<in> set (assign_plan available la free q) \<Longrightarrow>
     a \<in> set free \<and> (\<exists>e \<in> set q. ex_ID e = i \<and> eligible available (ex_Labels e) a)"
proof (induction available la free q rule: assign_plan.induct)
  case (2 available la free e rest)
  show ?case
  proof (cases "candidates available la free (ex_Labels e)")
    case Nil
    with 2 show ?thesis by auto
  next
    case (Cons c cs)
    then have "c \<in> set free" "eligible available (ex_Labels e) c"
      using set_candidates [of available la free "ex_Labels e"] by auto
    with 2 Cons show ?thesis by auto
  qed
qed simp

lemma plan_agents_free: "snd ` set (assign_plan available la free q) \<subseteq> set free"
  using plan_sound by fastforce

lemma plan_ids_queued: "fst ` set (assign_plan available la free q) \<subseteq> ex_ID ` set q"
  using plan_sound by fastforce

lemma plan_agents_distinct: "distinct (map snd (assign_plan available la free q))"
proof (induction available la free q rule: assign_plan.induct)
  case (2 available la free e rest)
  show ?case
  proof (cases "candidates available la free (ex_Labels e)")
    case (Cons c cs)
    with 2 plan_agents_free [of available la "filter (\<lambda>i. i \<noteq> c) free" rest] show ?thesis by auto
  qed (use 2 in simp)
qed simp

lemma plan_ids_distinct:
  "distinct (map ex_ID q) \<Longrightarrow> distinct (map fst (assign_plan available la free q))"
proof (induction available la free q rule: assign_plan.induct)
  case (2 available la free e rest)
  show ?case
  proof (cases "candidates available la free (ex_Labels e)")
    case (Cons c cs)
    with 2 plan_ids_queued [of available la "filter (\<lambda>i. i \<noteq> c) free" rest] show ?thesis by auto
  qed (use 2 in simp)
qed simp

text \<open>Every execution the plan leaves out could be run by none of the agents the plan leaves
  free.\<close>

lemma plan_complete:
  assumes "e \<in> set q" "ex_ID e \<notin> fst ` set (assign_plan available la free q)"
    and "a \<in> set free" "a \<notin> snd ` set (assign_plan available la free q)"
  shows "\<not> eligible available (ex_Labels e) a"
  using assms
proof (induction available la free q rule: assign_plan.induct)
  case (2 available la free x rest)
  show ?case
  proof (cases "candidates available la free (ex_Labels x)")
    case Nil
    with 2 show ?thesis by (auto simp: candidates_empty_iff)
  next
    case (Cons c cs)
    with "2.prems" have "e \<in> set rest" "a \<noteq> c" by auto
    with 2 Cons show ?thesis by auto
  qed
qed simp

text \<open>Whoever is overtaken could not have used the agent that went to a later execution.\<close>

lemma plan_no_overtaking:
  assumes "distinct (map ex_ID (q1 @ e # q2))"
    and "ex_ID e \<notin> fst ` set (assign_plan available la free (q1 @ e # q2))"
    and "(ex_ID e', a) \<in> set (assign_plan available la free (q1 @ e # q2))" "e' \<in> set q2"
  shows "\<not> eligible available (ex_Labels e) a"
  using assms
proof (induction q1 arbitrary: free)
  case Nil
  show ?case
  proof (cases "candidates available la free (ex_Labels e)")
    case empty: Nil
    with Nil have "(ex_ID e', a) \<in> set (assign_plan available la free q2)" by simp
    with plan_sound have "a \<in> set free" by blast
    with empty show ?thesis by (simp add: candidates_empty_iff)
  next
    case (Cons c cs)
    with Nil show ?thesis by simp
  qed
next
  case (Cons x q1)
  have "ex_ID x \<noteq> ex_ID e'" "ex_ID x \<noteq> ex_ID e" using Cons.prems by auto
  with Cons show ?case by (auto split: list.splits)
qed

text \<open>Among the eligible free agents the one with the oldest last assignment is chosen, the least
  identifier on a tie.\<close>

lemma candidates_least:
  assumes "candidates available la free labels = c # cs" "a \<in> set free" "eligible available labels a"
  shows "la c < la a \<or> (la c = la a \<and> c \<le> a)"
proof -
  let ?ys = "sort (filter (\<lambda>i. case map_of available i of None \<Rightarrow> False
               | Some view \<Rightarrow> labelsSatisfied labels (agd_Labels (av_Definition view))) free)"
  have head: "sort_key la ?ys = c # cs" using assms(1) by (simp add: candidates_def)
  have a: "a \<in> set (c # cs)"
    using assms set_candidates [of available la free labels] by auto
  have "sorted (map la (sort_key la ?ys))" by simp
  with head a have le: "la c \<le> la a" by auto
  show ?thesis
  proof (cases "la c = la a")
    case True
    have "filter (\<lambda>y. la y = la c) (sort_key la ?ys) = filter (\<lambda>y. la y = la c) ?ys"
      by (rule sort_key_stable)
    with head have stable: "c # filter (\<lambda>y. la y = la c) cs = filter (\<lambda>y. la y = la c) ?ys" by simp
    have "sorted (c # filter (\<lambda>y. la y = la c) cs)"
      unfolding stable by (rule sorted_wrt_filter) simp
    with a True have "c \<le> a" by auto
    with True show ?thesis by simp
  next
    case False
    with le show ?thesis by simp
  qed
qed

section \<open>What the plan does to the snapshot\<close>

lemma assign_execution_executions [simp]:
  "sd_Executions (assign_execution now a i st) =
     upd_first (\<lambda>e. ex_ID e = i)
       (\<lambda>e. e\<lparr>ex_Status := StatusAssigned, ex_AgentID := a, ex_AssignedAt := now\<rparr>) (sd_Executions st)"
  by (simp add: assign_execution_def update_execution_def)

lemma find_assign_execution:
  "find_execution (assign_execution now a i st) j =
     (if i = j then map_option (\<lambda>e. e\<lparr>ex_Status := StatusAssigned, ex_AgentID := a, ex_AssignedAt := now\<rparr>)
        (find_execution st j) else find_execution st j)"
proof (cases "find_execution st i")
  case None
  then show ?thesis
    by (auto simp: assign_execution_def update_execution_def find_execution_def upd_first_None)
next
  case (Some e)
  then show ?thesis
    using find_execution_Some [OF Some]
    by (auto simp: assign_execution_def find_update_same find_update_other)
qed

text \<open>Handing a queued execution to an agent without a slot keeps one execution per agent.\<close>

lemma one_active_assign:
  assumes "one_active st" "find_execution st i = Some e" "\<not> active_ex e" "\<not> holds_slot st a"
  shows "one_active (assign_execution now a i st)"
proof -
  let ?f = "\<lambda>e. e\<lparr>ex_Status := StatusAssigned, ex_AgentID := a, ex_AssignedAt := now\<rparr>"
  let ?ag = "\<lambda>xs. map ex_AgentID (filter active_ex xs)"
  have "distinct (?ag (upd_first (\<lambda>e. ex_ID e = i) ?f xs)) \<and>
        set (?ag (upd_first (\<lambda>e. ex_ID e = i) ?f xs)) \<subseteq> insert a (set (?ag xs))"
    if "distinct (?ag xs)" "find (\<lambda>e. ex_ID e = i) xs = Some e" "a \<notin> set (?ag xs)" for xs
    using that assms(3)
  proof (induction xs)
    case (Cons x xs)
    then show ?case by (cases "ex_ID x = i") (auto simp: active_ex_def split: if_splits)
  qed simp
  from this [of "sd_Executions st"] assms show ?thesis
    by (auto simp: one_active_def find_execution_def holds_slot_def)
qed

lemma queued_inactive: "ex_Status e = StatusQueued \<Longrightarrow> \<not> active_ex e \<and> \<not> terminal_ex e"
  by (simp add: active_ex_def terminal_ex_def)

lemma assign_execution_ok:
  assumes ok: "snapshot_ok st" and e: "find_execution st i = Some e" "ex_Status e = StatusQueued"
    and a: "a \<noteq> ''''" "\<not> holds_slot st a"
  shows "snapshot_ok (assign_execution now a i st)"
proof -
  let ?f = "\<lambda>e. e\<lparr>ex_Status := StatusAssigned, ex_AgentID := a, ex_AssignedAt := now\<rparr>"
  have "lifecycle (update_execution i ?f st)"
    using ok e a by (intro lifecycle_update_execution) (auto simp: snapshot_ok_def lifecycle_ok_def)
  then have "lifecycle (assign_execution now a i st)"
    by (simp add: assign_execution_def lifecycle_def)
  moreover have "unique_ids (assign_execution now a i st)"
    using ok by (simp add: snapshot_ok_def unique_ids_def map_upd_first)
  moreover have "one_active (assign_execution now a i st)"
    using ok e a queued_inactive by (intro one_active_assign) (auto simp: snapshot_ok_def)
  ultimately show ?thesis by (simp add: snapshot_ok_def)
qed

lemma holds_slot_assign:
  "holds_slot (assign_execution now a i st) b \<Longrightarrow> b = a \<or> holds_slot st b"
  by (auto simp: holds_slot_def dest!: set_upd_first_sub)

text \<open>A plan that may run from a snapshot: each execution is queued there, each agent is a real one
  without a slot, and nothing is named twice.\<close>

definition plan_ok :: "controllerStateData \<Rightarrow> (string \<times> string) list \<Rightarrow> bool" where
  "plan_ok st plan \<longleftrightarrow> distinct (map fst plan) \<and> distinct (map snd plan) \<and>
     (\<forall>(i, a) \<in> set plan. a \<noteq> '''' \<and> \<not> holds_slot st a \<and>
        (\<exists>e. find_execution st i = Some e \<and> ex_Status e = StatusQueued))"

definition run_plan :: "time \<Rightarrow> (string \<times> string) list \<Rightarrow> controllerStateData \<Rightarrow> controllerStateData" where
  "run_plan now plan st = fold (\<lambda>(i, a). assign_execution now a i) plan st"

lemma plan_ok_step:
  assumes "plan_ok st ((i, a) # plan)"
  shows "plan_ok (assign_execution now a i st) plan"
proof -
  have "b \<noteq> '''' \<and> \<not> holds_slot (assign_execution now a i st) b \<and>
        (\<exists>e. find_execution (assign_execution now a i st) j = Some e \<and> ex_Status e = StatusQueued)"
    if "(j, b) \<in> set plan" for j b
  proof -
    from that have "j \<in> fst ` set plan" "b \<in> snd ` set plan" by (force, force)
    moreover from assms have "i \<notin> fst ` set plan" "a \<notin> snd ` set plan" by (simp_all add: plan_ok_def)
    ultimately have "j \<noteq> i" "b \<noteq> a" by blast+
    moreover from that assms have "b \<noteq> ''''" "\<not> holds_slot st b"
      "\<exists>e. find_execution st j = Some e \<and> ex_Status e = StatusQueued"
      by (auto simp: plan_ok_def)
    ultimately show ?thesis by (auto simp: find_assign_execution dest: holds_slot_assign)
  qed
  with assms show ?thesis by (auto simp: plan_ok_def)
qed

lemma run_plan_ok:
  "snapshot_ok st \<Longrightarrow> plan_ok st plan \<Longrightarrow> snapshot_ok (run_plan now plan st)"
proof (induction plan arbitrary: st)
  case (Cons p plan)
  obtain i a where p: "p = (i, a)" by fastforce
  with Cons.prems obtain e where "find_execution st i = Some e" "ex_Status e = StatusQueued"
    "a \<noteq> ''''" "\<not> holds_slot st a" by (auto simp: plan_ok_def)
  with Cons.prems(1) have ok: "snapshot_ok (assign_execution now a i st)" by (rule assign_execution_ok)
  have "plan_ok (assign_execution now a i st) plan" using Cons.prems(2) p by (simp add: plan_ok_step)
  with ok have "snapshot_ok (run_plan now plan (assign_execution now a i st))" by (rule Cons.IH)
  with p show ?case by (simp add: run_plan_def)
qed (simp add: run_plan_def)

lemma find_run_plan:
  assumes "distinct (map fst plan)"
  shows "find_execution (run_plan now plan st) i =
     (case map_of plan i of
        None \<Rightarrow> find_execution st i
      | Some a \<Rightarrow> map_option (\<lambda>e. e\<lparr>ex_Status := StatusAssigned, ex_AgentID := a, ex_AssignedAt := now\<rparr>)
                   (find_execution st i))"
  using assms
proof (induction plan arbitrary: st)
  case (Cons p plan)
  obtain j b where p: "p = (j, b)" by fastforce
  with Cons.prems have "map_of plan j = None" by (auto simp: map_of_eq_None_iff)
  with Cons p show ?case
    by (auto simp: run_plan_def find_assign_execution split: option.splits)
qed (simp add: run_plan_def)

lemma ids_run_plan: "map ex_ID (sd_Executions (run_plan now plan st)) = map ex_ID (sd_Executions st)"
  unfolding run_plan_def
  by (induction plan arbitrary: st) (auto simp: map_upd_first)

section \<open>The scheduling transaction\<close>

definition sched_plan :: "agentView gomap \<Rightarrow> controllerStateData \<Rightarrow> (string \<times> string) list" where
  "sched_plan available st =
     assign_plan available (last_assigned st) (free_agents available st) (queued_for_assignment st)"

lemma scheduleOnce_txn_plan:
  "scheduleOnce_txn now available st =
     ((), if sched_plan available st = [] then Inl ErrNoStateChange
          else Inr (run_plan now (sched_plan available st) st))"
  by (auto simp: scheduleOnce_txn_def sched_plan_def assign_loop_plan run_plan_def Let_def)

lemma queued_for_assignment_mem:
  "e \<in> set (queued_for_assignment st) \<longleftrightarrow>
     e \<in> set (sd_Executions st) \<and> ex_Status e = StatusQueued \<and> \<not> ex_CancelRequested e"
  by (auto simp: queued_for_assignment_def)

lemma queued_ids_distinct: "unique_ids st \<Longrightarrow> distinct (map ex_ID (queued_for_assignment st))"
  unfolding queued_for_assignment_def unique_ids_def
  by (auto simp: distinct_map inj_on_def)

lemma sched_plan_ok:
  assumes "unique_ids st" "'''' \<notin> fst ` set available"
  shows "plan_ok st (sched_plan available st)"
proof -
  have "a \<noteq> '''' \<and> \<not> holds_slot st a \<and> (\<exists>e. find_execution st i = Some e \<and> ex_Status e = StatusQueued)"
    if "(i, a) \<in> set (sched_plan available st)" for i a
  proof -
    from plan_sound [OF that [unfolded sched_plan_def]] obtain e where
      "a \<in> set (free_agents available st)" "e \<in> set (queued_for_assignment st)" "ex_ID e = i" by blast
    with assms show ?thesis
      using find_unique by (fastforce simp: free_agents_iff queued_for_assignment_mem unique_ids_def)
  qed
  then show ?thesis
    using assms plan_agents_distinct plan_ids_distinct [OF queued_ids_distinct]
    by (auto simp: plan_ok_def sched_plan_def)
qed

lemma scheduleOnce_txn_ok [inv_intros]:
  assumes "snapshot_ok st" "'''' \<notin> fst ` set available" "scheduleOnce_txn now available st = (r, Inr st')"
  shows "snapshot_ok st'"
  using assms sched_plan_ok [of st available] run_plan_ok
  by (auto simp: scheduleOnce_txn_plan snapshot_ok_def split: if_splits)

lemma evolves_assign:
  "ex_Status e = StatusQueued \<Longrightarrow> lifecycle_ok e \<Longrightarrow>
     evolves e (e\<lparr>ex_Status := StatusAssigned, ex_AgentID := a, ex_AssignedAt := now\<rparr>)"
  by (auto simp: evolves_def work_packet_def terminal_ex_def lifecycle_ok_def)

lemma run_plan_forward:
  assumes ok: "snapshot_ok st" and plan: "plan_ok st plan"
  shows "forward st (run_plan now plan st)"
proof -
  have ids: "unique_ids (run_plan now plan st)"
    using ok by (simp add: snapshot_ok_def unique_ids_def ids_run_plan)
  have "case find_execution st (ex_ID x) of None \<Rightarrow> newborn x | Some e \<Rightarrow> evolves e x"
    if "x \<in> set (sd_Executions (run_plan now plan st))" for x
  proof -
    from that ids have x: "find_execution (run_plan now plan st) (ex_ID x) = Some x"
      by (simp add: unique_ids_def find_unique)
    have fr: "find_execution (run_plan now plan st) (ex_ID x) = (case map_of plan (ex_ID x) of
        None \<Rightarrow> find_execution st (ex_ID x)
      | Some a \<Rightarrow> map_option (\<lambda>e. e\<lparr>ex_Status := StatusAssigned, ex_AgentID := a, ex_AssignedAt := now\<rparr>)
                   (find_execution st (ex_ID x)))"
      using plan by (intro find_run_plan) (simp add: plan_ok_def)
    show ?thesis
    proof (cases "map_of plan (ex_ID x)")
      case None
      with fr x have "find_execution st (ex_ID x) = Some x" by simp
      then show ?thesis by simp
    next
      case (Some a)
      then have "(ex_ID x, a) \<in> set plan" by (rule map_of_SomeD)
      with plan obtain e where e: "find_execution st (ex_ID x) = Some e" "ex_Status e = StatusQueued"
        by (auto simp: plan_ok_def)
      moreover have "lifecycle_ok e"
        using e ok find_execution_Some by (auto simp: snapshot_ok_def lifecycle_def)
      ultimately show ?thesis using fr x Some evolves_assign by auto
    qed
  qed
  then show ?thesis by (simp add: forward_def)
qed

lemma scheduleOnce_txn_forward:
  assumes "snapshot_ok st" "'''' \<notin> fst ` set available" "scheduleOnce_txn now available st = (r, Inr st')"
  shows "forward st st'"
  using assms sched_plan_ok [of st available] run_plan_forward
  by (auto simp: scheduleOnce_txn_plan snapshot_ok_def split: if_splits)

end
