(* ===== verification/Ctrl_Queue.thy ===== *)
theory Ctrl_Queue
  imports Ctrl_Sched
begin

text \<open>
  The central queue, \<^verbatim>\<open>ctrlqueue.go\<close>: enqueueing, cancelling, re-running, and the operator's
  resolution of an execution whose fate is unknown.  Each operation is its transaction followed by
  a scheduling round, as in the source.  Random identifiers come from a supply (\<open>gen\<close>), one per
  call of \<^verbatim>\<open>newExecutionID\<close>.
\<close>

section \<open>Enqueue\<close>

text \<open>The loop that draws identifiers until one is unused; \<open>None\<close> is a loop that never ends.\<close>

partial_function (option) fresh_id :: "(nat \<Rightarrow> string) \<Rightarrow> controllerStateData \<Rightarrow> nat \<Rightarrow> string option" where
  "fresh_id gen st n =
     (case find_execution st (gen n) of
        None \<Rightarrow> Some (gen n)
      | Some _ \<Rightarrow> fresh_id gen st (Suc n))"

declare fresh_id.simps [code]

definition new_execution :: "time \<Rightarrow> JobConfig \<Rightarrow> ResolvedParameters \<Rightarrow> string \<Rightarrow> string \<Rightarrow> Execution" where
  "new_execution now job resolved requestedBy i =
     \<lparr>ex_ID = i, ex_JobID = job_ID job, ex_JobName = job_Name job, ex_Labels = job_Labels job,
      ex_Script = job_Script job, ex_TimeoutText = job_Timeout job,
      ex_WorkdirPath = res_WorkdirPath resolved, ex_Parameters = res_Values resolved,
      ex_ParameterEnv = res_Env resolved, ex_SelectedOptions = res_Options resolved,
      ex_JobSnapshot = job, ex_Status = StatusQueued, ex_AgentID = '''', ex_RequestedBy = requestedBy,
      ex_CancelRequested = False, ex_PermitGranted = False, ex_PermitRevoked = False,
      ex_NeedsAttention = False, ex_Attention = '''', ex_LogOffset = 0, ex_LogComplete = False,
      ex_LogTruncated = False, ex_ExitCode = -1, ex_Error = '''', ex_FailureReason = '''',
      ex_RequestedAt = now, ex_AssignedAt = 0, ex_StartedAt = 0, ex_FinishedAt = 0,
      ex_CanceledAt = 0, ex_Origin = None\<rparr>"

definition Enqueue_txn :: "Execution \<Rightarrow> unit txn" where
  "Enqueue_txn execution st = ((), Inr (st\<lparr>sd_Executions := sd_Executions st @ [execution]\<rparr>))"

record op_env =
  op_now :: time
  op_io :: io_env
  op_sched :: sched_env

text \<open>The end of every operation: a scheduling round whose error is only logged, then the current
  record of the execution.\<close>

definition schedule_and_find :: "sched_env \<Rightarrow> string \<Rightarrow> Controller \<Rightarrow> Execution option \<times> Controller" where
  "schedule_and_find env i c =
     (let c' = snd (scheduleOnce env c) in (Find (c_store c') i, c'))"

definition Enqueue ::
    "op_env \<Rightarrow> (nat \<Rightarrow> string) \<Rightarrow> string \<Rightarrow> url_values \<Rightarrow> string \<Rightarrow> Controller
      \<Rightarrow> ((ctrl_error + Execution option) \<times> Controller) option" where
  "Enqueue env gen jobID values requestedBy c =
     (case findJob (c_cfg c) jobID of
        None \<Rightarrow> Some (Inl ErrJobNotFound, c)
      | Some job \<Rightarrow>
        if \<not> JobConfig_IsEnabled job then Some (Inl ErrJobDisabled, c)
        else case resolveParameters (c_cfg c) job values of
          Inl err \<Rightarrow> Some (Inl err, c)
        | Inr resolved \<Rightarrow>
          (case fresh_id gen (st_data (c_store c)) 0 of
             None \<Rightarrow> None
           | Some i \<Rightarrow>
             Some (case mutate (op_io env)
                          (Enqueue_txn (new_execution (op_now env) job resolved requestedBy i)) (c_store c) of
                     (_, Some err, s') \<Rightarrow> (Inl err, c\<lparr>c_store := s'\<rparr>)
                   | (_, None, s') \<Rightarrow>
                       apfst Inr (schedule_and_find (op_sched env) i (c\<lparr>c_store := s'\<rparr>)))))"

section \<open>Cancel\<close>

definition cancel_queued :: "time \<Rightarrow> Execution \<Rightarrow> Execution" where
  "cancel_queued now e =
     e\<lparr>ex_Status := StatusCanceled, ex_CancelRequested := True, ex_CanceledAt := now,
       ex_FinishedAt := now, ex_LogComplete := True, ex_Error := ''canceled before assignment''\<rparr>"

definition request_cancel :: "time \<Rightarrow> Execution \<Rightarrow> Execution" where
  "request_cancel now e =
     e\<lparr>ex_CancelRequested := True,
       ex_CanceledAt := (if ex_CanceledAt e = 0 then now else ex_CanceledAt e)\<rparr>"

definition cancel_assigned :: "time \<Rightarrow> Execution \<Rightarrow> Execution" where
  "cancel_assigned now e =
     (let e = request_cancel now e in
      if \<not> ex_PermitGranted e
      then e\<lparr>ex_PermitRevoked := True, ex_Status := StatusCanceled, ex_FinishedAt := now,
             ex_LogComplete := True,
             ex_Error := ''canceled before the agent was granted permission to start''\<rparr>
      else e\<lparr>ex_Status := StatusCanceling\<rparr>)"

definition cancel_running :: "time \<Rightarrow> Execution \<Rightarrow> Execution" where
  "cancel_running now e = (request_cancel now e)\<lparr>ex_Status := StatusCanceling\<rparr>"

definition Cancel_txn :: "time \<Rightarrow> string \<Rightarrow> unit txn" where
  "Cancel_txn now i st =
     ((), case find_execution st i of
            None \<Rightarrow> Inl ErrExecutionNotFound
          | Some execution \<Rightarrow>
              if ex_Status execution = StatusQueued then Inr (update_execution i (cancel_queued now) st)
              else if ex_Status execution = StatusAssigned then
                Inr (update_execution i (cancel_assigned now) st)
              else if ex_Status execution = StatusRunning \<or> ex_Status execution = StatusCanceling then
                Inr (update_execution i (cancel_running now) st)
              else Inl ErrExecutionDone)"

definition Cancel :: "op_env \<Rightarrow> string \<Rightarrow> Controller \<Rightarrow> (ctrl_error + Execution option) \<times> Controller" where
  "Cancel env i c =
     (case mutate (op_io env) (Cancel_txn (op_now env) i) (c_store c) of
        (_, Some err, s') \<Rightarrow> (Inl err, c\<lparr>c_store := s'\<rparr>)
      | (_, None, s') \<Rightarrow> apfst Inr (schedule_and_find (op_sched env) i (c\<lparr>c_store := s'\<rparr>)))"

text \<open>The outcome that \<^verbatim>\<open>CancelMany\<close> records for one identifier.  The source reads the status
  through the pointer that \<^const>\<open>Cancel\<close> returned, also when that pointer is nil.\<close>

datatype cancel_result = CancelStatus string | CancelNotFound | CancelAlreadyFinished | CancelError ctrl_error

definition cancel_outcome :: "ctrl_error + Execution option \<Rightarrow> ctrl_error + cancel_result" where
  "cancel_outcome res =
     (case res of
        Inr (Some execution) \<Rightarrow> Inr (CancelStatus (ex_Status execution))
      | Inr None \<Rightarrow> Inl PanicNilPointer
      | Inl err \<Rightarrow>
          Inr (if err = ErrExecutionNotFound then CancelNotFound
               else if err = ErrExecutionDone then CancelAlreadyFinished
               else CancelError err))"

fun CancelMany ::
    "(string \<times> op_env) list \<Rightarrow> cancel_result gomap \<Rightarrow> Controller
      \<Rightarrow> (ctrl_error + cancel_result gomap) \<times> Controller" where
  "CancelMany [] results c = (Inr results, c)"
| "CancelMany ((i, env) # rest) results c =
     (case Cancel env i c of
        (res, c') \<Rightarrow>
          (case cancel_outcome res of
             Inl panic \<Rightarrow> (Inl panic, c')
           | Inr r \<Rightarrow> CancelMany rest (AList.update i r results) c'))"

section \<open>Rerun\<close>

definition Rerun ::
    "op_env \<Rightarrow> (nat \<Rightarrow> string) \<Rightarrow> string \<Rightarrow> string \<Rightarrow> Controller
      \<Rightarrow> ((ctrl_error + Execution option) \<times> Controller) option" where
  "Rerun env gen i requestedBy c =
     (case Find (c_store c) i of
        None \<Rightarrow> Some (Inl ErrExecutionNotFound, c)
      | Some previous \<Rightarrow>
        (case findJob (c_cfg c) (ex_JobID previous) of
           None \<Rightarrow> Some (Inl (ErrJobGone (ex_JobID previous)), c)
         | Some job \<Rightarrow>
           (case find (\<lambda>(name, value). value \<noteq> '''' \<and> name \<notin> set (map par_ID (job_Parameters job)))
                      (ex_Parameters previous) of
              Some (name, _) \<Rightarrow> Some (Inl (ErrParameterGone (job_ID job) name), c)
            | None \<Rightarrow>
                Enqueue env gen (job_ID job) (parameterValuesToQuery (ex_Parameters previous)) requestedBy c)))"

section \<open>Resolve\<close>

definition resolve_execution :: "time \<Rightarrow> string \<Rightarrow> Execution \<Rightarrow> Execution" where
  "resolve_execution now note e =
     (let e = e\<lparr>ex_NeedsAttention := False, ex_Attention := ''''\<rparr> in
      if isExecutionTerminal (ex_Status e) then e
      else e\<lparr>ex_Status := StatusAborted, ex_FinishedAt := now, ex_LogComplete := True,
             ex_FailureReason := FailureReasonAgent,
             ex_Error := (if note = '''' then ''operator resolved an unverifiable agent execution'' else note)\<rparr>)"

definition ResolveAttention_txn :: "time \<Rightarrow> string \<Rightarrow> string \<Rightarrow> unit txn" where
  "ResolveAttention_txn now i note st =
     ((), case find_execution st i of
            None \<Rightarrow> Inl ErrExecutionNotFound
          | Some execution \<Rightarrow>
              if \<not> ex_NeedsAttention execution then Inl ErrNotBlockedOnAttention
              else Inr (update_execution i (resolve_execution now note) st))"

definition ResolveAttention ::
    "op_env \<Rightarrow> string \<Rightarrow> string \<Rightarrow> Controller \<Rightarrow> (ctrl_error + Execution option) \<times> Controller" where
  "ResolveAttention env i note c =
     (case mutate (op_io env) (ResolveAttention_txn (op_now env) i note) (c_store c) of
        (_, Some err, s') \<Rightarrow> (Inl err, c\<lparr>c_store := s'\<rparr>)
      | (_, None, s') \<Rightarrow> apfst Inr (schedule_and_find (op_sched env) i (c\<lparr>c_store := s'\<rparr>)))"

section \<open>Transactions keep the invariants\<close>

lemmas cancel_defs = cancel_queued_def cancel_assigned_def cancel_running_def request_cancel_def

lemma find_lifecycle: "snapshot_ok st \<Longrightarrow> find_execution st i = Some e \<Longrightarrow> lifecycle_ok e"
  using find_execution_Some by (auto simp: snapshot_ok_def lifecycle_def)

lemma cancel_ids [simp]:
  "ex_ID (cancel_queued now e) = ex_ID e" "ex_ID (cancel_assigned now e) = ex_ID e"
  "ex_ID (cancel_running now e) = ex_ID e" "ex_ID (resolve_execution now note e) = ex_ID e"
  by (simp_all add: cancel_defs resolve_execution_def Let_def)

lemma cancel_queued_ok:
  "ex_Status e = StatusQueued \<Longrightarrow> lifecycle_ok e \<Longrightarrow>
     lifecycle_ok (cancel_queued now e) \<and> \<not> active_ex (cancel_queued now e) \<and> evolves e (cancel_queued now e)"
  by (auto simp: lifecycle_ok_def cancel_queued_def active_ex_def terminal_ex_def evolves_def work_packet_def)

lemma cancel_assigned_ok:
  "ex_Status e = StatusAssigned \<Longrightarrow> lifecycle_ok e \<Longrightarrow>
     lifecycle_ok (cancel_assigned now e) \<and> \<not> active_ex (cancel_assigned now e)
     \<and> evolves e (cancel_assigned now e)"
  by (auto simp: lifecycle_ok_def cancel_assigned_def request_cancel_def Let_def active_ex_def
      terminal_ex_def evolves_def work_packet_def)

lemma cancel_running_ok:
  "ex_Status e = StatusRunning \<or> ex_Status e = StatusCanceling \<Longrightarrow> lifecycle_ok e \<Longrightarrow>
     lifecycle_ok (cancel_running now e) \<and> active_ex e
     \<and> ex_AgentID (cancel_running now e) = ex_AgentID e \<and> evolves e (cancel_running now e)"
  by (auto simp: lifecycle_ok_def cancel_running_def request_cancel_def active_ex_def terminal_ex_def
      evolves_def work_packet_def)

lemma resolve_execution_ok:
  "lifecycle_ok e \<Longrightarrow>
     lifecycle_ok (resolve_execution now note e) \<and> \<not> active_ex (resolve_execution now note e)
     \<and> evolves e (resolve_execution now note e)"
  by (cases "isExecutionTerminal (ex_Status e)")
     (auto simp: lifecycle_ok_def resolve_execution_def Let_def active_ex_def terminal_ex_def evolves_def
       work_packet_def outcome_def isExecutionTerminal_def split: if_splits)

lemma Cancel_txn_ok [inv_intros]:
  assumes "snapshot_ok st" "Cancel_txn now i st = (r, Inr st')"
  shows "snapshot_ok st' \<and> forward st st'"
proof -
  from assms(2) obtain e where e: "find_execution st i = Some e"
    by (auto simp: Cancel_txn_def split: option.splits)
  have l: "lifecycle_ok e" using assms(1) e by (rule find_lifecycle)
  have u: "unique_ids st" using assms(1) by (simp add: snapshot_ok_def)
  have upd: "snapshot_ok (update_execution i f st) \<and> forward st (update_execution i f st)"
    if "\<And>e. ex_ID (f e) = ex_ID e"
       "lifecycle_ok (f e) \<and> (active_ex (f e) \<longrightarrow> active_ex e \<and> ex_AgentID (f e) = ex_AgentID e) \<and> evolves e (f e)" for f
    using that assms(1) e u
    by (auto intro!: snapshot_ok_update_execution forward_update_execution)
  from assms(2) e consider
      "ex_Status e = StatusQueued" "st' = update_execution i (cancel_queued now) st"
    | "ex_Status e = StatusAssigned" "st' = update_execution i (cancel_assigned now) st"
    | "ex_Status e = StatusRunning \<or> ex_Status e = StatusCanceling" "st' = update_execution i (cancel_running now) st"
    by (auto simp: Cancel_txn_def split: if_splits)
  then show ?thesis
  proof cases
    case 1
    then show ?thesis using upd [of "cancel_queued now"] cancel_queued_ok [OF _ l] by simp
  next
    case 2
    then show ?thesis using upd [of "cancel_assigned now"] cancel_assigned_ok [OF _ l] by simp
  next
    case 3
    then show ?thesis using upd [of "cancel_running now"] cancel_running_ok [OF _ l] by simp
  qed
qed

lemma ResolveAttention_txn_ok [inv_intros]:
  assumes "snapshot_ok st" "ResolveAttention_txn now i note st = (r, Inr st')"
  shows "snapshot_ok st' \<and> forward st st'"
proof -
  from assms(2) obtain e where e: "find_execution st i = Some e"
    and st': "st' = update_execution i (resolve_execution now note) st"
    by (auto simp: ResolveAttention_txn_def split: option.splits if_splits)
  have "lifecycle_ok e" using assms(1) e by (rule find_lifecycle)
  with assms(1) e st' show ?thesis
    by (auto intro!: snapshot_ok_update_execution forward_update_execution simp: resolve_execution_ok snapshot_ok_unique)
qed

lemma snapshot_ok_append:
  assumes "snapshot_ok st" "find_execution st (ex_ID e) = None" "lifecycle_ok e" "\<not> active_ex e"
  shows "snapshot_ok (st\<lparr>sd_Executions := sd_Executions st @ [e]\<rparr>)"
  using assms
  by (auto simp: snapshot_ok_def unique_ids_def one_active_def lifecycle_def find_execution_None)

lemma forward_append:
  assumes "unique_ids st" "find_execution st (ex_ID e) = None" "newborn e"
  shows "forward st (st\<lparr>sd_Executions := sd_Executions st @ [e]\<rparr>)"
  using assms by (auto simp: forward_def unique_ids_def find_unique split: option.splits)

lemma new_execution_simps [simp]:
  "ex_ID (new_execution now job r u i) = i"
  "ex_Status (new_execution now job r u i) = StatusQueued"
  "lifecycle_ok (new_execution now job r u i)"
  "newborn (new_execution now job r u i)"
  "\<not> active_ex (new_execution now job r u i)"
  by (simp_all add: new_execution_def lifecycle_ok_def newborn_def active_ex_def)

lemma Enqueue_txn_ok [inv_intros]:
  assumes "snapshot_ok st" "find_execution st i = None"
    and "Enqueue_txn (new_execution now job resolved user i) st = (r, Inr st')"
  shows "snapshot_ok st' \<and> forward st st'"
  using assms by (auto simp: Enqueue_txn_def snapshot_ok_append forward_append snapshot_ok_unique)

section \<open>Drawing a fresh identifier\<close>

lemma fresh_id_Some: "fresh_id gen st n = Some i \<Longrightarrow> find_execution st i = None \<and> (\<exists>k \<ge> n. i = gen k)"
proof -
  assume ret: "fresh_id gen st n = Some i"
  show ?thesis
  proof (rule fresh_id.raw_induct
      [where P = "\<lambda>gen st n i. find_execution st i = None \<and> (\<exists>k \<ge> n. i = gen k)", OF _ ret])
    fix f gen n i
    fix st :: controllerStateData
    assume IH: "\<And>gen st n i. f gen st n = Some i \<Longrightarrow> find_execution st i = None \<and> (\<exists>k \<ge> n. i = gen k)"
      and eq: "(case find_execution st (gen n) of None \<Rightarrow> Some (gen n) | Some _ \<Rightarrow> f gen st (Suc n)) = Some i"
    show "find_execution st i = None \<and> (\<exists>k \<ge> n. i = gen k)"
    proof (cases "find_execution st (gen n)")
      case None
      with eq show ?thesis by auto
    next
      case (Some e)
      with eq IH [of gen st "Suc n" i] show ?thesis by (auto intro: Suc_leD)
    qed
  qed
qed

text \<open>The loop ends as soon as the supply offers an unused identifier.\<close>

lemma fresh_id_returns:
  "find_execution st (gen (n + k)) = None \<Longrightarrow> \<exists>i. fresh_id gen st n = Some i"
proof (induction k arbitrary: n)
  case 0
  then show ?case by (simp add: fresh_id.simps)
next
  case (Suc k)
  from Suc.IH [of "Suc n"] Suc.prems have "\<exists>i. fresh_id gen st (Suc n) = Some i" by simp
  then show ?case by (subst fresh_id.simps) (auto split: option.splits)
qed

text \<open>A supply without repetition offers one within as many draws as there are executions, plus
  one.\<close>

lemma fresh_draw_exists:
  fixes gen :: "nat \<Rightarrow> string"
  assumes "inj gen"
  shows "\<exists>k. find_execution st (gen k) = None"
proof (rule ccontr)
  assume "\<not> ?thesis"
  then have "range gen \<subseteq> ex_ID ` set (sd_Executions st)" by (auto simp: find_execution_None)
  then have "finite (range gen)" by (rule finite_subset) simp
  with assms show False using finite_imageD [of gen UNIV] by simp
qed

end
