(* ===== verification/Ctrl_AgentOps.thy ===== *)
theory Ctrl_AgentOps
  imports Ctrl_Queue
begin

text \<open>
  What the controller does on behalf of an agent, \<^verbatim>\<open>ctrlagentops.go\<close>: handing out the
  assignment, reconciling what the agent still knows, granting the start permit, accepting log
  chunks at byte offsets, and accepting the result.  Offsets are 64-bit integers with Go's
  wrap-around; the request's offset is whatever the agent sent.
\<close>

section \<open>Reading\<close>

record AgentAssignment =
  asg_ExecutionID :: string
  asg_JobID :: string
  asg_JobName :: string
  asg_Script :: string
  asg_TimeoutText :: string
  asg_WorkdirPath :: string
  asg_Parameters :: "string gomap"
  asg_Env :: "string gomap"
  asg_AssignedAt :: time

definition AssignmentFor :: "controllerStateData \<Rightarrow> string \<Rightarrow> AgentAssignment option" where
  "AssignmentFor st agentID =
     (case find (\<lambda>e. ex_AgentID e = agentID
                 \<and> \<not> (ex_Status e \<noteq> StatusAssigned \<or> ex_PermitRevoked e \<or> ex_CancelRequested e))
                (sd_Executions st) of
        None \<Rightarrow> None
      | Some e \<Rightarrow>
          Some \<lparr>asg_ExecutionID = ex_ID e, asg_JobID = ex_JobID e, asg_JobName = ex_JobName e,
                asg_Script = ex_Script e, asg_TimeoutText = ex_TimeoutText e,
                asg_WorkdirPath = ex_WorkdirPath e, asg_Parameters = ex_Parameters e,
                asg_Env = ex_ParameterEnv e, asg_AssignedAt = ex_AssignedAt e\<rparr>)"

definition CancelRequestsFor :: "controllerStateData \<Rightarrow> string \<Rightarrow> string list" where
  "CancelRequestsFor st agentID =
     sort (map ex_ID (filter (\<lambda>e. ex_AgentID e = agentID \<and> ex_CancelRequested e
                                  \<and> \<not> isExecutionTerminal (ex_Status e)) (sd_Executions st)))"

section \<open>Reconcile\<close>

definition lost_message :: "string \<Rightarrow> string" where
  "lost_message agentID =
     ''agent '' @ agentID
     @ '' no longer tracks this execution after its start permit was granted; outcome is unknown''"

definition requeue :: "Execution \<Rightarrow> Execution" where
  "requeue e = e\<lparr>ex_Status := StatusQueued, ex_AgentID := '''', ex_AssignedAt := 0, ex_PermitRevoked := False\<rparr>"

definition escalate :: "string \<Rightarrow> Execution \<Rightarrow> Execution" where
  "escalate agentID e = e\<lparr>ex_NeedsAttention := True, ex_Attention := lost_message agentID\<rparr>"

text \<open>The loop over the executions: the identifiers acted on, and the executions afterwards.  The
  flag \<^verbatim>\<open>changed\<close> of the source is set exactly when an identifier is appended.\<close>

fun reconcile_loop :: "string \<Rightarrow> string list \<Rightarrow> Execution list \<Rightarrow> string list \<times> Execution list" where
  "reconcile_loop agentID known [] = ([], [])"
| "reconcile_loop agentID known (e # rest) =
     (case reconcile_loop agentID known rest of
        (unknown, rest') \<Rightarrow>
          if ex_AgentID e \<noteq> agentID then (unknown, e # rest')
          else if isExecutionTerminal (ex_Status e) \<or> ex_ID e \<in> set known then (unknown, e # rest')
          else if \<not> ex_PermitGranted e then (ex_ID e # unknown, requeue e # rest')
          else if \<not> ex_NeedsAttention e then (ex_ID e # unknown, escalate agentID e # rest')
          else (unknown, e # rest'))"

definition Reconcile_txn :: "string \<Rightarrow> string list \<Rightarrow> (string list) txn" where
  "Reconcile_txn agentID known st =
     (case reconcile_loop agentID known (sd_Executions st) of
        (unknown, executions) \<Rightarrow>
          (unknown, if unknown = [] then Inl ErrNoStateChange else Inr (st\<lparr>sd_Executions := executions\<rparr>)))"

definition Reconcile ::
    "io_env \<Rightarrow> string \<Rightarrow> string list \<Rightarrow> Controller \<Rightarrow> (ctrl_error + string list) \<times> Controller" where
  "Reconcile io agentID known c =
     (case mutate io (Reconcile_txn agentID known) (c_store c) of
        (unknown, err, s') \<Rightarrow>
          (if err \<noteq> None \<and> err \<noteq> Some ErrNoStateChange then Inl (the err) else Inr (sort unknown),
           c\<lparr>c_store := s'\<rparr>))"

section \<open>The start permit\<close>

record AgentPermitResponse =
  prm_Granted :: bool
  prm_Reason :: string
  prm_AlreadyGranted :: bool

definition no_permit :: AgentPermitResponse where
  "no_permit = \<lparr>prm_Granted = False, prm_Reason = '''', prm_AlreadyGranted = False\<rparr>"

definition grant :: "time \<Rightarrow> Execution \<Rightarrow> Execution" where
  "grant now e = e\<lparr>ex_PermitGranted := True, ex_Status := StatusRunning, ex_StartedAt := now\<rparr>"

definition GrantPermit_txn :: "time \<Rightarrow> string \<Rightarrow> string \<Rightarrow> AgentPermitResponse txn" where
  "GrantPermit_txn now agentID executionID st =
     (case find_execution st executionID of
        None \<Rightarrow> (no_permit, Inl ErrExecutionNotFound)
      | Some execution \<Rightarrow>
          if ex_AgentID execution \<noteq> agentID then (no_permit, Inl ErrNotExecutionOwner)
          else if ex_PermitRevoked execution \<or> ex_CancelRequested execution then
            (no_permit\<lparr>prm_Reason := ''cancellation was requested before the start permit''\<rparr>,
             Inl ErrNoStateChange)
          else if ex_Status execution = StatusAssigned then
            (no_permit\<lparr>prm_Granted := True\<rparr>, Inr (update_execution executionID (grant now) st))
          else if ex_Status execution = StatusRunning then
            (no_permit\<lparr>prm_Granted := True, prm_AlreadyGranted := True\<rparr>, Inl ErrNoStateChange)
          else (no_permit\<lparr>prm_Reason := ''execution is '' @ ex_Status execution\<rparr>, Inl ErrNoStateChange))"

definition GrantPermit ::
    "op_env \<Rightarrow> string \<Rightarrow> string \<Rightarrow> Controller \<Rightarrow> (ctrl_error + AgentPermitResponse) \<times> Controller" where
  "GrantPermit env agentID executionID c =
     (case mutate (op_io env) (GrantPermit_txn (op_now env) agentID executionID) (c_store c) of
        (response, err, s') \<Rightarrow>
          (if err \<noteq> None \<and> err \<noteq> Some ErrNoStateChange then Inl (the err) else Inr response,
           c\<lparr>c_store := s'\<rparr>))"

section \<open>Heartbeat\<close>

record AgentHeartbeatResponse =
  hb_CancelRequested :: bool
  hb_Known :: bool
  hb_Status :: string
  hb_AckOffset :: int

definition Heartbeat ::
    "time \<Rightarrow> string \<Rightarrow> string \<Rightarrow> string \<Rightarrow> Controller \<Rightarrow> AgentHeartbeatResponse \<times> Controller" where
  "Heartbeat now agentID version executionID c0 =
     (let c = markAgentSeen now agentID version c0;
          response = \<lparr>hb_CancelRequested = False, hb_Known = False, hb_Status = '''', hb_AckOffset = 0\<rparr>
      in if executionID = '''' then (response, c)
         else
           let response =
                 (case find_execution (st_data (c_store c)) executionID of
                    None \<Rightarrow> response
                  | Some execution \<Rightarrow>
                      if ex_AgentID execution \<noteq> agentID then response
                      else response\<lparr>hb_Known := True, hb_Status := ex_Status execution,
                                    hb_CancelRequested := ex_CancelRequested execution,
                                    hb_AckOffset := ex_LogOffset execution\<rparr>);
               response =
                 (case executionLogSize (st_logs (c_store c)) (rt_LogDir (c_runtime c)) executionID of
                    None \<Rightarrow> response | Some n \<Rightarrow> response\<lparr>hb_AckOffset := n\<rparr>)
           in (response, c))"

section \<open>The log\<close>

definition requireExecutionOwner :: "controllerStateData \<Rightarrow> string \<Rightarrow> string \<Rightarrow> ctrl_error option" where
  "requireExecutionOwner st agentID executionID =
     (case find_execution st executionID of
        None \<Rightarrow> Some ErrExecutionNotFound
      | Some execution \<Rightarrow> if ex_AgentID execution \<noteq> agentID then Some ErrNotExecutionOwner else None)"

definition requireLogAppendable :: "controllerStateData \<Rightarrow> string \<Rightarrow> ctrl_error option" where
  "requireLogAppendable st executionID =
     (case find_execution st executionID of
        None \<Rightarrow> Some ErrExecutionNotFound
      | Some execution \<Rightarrow> if ex_LogComplete execution then Some ErrLogClosed else None)"

definition logTruncationState :: "controllerStateData \<Rightarrow> string \<Rightarrow> bool \<times> int" where
  "logTruncationState st executionID =
     (case find_execution st executionID of
        None \<Rightarrow> (False, 0)
      | Some execution \<Rightarrow> (ex_LogTruncated execution, ex_LogOffset execution))"

definition markLogTruncated_txn :: "string \<Rightarrow> unit txn" where
  "markLogTruncated_txn executionID st =
     ((), case find_execution st executionID of
            None \<Rightarrow> Inl ErrExecutionNotFound
          | Some execution \<Rightarrow>
              if ex_LogTruncated execution then Inl ErrNoStateChange
              else Inr (update_execution executionID (\<lambda>e. e\<lparr>ex_LogTruncated := True\<rparr>) st))"

definition markLogTruncated :: "io_env \<Rightarrow> string \<Rightarrow> ControllerStore \<Rightarrow> ctrl_error option \<times> ControllerStore" where
  "markLogTruncated io executionID s =
     (case mutate io (markLogTruncated_txn executionID) s of
        (_, err, s') \<Rightarrow> (if err = Some ErrNoStateChange then None else err, s'))"

text \<open>The system calls on the log file: opening and stating may fail; a failing \<^verbatim>\<open>WriteAt\<close> leaves
  the given number of bytes written.\<close>

record log_io =
  li_open :: bool
  li_stat :: bool
  li_payload :: "nat option"
  li_notice :: "nat option"
  li_sync :: bool

definition log_io_ok :: log_io where
  "log_io_ok = \<lparr>li_open = False, li_stat = False, li_payload = None, li_notice = None, li_sync = False\<rparr>"

record AgentLogRequest =
  lrq_AgentID :: string
  lrq_ExecutionID :: string
  lrq_Offset :: int
  lrq_Data :: string

definition truncation_notice :: "int \<Rightarrow> string" where
  "truncation_notice maxLogBytes =
     [CHR 0x0A] @ ''[builda] log truncated at '' @ dec maxLogBytes
     @ '' bytes (server.max_log_bytes); the agent kept its full local copy'' @ [CHR 0x0A]"

text \<open>Writing at the end of the file: the content afterwards, and whether the write succeeded.\<close>

definition append_bytes :: "nat option \<Rightarrow> string \<Rightarrow> string \<Rightarrow> string \<times> bool" where
  "append_bytes fault bytes file =
     (case fault of None \<Rightarrow> (file @ bytes, True) | Some n \<Rightarrow> (file @ take n bytes, False))"

text \<open>What is to be written for a chunk that starts at or before the end of the file: the part that
  fits, whether the cap cuts it off, and the offset to acknowledge.\<close>

definition cap_payload :: "int \<Rightarrow> int \<Rightarrow> string \<Rightarrow> string \<times> bool" where
  "cap_payload maxLogBytes sz payload =
     (if wrap64 (sz + int (length payload)) > maxLogBytes
      then (take (nat (max 0 (wrap64 (maxLogBytes - sz)))) payload, True)
      else (payload, False))"

definition put_log :: "string \<Rightarrow> string \<Rightarrow> Controller \<Rightarrow> Controller" where
  "put_log path bytes c =
     c\<lparr>c_store := (c_store c)\<lparr>st_logs := AList.update path bytes (st_logs (c_store c))\<rparr>\<rparr>"

text \<open>The end of \<^verbatim>\<open>AppendLog\<close>, once the new part of the chunk is known: cap it, write it and the
  notice, sync, mark the execution truncated, and record the offset.\<close>

definition store_chunk ::
    "log_io \<Rightarrow> io_env \<Rightarrow> string \<Rightarrow> string \<Rightarrow> string \<Rightarrow> string \<Rightarrow> Controller \<Rightarrow> (ctrl_error + int) \<times> Controller" where
  "store_chunk lio io i path file payload c =
     (let sz = int (length file);
          maxLogBytes = rt_MaxLogBytes (c_runtime c);
          acked = wrap64 (sz + int (length payload))
      in case cap_payload maxLogBytes sz payload of
        (stored, trunc) \<Rightarrow>
          (case (if stored = '''' then (file, True) else append_bytes (li_payload lio) stored file) of
             (file1, False) \<Rightarrow> (Inl ErrIO, put_log path file1 c)
           | (file1, True) \<Rightarrow>
               (case (if trunc then append_bytes (li_notice lio) (truncation_notice maxLogBytes) file1
                      else (file1, True)) of
                  (file2, False) \<Rightarrow> (Inl ErrIO, put_log path file2 c)
                | (file2, True) \<Rightarrow>
                    if li_sync lio then (Inl ErrIO, put_log path file2 c)
                    else
                      (case (if trunc then markLogTruncated io i (c_store (put_log path file2 c))
                             else (None, c_store (put_log path file2 c))) of
                         (Some err, s') \<Rightarrow> (Inl err, c\<lparr>c_store := s'\<rparr>)
                       | (None, s') \<Rightarrow> (Inr acked, c\<lparr>c_store := SetLogOffset i acked s'\<rparr>)))))"

definition AppendLog ::
    "log_io \<Rightarrow> io_env \<Rightarrow> string \<Rightarrow> AgentLogRequest \<Rightarrow> Controller \<Rightarrow> (ctrl_error + int) \<times> Controller" where
  "AppendLog lio io agentID request c =
     (let st = st_data (c_store c); i = lrq_ExecutionID request in
      case requireExecutionOwner st agentID i of
        Some err \<Rightarrow> (Inl err, c)
      | None \<Rightarrow>
      (case requireLogAppendable st i of
        Some err \<Rightarrow> (Inl err, c)
      | None \<Rightarrow>
        (case logTruncationState st i of (truncated, offset) \<Rightarrow>
         if truncated then
           (Inr (let acked = wrap64 (lrq_Offset request + int (length (lrq_Data request)))
                 in if acked < offset then offset else acked), c)
         else if li_open lio then (Inl ErrIO, c)
         else
           let path = executionLogPath (rt_LogDir (c_runtime c)) i;
               file = (case map_of (st_logs (c_store c)) path of None \<Rightarrow> '''' | Some bytes \<Rightarrow> bytes);
               sz = int (length file)
           in if li_stat lio then (Inl ErrIO, put_log path file c)
           else if lrq_Offset request > sz then (Inr sz, put_log path file c)
           else
             let skip = wrap64 (sz - lrq_Offset request) in
             if skip \<ge> int (length (lrq_Data request)) then (Inr sz, put_log path file c)
             else if skip < 0 then (Inl PanicSliceBounds, put_log path file c)
             else store_chunk lio io i path file (drop (nat skip) (lrq_Data request)) c)))"

section \<open>The result\<close>

record AgentResultRequest =
  rrq_AgentID :: string
  rrq_ExecutionID :: string
  rrq_Status :: string
  rrq_ExitCode :: int
  rrq_Error :: string
  rrq_FailureReason :: string
  rrq_LogLength :: int

record AgentResultResponse =
  rrs_Accepted :: bool
  rrs_AckOffset :: int
  rrs_Reason :: string

definition normalizeResultStatus :: "string \<Rightarrow> ctrl_error + string" where
  "normalizeResultStatus status =
     (if status \<in> set [StatusSuccess, StatusFailed, StatusCanceled, StatusAborted] then Inr status
      else Inl (ErrInvalidResultStatus status))"

definition finish :: "time \<Rightarrow> AgentResultRequest \<Rightarrow> string \<Rightarrow> int \<Rightarrow> Execution \<Rightarrow> Execution" where
  "finish now request status sz e =
     (let final = (if ex_CancelRequested e \<and> status \<noteq> StatusSuccess then StatusCanceled else status);
          e = e\<lparr>ex_Status := final, ex_ExitCode := rrq_ExitCode request, ex_Error := rrq_Error request,
                ex_FailureReason := rrq_FailureReason request, ex_FinishedAt := now,
                ex_LogOffset := sz, ex_LogComplete := True, ex_NeedsAttention := False,
                ex_Attention := ''''\<rparr>
      in if final = StatusCanceled \<and> ex_CanceledAt e = 0 then e\<lparr>ex_CanceledAt := ex_FinishedAt e\<rparr> else e)"

definition SubmitResult_txn :: "time \<Rightarrow> AgentResultRequest \<Rightarrow> string \<Rightarrow> int \<Rightarrow> unit txn" where
  "SubmitResult_txn now request status sz st =
     ((), case find_execution st (rrq_ExecutionID request) of
            None \<Rightarrow> Inl ErrExecutionNotFound
          | Some execution \<Rightarrow>
              if isExecutionTerminal (ex_Status execution) then Inl ErrNoStateChange
              else Inr (update_execution (rrq_ExecutionID request) (finish now request status sz) st))"

definition SubmitResult ::
    "bool \<Rightarrow> op_env \<Rightarrow> string \<Rightarrow> AgentResultRequest \<Rightarrow> Controller
      \<Rightarrow> (ctrl_error + AgentResultResponse) \<times> Controller" where
  "SubmitResult stat_fails env agentID request c =
     (let st = st_data (c_store c); i = rrq_ExecutionID request in
      case requireExecutionOwner st agentID i of
        Some err \<Rightarrow> (Inl err, c)
      | None \<Rightarrow>
        if stat_fails then (Inl ErrIO, c)
        else
          let sz = (case executionLogSize (st_logs (c_store c)) (rt_LogDir (c_runtime c)) i of
                        None \<Rightarrow> 0 | Some n \<Rightarrow> n)
          in if \<not> fst (logTruncationState st i) \<and> sz \<noteq> rrq_LogLength request then
               (Inr \<lparr>rrs_Accepted = False, rrs_AckOffset = sz,
                     rrs_Reason = ''controller holds '' @ dec sz @ '' of ''
                                  @ dec (rrq_LogLength request) @ '' log bytes''\<rparr>, c)
             else case normalizeResultStatus (rrq_Status request) of
               Inl err \<Rightarrow> (Inl err, c)
             | Inr status \<Rightarrow>
                 (case mutate (op_io env) (SubmitResult_txn (op_now env) request status sz) (c_store c) of
                    (_, err, s') \<Rightarrow>
                      if err \<noteq> None \<and> err \<noteq> Some ErrNoStateChange then (Inl (the err), c\<lparr>c_store := s'\<rparr>)
                      else (Inr \<lparr>rrs_Accepted = True, rrs_AckOffset = sz, rrs_Reason = ''''\<rparr>,
                            snd (scheduleOnce (op_sched env) (c\<lparr>c_store := s'\<rparr>)))))"

section \<open>Attention\<close>

definition ReportAttention_txn :: "string \<Rightarrow> string \<Rightarrow> string \<Rightarrow> unit txn" where
  "ReportAttention_txn agentID executionID message st =
     ((), case find_execution st executionID of
            None \<Rightarrow> Inl ErrExecutionNotFound
          | Some execution \<Rightarrow>
              if ex_AgentID execution \<noteq> agentID then Inl ErrNotExecutionOwner
              else if isExecutionTerminal (ex_Status execution) then Inl ErrNoStateChange
              else Inr (update_execution executionID
                          (\<lambda>e. e\<lparr>ex_NeedsAttention := True, ex_Attention := message\<rparr>) st))"

definition ReportAttention ::
    "io_env \<Rightarrow> string \<Rightarrow> string \<Rightarrow> string \<Rightarrow> Controller \<Rightarrow> ctrl_error option \<times> Controller" where
  "ReportAttention io agentID executionID message c =
     (case mutate io (ReportAttention_txn agentID executionID message) (c_store c) of
        (_, err, s') \<Rightarrow> (err, c\<lparr>c_store := s'\<rparr>))"

section \<open>Transactions keep the invariants\<close>

lemma reconcile_loop_ids [simp]:
  "map ex_ID (snd (reconcile_loop a known es)) = map ex_ID es"
  by (induction es) (auto simp: requeue_def escalate_def split: prod.splits)

lemma reconcile_loop_elem:
  "e' \<in> set (snd (reconcile_loop a known es)) \<Longrightarrow>
     e' \<in> set es
     \<or> (\<exists>e \<in> set es. ex_AgentID e = a \<and> \<not> terminal_ex e \<and> ex_ID e \<notin> set known \<and> \<not> ex_PermitGranted e \<and> e' = requeue e)
     \<or> (\<exists>e \<in> set es. ex_AgentID e = a \<and> \<not> terminal_ex e \<and> ex_ID e \<notin> set known \<and> ex_PermitGranted e
          \<and> \<not> ex_NeedsAttention e \<and> e' = escalate a e)"
proof (induction es)
  case (Cons e es)
  obtain u es' where r: "reconcile_loop a known es = (u, es')" by fastforce
  show ?case
  proof (cases "e' \<in> set es'")
    case True
    with Cons.IH r show ?thesis by auto
  next
    case False
    with Cons.prems r show ?thesis by (auto simp: terminal_ex_def split: if_splits)
  qed
qed simp

lemma reconcile_loop_active:
  "distinct (map ex_AgentID (filter active_ex es)) \<Longrightarrow>
     distinct (map ex_AgentID (filter active_ex (snd (reconcile_loop a known es)))) \<and>
     set (map ex_AgentID (filter active_ex (snd (reconcile_loop a known es))))
       \<subseteq> set (map ex_AgentID (filter active_ex es))"
proof (induction es)
  case (Cons e es)
  obtain u es' where r: "reconcile_loop a known es = (u, es')" by fastforce
  have "\<not> active_ex (requeue e)" by (simp add: requeue_def active_ex_def)
  moreover have "active_ex (escalate a e) = active_ex e" "ex_AgentID (escalate a e) = ex_AgentID e"
    by (simp_all add: escalate_def active_ex_def)
  ultimately show ?case using Cons r by (auto split: if_splits)
qed simp

lemma requeue_ok:
  "lifecycle_ok e \<Longrightarrow> \<not> terminal_ex e \<Longrightarrow> \<not> ex_PermitGranted e \<Longrightarrow>
     lifecycle_ok (requeue e) \<and> evolves e (requeue e)"
  by (auto simp: lifecycle_ok_def requeue_def evolves_def work_packet_def split: if_splits)

lemma escalate_ok:
  "lifecycle_ok e \<Longrightarrow> \<not> terminal_ex e \<Longrightarrow> lifecycle_ok (escalate a e) \<and> evolves e (escalate a e)"
  by (auto simp: lifecycle_ok_def escalate_def evolves_def work_packet_def terminal_ex_def split: if_splits)

lemma Reconcile_txn_ok [inv_intros]:
  assumes ok: "snapshot_ok st" and txn: "Reconcile_txn a known st = (r, Inr st')"
  shows "snapshot_ok st' \<and> forward st st'"
proof -
  from txn have st': "st' = st\<lparr>sd_Executions := snd (reconcile_loop a known (sd_Executions st))\<rparr>"
    by (auto simp: Reconcile_txn_def split: prod.splits if_splits)
  have elem: "lifecycle_ok e' \<and> (\<exists>e \<in> set (sd_Executions st). ex_ID e = ex_ID e' \<and> evolves e e')"
    if "e' \<in> set (sd_Executions st')" for e'
  proof -
    have l: "\<And>e. e \<in> set (sd_Executions st) \<Longrightarrow> lifecycle_ok e"
      using ok by (simp add: snapshot_ok_def lifecycle_def)
    from that st' have "e' \<in> set (snd (reconcile_loop a known (sd_Executions st)))" by simp
    from reconcile_loop_elem [OF this] show ?thesis
      using l requeue_ok escalate_ok evolves_id by (metis evolves_refl)
  qed
  then have "lifecycle st'" by (simp add: lifecycle_def)
  moreover have "unique_ids st'" using ok st' by (simp add: snapshot_ok_def unique_ids_def)
  moreover have "one_active st'"
    using ok st' reconcile_loop_active [of "sd_Executions st" a known] by (simp add: snapshot_ok_def one_active_def)
  moreover have "forward st st'"
    unfolding forward_def
  proof
    fix e' assume "e' \<in> set (sd_Executions st')"
    with elem obtain e where "e \<in> set (sd_Executions st)" "ex_ID e = ex_ID e'" "evolves e e'" by blast
    with ok show "case find_execution st (ex_ID e') of None \<Rightarrow> newborn e' | Some e \<Rightarrow> evolves e e'"
      using find_unique [of st e] by (simp add: snapshot_ok_def unique_ids_def)
  qed
  ultimately show ?thesis by (simp add: snapshot_ok_def)
qed

text \<open>Transactions that write one execution: what its new record must satisfy.\<close>

lemma update_txn_ok:
  assumes ok: "snapshot_ok st" and e: "find_execution st i = Some e"
    and id: "\<And>e. ex_ID (f e) = ex_ID e"
    and f: "lifecycle_ok e \<Longrightarrow> lifecycle_ok (f e) \<and> evolves e (f e)
              \<and> (active_ex (f e) \<longrightarrow> active_ex e \<and> ex_AgentID (f e) = ex_AgentID e)"
  shows "snapshot_ok (update_execution i f st) \<and> forward st (update_execution i f st)"
proof -
  have "lifecycle_ok e" using ok e by (rule find_lifecycle)
  with f id e ok show ?thesis
    by (auto intro!: snapshot_ok_update_execution forward_update_execution simp: snapshot_ok_unique)
qed

lemma grant_ok:
  "ex_Status e = StatusAssigned \<Longrightarrow> lifecycle_ok e \<Longrightarrow>
     lifecycle_ok (grant now e) \<and> evolves e (grant now e) \<and> active_ex e"
  by (auto simp: lifecycle_ok_def grant_def evolves_def work_packet_def active_ex_def terminal_ex_def)

lemma GrantPermit_txn_ok [inv_intros]:
  assumes "snapshot_ok st" "GrantPermit_txn now a i st = (r, Inr st')"
  shows "snapshot_ok st' \<and> forward st st'"
proof -
  from assms(2) obtain e where e: "find_execution st i = Some e" "ex_Status e = StatusAssigned"
    and st': "st' = update_execution i (grant now) st"
    by (auto simp: GrantPermit_txn_def split: option.splits if_splits)
  have id: "\<And>e. ex_ID (grant now e) = ex_ID e" by (simp add: grant_def)
  show ?thesis
    unfolding st' using assms(1) e(1) id
    by (rule update_txn_ok) (use e grant_ok in \<open>auto simp: grant_def\<close>)
qed

lemma finish_id [simp]: "ex_ID (finish now rq status sz e) = ex_ID e"
  by (simp add: finish_def Let_def)

lemma finish_simps [simp]:
  "ex_Status (finish now rq status sz e) =
     (if ex_CancelRequested e \<and> status \<noteq> StatusSuccess then StatusCanceled else status)"
  "ex_AgentID (finish now rq status sz e) = ex_AgentID e"
  "ex_PermitGranted (finish now rq status sz e) = ex_PermitGranted e"
  "ex_PermitRevoked (finish now rq status sz e) = ex_PermitRevoked e"
  "ex_CancelRequested (finish now rq status sz e) = ex_CancelRequested e"
  "ex_LogComplete (finish now rq status sz e)"
  "\<not> ex_NeedsAttention (finish now rq status sz e)"
  "work_packet (finish now rq status sz e) = work_packet e"
  by (simp_all add: finish_def Let_def work_packet_def)

lemma finish_ok:
  assumes "isExecutionTerminal status" "\<not> terminal_ex e" "lifecycle_ok e"
  shows "lifecycle_ok (finish now rq status sz e) \<and> evolves e (finish now rq status sz e)
         \<and> terminal_ex (finish now rq status sz e)"
proof -
  have t: "terminal_ex (finish now rq status sz e)" using assms(1) by (simp add: terminal_ex_def)
  then have "ex_Status (finish now rq status sz e) \<notin> {StatusQueued, StatusAssigned, StatusRunning, StatusCanceling}"
    unfolding terminal_ex_def by (metis empty_iff insert_iff terminal_simps(5-8))
  moreover have "\<not> ex_PermitRevoked e" using assms(2,3) by (auto simp: lifecycle_ok_def split: if_splits)
  ultimately have "lifecycle_ok (finish now rq status sz e)"
    using t unfolding lifecycle_ok_def by simp
  with t assms(2) show ?thesis by (simp add: evolves_def)
qed

lemma normalizeResultStatus_terminal:
  "normalizeResultStatus s = Inr status \<Longrightarrow> isExecutionTerminal status \<and> status = s"
  by (auto simp: normalizeResultStatus_def split: if_splits)

lemma SubmitResult_txn_ok [inv_intros]:
  assumes "snapshot_ok st" "isExecutionTerminal status" "SubmitResult_txn now rq status sz st = (r, Inr st')"
  shows "snapshot_ok st' \<and> forward st st'"
proof -
  from assms(3) obtain e where e: "find_execution st (rrq_ExecutionID rq) = Some e" "\<not> terminal_ex e"
    and st': "st' = update_execution (rrq_ExecutionID rq) (finish now rq status sz) st"
    by (auto simp: SubmitResult_txn_def terminal_ex_def split: option.splits if_splits)
  show ?thesis
    unfolding st' using assms(1) e(1) finish_id
    by (rule update_txn_ok)
       (use e assms(2) finish_ok [of status e now rq sz] active_not_terminal_ex in blast)
qed

lemma ReportAttention_txn_ok [inv_intros]:
  assumes "snapshot_ok st" "ReportAttention_txn a i m st = (r, Inr st')"
  shows "snapshot_ok st' \<and> forward st st'"
proof -
  from assms(2) obtain e where e: "find_execution st i = Some e" "\<not> terminal_ex e"
    and st': "st' = update_execution i (\<lambda>e. e\<lparr>ex_NeedsAttention := True, ex_Attention := m\<rparr>) st"
    by (auto simp: ReportAttention_txn_def terminal_ex_def split: option.splits if_splits)
  show ?thesis
    unfolding st' using assms(1) e(1)
    by (rule update_txn_ok)
       (use e in \<open>auto simp: lifecycle_ok_def evolves_def work_packet_def active_ex_def terminal_ex_def
          split: if_splits\<close>)
qed

lemma neutral_update_ok:
  assumes "snapshot_ok st"
    and "\<And>e. ex_ID (f e) = ex_ID e" "\<And>e. lifecycle_ok (f e) = lifecycle_ok e" "\<And>e. evolves e (f e)"
    and "\<And>e. ex_Status (f e) = ex_Status e" "\<And>e. ex_AgentID (f e) = ex_AgentID e"
  shows "snapshot_ok (update_execution i f st) \<and> forward st (update_execution i f st)"
  using assms
  by (auto intro!: snapshot_ok_update_execution forward_update_execution simp: snapshot_ok_unique active_ex_def)

lemma markLogTruncated_txn_ok [inv_intros]:
  assumes "snapshot_ok st" "markLogTruncated_txn i st = (r, Inr st')"
  shows "snapshot_ok st' \<and> forward st st'"
proof -
  from assms(2) have "st' = update_execution i (\<lambda>e. e\<lparr>ex_LogTruncated := True\<rparr>) st"
    by (auto simp: markLogTruncated_txn_def split: option.splits if_splits)
  with assms(1) show ?thesis
    by (auto intro!: neutral_update_ok [THEN conjunct1] neutral_update_ok [THEN conjunct2]
        simp: lifecycle_ok_def evolves_def work_packet_def outcome_def terminal_ex_def)
qed

lemma log_offset_neutral [simp]:
  "lifecycle_ok (e\<lparr>ex_LogOffset := n\<rparr>) = lifecycle_ok e" "evolves e (e\<lparr>ex_LogOffset := n\<rparr>)"
  by (simp_all add: lifecycle_ok_def evolves_def work_packet_def outcome_def terminal_ex_def)

lemma SetLogOffset_ok [inv_intros]:
  assumes "snapshot_ok (st_data s)"
  shows "snapshot_ok (st_data (SetLogOffset i off s)) \<and> forward (st_data s) (st_data (SetLogOffset i off s))"
  using neutral_update_ok [OF assms,
      of "\<lambda>e. if off > ex_LogOffset e then e\<lparr>ex_LogOffset := off\<rparr> else e" i]
  by (simp add: SetLogOffset_def)

lemma DeleteExecution_txn_ok [inv_intros]:
  assumes "snapshot_ok st" "DeleteExecution_txn i st = (r, Inr st')"
  shows "snapshot_ok st' \<and> forward st st'"
proof -
  from assms(2) obtain e where e: "find (\<lambda>e. ex_ID e = i) (sd_Executions st) = Some e" "terminal_ex e"
    and st': "st' = st\<lparr>sd_Executions := del_first (\<lambda>e. ex_ID e = i) (sd_Executions st)\<rparr>"
    by (auto simp: DeleteExecution_txn_def terminal_ex_def split: option.splits if_splits)
  have "filter active_ex (del_first (\<lambda>e. ex_ID e = i) xs) = filter active_ex xs"
    if "find (\<lambda>e. ex_ID e = i) xs = Some e" for xs
    using that e(2) active_not_terminal_ex by (induction xs) (auto split: if_splits)
  from this [OF e(1)] assms(1) st' set_del_first [of "\<lambda>e. ex_ID e = i" "sd_Executions st"] show ?thesis
    by (auto simp: snapshot_ok_def unique_ids_def one_active_def lifecycle_def distinct_map_del_first
        intro!: forward_subset [OF forward_refl])
qed

end
