(* ===== verification/Migrate_Import.thy ===== *)
theory Migrate_Import
  imports Ctrl_AgentOps
begin

text \<open>
  Importing legacy history: the data of \<^verbatim>\<open>migrate.go\<close> and \<^verbatim>\<open>migrate_plan.go\<close> that an import
  reads, and \<^verbatim>\<open>migrate_import.go\<close>.  An import plans every legacy run against the current
  configuration and the ledger, checks that the history cap can hold the result, copies the logs and
  commits everything in one transaction.
\<close>

section \<open>Data\<close>

record LegacyRun =
  run_ID :: string
  run_TaskID :: string
  run_TaskName :: string
  run_Script :: string
  run_Inputs :: "string gomap"
  run_TimeoutText :: string
  run_Status :: string
  run_RequestedAt :: time
  run_StartedAt :: time
  run_FinishedAt :: time
  run_CanceledAt :: time
  run_ExitCode :: int
  run_Error :: string
  run_LogFile :: string

record LegacyTask =
  ltk_ID :: string
  ltk_Name :: string
  ltk_Script :: string

record MigrationBundle =
  bun_Machine :: string
  bun_ScriptHeader :: string
  bun_Tasks :: "LegacyTask list"
  bun_Runs :: "LegacyRun list"

record MappingTask =
  mpt_Job :: string
  mpt_Project :: string
  mpt_ProjectPath :: string
  mpt_Labels :: "string list"
  mpt_Parameters :: "string gomap"
  mpt_InputMap :: "string gomap"
  mpt_InputValues :: "string gomap"

record MigrationMapping =
  map_Machine :: string
  map_AgentID :: string
  map_ProjectParam :: string
  map_Tasks :: "MappingTask gomap"

definition isTerminal :: "string \<Rightarrow> bool" where
  "isTerminal status \<longleftrightarrow>
     status = StatusSuccess \<or> status = StatusFailed \<or> status = StatusCanceled \<or> status = StatusAborted"

text \<open>Reading \<^verbatim>\<open>runs.json\<close>: runs without an identifier are dropped, the rest is ordered by
  request time.\<close>

definition readLegacyRunState :: "(LegacyRun list) read_result \<Rightarrow> ctrl_error + LegacyRun list" where
  "readLegacyRunState file =
     (case file of
        NotExist \<Rightarrow> Inr []
      | ReadError \<Rightarrow> Inl ErrIO
      | ParseError \<Rightarrow> Inl ErrIO
      | Loaded runs \<Rightarrow> Inr (sort_key run_RequestedAt (filter (\<lambda>run. trim_space (run_ID run) \<noteq> '''') runs)))"

section \<open>One run\<close>

definition findLegacyTask :: "MigrationBundle \<Rightarrow> string \<Rightarrow> LegacyTask option" where
  "findLegacyTask bundle i = find (\<lambda>task. ltk_ID task = i) (bun_Tasks bundle)"

text \<open>The parameter values of a run: the mapped ones, the project, then the mapped inputs.\<close>

definition imported_values :: "MigrationMapping \<Rightarrow> MappingTask \<Rightarrow> LegacyRun \<Rightarrow> string gomap" where
  "imported_values mapping task run =
     (let values = fold (\<lambda>(name, value). AList.update name value) (mpt_Parameters task) [];
          values = (if mpt_Project task \<noteq> ''''
                    then AList.update (map_ProjectParam mapping) (mpt_Project task) values else values)
      in fold (\<lambda>(legacyID, value) values.
                 case map_of (mpt_InputMap task) legacyID of
                   None \<Rightarrow> values
                 | Some target \<Rightarrow>
                     AList.update target
                       (case map_of (mpt_InputValues task) value of Some mapped \<Rightarrow> mapped | None \<Rightarrow> value)
                       values) (run_Inputs run) values)"

definition import_origin :: "time \<Rightarrow> MigrationBundle \<Rightarrow> LegacyRun \<Rightarrow> ExecutionOrigin" where
  "import_origin now bundle run =
     \<lparr>org_Machine = bun_Machine bundle, org_LegacyRunID = run_ID run, org_LegacyTask = run_TaskID run,
      org_TaskName =
        (if run_TaskName run = ''''
         then (case findLegacyTask bundle (run_TaskID run) of
                 None \<Rightarrow> '''' | Some legacyTask \<Rightarrow> ltk_Name legacyTask)
         else run_TaskName run),
      org_TimeoutText = run_TimeoutText run, org_Script = run_Script run,
      org_ScriptHdr = bun_ScriptHeader bundle, org_Inputs = run_Inputs run, org_ImportedAt = now,
      org_LogImported = False, org_LogNote = ''''\<rparr>"

definition buildImportedExecution ::
    "time \<Rightarrow> string \<Rightarrow> ControllerConfig \<Rightarrow> JobConfig \<Rightarrow> MigrationBundle \<Rightarrow> MigrationMapping \<Rightarrow> MappingTask
      \<Rightarrow> LegacyRun \<Rightarrow> ctrl_error + Execution \<times> string list" where
  "buildImportedExecution now i cfg job bundle mapping task run =
     (case resolveHistoricalParameters cfg job (imported_values mapping task run) of
        Inl e \<Rightarrow> Inl e
      | Inr (resolved, retired) \<Rightarrow>
          Inr (\<lparr>ex_ID = i, ex_JobID = job_ID job, ex_JobName = job_Name job, ex_Labels = job_Labels job,
                ex_Script = job_Script job, ex_TimeoutText = job_Timeout job,
                ex_WorkdirPath = res_WorkdirPath resolved, ex_Parameters = res_Values resolved,
                ex_ParameterEnv = res_Env resolved, ex_SelectedOptions = res_Options resolved,
                ex_JobSnapshot = job, ex_Status = run_Status run, ex_AgentID = map_AgentID mapping,
                ex_RequestedBy = ''migration:'' @ bun_Machine bundle,
                ex_CancelRequested = False, ex_PermitGranted = False, ex_PermitRevoked = False,
                ex_NeedsAttention = False, ex_Attention = '''', ex_LogOffset = 0, ex_LogComplete = True,
                ex_LogTruncated = False, ex_ExitCode = run_ExitCode run, ex_Error = run_Error run,
                ex_FailureReason = '''', ex_RequestedAt = run_RequestedAt run, ex_AssignedAt = 0,
                ex_StartedAt = run_StartedAt run, ex_FinishedAt = run_FinishedAt run,
                ex_CanceledAt = run_CanceledAt run,
                ex_Origin = Some (import_origin now bundle run)\<rparr>, retired))"

datatype file_kind = NoFile | RegularFile | OtherFile

text \<open>Where the bundle keeps a run's log, and the note when it cannot be imported.\<close>

definition importedLogSource :: "(string \<Rightarrow> file_kind) \<Rightarrow> string \<Rightarrow> LegacyRun \<Rightarrow> string \<times> string" where
  "importedLogSource stat bundleDir run =
     (let source = path_join (path_join bundleDir ''logs'') (path_base (run_ID run) @ ''.log'') in
      case stat source of
        NoFile \<Rightarrow> ('''', ''no log file for legacy run '' @ run_ID run
                   @ '' in the bundle; the imported run keeps its metadata without a log'')
      | OtherFile \<Rightarrow> ('''', ''bundle log entry for '' @ run_ID run
                      @ '' is not a regular file and was not imported'')
      | RegularFile \<Rightarrow> (source, ''''))"

section \<open>Planning\<close>

record plannedImport =
  pln_Execution :: Execution
  pln_LogSource :: string

datatype import_diag =
    SkipDuplicate string
  | SkipNotTerminal string string
  | SkipUnmapped string string
  | SkipNoJob string string
  | SkipInvalid string ctrl_error
  | KeptRetired string "string list" string
  | NoteLog string string
  | DryRun nat nat nat
  | NoHeadroom nat nat int
  | CouldNotRemove string

record importReport =
  rep_Imported :: nat
  rep_Skipped :: nat
  rep_Existing :: nat
  rep_Diagnostics :: "import_diag list"

definition empty_report :: importReport where
  "empty_report = \<lparr>rep_Imported = 0, rep_Skipped = 0, rep_Existing = 0, rep_Diagnostics = []\<rparr>"

definition skip_run :: "import_diag \<Rightarrow> importReport \<Rightarrow> importReport" where
  "skip_run d rep = rep\<lparr>rep_Skipped := Suc (rep_Skipped rep), rep_Diagnostics := rep_Diagnostics rep @ [d]\<rparr>"

definition add_diag :: "import_diag \<Rightarrow> importReport \<Rightarrow> importReport" where
  "add_diag d rep = rep\<lparr>rep_Diagnostics := rep_Diagnostics rep @ [d]\<rparr>"

text \<open>Drawing identifiers until one is not taken: the identifier and how many were drawn.\<close>

partial_function (option) untaken_id :: "(nat \<Rightarrow> string) \<Rightarrow> string list \<Rightarrow> nat \<Rightarrow> (string \<times> nat) option" where
  "untaken_id gen taken n =
     (if gen n \<in> set taken then untaken_id gen taken (Suc n) else Some (gen n, Suc n))"

declare untaken_id.simps [code]

record import_env =
  ie_now :: time
  ie_gen :: "nat \<Rightarrow> string"
  ie_stat :: "string \<Rightarrow> file_kind"
  ie_bundleDir :: string

text \<open>The loop over the runs.  \<open>seen\<close> are the keys met in this bundle, \<open>taken\<close> the
  execution identifiers in use, \<open>n\<close> counts the draws.\<close>

fun plan_loop ::
    "import_env \<Rightarrow> Controller \<Rightarrow> MigrationBundle \<Rightarrow> MigrationMapping \<Rightarrow> LegacyRun list
      \<Rightarrow> originKey list \<Rightarrow> string list \<Rightarrow> nat \<Rightarrow> importReport \<Rightarrow> (plannedImport list \<times> importReport) option" where
  "plan_loop env c bundle mapping [] seen taken n rep = Some ([], rep)"
| "plan_loop env c bundle mapping (run # runs) seen taken n rep =
     (let key = (bun_Machine bundle, run_ID run) in
      if key \<in> set seen then
        plan_loop env c bundle mapping runs seen taken n (skip_run (SkipDuplicate (run_ID run)) rep)
      else
        let seen = key # seen;
            skip = (\<lambda>d. plan_loop env c bundle mapping runs seen taken n (skip_run d rep)) in
        if \<not> isTerminal (run_Status run) then skip (SkipNotTerminal (run_ID run) (run_Status run))
        else if HasImportedOrigin (c_store c) (bun_Machine bundle) (run_ID run) then
          plan_loop env c bundle mapping runs seen taken n (rep\<lparr>rep_Existing := Suc (rep_Existing rep)\<rparr>)
        else case map_of (map_Tasks mapping) (run_TaskID run) of
          None \<Rightarrow> skip (SkipUnmapped (run_ID run) (run_TaskID run))
        | Some task \<Rightarrow>
          (case findJob (c_cfg c) (mpt_Job task) of
             None \<Rightarrow> skip (SkipNoJob (run_ID run) (mpt_Job task))
           | Some job \<Rightarrow>
             (case buildImportedExecution (ie_now env) (ie_gen env n) (c_cfg c) job bundle mapping task run of
                Inl e \<Rightarrow> skip (SkipInvalid (run_ID run) e)
              | Inr (execution, retired) \<Rightarrow>
                (case untaken_id (ie_gen env) taken n of
                   None \<Rightarrow> None
                 | Some (i, n') \<Rightarrow>
                   (case importedLogSource (ie_stat env) (ie_bundleDir env) run of
                      (source, note) \<Rightarrow>
                        let rep = (if retired \<noteq> [] then add_diag (KeptRetired (run_ID run) retired (job_ID job)) rep else rep);
                            rep = (if note \<noteq> '''' then add_diag (NoteLog (run_ID run) note) rep else rep);
                            execution = execution\<lparr>ex_ID := i,
                              ex_Origin := map_option (\<lambda>o'. o'\<lparr>org_LogImported := (source \<noteq> ''''), org_LogNote := note\<rparr>)
                                             (ex_Origin execution)\<rparr>
                        in map_option (apfst (\<lambda>planned. \<lparr>pln_Execution = execution, pln_LogSource = source\<rparr> # planned))
                             (plan_loop env c bundle mapping runs seen (i # taken) n'
                                (rep\<lparr>rep_Imported := Suc (rep_Imported rep)\<rparr>)))))))"

definition planImports ::
    "import_env \<Rightarrow> Controller \<Rightarrow> MigrationBundle \<Rightarrow> MigrationMapping \<Rightarrow> importReport
      \<Rightarrow> (plannedImport list \<times> importReport) option" where
  "planImports env c bundle mapping rep =
     plan_loop env c bundle mapping (sort_key run_RequestedAt (sort_key run_ID (bun_Runs bundle)))
       [] (map ex_ID (Executions (c_store c))) 0 rep"

section \<open>Applying\<close>

definition checkHistoryHeadroom :: "Controller \<Rightarrow> nat \<Rightarrow> importReport \<Rightarrow> ctrl_error option \<times> importReport" where
  "checkHistoryHeadroom c incoming rep =
     (if incoming = 0 then (None, rep)
      else
        let maxHistory = normalizeMaxHistory (rt_MaxHistory (c_runtime c));
            terminal = length (filter (\<lambda>e. isExecutionTerminal (ex_Status e)) (Executions (c_store c)))
        in if int (terminal + incoming) \<le> maxHistory then (None, rep)
           else (Some ErrHistoryCapTooSmall, add_diag (NoHeadroom incoming terminal maxHistory) rep))"

text \<open>Copying the logs of the planned runs.  \<open>read\<close> is \<^verbatim>\<open>os.ReadFile\<close> on a source, \<open>io\<close> the
  system calls of the write to a target.  The result is the run whose copy failed, if any, the log
  files afterwards, and the targets written.\<close>

fun copy_logs ::
    "(string \<Rightarrow> string option) \<Rightarrow> (string \<Rightarrow> io_env) \<Rightarrow> string \<Rightarrow> plannedImport list \<Rightarrow> string gomap
      \<Rightarrow> string list \<Rightarrow> string option \<times> string gomap \<times> string list" where
  "copy_logs read io logDir [] logs created = (None, logs, created)"
| "copy_logs read io logDir (item # items) logs created =
     (if pln_LogSource item = '''' then copy_logs read io logDir items logs created
      else
        let target = executionLogPath logDir (ex_ID (pln_Execution item));
            failed = Some (case ex_Origin (pln_Execution item) of None \<Rightarrow> '''' | Some o' \<Rightarrow> org_LegacyRunID o')
        in case read (pln_LogSource item) of
             None \<Rightarrow> (failed, logs, created)
           | Some bytes \<Rightarrow>
               (case writeFileAtomicSync (io target) bytes (map_of logs target) of
                  (ok, content) \<Rightarrow>
                    let logs' = (case content of None \<Rightarrow> logs | Some b \<Rightarrow> AList.update target b logs)
                    in if ok then copy_logs read io logDir items logs' (created @ [target])
                       else (failed, logs', created)))"

definition cleanup_logs :: "io_env \<Rightarrow> string list \<Rightarrow> string gomap \<Rightarrow> string gomap" where
  "cleanup_logs io created logs =
     fold (\<lambda>path logs. if io_rmfails io path then logs else AList.delete path logs) created logs"

definition cleanup_report :: "io_env \<Rightarrow> string list \<Rightarrow> importReport \<Rightarrow> importReport" where
  "cleanup_report io created rep =
     fold (\<lambda>path rep. if io_rmfails io path then add_diag (CouldNotRemove path) rep else rep) created rep"

definition import_ledger_entry :: "time \<Rightarrow> string \<Rightarrow> Execution \<Rightarrow> ImportedOrigin" where
  "import_ledger_entry now machine e =
     \<lparr>imp_Machine = machine,
      imp_LegacyRunID = (case ex_Origin e of None \<Rightarrow> '''' | Some o' \<Rightarrow> org_LegacyRunID o'),
      imp_ExecutionID = ex_ID e, imp_ImportedAt = now\<rparr>"

fun commit_loop ::
    "time \<Rightarrow> string \<Rightarrow> Execution list \<Rightarrow> controllerStateData \<Rightarrow> ctrl_error + controllerStateData" where
  "commit_loop now machine [] st = Inr st"
| "commit_loop now machine (e # es) st =
     (if find_execution st (ex_ID e) \<noteq> None then Inl (ErrExecutionIDInUse (ex_ID e))
      else
        let entry = import_ledger_entry now machine e in
        if hasOrigin st (ImportedOrigin_key entry) then Inl (ErrImportedConcurrently (imp_LegacyRunID entry))
        else commit_loop now machine es
               (st\<lparr>sd_Executions := sd_Executions st @ [e],
                   sd_ImportedOrigins := sd_ImportedOrigins st @ [entry]\<rparr>))"

definition applyImports_txn :: "time \<Rightarrow> string \<Rightarrow> int \<Rightarrow> Execution list \<Rightarrow> unit txn" where
  "applyImports_txn now machine maxHistory es st =
     ((), case commit_loop now machine es st of
            Inl e \<Rightarrow> Inl e
          | Inr st' \<Rightarrow>
              if int (length (filter (\<lambda>e. isExecutionTerminal (ex_Status e)) (sd_Executions st'))) > maxHistory
              then Inl ErrHistoryCapTooSmall else Inr st')"

record apply_env =
  ae_mkdirFails :: bool
  ae_read :: "string \<Rightarrow> string option"
  ae_copyIO :: "string \<Rightarrow> io_env"
  ae_now :: time
  ae_io :: io_env

definition applyImports ::
    "apply_env \<Rightarrow> Controller \<Rightarrow> MigrationBundle \<Rightarrow> plannedImport list \<Rightarrow> importReport
      \<Rightarrow> (ctrl_error option \<times> importReport) \<times> Controller" where
  "applyImports env c bundle planned rep =
     (let s = c_store c; logDir = rt_LogDir (c_runtime c) in
      if ae_mkdirFails env then ((Some ErrIO, rep), c)
      else case copy_logs (ae_read env) (ae_copyIO env) logDir planned (st_logs s) [] of
        (Some failed, logs, created) \<Rightarrow>
          ((Some (ErrImportLogCopy failed), cleanup_report (ae_io env) created rep),
           c\<lparr>c_store := s\<lparr>st_logs := cleanup_logs (ae_io env) created logs\<rparr>\<rparr>)
      | (None, logs, created) \<Rightarrow>
          (case mutate (ae_io env)
                  (applyImports_txn (ae_now env) (bun_Machine bundle)
                     (normalizeMaxHistory (rt_MaxHistory (c_runtime c))) (map pln_Execution planned))
                  (s\<lparr>st_logs := logs\<rparr>) of
             (_, Some err, s') \<Rightarrow>
               ((Some err, cleanup_report (ae_io env) created rep),
                c\<lparr>c_store := s'\<lparr>st_logs := cleanup_logs (ae_io env) created (st_logs s')\<rparr>\<rparr>)
           | (_, None, s') \<Rightarrow> ((None, rep), c\<lparr>c_store := s'\<rparr>)))"

definition importDryRunSummary :: "importReport \<Rightarrow> import_diag" where
  "importDryRunSummary rep = DryRun (rep_Imported rep) (rep_Skipped rep) (rep_Existing rep)"

definition importBundle ::
    "import_env \<Rightarrow> apply_env \<Rightarrow> Controller \<Rightarrow> MigrationBundle \<Rightarrow> MigrationMapping \<Rightarrow> bool
      \<Rightarrow> ((ctrl_error option \<times> importReport) \<times> Controller) option" where
  "importBundle env aenv c bundle mapping apply =
     (case planImports env c bundle mapping empty_report of
        None \<Rightarrow> None
      | Some (planned, rep) \<Rightarrow>
          Some
            (let dry = add_diag (importDryRunSummary rep) rep in
             if planned = [] then ((None, if apply then rep else dry), c)
             else case checkHistoryHeadroom c (length planned) rep of
               (Some err, rep') \<Rightarrow> ((Some err, rep'), c)
             | (None, rep') \<Rightarrow>
                 if \<not> apply then ((None, add_diag (importDryRunSummary rep') rep'), c)
                 else applyImports aenv c bundle planned rep'))"

section \<open>The import transaction\<close>

text \<open>An execution an import may add: finished history with its origin.\<close>

definition importable :: "Execution \<Rightarrow> bool" where
  "importable e \<longleftrightarrow> terminal_ex e \<and> ex_Origin e \<noteq> None \<and> ex_LogComplete e \<and> \<not> ex_PermitRevoked e \<and> \<not> ex_PermitGranted e"

lemma importable_ok: "importable e \<Longrightarrow> lifecycle_ok e \<and> \<not> active_ex e \<and> newborn e"
  using active_not_terminal_ex
  by (auto simp: importable_def lifecycle_ok_def newborn_def terminal_ex_def)

lemma commit_loop_executions:
  "commit_loop now m es st = Inr st' \<Longrightarrow> sd_Executions st' = sd_Executions st @ es
     \<and> sd_ImportedOrigins st' = sd_ImportedOrigins st @ map (import_ledger_entry now m) es"
  by (induction es arbitrary: st) (fastforce simp: Let_def split: if_splits)+

lemma commit_loop_ids:
  "commit_loop now m es st = Inr st' \<Longrightarrow>
     distinct (map ex_ID es) \<and> ex_ID ` set es \<inter> ex_ID ` set (sd_Executions st) = {}"
proof (induction es arbitrary: st)
  case (Cons e es)
  then show ?case
    by (auto simp: Let_def find_execution_None split: if_splits) fastforce+
qed simp

lemma commit_loop_origins:
  "commit_loop now m es st = Inr st' \<Longrightarrow>
     distinct (map (ImportedOrigin_key \<circ> import_ledger_entry now m) es)
     \<and> (\<forall>e \<in> set es. \<not> hasOrigin st (ImportedOrigin_key (import_ledger_entry now m e)))"
proof (induction es arbitrary: st)
  case (Cons e es)
  let ?n = "import_ledger_entry now m e"
  let ?st1 = "st\<lparr>sd_Executions := sd_Executions st @ [e], sd_ImportedOrigins := sd_ImportedOrigins st @ [?n]\<rparr>"
  from Cons.prems have fresh: "\<not> hasOrigin st (ImportedOrigin_key ?n)"
    and rest: "commit_loop now m es ?st1 = Inr st'"
    by (auto simp: Let_def split: if_splits)
  have "hasOrigin ?st1 k \<longleftrightarrow> hasOrigin st k \<or> ImportedOrigin_key ?n = k" for k
    by (auto simp: hasOrigin_def)
  note st1 = this
  have ih: "distinct (map (ImportedOrigin_key \<circ> import_ledger_entry now m) es)"
    "\<forall>x \<in> set es. \<not> hasOrigin ?st1 (ImportedOrigin_key (import_ledger_entry now m x))"
    using Cons.IH [OF rest] by blast+
  from ih(2) have "\<forall>x \<in> set es. \<not> hasOrigin st (ImportedOrigin_key (import_ledger_entry now m x))
      \<and> ImportedOrigin_key ?n \<noteq> ImportedOrigin_key (import_ledger_entry now m x)"
    by (simp only: st1) blast
  with ih(1) fresh show ?case by (auto simp: comp_def)
qed simp

lemma snapshot_ok_append_many:
  assumes "snapshot_ok st" "sd_Executions st' = sd_Executions st @ es" "distinct (map ex_ID es)"
    "ex_ID ` set es \<inter> ex_ID ` set (sd_Executions st) = {}" "\<forall>e \<in> set es. importable e"
  shows "snapshot_ok st' \<and> forward st st'"
proof
  have "filter active_ex es = []" using assms(5) importable_ok by (auto simp: filter_empty_conv)
  with assms importable_ok show "snapshot_ok st'"
    by (auto simp: snapshot_ok_def unique_ids_def one_active_def lifecycle_def)
  have "case find_execution st (ex_ID x) of None \<Rightarrow> newborn x | Some e \<Rightarrow> evolves e x"
    if "x \<in> set (sd_Executions st')" for x
  proof (cases "x \<in> set (sd_Executions st)")
    case True
    with assms(1) show ?thesis by (simp add: snapshot_ok_def unique_ids_def find_unique)
  next
    case False
    with that assms(2) have "x \<in> set es" by simp
    moreover from this assms(4) have "find_execution st (ex_ID x) = None"
      by (auto simp: find_execution_None)
    ultimately show ?thesis using assms(5) importable_ok by simp
  qed
  then show "forward st st'" by (simp add: forward_def)
qed

lemma applyImports_txn_ok [inv_intros]:
  assumes "snapshot_ok st" "\<forall>e \<in> set es. importable e" "applyImports_txn now m cap es st = (r, Inr st')"
  shows "snapshot_ok st' \<and> forward st st'"
proof -
  from assms(3) have "commit_loop now m es st = Inr st'"
    by (auto simp: applyImports_txn_def split: sum.splits if_splits)
  from commit_loop_executions [OF this] commit_loop_ids [OF this] show ?thesis
    by (intro snapshot_ok_append_many [OF assms(1) _ _ _ assms(2)]) simp_all
qed

end
