(* ===== verification/Ctrl_System.thy ===== *)
theory Ctrl_System
  imports Migrate_Import
begin

text \<open>
  The controller as a state machine.  All state changes go through the store's mutex, so every
  interleaving of HTTP handlers, agent requests, the scheduler loop and the command line is a sequence
  of the steps below: one transaction each, with arbitrary arguments, arbitrary clock readings and
  arbitrary I/O faults; an in-place log offset; log files written or removed; or a crash followed by
  a restart from the files on disk.  Invariants are proved for every reachable store, and for every
  execution what can become of it.
\<close>

section \<open>Steps\<close>

inductive store_step :: "ControllerStore \<Rightarrow> ControllerStore \<Rightarrow> bool" where
  enqueue: "find_execution (st_data s) i = None \<Longrightarrow>
     mutate io (Enqueue_txn (new_execution now job resolved user i)) s = (r, e, s') \<Longrightarrow> store_step s s'"
| schedule: "'''' \<notin> fst ` set available \<Longrightarrow>
     mutate io (scheduleOnce_txn now available) s = (r, e, s') \<Longrightarrow> store_step s s'"
| cancel: "mutate io (Cancel_txn now i) s = (r, e, s') \<Longrightarrow> store_step s s'"
| resolve: "mutate io (ResolveAttention_txn now i msg) s = (r, e, s') \<Longrightarrow> store_step s s'"
| reconcile: "mutate io (Reconcile_txn agent known) s = (rs, e, s') \<Longrightarrow> store_step s s'"
| permit: "mutate io (GrantPermit_txn now agent i) s = (rp, e, s') \<Longrightarrow> store_step s s'"
| truncated: "mutate io (markLogTruncated_txn i) s = (r, e, s') \<Longrightarrow> store_step s s'"
| result: "isExecutionTerminal status \<Longrightarrow>
     mutate io (SubmitResult_txn now request status sz) s = (r, e, s') \<Longrightarrow> store_step s s'"
| attention: "mutate io (ReportAttention_txn agent i msg) s = (r, e, s') \<Longrightarrow> store_step s s'"
| remove: "mutate io (DeleteExecution_txn i) s = (r, e, s') \<Longrightarrow> store_step s s'"
| import: "\<forall>x \<in> set es. importable x \<Longrightarrow>
     mutate io (applyImports_txn now machine cap es) s = (r, e, s') \<Longrightarrow> store_step s s'"
| max_history: "SetMaxHistory io n s = (e, s') \<Longrightarrow> store_step s s'"
| log_offset: "store_step s (SetLogOffset i offset s)"
| log_files: "store_step s (s\<lparr>st_logs := logs\<rparr>)"
| restart: "openControllerStore False logDir n create (st_disk s)
              (case st_disk s of None \<Rightarrow> NotExist | Some d \<Rightarrow> Loaded d) logs = Inr s' \<Longrightarrow> store_step s s'"

definition initial_store :: "ControllerStore \<Rightarrow> bool" where
  "initial_store s \<longleftrightarrow> st_data s = empty_state \<and> st_disk s = None"

inductive reachable :: "ControllerStore \<Rightarrow> bool" where
  start: "initial_store s \<Longrightarrow> reachable s"
| step: "reachable s \<Longrightarrow> store_step s s' \<Longrightarrow> reachable s'"

inductive_cases reachableE: "reachable s"

section \<open>The invariant\<close>

text \<open>The snapshot on disk is one the live snapshot may move to: the same, or one commit ahead when
  that commit was written but reported as failed.\<close>

definition disk_ok :: "ControllerStore \<Rightarrow> bool" where
  "disk_ok s \<longleftrightarrow>
     (case st_disk s of
        None \<Rightarrow> sd_Executions (st_data s) = [] \<and> sd_ImportedOrigins (st_data s) = []
      | Some d \<Rightarrow> snapshot_ok d \<and> forward (st_data s) d
                  \<and> set (sd_ImportedOrigins (st_data s)) \<subseteq> set (sd_ImportedOrigins (backfillImportedOrigins d)))"

definition store_ok :: "ControllerStore \<Rightarrow> bool" where
  "store_ok s \<longleftrightarrow> snapshot_ok (st_data s) \<and> disk_ok s"

text \<open>What one transaction may do to a snapshot.\<close>

definition progresses :: "controllerStateData \<Rightarrow> controllerStateData \<Rightarrow> bool" where
  "progresses d d' \<longleftrightarrow> snapshot_ok d' \<and> forward d d' \<and> set (sd_ImportedOrigins d) \<subseteq> set (sd_ImportedOrigins d')"

lemma committed_origins [simp]: "sd_ImportedOrigins (committed d n) = sd_ImportedOrigins d"
  by (simp add: committed_def)

lemma committed_progresses: "progresses d d' \<Longrightarrow> progresses d (committed d' n)"
  by (simp add: progresses_def ok.I_committed forward_committed)

lemma progresses_refl: "snapshot_ok d \<Longrightarrow> progresses d d"
  by (simp add: progresses_def forward_refl snapshot_ok_unique)

lemma backfill_origins: "set (sd_ImportedOrigins d) \<subseteq> set (sd_ImportedOrigins (backfillImportedOrigins d))"
  by (simp add: backfillImportedOrigins_def)

lemma disk_okI: "st_disk s = Some d \<Longrightarrow> progresses (st_data s) d \<Longrightarrow> disk_ok s"
  using backfill_origins [of d] by (auto simp: disk_ok_def progresses_def)

lemma mutate_step:
  assumes ok: "store_ok s" and m: "mutate io fn s = (r, e, s')"
    and fn: "\<And>r d. fn (st_data s) = (r, Inr d) \<Longrightarrow> progresses (st_data s) d"
  shows "store_ok s' \<and> progresses (st_data s) (st_data s')"
  using m
proof (cases rule: mutate_cases)
  case (commit d)
  with fn committed_progresses have p: "progresses (st_data s) (st_data s')" by simp
  then have "snapshot_ok (st_data s')" by (simp add: progresses_def)
  with commit p show ?thesis by (simp add: store_ok_def disk_okI progresses_refl)
next
  case refused
  with ok show ?thesis by (simp add: store_ok_def progresses_refl)
next
  case (lost d)
  then obtain disk where s': "s' = s\<lparr>st_disk := disk\<rparr>"
    and disk: "disk = st_disk s \<or> disk = Some (committed d (st_maxHistory s))" by blast
  have "progresses (st_data s) (committed d (st_maxHistory s))"
    using lost fn committed_progresses by simp
  then have "disk_ok s'"
    using ok s' disk disk_okI [of s'] by (cases "disk = st_disk s") (auto simp: store_ok_def)
  with ok s' show ?thesis by (simp add: store_ok_def progresses_refl)
qed

section \<open>Every transaction progresses\<close>

lemma origins_Cancel: "Cancel_txn now i st = (r, Inr st') \<Longrightarrow> sd_ImportedOrigins st' = sd_ImportedOrigins st"
  by (auto simp: Cancel_txn_def split: option.splits if_splits)

lemma origins_Resolve: "ResolveAttention_txn now i m st = (r, Inr st') \<Longrightarrow> sd_ImportedOrigins st' = sd_ImportedOrigins st"
  by (auto simp: ResolveAttention_txn_def split: option.splits if_splits)

lemma origins_Reconcile: "Reconcile_txn a known st = (rs, Inr st') \<Longrightarrow> sd_ImportedOrigins st' = sd_ImportedOrigins st"
  by (auto simp: Reconcile_txn_def split: prod.splits if_splits)

lemma origins_Grant: "GrantPermit_txn now a i st = (rp, Inr st') \<Longrightarrow> sd_ImportedOrigins st' = sd_ImportedOrigins st"
  by (auto simp: GrantPermit_txn_def split: option.splits if_splits)

lemma origins_truncated: "markLogTruncated_txn i st = (r, Inr st') \<Longrightarrow> sd_ImportedOrigins st' = sd_ImportedOrigins st"
  by (auto simp: markLogTruncated_txn_def split: option.splits if_splits)

lemma origins_Submit: "SubmitResult_txn now rq status sz st = (r, Inr st') \<Longrightarrow> sd_ImportedOrigins st' = sd_ImportedOrigins st"
  by (auto simp: SubmitResult_txn_def split: option.splits if_splits)

lemma origins_Report: "ReportAttention_txn a i m st = (r, Inr st') \<Longrightarrow> sd_ImportedOrigins st' = sd_ImportedOrigins st"
  by (auto simp: ReportAttention_txn_def split: option.splits if_splits)

lemma origins_Delete: "DeleteExecution_txn i st = (r, Inr st') \<Longrightarrow> sd_ImportedOrigins st' = sd_ImportedOrigins st"
  by (auto simp: DeleteExecution_txn_def split: option.splits if_splits)

lemma origins_Enqueue: "Enqueue_txn x st = (r, Inr st') \<Longrightarrow> sd_ImportedOrigins st' = sd_ImportedOrigins st"
  by (auto simp: Enqueue_txn_def)

lemma origins_run_plan: "sd_ImportedOrigins (run_plan now plan st) = sd_ImportedOrigins st"
  unfolding run_plan_def by (induction plan arbitrary: st) (auto simp: assign_execution_def)

lemma origins_schedule: "scheduleOnce_txn now av st = (r, Inr st') \<Longrightarrow> sd_ImportedOrigins st' = sd_ImportedOrigins st"
  by (auto simp: scheduleOnce_txn_plan origins_run_plan split: if_splits)

lemma origins_import: "applyImports_txn now m cap es st = (r, Inr st') \<Longrightarrow>
    set (sd_ImportedOrigins st) \<subseteq> set (sd_ImportedOrigins st')"
  by (auto simp: applyImports_txn_def dest!: commit_loop_executions split: sum.splits if_splits)

lemmas origins_txn = origins_Cancel origins_Resolve origins_Reconcile origins_Grant origins_truncated
  origins_Submit origins_Report origins_Delete origins_Enqueue origins_schedule

lemma progressesI:
  "snapshot_ok d' \<and> forward d d' \<Longrightarrow> set (sd_ImportedOrigins d) \<subseteq> set (sd_ImportedOrigins d') \<Longrightarrow> progresses d d'"
  by (simp add: progresses_def)

section \<open>Transactions progress\<close>

lemma progress_Cancel: "snapshot_ok st \<Longrightarrow> Cancel_txn now i st = (r, Inr st') \<Longrightarrow> progresses st st'"
  using Cancel_txn_ok origins_Cancel by (intro progressesI) (blast, simp)

lemma progress_Resolve: "snapshot_ok st \<Longrightarrow> ResolveAttention_txn now i m st = (r, Inr st') \<Longrightarrow> progresses st st'"
  using ResolveAttention_txn_ok origins_Resolve by (intro progressesI) (blast, simp)

lemma progress_Reconcile: "snapshot_ok st \<Longrightarrow> Reconcile_txn a known st = (r, Inr st') \<Longrightarrow> progresses st st'"
  using Reconcile_txn_ok origins_Reconcile by (intro progressesI) (blast, simp)

lemma progress_Grant: "snapshot_ok st \<Longrightarrow> GrantPermit_txn now a i st = (r, Inr st') \<Longrightarrow> progresses st st'"
  using GrantPermit_txn_ok origins_Grant by (intro progressesI) (blast, simp)

lemma progress_truncated: "snapshot_ok st \<Longrightarrow> markLogTruncated_txn i st = (r, Inr st') \<Longrightarrow> progresses st st'"
  using markLogTruncated_txn_ok origins_truncated by (intro progressesI) (blast, simp)

lemma progress_Report: "snapshot_ok st \<Longrightarrow> ReportAttention_txn a i m st = (r, Inr st') \<Longrightarrow> progresses st st'"
  using ReportAttention_txn_ok origins_Report by (intro progressesI) (blast, simp)

lemma progress_Delete: "snapshot_ok st \<Longrightarrow> DeleteExecution_txn i st = (r, Inr st') \<Longrightarrow> progresses st st'"
  using DeleteExecution_txn_ok origins_Delete by (intro progressesI) (blast, simp)

lemma progress_Submit: "isExecutionTerminal status \<Longrightarrow> snapshot_ok st \<Longrightarrow>
    SubmitResult_txn now rq status sz st = (r, Inr st') \<Longrightarrow> progresses st st'"
  using SubmitResult_txn_ok origins_Submit by (intro progressesI) (blast, simp)

lemma progress_Enqueue: "find_execution st i = None \<Longrightarrow> snapshot_ok st \<Longrightarrow>
    Enqueue_txn (new_execution now job resolved user i) st = (r, Inr st') \<Longrightarrow> progresses st st'"
  using Enqueue_txn_ok origins_Enqueue by (intro progressesI) (blast, simp)

lemma progress_schedule: "'''' \<notin> fst ` set available \<Longrightarrow> snapshot_ok st \<Longrightarrow>
    scheduleOnce_txn now available st = (r, Inr st') \<Longrightarrow> progresses st st'"
  using scheduleOnce_txn_ok scheduleOnce_txn_forward origins_schedule by (intro progressesI) (blast, simp)

lemma progress_import: "\<forall>x \<in> set es. importable x \<Longrightarrow> snapshot_ok st \<Longrightarrow>
    applyImports_txn now m cap es st = (r, Inr st') \<Longrightarrow> progresses st st'"
  using applyImports_txn_ok origins_import by (intro progressesI) blast+

section \<open>Restarting\<close>

text \<open>Snapshots that differ in log offsets and bookkeeping only.\<close>

definition log_offset_only :: "Execution \<Rightarrow> Execution \<Rightarrow> bool" where
  "log_offset_only e e' \<longleftrightarrow> (\<exists>n. e' = e\<lparr>ex_LogOffset := n\<rparr>)"

definition same_but_offsets :: "controllerStateData \<Rightarrow> controllerStateData \<Rightarrow> bool" where
  "same_but_offsets d d' \<longleftrightarrow> list_all2 log_offset_only (sd_Executions d) (sd_Executions d')"

lemma log_offset_simps [simp]:
  "active_ex (e\<lparr>ex_LogOffset := n\<rparr>) = active_ex e" "terminal_ex (e\<lparr>ex_LogOffset := n\<rparr>) = terminal_ex e"
  "work_packet (e\<lparr>ex_LogOffset := n\<rparr>) = work_packet e" "outcome (e\<lparr>ex_LogOffset := n\<rparr>) = outcome e"
  by (simp_all add: active_ex_def terminal_ex_def work_packet_def outcome_def)

lemma log_offset_only_simps:
  assumes "log_offset_only e e'"
  shows "ex_ID e' = ex_ID e" "ex_AgentID e' = ex_AgentID e" "active_ex e' = active_ex e"
    "lifecycle_ok e' = lifecycle_ok e" "newborn e' = newborn e" "ex_Origin e' = ex_Origin e"
    "evolves e' x = evolves e x" "evolves x e' = evolves x e"
proof -
  from assms obtain n where "e' = e\<lparr>ex_LogOffset := n\<rparr>" by (auto simp: log_offset_only_def)
  then show "ex_ID e' = ex_ID e" "ex_AgentID e' = ex_AgentID e" "active_ex e' = active_ex e"
    "lifecycle_ok e' = lifecycle_ok e" "newborn e' = newborn e" "ex_Origin e' = ex_Origin e"
    "evolves e' x = evolves e x" "evolves x e' = evolves x e"
    by (simp_all add: lifecycle_ok_def newborn_def evolves_def)
qed

lemma log_offset_only_refl [simp, intro]: "log_offset_only e e"
  unfolding log_offset_only_def by (rule exI [of _ "ex_LogOffset e"]) simp

lemma log_offset_onlyI [intro]: "log_offset_only e (e\<lparr>ex_LogOffset := n\<rparr>)"
  unfolding log_offset_only_def by blast

lemma same_lists:
  assumes "list_all2 log_offset_only xs ys"
  shows "map ex_ID ys = map ex_ID xs"
    "map ex_AgentID (filter active_ex ys) = map ex_AgentID (filter active_ex xs)"
    "(\<forall>y \<in> set ys. lifecycle_ok y) = (\<forall>x \<in> set xs. lifecycle_ok x)"
    "backfill_loop known ys = backfill_loop known xs"
  using assms by (induction arbitrary: known) (auto simp: log_offset_only_simps Let_def split: option.splits)

lemma same_snapshot_ok: "same_but_offsets d d' \<Longrightarrow> snapshot_ok d' = snapshot_ok d"
  by (simp add: same_but_offsets_def snapshot_ok_def unique_ids_def one_active_def lifecycle_def same_lists)

lemma same_find:
  "list_all2 log_offset_only xs ys \<Longrightarrow>
     rel_option log_offset_only (find (\<lambda>e. ex_ID e = i) xs) (find (\<lambda>e. ex_ID e = i) ys)"
  by (induction rule: list_all2_induct) (auto simp: log_offset_only_simps)

lemma same_forward_left: "same_but_offsets d d' \<Longrightarrow> forward d x \<Longrightarrow> forward d' x"
proof -
  assume same: "same_but_offsets d d'" and fwd: "forward d x"
  have "rel_option log_offset_only (find_execution d i) (find_execution d' i)" for i
    using same by (simp add: same_but_offsets_def find_execution_def same_find)
  with fwd show ?thesis
    unfolding forward_def
    by (fastforce simp: option.rel_sel log_offset_only_simps split: option.splits)
qed

lemma same_forward_right:
  assumes "same_but_offsets d d'" "forward x d" shows "forward x d'"
proof -
  have "\<exists>e \<in> set (sd_Executions d). log_offset_only e e'" if "e' \<in> set (sd_Executions d')" for e'
    using assms(1) that unfolding same_but_offsets_def
    by (metis list_all2_conv_all_nth in_set_conv_nth nth_mem)
  with assms(2) show ?thesis
    unfolding forward_def
    by (fastforce simp: log_offset_only_simps split: option.splits)
qed

lemma same_SetLogOffset: "same_but_offsets (st_data s) (st_data (SetLogOffset i off s))"
proof -
  have "list_all2 log_offset_only xs (upd_first P (\<lambda>e. if off > ex_LogOffset e then e\<lparr>ex_LogOffset := off\<rparr> else e) xs)" for P xs
    by (induction xs) (auto simp: list.rel_refl intro: log_offset_onlyI)
  then show ?thesis by (simp add: same_but_offsets_def SetLogOffset_def update_execution_def)
qed

lemma origins_SetLogOffset [simp]:
  "sd_ImportedOrigins (st_data (SetLogOffset i off s)) = sd_ImportedOrigins (st_data s)"
  "st_disk (SetLogOffset i off s) = st_disk s"
  by (simp_all add: SetLogOffset_def update_execution_def)

lemma restart_data:
  assumes "openControllerStore mk logDir n create (Some d) (Loaded d) logs = Inr s'"
  shows "same_but_offsets d (st_data s')" "st_disk s' = Some d"
    "sd_ImportedOrigins (st_data s') = sd_ImportedOrigins (backfillImportedOrigins d)"
proof -
  define rec where "rec = map (\<lambda>e. case executionLogSize logs logDir (ex_ID e) of
      None \<Rightarrow> e | Some n \<Rightarrow> e\<lparr>ex_LogOffset := n\<rparr>) (sd_Executions d)"
  have rec: "list_all2 log_offset_only (sd_Executions d) rec"
    by (auto simp: rec_def list.rel_map intro!: list.rel_refl split: option.splits)
  from assms have s': "st_data s' = backfillImportedOrigins (d\<lparr>sd_Version := controllerStateVersion, sd_Executions := rec\<rparr>)"
    and "st_disk s' = Some d"
    by (auto simp: openControllerStore_def load_def rec_def Let_def split: if_splits)
  then show "same_but_offsets d (st_data s')" "st_disk s' = Some d"
    "sd_ImportedOrigins (st_data s') = sd_ImportedOrigins (backfillImportedOrigins d)"
    using rec same_lists(4) [OF rec]
    by (simp_all add: same_but_offsets_def backfillImportedOrigins_def)
qed

lemma forward_offsets: "snapshot_ok d \<Longrightarrow> same_but_offsets d d' \<Longrightarrow> forward d' d"
  using same_forward_left forward_refl snapshot_ok_unique by blast

lemma restart_step:
  assumes ok: "store_ok s"
    and r: "openControllerStore mk logDir n create (st_disk s)
              (case st_disk s of None \<Rightarrow> NotExist | Some d \<Rightarrow> Loaded d) logs = Inr s'"
  shows "store_ok s' \<and> progresses (st_data s) (st_data s')"
proof (cases "st_disk s")
  case None
  with r have s': "st_data s' = empty_state" "st_disk s' = None"
    by (auto simp: openControllerStore_def load_def split: if_splits)
  have "snapshot_ok empty_state"
    by (simp add: snapshot_ok_def unique_ids_def one_active_def lifecycle_def empty_state_def)
  moreover have "sd_Executions empty_state = []" "sd_ImportedOrigins empty_state = []"
    by (simp_all add: empty_state_def)
  ultimately show ?thesis using ok s' None
    by (simp add: store_ok_def disk_ok_def progresses_def forward_def)
next
  case (Some d)
  with r have r': "openControllerStore mk logDir n create (Some d) (Loaded d) logs = Inr s'" by simp
  note rd = restart_data [OF r']
  from ok Some have d: "snapshot_ok d" "forward (st_data s) d"
    "set (sd_ImportedOrigins (st_data s)) \<subseteq> set (sd_ImportedOrigins (backfillImportedOrigins d))"
    by (simp_all add: store_ok_def disk_ok_def)
  have "progresses (st_data s) (st_data s')"
    using d rd same_snapshot_ok [OF rd(1)] same_forward_right [OF rd(1)] by (simp add: progresses_def)
  moreover have "store_ok s'"
    using d rd same_snapshot_ok [OF rd(1)] forward_offsets [OF d(1) rd(1)]
    by (simp add: store_ok_def disk_ok_def)
  ultimately show ?thesis by simp
qed

lemma log_offset_step:
  assumes ok: "store_ok s"
  shows "store_ok (SetLogOffset i off s) \<and> progresses (st_data s) (st_data (SetLogOffset i off s))"
proof -
  note same = same_SetLogOffset [of s i off]
  have "disk_ok (SetLogOffset i off s)"
  proof (cases "st_disk s")
    case None
    with ok same show ?thesis by (simp add: store_ok_def disk_ok_def same_but_offsets_def)
  next
    case (Some d)
    with ok same_forward_left [OF same, of d] show ?thesis by (simp add: store_ok_def disk_ok_def)
  qed
  moreover have "forward (st_data s) (st_data (SetLogOffset i off s))"
    using same_forward_right [OF same] forward_refl snapshot_ok_unique ok by (simp add: store_ok_def)
  ultimately show ?thesis using ok same_snapshot_ok [OF same] by (simp add: store_ok_def progresses_def)
qed

lemma max_history_step:
  assumes ok: "store_ok s" and m: "SetMaxHistory io n s = (e, s')"
  shows "store_ok s' \<and> progresses (st_data s) (st_data s')"
proof (cases "normalizeMaxHistory n = st_maxHistory s")
  case True
  with ok m show ?thesis by (simp add: SetMaxHistory_def store_ok_def progresses_refl)
next
  case False
  let ?s = "s\<lparr>st_maxHistory := normalizeMaxHistory n\<rparr>"
  have ok': "store_ok ?s" using ok by (cases "st_disk s") (simp_all add: store_ok_def disk_ok_def)
  obtain r where "mutate io (\<lambda>st. ((), Inr st)) ?s = (r, e, s')"
    using m False by (cases "mutate io (\<lambda>st. ((), Inr st)) ?s") (simp add: SetMaxHistory_def Let_def)
  from mutate_step [OF ok' this] ok show ?thesis by (simp add: progresses_refl store_ok_def)
qed

section \<open>Every step\<close>

lemma store_step_ok:
  assumes "store_step s s'" "store_ok s"
  shows "store_ok s' \<and> progresses (st_data s) (st_data s')"
proof -
  have ok: "snapshot_ok (st_data s)" using assms(2) by (simp add: store_ok_def)
  from assms(1) show ?thesis
  proof (cases rule: store_step.cases)
  case (enqueue i io now job resolved user r e)
  show ?thesis by (rule mutate_step [OF assms(2) enqueue(2)]) (rule progress_Enqueue [OF enqueue(1) ok])
next
  case (schedule available io now r e)
  show ?thesis by (rule mutate_step [OF assms(2) schedule(2)]) (rule progress_schedule [OF schedule(1) ok])
next
  case (cancel io now i r e)
  show ?thesis by (rule mutate_step [OF assms(2) cancel]) (rule progress_Cancel [OF ok])
next
  case (resolve io now i msg r e)
  show ?thesis by (rule mutate_step [OF assms(2) resolve]) (rule progress_Resolve [OF ok])
next
  case (reconcile io agent known rs e)
  show ?thesis by (rule mutate_step [OF assms(2) reconcile]) (rule progress_Reconcile [OF ok])
next
  case (permit io now agent i rp e)
  show ?thesis by (rule mutate_step [OF assms(2) permit]) (rule progress_Grant [OF ok])
next
  case (truncated io i r e)
  show ?thesis by (rule mutate_step [OF assms(2) truncated]) (rule progress_truncated [OF ok])
next
  case (result status io now request sz r e)
  show ?thesis by (rule mutate_step [OF assms(2) result(2)]) (rule progress_Submit [OF result(1) ok])
next
  case (attention io agent i msg r e)
  show ?thesis by (rule mutate_step [OF assms(2) attention]) (rule progress_Report [OF ok])
next
  case (remove io i r e)
  show ?thesis by (rule mutate_step [OF assms(2) remove]) (rule progress_Delete [OF ok])
next
  case (import es io now machine cap r e)
  show ?thesis by (rule mutate_step [OF assms(2) import(2)]) (rule progress_import [OF import(1) ok])
next
  case (max_history io n e)
  then show ?thesis using assms(2) max_history_step by blast
next
  case (log_offset i offset)
  then show ?thesis using assms(2) log_offset_step by blast
next
  case (log_files logs)
  then show ?thesis using assms(2)
    by (cases "st_disk s") (simp_all add: store_ok_def disk_ok_def progresses_refl)
next
  case (restart logDir n create logs)
  then show ?thesis using assms(2) restart_step by blast
qed
qed

lemma initial_ok: "initial_store s \<Longrightarrow> store_ok s"
  by (simp add: initial_store_def store_ok_def disk_ok_def snapshot_ok_def unique_ids_def one_active_def
      lifecycle_def empty_state_def)

lemma reachable_ok: "reachable s \<Longrightarrow> store_ok s"
  by (induction rule: reachable.induct) (auto simp: initial_ok dest: store_step_ok)

section \<open>What becomes of an execution\<close>

lemma evolves_trans: "evolves e e' \<Longrightarrow> evolves e' e'' \<Longrightarrow> evolves e e''"
  by (auto simp: evolves_def terminal_ex_def outcome_def)

text \<open>Histories along which the execution stays recorded.\<close>

inductive run_keeping :: "string \<Rightarrow> ControllerStore \<Rightarrow> ControllerStore \<Rightarrow> bool" for i where
  here: "run_keeping i s s"
| more: "run_keeping i s s' \<Longrightarrow> store_step s' s'' \<Longrightarrow> Find s'' i \<noteq> None \<Longrightarrow> run_keeping i s s''"

lemma progresses_find:
  assumes "progresses d d'" "find_execution d i = Some e" "find_execution d' i = Some e'"
  shows "evolves e e'"
  using assms find_execution_Some [OF assms(3)] by (auto simp: progresses_def forward_def)

lemma run_keeping_evolves:
  assumes "run_keeping i s s'" "store_ok s" "Find s i = Some e"
  shows "store_ok s' \<and> (\<exists>e'. Find s' i = Some e' \<and> evolves e e')"
  using assms
proof (induction rule: run_keeping.induct)
  case (more s s' s'')
  then obtain e' where e': "Find s' i = Some e'" "evolves e e'" "store_ok s'" by blast
  from store_step_ok [OF more.hyps(2) e'(3)] have ok: "store_ok s''" "progresses (st_data s') (st_data s'')"
    by blast+
  from more.hyps(3) obtain e'' where "Find s'' i = Some e''" by blast
  with e' ok progresses_find [of "st_data s'" "st_data s''" i e' e''] evolves_trans show ?case
    by (auto simp: Find_def)
qed auto

text \<open>Every run from a reachable store stays reachable.\<close>

lemma steps_reachable: "store_step\<^sup>*\<^sup>* s s' \<Longrightarrow> reachable s \<Longrightarrow> reachable s'"
  by (induction rule: rtranclp_induct) (auto intro: reachable.step)


end
