(* ===== verification/Ctrl_Ops.thy ===== *)
theory Ctrl_Ops
  imports Ctrl_System
begin

text \<open>
  Every operation of the controller, as its handlers call it, is a sequence of steps of the state
  machine of \<^verbatim>\<open>Ctrl_System\<close>; so what holds in every reachable store holds whatever the
  handlers, agents, the scheduler loop and the command line do, in any order.
\<close>

section \<open>The operations\<close>

inductive controller_op :: "Controller \<Rightarrow> Controller \<Rightarrow> bool" where
  scheduleOnce: "scheduleOnce se c = (err, c') \<Longrightarrow> controller_op c c'"
| Enqueue: "Enqueue env gen jobID values user c = Some (r, c') \<Longrightarrow> controller_op c c'"
| Rerun: "Rerun env gen i user c = Some (r, c') \<Longrightarrow> controller_op c c'"
| Cancel: "Cancel env i c = (r, c') \<Longrightarrow> controller_op c c'"
| CancelMany: "CancelMany is results c = (rm, c') \<Longrightarrow> controller_op c c'"
| ResolveAttention: "ResolveAttention env i msg c = (r, c') \<Longrightarrow> controller_op c c'"
| Reconcile: "Reconcile io agent known c = (rr, c') \<Longrightarrow> controller_op c c'"
| GrantPermit: "GrantPermit env agent i c = (rg, c') \<Longrightarrow> controller_op c c'"
| Heartbeat: "Heartbeat now agent version i c = (rh, c') \<Longrightarrow> controller_op c c'"
| AppendLog: "AppendLog lio io agent lrq c = (ra, c') \<Longrightarrow> controller_op c c'"
| SubmitResult: "SubmitResult sf env agent rrq c = (rs, c') \<Longrightarrow> controller_op c c'"
| ReportAttention: "ReportAttention io agent i msg c = (err, c') \<Longrightarrow> controller_op c c'"
| DeleteExecution: "DeleteExecution io i (c_store c) = (err, s') \<Longrightarrow> controller_op c (c\<lparr>c_store := s'\<rparr>)"
| importBundle: "importBundle ie ae c bundle mapping apply = Some (ri, c') \<Longrightarrow> controller_op c c'"

inductive_cases controller_opE: "controller_op c c'"

text \<open>Agent identifiers are not empty; validation of the configuration sees to it.\<close>

definition named_agents :: "Controller \<Rightarrow> bool" where
  "named_agents c \<longleftrightarrow> (\<forall>a \<in> set (cfg_Agents (c_cfg c)). agd_ID a \<noteq> '''')"

section \<open>Operations are sequences of steps\<close>

lemma available_ids:
  assumes "a \<in> fst ` set (available_agents views)"
  shows "\<exists>v \<in> set views. agd_ID (av_Definition v) = a"
proof -
  let ?add = "\<lambda>view available.
     if av_Online view \<and> AgentDefinition_IsEnabled (av_Definition view) \<and> \<not> agd_Paused (av_Definition view)
     then AList.update (agd_ID (av_Definition view)) view available else available"
  have "fst ` set (fold ?add views m) \<subseteq> fst ` set m \<union> (\<lambda>v. agd_ID (av_Definition v)) ` set views" for m
  proof (induction views arbitrary: m)
    case (Cons v views)
    have "fst ` set (?add v m) \<subseteq> insert (agd_ID (av_Definition v)) (fst ` set m)"
      by (auto simp: dom_update)
    with Cons.IH [of "?add v m"] show ?case by (auto simp only: fold_simps comp_apply list.set image_insert)
  qed simp
  from this [of "[]"] have "fst ` set (available_agents views) \<subseteq> (\<lambda>v. agd_ID (av_Definition v)) ` set views"
    by (simp add: available_agents_def)
  from subsetD [OF this assms] show ?thesis by (rule imageE) (rule bexI, rule sym)
qed

lemma agent_view_definition [simp]: "av_Definition (agent_view now c occ d) = d"
  by (simp add: agent_view_def Let_def)

lemma available_named: "named_agents c \<Longrightarrow> '''' \<notin> fst ` set (available_agents (AgentViews now c))"
  by (auto simp: named_agents_def AgentViews_def dest!: available_ids)

lemma put_log_cfg [simp]: "c_cfg (put_log path bytes c) = c_cfg c"
  by (simp add: put_log_def)

lemma store_chunk_cases:
  assumes "store_chunk lio io i path file payload c = (r, c')"
  obtains (failed) file' where "c' = put_log path file' c"
    | (stored) file' n where "c' = c\<lparr>c_store := SetLogOffset i n (c_store (put_log path file' c))\<rparr>"
    | (lost) file' err s' where "markLogTruncated io i (c_store (put_log path file' c)) = (Some err, s')"
        "c' = c\<lparr>c_store := s'\<rparr>"
    | (capped) file' s' n where "markLogTruncated io i (c_store (put_log path file' c)) = (None, s')"
        "c' = c\<lparr>c_store := SetLogOffset i n s'\<rparr>"
  using assms unfolding store_chunk_def Let_def
  by (auto split: option.splits if_splits prod.splits bool.splits)

lemma AppendLog_cases:
  assumes "AppendLog lio io agent rq c = (r, c')"
  obtains "c' = c"
    | path bytes where "c' = put_log path bytes c"
    | path bytes payload where "store_chunk lio io (lrq_ExecutionID rq) path bytes payload c = (r, c')"
  using assms unfolding AppendLog_def Let_def
  by (auto split: option.splits if_splits prod.splits)

text \<open>What an agent's requests do to the store is a sequence of a few kinds of steps.  The locale
  says so once, for every relation that contains these kinds: all steps of the state machine, and
  later those that create no execution.\<close>

locale agent_requests =
  fixes R :: "ControllerStore \<Rightarrow> ControllerStore \<Rightarrow> bool"
  assumes R_schedule: "'''' \<notin> fst ` set available \<Longrightarrow>
      mutate io (scheduleOnce_txn now available) s = (r, e, s') \<Longrightarrow> R s s'"
    and R_reconcile: "mutate io (Reconcile_txn agent known) s = (rs, e, s') \<Longrightarrow> R s s'"
    and R_permit: "mutate io (GrantPermit_txn now agent i) s = (rp, e, s') \<Longrightarrow> R s s'"
    and R_truncated: "mutate io (markLogTruncated_txn i) s = (r, e, s') \<Longrightarrow> R s s'"
    and R_result: "isExecutionTerminal status \<Longrightarrow>
      mutate io (SubmitResult_txn now request status sz) s = (r, e, s') \<Longrightarrow> R s s'"
    and R_attention: "mutate io (ReportAttention_txn agent i msg) s = (r, e, s') \<Longrightarrow> R s s'"
    and R_offset: "R s (SetLogOffset i offset s)"
    and R_logs: "R s (s\<lparr>st_logs := logs\<rparr>)"
begin

lemma scheduleOnce_R:
  assumes "named_agents c" "scheduleOnce se c = (err, c')"
  shows "R\<^sup>*\<^sup>* (c_store c) (c_store c') \<and> c_cfg c' = c_cfg c"
proof (cases "available_agents (AgentViews (se_viewNow se) c) = []")
  case True
  with assms(2) show ?thesis by (auto simp: scheduleOnce_def)
next
  case False
  obtain r e s' where m: "mutate (se_io se) (scheduleOnce_txn (se_now se)
      (available_agents (AgentViews (se_viewNow se) c))) (c_store c) = (r, e, s')"
    by (metis surj_pair)
  with False assms(2) have "c' = c\<lparr>c_store := s'\<rparr>" by (auto simp: scheduleOnce_def Let_def)
  with R_schedule [OF available_named [OF assms(1)] m] show ?thesis by auto
qed

lemma Reconcile_R:
  assumes "Reconcile io agent known c = (r, c')"
  shows "R\<^sup>*\<^sup>* (c_store c) (c_store c') \<and> c_cfg c' = c_cfg c"
proof -
  obtain u e s' where m: "mutate io (Reconcile_txn agent known) (c_store c) = (u, e, s')" by (metis surj_pair)
  with assms have "c' = c\<lparr>c_store := s'\<rparr>" by (auto simp: Reconcile_def)
  with R_reconcile [OF m] show ?thesis by auto
qed

lemma GrantPermit_R:
  assumes "GrantPermit env agent i c = (r, c')"
  shows "R\<^sup>*\<^sup>* (c_store c) (c_store c') \<and> c_cfg c' = c_cfg c"
proof -
  obtain u e s' where m: "mutate (op_io env) (GrantPermit_txn (op_now env) agent i) (c_store c) = (u, e, s')"
    by (metis surj_pair)
  with assms have "c' = c\<lparr>c_store := s'\<rparr>" by (auto simp: GrantPermit_def)
  with R_permit [OF m] show ?thesis by auto
qed

lemma ReportAttention_R:
  assumes "ReportAttention io agent i msg c = (r, c')"
  shows "R\<^sup>*\<^sup>* (c_store c) (c_store c') \<and> c_cfg c' = c_cfg c"
proof -
  obtain u e s' where m: "mutate io (ReportAttention_txn agent i msg) (c_store c) = (u, e, s')"
    by (metis surj_pair)
  with assms have "c' = c\<lparr>c_store := s'\<rparr>" by (auto simp: ReportAttention_def)
  with R_attention [OF m] show ?thesis by auto
qed

lemma SubmitResult_R:
  assumes "named_agents c" "SubmitResult sf env agent rq c = (r, c')"
  shows "R\<^sup>*\<^sup>* (c_store c) (c_store c') \<and> c_cfg c' = c_cfg c"
proof (cases "c' = c")
  case False
  with assms(2) obtain status sz where
    status: "normalizeResultStatus (rrq_Status rq) = Inr status" and
    r: "(case mutate (op_io env) (SubmitResult_txn (op_now env) rq status sz) (c_store c) of
           (_, err, s') \<Rightarrow>
             if err \<noteq> None \<and> err \<noteq> Some ErrNoStateChange then (Inl (the err), c\<lparr>c_store := s'\<rparr>)
             else (Inr \<lparr>rrs_Accepted = True, rrs_AckOffset = sz, rrs_Reason = ''''\<rparr>,
                   snd (scheduleOnce (op_sched env) (c\<lparr>c_store := s'\<rparr>)))) = (r, c')"
    unfolding SubmitResult_def Let_def
    by (auto split: option.splits if_splits sum.splits)
  obtain u e s' where m: "mutate (op_io env) (SubmitResult_txn (op_now env) rq status sz) (c_store c) = (u, e, s')"
    by (metis surj_pair)
  have "isExecutionTerminal status" using status by (auto simp: normalizeResultStatus_def split: if_splits)
  note step = R_result [OF this m]
  obtain x c1 where c1: "scheduleOnce (op_sched env) (c\<lparr>c_store := s'\<rparr>) = (x, c1)" by fastforce
  have n: "named_agents (c\<lparr>c_store := s'\<rparr>)" using assms(1) by (simp add: named_agents_def)
  have "c' = c\<lparr>c_store := s'\<rparr> \<or> c' = c1" using r m c1 by (auto split: if_splits)
  with step scheduleOnce_R [OF n c1] show ?thesis
    by (auto intro: converse_rtranclp_into_rtranclp)
qed simp

text \<open>Appending to a log writes the log file, marks the execution truncated when the cap cuts the
  chunk, and records the offset.\<close>

lemma put_log_R: "R (c_store c) (c_store (put_log path bytes c))"
  by (simp add: put_log_def R_logs)

lemma markLogTruncated_R:
  assumes "markLogTruncated io i s = (x, s')" shows "R s s'"
proof -
  obtain u e s1 where m: "mutate io (markLogTruncated_txn i) s = (u, e, s1)" by (metis surj_pair)
  with assms have "s' = s1" by (simp add: markLogTruncated_def)
  with R_truncated [OF m] show ?thesis by simp
qed

lemma store_chunk_R:
  assumes "store_chunk lio io i path file payload c = (r, c')"
  shows "R\<^sup>*\<^sup>* (c_store c) (c_store c') \<and> c_cfg c' = c_cfg c"
  using assms
proof (cases rule: store_chunk_cases)
  case (failed file')
  with put_log_R [of c path file'] show ?thesis by auto
next
  case (stored file' n)
  with put_log_R [of c path file'] R_offset [of "c_store (put_log path file' c)" i n]
  show ?thesis by (auto intro: rtranclp.rtrancl_into_rtrancl)
next
  case (lost file' err s')
  with put_log_R [of c path file'] markLogTruncated_R [OF lost(1)]
  show ?thesis by (auto intro: rtranclp.rtrancl_into_rtrancl)
next
  case (capped file' s' n)
  from put_log_R [of c path file'] markLogTruncated_R [OF capped(1)]
  have "R\<^sup>*\<^sup>* (c_store c) s'" by (auto intro: rtranclp.rtrancl_into_rtrancl)
  with R_offset [of s' i n] capped(2) show ?thesis
    by (auto intro: rtranclp.rtrancl_into_rtrancl)
qed

lemma AppendLog_R:
  assumes "AppendLog lio io agent rq c = (r, c')"
  shows "R\<^sup>*\<^sup>* (c_store c) (c_store c') \<and> c_cfg c' = c_cfg c"
  using assms
  by (rule AppendLog_cases) (auto simp: put_log_R store_chunk_R)

end

abbreviation steps :: "ControllerStore \<Rightarrow> ControllerStore \<Rightarrow> bool" where
  "steps \<equiv> store_step\<^sup>*\<^sup>*"

interpretation any: agent_requests store_step
  by unfold_locales
     (erule store_step.schedule store_step.reconcile store_step.permit store_step.truncated
        store_step.result store_step.attention, assumption?
      | rule store_step.log_offset store_step.log_files)+

lemmas scheduleOnce_steps = any.scheduleOnce_R
lemmas Reconcile_steps = any.Reconcile_R
lemmas GrantPermit_steps = any.GrantPermit_R
lemmas ReportAttention_steps = any.ReportAttention_R
lemmas SubmitResult_steps = any.SubmitResult_R
lemmas AppendLog_steps = any.AppendLog_R

lemma schedule_and_find_steps:
  assumes "named_agents c" "schedule_and_find se i c = (r, c')"
  shows "steps (c_store c) (c_store c') \<and> c_cfg c' = c_cfg c"
  using scheduleOnce_steps [OF assms(1), of se] assms(2)
  by (cases "scheduleOnce se c") (auto simp: schedule_and_find_def Let_def)

lemma step_then_schedule:
  assumes "named_agents c" "store_step (c_store c) s'" "schedule_and_find se i (c\<lparr>c_store := s'\<rparr>) = (r, c')"
  shows "steps (c_store c) (c_store c') \<and> c_cfg c' = c_cfg c"
proof -
  have "named_agents (c\<lparr>c_store := s'\<rparr>)" using assms(1) by (simp add: named_agents_def)
  from schedule_and_find_steps [OF this assms(3)] assms(2) show ?thesis
    by (auto intro: converse_rtranclp_into_rtranclp)
qed

lemma fresh_id_unused: "fresh_id gen st n = Some i \<Longrightarrow> find_execution st i = None"
  using fresh_id_Some by blast

lemma Enqueue_steps:
  assumes "named_agents c" "Enqueue env gen jobID values user c = Some (r, c')"
  shows "steps (c_store c) (c_store c') \<and> c_cfg c' = c_cfg c"
proof (cases "c' = c")
  case False
  with assms(2) obtain job resolved i where
    i: "fresh_id gen (st_data (c_store c)) 0 = Some i" and
    r: "(case mutate (op_io env) (Enqueue_txn (new_execution (op_now env) job resolved user i)) (c_store c) of
             (_, Some err, s') \<Rightarrow> (Inl err, c\<lparr>c_store := s'\<rparr>)
           | (_, None, s') \<Rightarrow> apfst Inr (schedule_and_find (op_sched env) i (c\<lparr>c_store := s'\<rparr>))) = (r, c')"
    by (auto simp: Enqueue_def split: option.splits if_splits sum.splits)
  obtain u e s' where m: "mutate (op_io env) (Enqueue_txn (new_execution (op_now env) job resolved user i))
      (c_store c) = (u, e, s')"
    by (metis surj_pair)
  note step = store_step.enqueue [OF fresh_id_unused [OF i] m]
  show ?thesis
  proof (cases e)
    case None
    with r m obtain x where "schedule_and_find (op_sched env) i (c\<lparr>c_store := s'\<rparr>) = (x, c')"
      by (cases "schedule_and_find (op_sched env) i (c\<lparr>c_store := s'\<rparr>)") auto
    with step_then_schedule [OF assms(1) step] show ?thesis by blast
  next
    case (Some err)
    with r m step show ?thesis by auto
  qed
qed simp

lemma Rerun_steps:
  assumes "named_agents c" "Rerun env gen i user c = Some (r, c')"
  shows "steps (c_store c) (c_store c') \<and> c_cfg c' = c_cfg c"
  using assms(2) Enqueue_steps [OF assms(1)]
  by (auto simp: Rerun_def split: option.splits)

lemma txn_then_schedule:
  assumes "named_agents c"
    and "\<And>u e s'. mutate io txn (c_store c) = (u, e, s') \<Longrightarrow> store_step (c_store c) s'"
    and "(case mutate io txn (c_store c) of
            (_, Some err, s') \<Rightarrow> (Inl err, c\<lparr>c_store := s'\<rparr>)
          | (_, None, s') \<Rightarrow> apfst Inr (schedule_and_find se i (c\<lparr>c_store := s'\<rparr>))) = (r, c')"
  shows "steps (c_store c) (c_store c') \<and> c_cfg c' = c_cfg c"
proof -
  obtain u e s' where m: "mutate io txn (c_store c) = (u, e, s')" by (metis surj_pair)
  note step = assms(2) [OF m]
  show ?thesis
  proof (cases e)
    case None
    with assms(3) m obtain x where "schedule_and_find se i (c\<lparr>c_store := s'\<rparr>) = (x, c')"
      by (cases "schedule_and_find se i (c\<lparr>c_store := s'\<rparr>)") auto
    with step_then_schedule [OF assms(1) step] show ?thesis by blast
  next
    case (Some err)
    with assms(3) m step show ?thesis by auto
  qed
qed

lemma Cancel_steps:
  assumes "named_agents c" "Cancel env i c = (r, c')"
  shows "steps (c_store c) (c_store c') \<and> c_cfg c' = c_cfg c"
  by (rule txn_then_schedule [OF assms(1) store_step.cancel assms(2) [unfolded Cancel_def]])

lemma CancelMany_steps:
  "named_agents c \<Longrightarrow> CancelMany is results c = (r, c') \<Longrightarrow>
     steps (c_store c) (c_store c') \<and> c_cfg c' = c_cfg c"
proof (induction "is" results c rule: CancelMany.induct)
  case (2 i env rest results c)
  obtain res c1 where c1: "Cancel env i c = (res, c1)" by fastforce
  note one = Cancel_steps [OF "2.prems"(1) c1]
  then have n1: "named_agents c1" using "2.prems"(1) by (simp add: named_agents_def)
  show ?case
  proof (cases "cancel_outcome res")
    case (Inl p)
    with "2.prems"(2) c1 one show ?thesis by simp
  next
    case (Inr x)
    with "2.prems"(2) c1 have "CancelMany rest (AList.update i x results) c1 = (r, c')" by simp
    from "2.IH" [OF c1 [symmetric] Inr n1 this] one show ?thesis by (auto intro: rtranclp_trans)
  qed
qed simp

lemma ResolveAttention_steps:
  assumes "named_agents c" "ResolveAttention env i msg c = (r, c')"
  shows "steps (c_store c) (c_store c') \<and> c_cfg c' = c_cfg c"
  by (rule txn_then_schedule [OF assms(1) store_step.resolve assms(2) [unfolded ResolveAttention_def]])

lemma DeleteExecution_steps:
  assumes "DeleteExecution io i s = (r, s')"
  shows "steps s s'"
proof -
  obtain u e s1 where m: "mutate io (DeleteExecution_txn i) s = (u, e, s1)" by (metis surj_pair)
  note step = store_step.remove [OF m]
  show ?thesis
  proof (cases e)
    case None
    with assms m obtain logs where "s' = s1\<lparr>st_logs := logs\<rparr>" by (auto simp: DeleteExecution_def)
    with step store_step.log_files [of s1 logs] show ?thesis by auto
  next
    case (Some err)
    with assms m step show ?thesis by (auto simp: DeleteExecution_def)
  qed
qed

section \<open>Imports\<close>

lemma built_importable:
  assumes "buildImportedExecution now i cfg job bundle mapping task run = Inr (e, retired)"
    and "isTerminal (run_Status run)"
  shows "importable e"
  using assms
  by (auto simp: buildImportedExecution_def importable_def terminal_ex_def isTerminal_def
      isExecutionTerminal_def split: sum.splits prod.splits)

lemma plan_loop_importable:
  "plan_loop env c b m runs seen taken n rep = Some (planned, rep') \<Longrightarrow>
     p \<in> set planned \<Longrightarrow> importable (pln_Execution p)"
proof (induction runs arbitrary: seen taken n rep planned rep')
  case (Cons run runs)
  have step: "importable (e\<lparr>ex_ID := i, ex_Origin := map_option f (ex_Origin e)\<rparr>)"
    if "importable e" for e i f
    using that by (simp add: importable_def terminal_ex_def)
  from Cons.prems show ?case
    unfolding plan_loop.simps Let_def
    by (auto split: if_splits option.splits sum.splits prod.splits
        intro!: step elim!: built_importable dest: Cons.IH)
qed simp

lemma importBundle_steps:
  assumes "importBundle ie ae c bundle mapping apply = Some (r, c')"
  shows "steps (c_store c) (c_store c') \<and> c_cfg c' = c_cfg c"
proof (cases "c' = c")
  case False
  with assms obtain planned rep rep' where
    plan: "planImports ie c bundle mapping empty_report = Some (planned, rep)" and
    ap: "applyImports ae c bundle planned rep' = (r, c')"
    by (auto simp: importBundle_def Let_def split: option.splits prod.splits if_splits)
  have imp: "\<forall>x \<in> set (map pln_Execution planned). importable x"
    using plan_loop_importable plan by (fastforce simp: planImports_def)
  have files: "store_step s (s\<lparr>st_logs := logs\<rparr>)" for s logs by (rule store_step.log_files)
  obtain failed logs created where copied:
    "copy_logs (ae_read ae) (ae_copyIO ae) (rt_LogDir (c_runtime c)) planned (st_logs (c_store c)) [] = (failed, logs, created)"
    by (metis surj_pair)
  show ?thesis
  proof (cases failed)
    case (Some f)
    with ap copied False files show ?thesis by (auto simp: applyImports_def Let_def split: if_splits)
  next
    case None
    obtain u e s' where m: "mutate (ae_io ae) (applyImports_txn (ae_now ae) (bun_Machine bundle)
        (normalizeMaxHistory (rt_MaxHistory (c_runtime c))) (map pln_Execution planned))
        ((c_store c)\<lparr>st_logs := logs\<rparr>) = (u, e, s')"
      by (metis surj_pair)
    have "steps (c_store c) s'"
    proof -
      have "steps ((c_store c)\<lparr>st_logs := logs\<rparr>) s'" using store_step.import [OF imp m] by blast
      with files [of "c_store c" logs] show ?thesis by (rule converse_rtranclp_into_rtranclp)
    qed
    moreover from ap copied None False m
    have "c' = c\<lparr>c_store := s'\<rparr> \<or> (\<exists>l. c' = c\<lparr>c_store := s'\<lparr>st_logs := l\<rparr>\<rparr>)"
      by (auto simp: applyImports_def Let_def split: if_splits option.splits)
    moreover have "steps (c_store c) (s'\<lparr>st_logs := l\<rparr>)" if "steps (c_store c) s'" for l
      using that files [of s' l] by (rule rtranclp.rtrancl_into_rtrancl)
    ultimately show ?thesis by auto
  qed
qed simp

section \<open>Every operation\<close>

lemma controller_op_steps:
  assumes "controller_op c c'" "named_agents c"
  shows "steps (c_store c) (c_store c') \<and> c_cfg c' = c_cfg c"
  using assms(1)
proof cases
  case scheduleOnce
  then show ?thesis by (rule scheduleOnce_steps [OF assms(2)])
next
  case Enqueue
  then show ?thesis by (rule Enqueue_steps [OF assms(2)])
next
  case Rerun
  then show ?thesis by (rule Rerun_steps [OF assms(2)])
next
  case Cancel
  then show ?thesis by (rule Cancel_steps [OF assms(2)])
next
  case CancelMany
  then show ?thesis by (rule CancelMany_steps [OF assms(2)])
next
  case ResolveAttention
  then show ?thesis by (rule ResolveAttention_steps [OF assms(2)])
next
  case Reconcile
  then show ?thesis by (rule Reconcile_steps)
next
  case GrantPermit
  then show ?thesis by (rule GrantPermit_steps)
next
  case (Heartbeat now agent version i rh)
  then have "c' = markAgentSeen now agent version c" by (auto simp: Heartbeat_def Let_def split: if_splits)
  then show ?thesis by simp
next
  case AppendLog
  then show ?thesis by (rule AppendLog_steps)
next
  case SubmitResult
  then show ?thesis by (rule SubmitResult_steps [OF assms(2)])
next
  case ReportAttention
  then show ?thesis by (rule ReportAttention_steps)
next
  case (DeleteExecution io i err s')
  with DeleteExecution_steps show ?thesis by simp
next
  case importBundle
  then show ?thesis by (rule importBundle_steps)
qed

text \<open>A controller that was opened on fresh files and has run any operations since.\<close>

inductive reachable_controller :: "Controller \<Rightarrow> bool" where
  opened: "named_agents c \<Longrightarrow> initial_store (c_store c) \<Longrightarrow> reachable_controller c"
| operated: "reachable_controller c \<Longrightarrow> controller_op c c' \<Longrightarrow> reachable_controller c'"
| reconfigured: "reachable_controller c \<Longrightarrow> named_agents (c\<lparr>c_cfg := cfg\<rparr>) \<Longrightarrow>
     SetMaxHistory io n (c_store c) = (err, s) \<Longrightarrow>
     reachable_controller (c\<lparr>c_cfg := cfg, c_runtime := rt, c_configStamp := stamp, c_store := s\<rparr>)"
| restarted: "reachable_controller c \<Longrightarrow>
     openControllerStore False logDir n create (st_disk (c_store c))
       (case st_disk (c_store c) of None \<Rightarrow> NotExist | Some d \<Rightarrow> Loaded d) (st_logs (c_store c)) = Inr s \<Longrightarrow>
     reachable_controller (c\<lparr>c_store := s, c_live := []\<rparr>)"

lemma reachable_controller_store:
  "reachable_controller c \<Longrightarrow> reachable (c_store c) \<and> named_agents c"
proof (induction rule: reachable_controller.induct)
  case (operated c c')
  with controller_op_steps [of c c'] show ?case by (auto simp: named_agents_def intro: steps_reachable)
next
  case (reconfigured c cfg io n err s rt stamp)
  then show ?case
    using reachable.step [OF _ store_step.max_history] by (auto simp: named_agents_def)
next
  case (restarted c logDir n create s)
  then show ?case
    using reachable.step [OF _ store_step.restart] by (auto simp: named_agents_def)
qed (auto simp: named_agents_def intro: reachable.start)

end
