(* ===== verification/Sample_States.thy ===== *)
theory Sample_States
  imports Ctrl_Ops
begin

text \<open>
  A concrete controller at which the properties are applied: one job, two agents, and the states
  it passes through when a run is enqueued, started and finished.
\<close>

definition sample_job :: JobConfig where
  "sample_job = \<lparr>job_ID = ''build'', job_Name = ''Build'', job_Description = '''', job_Enabled = None,
     job_Labels = [''linux''], job_Timeout = '''', job_Script = ''make'', job_WorkdirParam = '''',
     job_Parameters = []\<rparr>"

definition sample_agent :: "string \<Rightarrow> string list \<Rightarrow> AgentDefinition" where
  "sample_agent i labels = \<lparr>agd_ID = i, agd_Name = i, agd_Description = '''', agd_Labels = labels,
     agd_Enabled = None, agd_Paused = False\<rparr>"

definition sample_config :: ControllerConfig where
  "sample_config = \<lparr>cfg_Role = ''controller'',
     cfg_Server = \<lparr>srv_Address = ''127.0.0.1:8080'', srv_Addresses = [], srv_StateDir = ''/var/builda'',
       srv_MaxHistory = 0, srv_HeartbeatInterval = '''', srv_OfflineAfter = '''', srv_LongPollTimeout = '''',
       srv_MaxLogBytes = 0, srv_PublicURL = ''''\<rparr>,
     cfg_Catalogs = [], cfg_Jobs = [sample_job],
     cfg_Agents = [sample_agent ''a1'' [''linux''], sample_agent ''a2'' [''mac'']]\<rparr>"

definition sample_runtime :: ControllerRuntime where
  "sample_runtime = \<lparr>rt_ConfigPath = ''/etc/builda.yaml'', rt_StateDir = ''/var/builda'',
     rt_LogDir = ''/var/builda/logs'', rt_StatePath = ''/var/builda/state.json'',
     rt_CredentialsPath = ''/var/builda/credentials.json'', rt_MaxHistory = 2, rt_MaxLogBytes = 100,
     rt_HeartbeatInterval = 5, rt_OfflineAfter = 30, rt_LongPollTimeout = 20,
     rt_ListenAddresses = [''127.0.0.1:28080'']\<rparr>"

definition sample_store :: ControllerStore where
  "sample_store = \<lparr>st_logDir = ''/var/builda/logs'', st_maxHistory = 2, st_data = empty_state,
     st_changed = 0, st_disk = None, st_logs = []\<rparr>"

definition sample_controller :: Controller where
  "sample_controller = \<lparr>c_cfg = sample_config, c_runtime = sample_runtime,
     c_configStamp = \<lparr>fs_modTime = 1, fs_size = 100\<rparr>, c_store = sample_store, c_live = []\<rparr>"

definition sample_env :: "time \<Rightarrow> op_env" where
  "sample_env now = \<lparr>op_now = now, op_io = io_ok,
     op_sched = \<lparr>se_viewNow = now, se_now = now, se_io = io_ok\<rparr>\<rparr>"

definition sample_ids :: "nat \<Rightarrow> string" where
  "sample_ids n = ''r'' @ replicate n CHR ''0''"

text \<open>The agent \<^verbatim>\<open>a1\<close> comes online, a run is enqueued and assigned to it, starts, and finishes.\<close>

definition sample_online :: Controller where
  "sample_online = snd (Heartbeat 10 ''a1'' ''1.0'' '''' sample_controller)"

definition sample_assigned :: Controller where
  "sample_assigned = snd (the (Enqueue (sample_env 11) sample_ids ''build'' [] ''alice'' sample_online))"

definition sample_running :: Controller where
  "sample_running = snd (GrantPermit (sample_env 12) ''a1'' ''r'' sample_assigned)"

definition sample_canceled :: Controller where
  "sample_canceled = snd (Cancel (sample_env 13) ''r'' sample_assigned)"

lemma sample_reachable_controller: "reachable_controller sample_controller"
  by (rule reachable_controller.opened)
     (simp_all add: named_agents_def sample_controller_def sample_config_def sample_agent_def
        initial_store_def sample_store_def)

lemma sample_reachable_online: "reachable_controller sample_online"
  unfolding sample_online_def
  by (rule reachable_controller.operated [OF sample_reachable_controller])
     (rule controller_op.Heartbeat [OF surjective_pairing])

lemma sample_enqueue:
  "Enqueue (sample_env 11) sample_ids ''build'' [] ''alice'' sample_online \<noteq> None"
  by code_simp

lemma sample_reachable_assigned: "reachable_controller sample_assigned"
proof -
  obtain x where x: "Enqueue (sample_env 11) sample_ids ''build'' [] ''alice'' sample_online = Some x"
    using sample_enqueue by blast
  then have "Enqueue (sample_env 11) sample_ids ''build'' [] ''alice'' sample_online = Some (fst x, sample_assigned)"
    by (simp add: sample_assigned_def)
  then show ?thesis
    by (rule reachable_controller.operated [OF sample_reachable_online controller_op.Enqueue])
qed

lemma sample_reachable_running: "reachable_controller sample_running"
  unfolding sample_running_def
  by (rule reachable_controller.operated [OF sample_reachable_assigned])
     (rule controller_op.GrantPermit [OF surjective_pairing])

lemma sample_reachable_canceled: "reachable_controller sample_canceled"
  unfolding sample_canceled_def
  by (rule reachable_controller.operated [OF sample_reachable_assigned])
     (rule controller_op.Cancel [OF surjective_pairing])

definition sample_canceled_only :: Controller where
  "sample_canceled_only =
     sample_assigned\<lparr>c_store := snd (snd (mutate io_ok (Cancel_txn 13 ''r'') (c_store sample_assigned)))\<rparr>"

lemma sample_running_permit: "\<exists>e. Find (c_store sample_running) ''r'' = Some e \<and> ex_PermitGranted e"
proof -
  have "(case Find (c_store sample_running) ''r'' of None \<Rightarrow> False | Some e \<Rightarrow> ex_PermitGranted e)" by code_simp
  then show ?thesis by (auto split: option.splits)
qed

lemma sample_assigned_status:
  "\<exists>e. Find (c_store sample_assigned) ''r'' = Some e \<and> ex_Status e = StatusAssigned"
proof -
  have "(case Find (c_store sample_assigned) ''r'' of None \<Rightarrow> False | Some e \<Rightarrow> ex_Status e = StatusAssigned)"
    by code_simp
  then show ?thesis by (auto split: option.splits)
qed

end
