(* ===== verification/Store_Props.thy ===== *)
theory Store_Props
  imports Sample_States
begin

text \<open>
  What the store promises: transactions are all or nothing in memory and on disk, an acknowledged
  one survives a crash, and pruning removes only the oldest finished runs beyond the cap.
\<close>

section \<open>Transactions\<close>

text \<open>C6. A transaction is atomic.  If it is acknowledged, memory and disk hold its pruned result and
  every waiter is woken; if it is refused or cannot be persisted, memory, the logs and the waiters are
  exactly as before.  The snapshot file holds the old snapshot or the complete new one, never a mixture,
  also when the write fails half way.\<close>

theorem mutate_atomic:
  assumes "mutate io fn s = (r, err, s')"
  shows "(err = None \<longrightarrow>
       (\<exists>d. fn (st_data s) = (r, Inr d) \<and> st_data s' = committed d (st_maxHistory s))
       \<and> st_disk s' = Some (st_data s') \<and> st_changed s' = Suc (st_changed s))
    \<and> (err \<noteq> None \<longrightarrow> st_data s' = st_data s \<and> st_logs s' = st_logs s \<and> st_changed s' = st_changed s)
    \<and> (st_disk s' = st_disk s
       \<or> (\<exists>d. fn (st_data s) = (r, Inr d) \<and> st_disk s' = Some (committed d (st_maxHistory s))))"
  using assms
proof (cases rule: mutate_cases)
  case (lost d)
  then obtain disk where "s' = s\<lparr>st_disk := disk\<rparr>"
    "disk = st_disk s \<or> disk = Some (committed d (st_maxHistory s))" by blast
  with lost(1,2) show ?thesis by auto
qed auto

definition full_disk :: io_env where
  "full_disk = \<lparr>io_fails = (\<lambda>step. step = WriteTemp), io_rmfails = (\<lambda>_. False)\<rparr>"

theorem mutate_atomic_witness:
  "fst (snd (mutate full_disk (Cancel_txn 13 ''r'') (c_store sample_running))) = Some ErrPersist
   \<and> st_data (snd (snd (mutate full_disk (Cancel_txn 13 ''r'') (c_store sample_running)))) = st_data (c_store sample_running)"
proof
  show e: "fst (snd (mutate full_disk (Cancel_txn 13 ''r'') (c_store sample_running))) = Some ErrPersist"
    by code_simp
  obtain r err s' where m: "mutate full_disk (Cancel_txn 13 ''r'') (c_store sample_running) = (r, err, s')"
    by (metis surj_pair)
  from mutate_atomic [OF m] e m
  show "st_data (snd (snd (mutate full_disk (Cancel_txn 13 ''r'') (c_store sample_running)))) = st_data (c_store sample_running)"
    by simp
qed

text \<open>C7. Whatever was acknowledged last survives a crash: after a restart from the files on disk,
  the executions are those of the acknowledged snapshot, in order, each unchanged except that its log
  offset is re-read from the log file; agents' scheduling state and the import ledger are kept, and the
  ledger contains the origin of every recorded import.\<close>

theorem restart_keeps_acknowledged:
  assumes "mutate io fn s = (r, None, s')"
    and "openControllerStore False logDir n create (st_disk s')
           (case st_disk s' of None \<Rightarrow> NotExist | Some d \<Rightarrow> Loaded d) logs = Inr s2"
  shows "list_all2 log_offset_only (sd_Executions (st_data s')) (sd_Executions (st_data s2))
    \<and> sd_Agents (st_data s2) = sd_Agents (st_data s')
    \<and> set (sd_ImportedOrigins (st_data s')) \<subseteq> set (sd_ImportedOrigins (st_data s2))
    \<and> st_disk s2 = st_disk s'"
proof -
  obtain d where disk: "st_disk s' = Some (st_data s')" by (rule mutate_acknowledged [OF assms(1)])
  with assms(2) have o2: "openControllerStore False logDir n create (Some (st_data s')) (Loaded (st_data s')) logs = Inr s2"
    by simp
  have "sd_Agents (st_data s2) = sd_Agents (st_data s')"
    using o2 by (auto simp: openControllerStore_def load_def Let_def backfillImportedOrigins_def split: if_splits)
  with restart_data [OF o2] disk backfill_origins [of "st_data s'"] show ?thesis
    by (simp add: same_but_offsets_def)
qed

theorem restart_keeps_acknowledged_witness:
  "\<exists>s2. openControllerStore False ''/var/builda/logs'' 2 True (st_disk (c_store sample_canceled_only))
           (case st_disk (c_store sample_canceled_only) of None \<Rightarrow> NotExist | Some d \<Rightarrow> Loaded d) [] = Inr s2
     \<and> list_all2 log_offset_only (sd_Executions (st_data (c_store sample_canceled_only))) (sd_Executions (st_data s2))"
proof -
  have m: "mutate io_ok (Cancel_txn 13 ''r'') (c_store sample_assigned) = ((), None, c_store sample_canceled_only)"
    by code_simp
  have "isl (openControllerStore False ''/var/builda/logs'' 2 True (st_disk (c_store sample_canceled_only))
           (case st_disk (c_store sample_canceled_only) of None \<Rightarrow> NotExist | Some d \<Rightarrow> Loaded d) []) = False"
    by code_simp
  then obtain s2 where s2: "openControllerStore False ''/var/builda/logs'' 2 True (st_disk (c_store sample_canceled_only))
           (case st_disk (c_store sample_canceled_only) of None \<Rightarrow> NotExist | Some d \<Rightarrow> Loaded d) [] = Inr s2"
    by (metis isl_def sum.exhaust)
  with restart_keeps_acknowledged [OF m s2] show ?thesis by blast
qed

section \<open>Pruning\<close>

text \<open>Pruning keeps every unfinished execution, keeps the newest finished ones up to the cap (the
  default cap when none is set), removes exactly the others, oldest first, and reports their
  identifiers so that their logs are removed.\<close>

theorem prune_oldest_finished:
  "filter (\<lambda>e. \<not> terminal_ex e) (sd_Executions (snd (pruneExecutions d n))) = filter (\<lambda>e. \<not> terminal_ex e) (sd_Executions d)
   \<and> filter terminal_ex (sd_Executions (snd (pruneExecutions d n))) =
       drop (length (filter terminal_ex (sd_Executions d)) - nat (normalizeMaxHistory n))
         (filter terminal_ex (sd_Executions d))
   \<and> fst (pruneExecutions d n) =
       map ex_ID (take (length (filter terminal_ex (sd_Executions d)) - nat (normalizeMaxHistory n))
         (filter terminal_ex (sd_Executions d)))
   \<and> length (filter terminal_ex (sd_Executions (snd (pruneExecutions d n)))) \<le> nat (normalizeMaxHistory n)"
  using prune_terminal [of d n] prune_cap [of d n] prune_keeps_live [of "\<lambda>e. \<not> terminal_ex e" d n]
    prune_reported [of d n]
  by (simp add: Let_def)

section \<open>Waiting\<close>

text \<open>\<^verbatim>\<open>Wait\<close> loses no wake-up: if the execution becomes terminal in one of the states the
  waiter is shown, it returns true as soon as it is, unless the execution disappears or the caller
  goes away first.\<close>

theorem Wait_sees_terminal:
  assumes "\<forall>s \<in> set (s0 # ss). Find s i \<noteq> None"
    and "\<exists>e. Find (last (s0 # ss)) i = Some e \<and> isExecutionTerminal (ex_Status e)"
  shows "Wait s0 i (map Changed ss @ rest) = Some True"
  using assms
proof (induction ss arbitrary: s0)
  case (Cons s ss)
  from Cons.prems(1) obtain e where e: "Find s0 i = Some e" by auto
  show ?case
  proof (cases "isExecutionTerminal (ex_Status e)")
    case False
    with e Cons.IH [of s] Cons.prems show ?thesis by simp
  qed (use e in simp)
qed auto

theorem Wait_sees_terminal_witness:
  "Wait (c_store sample_assigned) ''r'' [Changed (c_store sample_canceled), Done] = Some True"
proof -
  have "\<forall>s \<in> set [c_store sample_assigned, c_store sample_canceled]. Find s ''r'' \<noteq> None" by code_simp
  moreover have "(case Find (c_store sample_canceled) ''r'' of None \<Rightarrow> False | Some e \<Rightarrow> isExecutionTerminal (ex_Status e))"
    by code_simp
  ultimately show ?thesis
    using Wait_sees_terminal [of "c_store sample_assigned" "[c_store sample_canceled]" "''r''" "[Done]"]
    by (auto split: option.splits)
qed

end
