(* ===== verification/Sched_Props.thy ===== *)
theory Sched_Props
  imports Sample_States
begin

text \<open>
  What a scheduling round promises, stated of the snapshot before and after the transaction:
  assignments are sound, nothing that could be assigned is left waiting, an older execution is not
  overtaken on an agent it could have used, and the least recently used agent is taken.
\<close>

section \<open>Before and after a round\<close>

definition sched_result :: "time \<Rightarrow> agentView gomap \<Rightarrow> controllerStateData \<Rightarrow> controllerStateData" where
  "sched_result now available st =
     (case snd (scheduleOnce_txn now available st) of Inl _ \<Rightarrow> st | Inr st' \<Rightarrow> st')"

lemma sched_result_plan: "sched_result now available st = run_plan now (sched_plan available st) st"
  by (simp add: sched_result_def scheduleOnce_txn_plan run_plan_def)

lemma plan_ids: "unique_ids st \<Longrightarrow> distinct (map fst (sched_plan available st))"
  by (simp add: sched_plan_def plan_ids_distinct queued_ids_distinct)

lemma find_sched_result:
  assumes "unique_ids st"
  shows "find_execution (sched_result now available st) i =
     (case map_of (sched_plan available st) i of
        None \<Rightarrow> find_execution st i
      | Some a \<Rightarrow> map_option (\<lambda>e. e\<lparr>ex_Status := StatusAssigned, ex_AgentID := a, ex_AssignedAt := now\<rparr>)
                   (find_execution st i))"
  by (simp add: sched_result_plan find_run_plan plan_ids [OF assms])

lemma unique_sched_result: "unique_ids st \<Longrightarrow> unique_ids (sched_result now available st)"
  by (simp add: sched_result_plan unique_ids_def ids_run_plan)

lemma in_executions: "unique_ids st \<Longrightarrow> e \<in> set (sd_Executions st) \<longleftrightarrow> find_execution st (ex_ID e) = Some e"
  by (auto simp: unique_ids_def find_unique dest: find_execution_Some)

lemma planned_entry:
  assumes "unique_ids st" "(i, a) \<in> set (sched_plan available st)"
  obtains e where "find_execution st i = Some e" "ex_Status e = StatusQueued" "\<not> ex_CancelRequested e"
    "a \<in> set (free_agents available st)" "eligible available (ex_Labels e) a"
proof -
  from plan_sound [OF assms(2) [unfolded sched_plan_def]] obtain e where e: "a \<in> set (free_agents available st)"
    "e \<in> set (queued_for_assignment st)" "ex_ID e = i" "eligible available (ex_Labels e) a" by blast
  then have "e \<in> set (sd_Executions st)" "ex_Status e = StatusQueued" "\<not> ex_CancelRequested e"
    by (simp_all add: queued_for_assignment_mem)
  with e in_executions [OF assms(1), of e] that show thesis by blast
qed

lemma assigned_in_round:
  assumes "unique_ids st" "find_execution st i = Some e" "ex_Status e = StatusQueued"
    "find_execution (sched_result now available st) i = Some e'" "ex_Status e' = StatusAssigned"
  shows "(i, ex_AgentID e') \<in> set (sched_plan available st)"
proof (cases "map_of (sched_plan available st) i")
  case None
  with assms find_sched_result [OF assms(1), of now available i] show ?thesis by simp
next
  case (Some a)
  with assms find_sched_result [OF assms(1), of now available i] show ?thesis
    by (auto dest: map_of_SomeD)
qed

lemma left_queued:
  assumes "unique_ids st" "find_execution (sched_result now available st) i = Some e" "ex_Status e = StatusQueued"
  shows "i \<notin> fst ` set (sched_plan available st) \<and> find_execution st i = Some e"
proof (cases "map_of (sched_plan available st) i")
  case None
  with assms find_sched_result [OF assms(1), of now available i] show ?thesis
    by (auto simp: map_of_eq_None_iff)
next
  case (Some a)
  with assms find_sched_result [OF assms(1), of now available i] show ?thesis by auto
qed

lemma planned_agent_holds_slot:
  assumes "unique_ids st" "(i, a) \<in> set (sched_plan available st)"
  shows "holds_slot (sched_result now available st) a"
proof -
  obtain e where e: "find_execution st i = Some e" by (rule planned_entry [OF assms])
  have "map_of (sched_plan available st) i = Some a"
    using assms(2) plan_ids [OF assms(1)] by (simp add: map_of_is_SomeI)
  with e find_sched_result [OF assms(1), of now available i]
  have "find_execution (sched_result now available st) i =
      Some (e\<lparr>ex_Status := StatusAssigned, ex_AgentID := a, ex_AssignedAt := now\<rparr>)" by simp
  from find_execution_Some [OF this] show ?thesis
    unfolding holds_slot_def by (intro bexI) (auto simp: active_ex_def)
qed

lemma owned_kept:
  assumes ok: "snapshot_ok st" and e: "e \<in> set (sd_Executions st)" "ex_AgentID e \<noteq> ''''"
  shows "e \<in> set (sd_Executions (sched_result now available st))"
proof -
  have u: "unique_ids st" using ok by (rule snapshot_ok_unique)
  have "lifecycle_ok e" using ok e(1) by (simp add: snapshot_ok_def lifecycle_def)
  with e(2) have nq: "ex_Status e \<noteq> StatusQueued" by (auto simp: lifecycle_ok_def)
  have fe: "find_execution st (ex_ID e) = Some e" using e(1) in_executions [OF u] by blast
  have "ex_ID e \<notin> fst ` set (sched_plan available st)"
  proof
    assume "ex_ID e \<in> fst ` set (sched_plan available st)"
    then obtain b where "(ex_ID e, b) \<in> set (sched_plan available st)" by force
    then obtain x where "find_execution st (ex_ID e) = Some x" "ex_Status x = StatusQueued"
      by (rule planned_entry [OF u])
    with fe nq show False by simp
  qed
  then have "find_execution (sched_result now available st) (ex_ID e) = Some e"
    using find_sched_result [OF u, of now available "ex_ID e"] fe
    by (simp add: map_of_eq_None_iff [THEN iffD2])
  then show ?thesis using find_execution_Some by blast
qed

lemma free_after_round:
  assumes ok: "snapshot_ok st" and a: "a \<in> fst ` set available" "a \<noteq> ''''"
    and free: "\<not> holds_slot (sched_result now available st) a" "\<not> awaits_operator (sched_result now available st) a"
  shows "a \<in> set (free_agents available st) \<and> a \<notin> snd ` set (sched_plan available st)"
proof -
  have "a \<notin> snd ` set (sched_plan available st)"
    using planned_agent_holds_slot [OF snapshot_ok_unique [OF ok]] free(1) by fastforce
  moreover have "\<not> holds_slot st a" "\<not> awaits_operator st a"
    using owned_kept [OF ok] free a(2) unfolding holds_slot_def awaits_operator_def by blast+
  ultimately show ?thesis using a by (simp add: free_agents_iff)
qed

section \<open>A sample queue\<close>

definition sample_view :: "string \<Rightarrow> string list \<Rightarrow> agentView" where
  "sample_view i labels = \<lparr>av_Definition = sample_agent i labels, av_Online = True, av_Busy = False,
     av_Blocked = False, av_BlockedReason = '''', av_CurrentExecutionID = '''', av_CurrentStatus = '''',
     av_LastAssignedAt = 0, av_LastSeen = 10, av_Version = ''''\<rparr>"

definition sample_available :: "agentView gomap" where
  "sample_available = map (\<lambda>(i, l). (i, sample_view i l))
     [(''a1'', [''linux'']), (''a2'', [''linux'']), (''a3'', [''linux'']), (''b'', [''mac''])]"

definition sample_queue :: controllerStateData where
  "sample_queue = empty_state\<lparr>
     sd_Executions := [new_execution 1 (sample_job\<lparr>job_Labels := [''gpu'']\<rparr>) no_parameters ''alice'' ''q1'',
                       new_execution 2 sample_job no_parameters ''alice'' ''q2'',
                       new_execution 3 sample_job no_parameters ''bob'' ''q3''],
     sd_Agents := [(''a1'', \<lparr>ags_ID = '''', ags_LastAssignedAt = 9\<rparr>), (''a2'', \<lparr>ags_ID = '''', ags_LastAssignedAt = 5\<rparr>), (''a3'', \<lparr>ags_ID = '''', ags_LastAssignedAt = 10\<rparr>)]\<rparr>"

definition sample_round :: controllerStateData where
  "sample_round = sched_result 20 sample_available sample_queue"

lemma sample_queue_ok: "snapshot_ok sample_queue"
  by code_simp

lemma sample_named: "'''' \<notin> fst ` set sample_available"
  by code_simp

lemma sample_round_statuses:
  "map (\<lambda>e. (ex_ID e, ex_Status e, ex_AgentID e)) (sd_Executions sample_round) =
     [(''q1'', StatusQueued, ''''), (''q2'', StatusAssigned, ''a2''), (''q3'', StatusAssigned, ''a1'')]"
  by code_simp

definition at :: "controllerStateData \<Rightarrow> string \<Rightarrow> Execution" where
  "at st i = the (find_execution st i)"

lemma sample_found:
  "find_execution sample_queue ''q1'' = Some (at sample_queue ''q1'')"
  "find_execution sample_queue ''q2'' = Some (at sample_queue ''q2'')"
  "find_execution sample_round ''q1'' = Some (at sample_round ''q1'')"
  "find_execution sample_round ''q2'' = Some (at sample_round ''q2'')"
  by code_simp+

lemma sample_at:
  "ex_Status (at sample_queue ''q2'') = StatusQueued" "ex_Status (at sample_round ''q1'') = StatusQueued"
  "\<not> ex_CancelRequested (at sample_round ''q1'')" "ex_Status (at sample_round ''q2'') = StatusAssigned"
  "ex_AgentID (at sample_round ''q2'') = ''a2''" "at sample_round ''q2'' \<noteq> at sample_queue ''q2''"
  "ex_RequestedAt (at sample_round ''q1'') < ex_RequestedAt (at sample_queue ''q2'')"
  by code_simp+

lemma sample_free:
  "\<not> holds_slot sample_round ''b''" "\<not> awaits_operator sample_round ''b''"
  "\<not> holds_slot sample_round ''a3''" "\<not> awaits_operator sample_round ''a3''"
  by code_simp+

lemma sample_map_of:
  "map_of sample_available ''b'' = Some (sample_view ''b'' [''mac''])"
  "map_of sample_available ''a2'' = Some (sample_view ''a2'' [''linux''])"
  "map_of sample_available ''a3'' = Some (sample_view ''a3'' [''linux''])"
  by code_simp+

section \<open>Soundness\<close>

text \<open>C10. A round only changes queued executions without a cancellation request, and changes them in
  one way: the execution is assigned, now, to an available agent that carries all its labels and had
  neither an active execution nor one waiting for an operator.  No agent receives two.\<close>

theorem schedule_sound:
  assumes "snapshot_ok st" "'''' \<notin> fst ` set available"
    and "find_execution st i = Some e" "find_execution (sched_result now available st) i = Some e'" "e' \<noteq> e"
  shows "ex_Status e = StatusQueued \<and> \<not> ex_CancelRequested e
    \<and> (\<exists>a view. e' = e\<lparr>ex_Status := StatusAssigned, ex_AgentID := a, ex_AssignedAt := now\<rparr>
         \<and> map_of available a = Some view \<and> set (ex_Labels e) \<subseteq> set (agd_Labels (av_Definition view))
         \<and> \<not> holds_slot st a \<and> \<not> awaits_operator st a)
    \<and> one_active (sched_result now available st)"
proof -
  have u: "unique_ids st" using assms(1) by (rule snapshot_ok_unique)
  obtain a where p: "map_of (sched_plan available st) i = Some a"
    and e': "e' = e\<lparr>ex_Status := StatusAssigned, ex_AgentID := a, ex_AssignedAt := now\<rparr>"
    using assms(3-5) find_sched_result [OF u, of now available i]
    by (cases "map_of (sched_plan available st) i") auto
  obtain x where x: "find_execution st i = Some x" "ex_Status x = StatusQueued" "\<not> ex_CancelRequested x"
    "a \<in> set (free_agents available st)" "eligible available (ex_Labels x) a"
    by (rule planned_entry [OF u map_of_SomeD [OF p]])
  have "snapshot_ok (sched_result now available st)"
    using run_plan_ok [OF assms(1) sched_plan_ok [OF u assms(2)]] by (simp add: sched_result_plan)
  moreover from x(5) obtain view where view: "map_of available a = Some view"
    "set (ex_Labels x) \<subseteq> set (agd_Labels (av_Definition view))"
    by (auto simp: eligible_def labelsSatisfied_def list_all_iff split: option.splits)
  moreover have "\<not> holds_slot st a" "\<not> awaits_operator st a"
  proof -
    from x(4) have "a \<in> fst ` set available" by (simp add: free_agents_iff)
    with assms(2) have "a \<noteq> ''''" by metis
    with x(4) show "\<not> holds_slot st a" "\<not> awaits_operator st a" by (simp_all add: free_agents_iff)
  qed
  ultimately show ?thesis using x(1-3) e' assms(3) unfolding snapshot_ok_def by auto
qed

theorem schedule_sound_witness:
  "ex_AgentID (at sample_round ''q2'') = ''a2'' \<and> \<not> holds_slot sample_queue ''a2''"
proof -
  have "\<exists>a. at sample_round ''q2'' = (at sample_queue ''q2'')\<lparr>ex_Status := StatusAssigned, ex_AgentID := a, ex_AssignedAt := 20\<rparr>
     \<and> \<not> holds_slot sample_queue a"
    using schedule_sound [OF sample_queue_ok sample_named sample_found(2)
        sample_found(4) [unfolded sample_round_def] sample_at(6) [unfolded sample_round_def]]
    unfolding sample_round_def by blast
  then obtain a where a: "at sample_round ''q2'' = (at sample_queue ''q2'')\<lparr>ex_Status := StatusAssigned, ex_AgentID := a, ex_AssignedAt := 20\<rparr>"
    "\<not> holds_slot sample_queue a" by blast
  from a(1) have "ex_AgentID (at sample_round ''q2'') = a" by simp
  with a(2) sample_at(5) show ?thesis by simp
qed

section \<open>Completeness\<close>

text \<open>C11. A round leaves nothing waiting that could run: afterwards no available, free agent
  carries the labels of an execution that is still queued.  In particular an execution that no agent
  can take never stalls the ones behind it.\<close>

theorem schedule_work_conserving:
  assumes "snapshot_ok st" "find_execution (sched_result now available st) i = Some e"
    and "ex_Status e = StatusQueued" "\<not> ex_CancelRequested e"
    and "map_of available a = Some view" "a \<noteq> ''''"
    and "\<not> holds_slot (sched_result now available st) a" "\<not> awaits_operator (sched_result now available st) a"
  shows "\<not> labelsSatisfied (ex_Labels e) (agd_Labels (av_Definition view))"
proof -
  have u: "unique_ids st" using assms(1) by (rule snapshot_ok_unique)
  from left_queued [OF u assms(2,3)] have "i \<notin> fst ` set (sched_plan available st)" "find_execution st i = Some e"
    by simp_all
  moreover from this(2) have "e \<in> set (queued_for_assignment st)" "ex_ID e = i"
    using assms(3,4) find_execution_Some by (auto simp: queued_for_assignment_mem)
  moreover have "a \<in> fst ` set available" using map_of_SomeD [OF assms(5)] by force
  note free_after_round [OF assms(1) this assms(6-8)]
  ultimately have "\<not> eligible available (ex_Labels e) a"
    by (intro plan_complete) (auto simp: sched_plan_def)
  with assms(5) show ?thesis by (simp add: eligible_def)
qed

theorem schedule_work_conserving_witness:
  "\<not> labelsSatisfied (ex_Labels (at sample_round ''q1'')) [''mac'']"
proof -
  have "\<not> labelsSatisfied (ex_Labels (at sample_round ''q1'')) (agd_Labels (av_Definition (sample_view ''b'' [''mac''])))"
    by (rule schedule_work_conserving [OF sample_queue_ok sample_found(3) [unfolded sample_round_def]
          sample_at(2,3) [unfolded sample_round_def] sample_map_of(1) _ sample_free(1,2) [unfolded sample_round_def],
          folded sample_round_def]) simp
  then show ?thesis by (simp add: sample_view_def sample_agent_def)
qed

text \<open>C12. First come, first served: if a younger execution is assigned in a round and an older one
  is left queued, then the agent given to the younger one does not carry the older one's labels.\<close>

theorem schedule_no_overtaking:
  assumes "snapshot_ok st" "'''' \<notin> fst ` set available"
    and "find_execution (sched_result now available st) i = Some e" "ex_Status e = StatusQueued"
    and "\<not> ex_CancelRequested e"
    and "find_execution st j = Some e0" "ex_Status e0 = StatusQueued" "ex_RequestedAt e < ex_RequestedAt e0"
    and "find_execution (sched_result now available st) j = Some e'" "ex_Status e' = StatusAssigned"
    and "map_of available (ex_AgentID e') = Some view"
  shows "\<not> labelsSatisfied (ex_Labels e) (agd_Labels (av_Definition view))"
proof -
  have u: "unique_ids st" using assms(1) by (rule snapshot_ok_unique)
  let ?q = "queued_for_assignment st"
  from left_queued [OF u assms(3,4)] have i: "i \<notin> fst ` set (sched_plan available st)" "find_execution st i = Some e"
    by simp_all
  then have e: "e \<in> set ?q" "ex_ID e = i"
    using assms(4,5) find_execution_Some by (auto simp: queued_for_assignment_mem)
  have p: "(j, ex_AgentID e') \<in> set (sched_plan available st)"
    by (rule assigned_in_round [OF u assms(6,7,9,10)])
  obtain x where "find_execution st j = Some x" "\<not> ex_CancelRequested x" by (rule planned_entry [OF u p])
  then have e0: "e0 \<in> set ?q" "ex_ID e0 = j"
    using assms(6,7) find_execution_Some by (auto simp: queued_for_assignment_mem)
  from e(1) obtain q1 q2 where q: "?q = q1 @ e # q2" by (meson split_list)
  have "sorted (map ex_RequestedAt ?q)" by (simp add: queued_for_assignment_def)
  with q e0(1) assms(8) have "e0 \<in> set q2" by (auto simp: sorted_append)
  with plan_no_overtaking [of q1 e q2] queued_ids_distinct [OF u] i(1) p e e0 q
  have "\<not> eligible available (ex_Labels e) (ex_AgentID e')" unfolding sched_plan_def by metis
  with assms(11) show ?thesis by (simp add: eligible_def)
qed

theorem schedule_no_overtaking_witness:
  "\<not> labelsSatisfied (ex_Labels (at sample_round ''q1'')) (agd_Labels (av_Definition (sample_view ''a2'' [''linux''])))"
proof -
  have "map_of sample_available (ex_AgentID (at sample_round ''q2'')) = Some (sample_view ''a2'' [''linux''])"
    by (simp only: sample_at sample_map_of)
  from schedule_no_overtaking [OF sample_queue_ok sample_named sample_found(3) [unfolded sample_round_def]
      sample_at(2,3) [unfolded sample_round_def] sample_found(2) sample_at(1) sample_at(7) [unfolded sample_round_def]
      sample_found(4) [unfolded sample_round_def] sample_at(4) [unfolded sample_round_def] this [unfolded sample_round_def]]
  show ?thesis unfolding sample_round_def .
qed

section \<open>Choice\<close>

lemma plan_least_recently_used:
  assumes "(i, a) \<in> set (assign_plan available la free q)" "distinct (map ex_ID q)" "e \<in> set q" "ex_ID e = i"
    and "b \<in> set free" "b \<notin> snd ` set (assign_plan available la free q)" "eligible available (ex_Labels e) b"
  shows "la a < la b \<or> (la a = la b \<and> a \<le> b)"
  using assms
proof (induction available la free q rule: assign_plan.induct)
  case (2 available la free x rest)
  show ?case
  proof (cases "candidates available la free (ex_Labels x)")
    case Nil
    with "2.prems"(5,7) have "e \<noteq> x" using candidates_empty_iff by blast
    with "2.IH"(1) [OF Nil] "2.prems" Nil show ?thesis by simp
  next
    case (Cons c cs)
    show ?thesis
    proof (cases "i = ex_ID x")
      case True
      with "2.prems"(2-4) have "e = x" by (cases "e = x") (simp, metis distinct.simps(2) image_eqI list.set_map
          list.simps(9) set_ConsD)
      moreover have "a = c"
      proof -
        have "ex_ID x \<notin> ex_ID ` set rest" using "2.prems"(2) by simp
        with plan_ids_queued [of available la "filter (\<lambda>i. i \<noteq> c) free" rest]
        have "(i, a) \<notin> set (assign_plan available la (filter (\<lambda>i. i \<noteq> c) free) rest)"
          unfolding True by (metis fst_conv image_eqI subsetD)
        with "2.prems"(1) Cons show ?thesis by simp
      qed
      ultimately show ?thesis using candidates_least [OF Cons "2.prems"(5)] "2.prems"(7) by simp
    next
      case False
      let ?free = "filter (\<lambda>i. i \<noteq> c) free"
      have p: "(i, a) \<in> set (assign_plan available la ?free rest)"
        "b \<noteq> c" "b \<notin> snd ` set (assign_plan available la ?free rest)"
        using "2.prems"(1,6) Cons False by simp_all
      have r: "e \<in> set rest" "distinct (map ex_ID rest)" "b \<in> set ?free"
        using "2.prems"(2-5) p(2) False by auto
      show ?thesis by (rule "2.IH"(2) [OF Cons p(1) r(2,1) "2.prems"(4) r(3) p(3) "2.prems"(7)])
    qed
  qed
qed simp

text \<open>Work is spread: the agent chosen for an execution was assigned work longest ago, ties
  broken by identifier, among the available agents that carry its labels and are still free after
  the round.\<close>

theorem schedule_least_recently_used:
  assumes "snapshot_ok st"
    and "find_execution st i = Some e" "ex_Status e = StatusQueued"
    and "find_execution (sched_result now available st) i = Some e'" "ex_Status e' = StatusAssigned"
    and "map_of available b = Some view" "b \<noteq> ''''" "labelsSatisfied (ex_Labels e) (agd_Labels (av_Definition view))"
    and "\<not> holds_slot (sched_result now available st) b" "\<not> awaits_operator (sched_result now available st) b"
  shows "last_assigned st (ex_AgentID e') < last_assigned st b
    \<or> (last_assigned st (ex_AgentID e') = last_assigned st b \<and> ex_AgentID e' \<le> b)"
proof -
  have u: "unique_ids st" using assms(1) by (rule snapshot_ok_unique)
  have p: "(i, ex_AgentID e') \<in> set (sched_plan available st)"
    by (rule assigned_in_round [OF u assms(2-5)])
  obtain x where "find_execution st i = Some x" "\<not> ex_CancelRequested x" by (rule planned_entry [OF u p])
  then have q: "e \<in> set (queued_for_assignment st)" "ex_ID e = i"
    using assms(2,3) find_execution_Some by (auto simp: queued_for_assignment_mem)
  have "b \<in> fst ` set available" using map_of_SomeD [OF assms(6)] by force
  note b = free_after_round [OF assms(1) this assms(7,9,10)]
  have "eligible available (ex_Labels e) b" using assms(6,8) by (simp add: eligible_def)
  with plan_least_recently_used [OF p [unfolded sched_plan_def] queued_ids_distinct [OF u] q] b
  show ?thesis by (simp add: sched_plan_def)
qed

theorem schedule_least_recently_used_witness:
  "last_assigned sample_queue ''a2'' < last_assigned sample_queue ''a3''
   \<or> (last_assigned sample_queue ''a2'' = last_assigned sample_queue ''a3'' \<and> ''a2'' \<le> ''a3'')"
proof -
  have "labelsSatisfied (ex_Labels (at sample_queue ''q2'')) (agd_Labels (av_Definition (sample_view ''a3'' [''linux''])))"
    by code_simp
  from schedule_least_recently_used [OF sample_queue_ok sample_found(2) sample_at(1)
      sample_found(4) [unfolded sample_round_def] sample_at(4) [unfolded sample_round_def] sample_map_of(3) _ this
      sample_free(3,4) [unfolded sample_round_def], folded sample_round_def]
  show ?thesis by (simp add: sample_at)
qed

section \<open>Why an execution waits\<close>

lemma reason_loop_None:
  "reason_loop views fl = None \<longleftrightarrow> (\<exists>v \<in> set views. schedulable v)"
  by (induction views arbitrary: fl) (auto simp: schedulable_def Let_def)

text \<open>The queue shows the reason a run waits: \<^verbatim>\<open>ready\<close> exactly when some agent with its
  labels could take it now, \<^verbatim>\<open>no-matching-labels\<close> exactly when no configured agent carries them.\<close>

theorem queueReason_ready_iff:
  "(queueReason views required = QueueReasonReady \<longleftrightarrow>
      (\<exists>v \<in> set views. labelsSatisfied required (agd_Labels (av_Definition v)) \<and> schedulable v))
   \<and> (queueReason views required = QueueReasonNoMatchingLabels \<longleftrightarrow>
      \<not> (\<exists>v \<in> set views. labelsSatisfied required (agd_Labels (av_Definition v))))"
proof -
  let ?m = "EligibleAgents views required"
  let ?fl = "\<lparr>onlineBusy = False, onlinePaused = False, onlineDisabled = False, offlineUsable = False, offlinePaused = False\<rparr>"
  have m: "set ?m = {v \<in> set views. labelsSatisfied required (agd_Labels (av_Definition v))}"
    by (simp add: EligibleAgents_def)
  have "queueReason views required = QueueReasonReady \<longleftrightarrow> ?m \<noteq> [] \<and> reason_loop ?m ?fl = None"
    by (cases "reason_loop ?m ?fl") (simp_all add: queueReason_def Let_def queue_reason_defs)
  moreover have "queueReason views required = QueueReasonNoMatchingLabels \<longleftrightarrow> ?m = []"
    by (cases "reason_loop ?m ?fl") (simp_all add: queueReason_def Let_def queue_reason_defs)
  moreover have "?m = [] \<longleftrightarrow> \<not> (\<exists>v \<in> set views. labelsSatisfied required (agd_Labels (av_Definition v)))"
    using m by (auto simp: EligibleAgents_def filter_empty_conv)
  moreover have "(\<exists>v \<in> set ?m. schedulable v) \<Longrightarrow> ?m \<noteq> []" by auto
  ultimately show ?thesis unfolding reason_loop_None m by blast
qed

end
