(* ===== verification/Agent_Props.thy ===== *)
theory Agent_Props
  imports Sched_Props
begin

text \<open>
  What the queue and the agent protocol promise: enqueueing, cancelling, granting the start permit,
  reconciling a restarted agent, storing the log and accepting the result.
\<close>

section \<open>Shared facts\<close>

lemma reachable_snapshot:
  "reachable_controller c \<Longrightarrow> store_ok (c_store c) \<and> snapshot_ok (st_data (c_store c)) \<and> unique_ids (st_data (c_store c))"
  using reachable_controller_store reachable_ok by (auto simp: store_ok_def snapshot_ok_unique)

text \<open>A scheduling round does not touch an execution that is not queued.\<close>

lemma scheduleOnce_keeps:
  assumes ok: "unique_ids (st_data (c_store c))" and s: "scheduleOnce se c = (err, c')"
    and e: "Find (c_store c) i = Some e" "ex_Status e \<noteq> StatusQueued"
  shows "(\<forall>e'. Find (c_store c') i = Some e' \<longrightarrow> e' = e)
       \<and> (\<not> terminal_ex e \<longrightarrow> Find (c_store c') i = Some e)"
proof (cases "available_agents (AgentViews (se_viewNow se) c) = []")
  case True
  with s e show ?thesis by (simp add: scheduleOnce_def)
next
  case False
  let ?av = "available_agents (AgentViews (se_viewNow se) c)"
  let ?st = "st_data (c_store c)"
  obtain r x s' where m: "mutate (se_io se) (scheduleOnce_txn (se_now se) ?av) (c_store c) = (r, x, s')"
    by (metis surj_pair)
  with False s have c': "c_store c' = s'" by (auto simp: scheduleOnce_def Let_def)
  from m show ?thesis
  proof (cases rule: mutate_cases)
    case (commit d)
    have d: "d = sched_result (se_now se) ?av ?st"
      using commit(1) by (auto simp: sched_result_def)
    have "i \<notin> fst ` set (sched_plan ?av ?st)"
    proof
      assume "i \<in> fst ` set (sched_plan ?av ?st)"
      then obtain a where "(i, a) \<in> set (sched_plan ?av ?st)" by force
      then obtain x where "find_execution ?st i = Some x" "ex_Status x = StatusQueued"
        by (rule planned_entry [OF ok])
      with e show False by (simp add: Find_def)
    qed
    then have f: "find_execution d i = Some e"
      using find_sched_result [OF ok, of "se_now se" ?av i] e(1) d
      by (simp add: Find_def map_of_eq_None_iff [THEN iffD2])
    have u: "unique_ids d" using unique_sched_result [OF ok] d by simp
    have s': "Find (c_store c') i = find_execution (committed d (st_maxHistory (c_store c))) i"
      using commit(3) c' by (simp add: Find_def)
    have "e' = e" if "Find (c_store c') i = Some e'" for e'
      using committed_find [OF that [unfolded s'] u] f by simp
    moreover have "\<not> terminal_ex e \<Longrightarrow> Find (c_store c') i = Some e"
      using committed_find_live [OF f _ u] s' by simp
    ultimately show ?thesis by blast
  next
    case refused
    with c' e show ?thesis by simp
  next
    case (lost d)
    with c' e show ?thesis by (auto simp: Find_def)
  qed
qed

lemma schedule_and_find_keeps:
  assumes "unique_ids (st_data (c_store c))" "schedule_and_find se i c = (x, c')"
    and "Find (c_store c) i = Some e" "ex_Status e \<noteq> StatusQueued"
  shows "x = Find (c_store c') i \<and> (\<forall>e'. x = Some e' \<longrightarrow> e' = e) \<and> (\<not> terminal_ex e \<longrightarrow> x = Some e)"
proof -
  obtain err c1 where c1: "scheduleOnce se c = (err, c1)" by fastforce
  with assms(2) have eqs: "c1 = c'" "Find (c_store c') i = x" by (auto simp: schedule_and_find_def)
  show ?thesis using scheduleOnce_keeps [OF assms(1) c1 assms(3,4)] unfolding eqs by blast
qed

lemma scheduleOnce_absent:
  assumes ok: "unique_ids (st_data (c_store c))" and s: "scheduleOnce se c = (err, c')"
    and none: "Find (c_store c) i = None"
  shows "Find (c_store c') i = None"
proof (cases "available_agents (AgentViews (se_viewNow se) c) = []")
  case True
  with s none show ?thesis by (simp add: scheduleOnce_def)
next
  case False
  let ?av = "available_agents (AgentViews (se_viewNow se) c)"
  let ?st = "st_data (c_store c)"
  obtain r x s' where m: "mutate (se_io se) (scheduleOnce_txn (se_now se) ?av) (c_store c) = (r, x, s')"
    by (metis surj_pair)
  with False s have c': "c_store c' = s'" by (auto simp: scheduleOnce_def Let_def)
  from m show ?thesis
  proof (cases rule: mutate_cases)
    case (commit d)
    have d: "d = sched_result (se_now se) ?av ?st" using commit(1) by (auto simp: sched_result_def)
    have "find_execution d i = None"
      using none d by (simp add: Find_def find_sched_result [OF ok] split: option.splits)
    moreover have "unique_ids d" using unique_sched_result [OF ok] d by simp
    ultimately show ?thesis
      using commit(3) c' committed_find [of d "st_maxHistory (c_store c)" i] by (cases "Find s' i") (auto simp: Find_def)
  next
    case refused
    with c' none show ?thesis by simp
  next
    case (lost d)
    with c' none show ?thesis by (auto simp: Find_def)
  qed
qed

lemma schedule_and_find_absent:
  assumes "unique_ids (st_data (c_store c))" "schedule_and_find se i c = (x, c')" "Find (c_store c) i = None"
  shows "x = None"
  using scheduleOnce_absent [OF assms(1) _ assms(3), of se] assms(2)
  by (cases "scheduleOnce se c") (auto simp: schedule_and_find_def Let_def)

section \<open>Cancelling\<close>

lemma Cancel_txn_live:
  assumes "snapshot_ok st" "find_execution st i = Some e" "\<not> terminal_ex e"
  shows "\<exists>e' st'. Cancel_txn now i st = ((), Inr st') \<and> find_execution st' i = Some e' \<and> unique_ids st'
    \<and> ex_CancelRequested e' \<and> ex_AgentID e' = ex_AgentID e
    \<and> (if ex_PermitGranted e then ex_Status e' = StatusCanceling \<and> ex_PermitGranted e'
       else ex_Status e' = StatusCanceled \<and> \<not> ex_PermitGranted e')"
proof -
  have l: "lifecycle_ok e" by (rule find_lifecycle [OF assms(1,2)])
  have i: "ex_ID e = i" using find_execution_Some [OF assms(2)] by simp
  have u: "unique_ids st" using assms(1) by (rule snapshot_ok_unique)
  consider "ex_Status e = StatusQueued" | "ex_Status e = StatusAssigned"
    | "ex_Status e = StatusRunning \<or> ex_Status e = StatusCanceling"
    using l assms(3) by (auto simp: lifecycle_ok_def split: if_splits)
  then show ?thesis
  proof cases
    case 1
    with assms(2) i l u show ?thesis
      by (simp add: Cancel_txn_def find_update_same unique_ids_def)
         (simp add: cancel_queued_def lifecycle_ok_def)
  next
    case 2
    with assms(2) i l u show ?thesis
      by (simp add: Cancel_txn_def find_update_same unique_ids_def)
         (simp add: cancel_assigned_def request_cancel_def lifecycle_ok_def Let_def)
  next
    case 3
    then have "\<not> (ex_Status e = StatusQueued)" "\<not> (ex_Status e = StatusAssigned)" by auto
    with 3 assms(2) i l u show ?thesis
      by (simp add: Cancel_txn_def find_update_same unique_ids_def)
         (auto simp: cancel_running_def request_cancel_def lifecycle_ok_def split: if_splits)
  qed
qed

text \<open>C16. Cancelling, on every branch: an unknown identifier and a finished run are refused and
  nothing changes; a run whose permit was not granted is over at once, cancelled; a run whose agent has
  the permit becomes cancelling and stays with its agent until the agent reports.  The only other
  outcome is that the snapshot could not be persisted.\<close>

theorem Cancel_outcome:
  assumes "reachable_controller c" "Cancel env i c = (res, c')"
  shows "case Find (c_store c) i of
      None \<Rightarrow> res = Inl ErrExecutionNotFound \<and> c' = c
    | Some e \<Rightarrow>
        if terminal_ex e then res = Inl ErrExecutionDone \<and> c' = c
        else res = Inl ErrPersist \<and> st_data (c_store c') = st_data (c_store c)
          \<or> (\<exists>x. res = Inr x \<and> x = Find (c_store c') i
               \<and> (\<forall>e'. x = Some e' \<longrightarrow> ex_CancelRequested e' \<and> ex_AgentID e' = ex_AgentID e
                    \<and> ex_Status e' = (if ex_PermitGranted e then StatusCanceling else StatusCanceled))
               \<and> (ex_PermitGranted e \<longrightarrow> x \<noteq> None))"
proof -
  note ok = reachable_snapshot [OF assms(1)]
  let ?st = "st_data (c_store c)"
  obtain r err s' where m: "mutate (op_io env) (Cancel_txn (op_now env) i) (c_store c) = (r, err, s')"
    by (metis surj_pair)
  show ?thesis
  proof (cases "Find (c_store c) i")
    case None
    with assms(2) show ?thesis by (simp add: Cancel_def mutate_def Cancel_txn_def Find_def)
  next
    case (Some e)
    then have fe: "find_execution ?st i = Some e" by (simp add: Find_def)
    show ?thesis
    proof (cases "terminal_ex e")
      case True
      then have "\<not> (ex_Status e = StatusQueued)" "\<not> (ex_Status e = StatusAssigned)"
        "\<not> (ex_Status e = StatusRunning \<or> ex_Status e = StatusCanceling)"
        by (auto simp: terminal_ex_def)
      with assms(2) fe True Some show ?thesis by (simp add: Cancel_def mutate_def Cancel_txn_def)
    next
      case False
      obtain e1 st1 where t: "Cancel_txn (op_now env) i ?st = ((), Inr st1)" "find_execution st1 i = Some e1"
        "unique_ids st1" "ex_CancelRequested e1" "ex_AgentID e1 = ex_AgentID e"
        "ex_Status e1 = (if ex_PermitGranted e then StatusCanceling else StatusCanceled)"
        using Cancel_txn_live [OF conjunct1 [OF conjunct2 [OF ok]] fe False, of "op_now env"]
        by (metis (full_types))
      from m show ?thesis
      proof (cases rule: mutate_cases)
        case (commit d)
        then have d: "d = st1" using t(1) by simp
        obtain x where x: "schedule_and_find (op_sched env) i (c\<lparr>c_store := s'\<rparr>) = (x, c')" "res = Inr x"
          using assms(2) m commit(2)
          by (cases "schedule_and_find (op_sched env) i (c\<lparr>c_store := s'\<rparr>)") (auto simp: Cancel_def)
        have u: "unique_ids (st_data (c_store (c\<lparr>c_store := s'\<rparr>)))"
          using commit(3) d t(3) by (simp add: ids.I_committed)
        have xf: "x = Find (c_store c') i" using x(1) by (auto simp: schedule_and_find_def Let_def)
        have fs: "\<forall>y. Find s' i = Some y \<longrightarrow> y = e1"
          using committed_find [of st1 "st_maxHistory (c_store c)" i] t(2,3) commit(3) d by (auto simp: Find_def)
        have live: "ex_PermitGranted e \<Longrightarrow> Find s' i = Some e1"
          using committed_find_live [OF t(2) _ t(3)] t(6) commit(3) d by (simp add: Find_def terminal_ex_def)
        have nq: "ex_Status e1 \<noteq> StatusQueued" using t(6) by simp
        have found: "(\<forall>y. x = Some y \<longrightarrow> y = e1) \<and> (ex_PermitGranted e \<longrightarrow> x = Some e1)"
        proof (cases "Find s' i")
          case None
          then have "x = None" using schedule_and_find_absent [OF u x(1)] by simp
          with None live show ?thesis by auto
        next
          case (Some y)
          with fs have "Find (c_store (c\<lparr>c_store := s'\<rparr>)) i = Some e1" by simp
          note k = schedule_and_find_keeps [OF u x(1) this nq]
          have "ex_PermitGranted e \<Longrightarrow> \<not> terminal_ex e1" using t(6) by (simp add: terminal_ex_def)
          with k show ?thesis by blast
        qed
        have "ex_CancelRequested y \<and> ex_AgentID y = ex_AgentID e
            \<and> ex_Status y = (if ex_PermitGranted e then StatusCanceling else StatusCanceled)" if "x = Some y" for y
          using found that t(4-6) by blast
        moreover have "ex_PermitGranted e \<longrightarrow> x \<noteq> None" using found by blast
        ultimately show ?thesis
          unfolding Some option.case if_not_P [OF False] using x(2) xf by blast
      next
        case refused
        with t(1) show ?thesis by simp
      next
        case (lost d)
        with assms(2) m Some False show ?thesis by (auto simp: Cancel_def)
      qed
    qed
  qed
qed

theorem Cancel_outcome_witness:
  "fst (Cancel (sample_env 13) ''r'' sample_canceled) = Inl ErrExecutionDone"
proof -
  have f: "Find (c_store sample_canceled) ''r'' = Some (at (st_data (c_store sample_canceled)) ''r'')"
    by code_simp
  have t: "terminal_ex (at (st_data (c_store sample_canceled)) ''r'')" by code_simp
  show ?thesis
    using Cancel_outcome [OF sample_reachable_canceled surjective_pairing, of "sample_env 13" "''r''"] f t by simp
qed

section \<open>The start permit\<close>

lemma GrantPermit_granted:
  assumes "GrantPermit env a i c = (Inr resp, c')" "prm_Granted resp"
  shows "\<exists>e. Find (c_store c) i = Some e \<and> ex_AgentID e = a \<and> \<not> ex_CancelRequested e \<and> \<not> ex_PermitRevoked e
           \<and> (ex_Status e = StatusAssigned \<and> \<not> prm_AlreadyGranted resp
              \<or> ex_Status e = StatusRunning \<and> prm_AlreadyGranted resp \<and> c' = c)"
proof -
  obtain r err s' where m: "mutate (op_io env) (GrantPermit_txn (op_now env) a i) (c_store c) = (r, err, s')"
    by (metis surj_pair)
  with assms(1) have r: "r = resp" "c' = c\<lparr>c_store := s'\<rparr>" "err = None \<or> err = Some ErrNoStateChange"
    by (auto simp: GrantPermit_def split: if_splits)
  from m have txn: "fst (GrantPermit_txn (op_now env) a i (st_data (c_store c))) = resp"
    using r(1) by (rule_tac mutate_cases [OF m]) auto
  have same: "c' = c" if "snd (GrantPermit_txn (op_now env) a i (st_data (c_store c))) = Inl ErrNoStateChange"
    using that m r(2) by (auto simp: mutate_def split: prod.splits)
  from txn assms(2) same show ?thesis
    by (auto simp: GrantPermit_txn_def Find_def no_permit_def split: option.splits if_splits)
qed

lemma GrantPermit_fresh:
  assumes ok: "snapshot_ok (st_data (c_store c))"
    and g: "GrantPermit env a i c = (Inr resp, c')" "prm_Granted resp" "\<not> prm_AlreadyGranted resp"
    and e: "Find (c_store c) i = Some e" "ex_Status e = StatusAssigned"
  shows "Find (c_store c') i = Some (grant (op_now env) e)"
proof -
  let ?st = "st_data (c_store c)"
  have fe: "find_execution ?st i = Some e" using e(1) by (simp add: Find_def)
  obtain r err s' where m: "mutate (op_io env) (GrantPermit_txn (op_now env) a i) (c_store c) = (r, err, s')"
    by (metis surj_pair)
  with g(1) have r: "r = resp" "c_store c' = s'" "err = None \<or> err = Some ErrNoStateChange"
    by (auto simp: GrantPermit_def split: if_splits)
  from m show ?thesis
  proof (cases rule: mutate_cases)
    case (commit d)
    have "d = update_execution i (grant (op_now env)) ?st"
      using commit(1) fe by (auto simp: GrantPermit_txn_def split: if_splits)
    moreover have "ex_ID (grant (op_now env) e) = i"
      using find_execution_Some [OF fe] by (simp add: grant_def)
    ultimately have fd: "find_execution d i = Some (grant (op_now env) e)" by (simp add: find_update_same fe)
    have live: "\<not> terminal_ex (grant (op_now env) e)" by (simp add: grant_def terminal_ex_def)
    have "unique_ids d" using GrantPermit_txn_ok [OF ok commit(1)] by (simp add: snapshot_ok_unique)
    from committed_find_live [OF fd live this] commit(3) r(2) show ?thesis by (simp add: Find_def)
  next
    case refused
    then have "fst (GrantPermit_txn (op_now env) a i ?st) = resp" "snd (GrantPermit_txn (op_now env) a i ?st) = Inl (the err)"
      using r(1) by auto
    with fe e(2) g(2) show ?thesis by (auto simp: GrantPermit_txn_def no_permit_def split: if_splits)
  next
    case (lost d)
    with r(3) show ?thesis by simp
  qed
qed

lemma GrantPermit_again:
  assumes "Find (c_store c) i = Some e" "ex_AgentID e = a" "ex_Status e = StatusRunning"
    "\<not> ex_PermitRevoked e" "\<not> ex_CancelRequested e"
  shows "GrantPermit env a i c = (Inr \<lparr>prm_Granted = True, prm_Reason = '''', prm_AlreadyGranted = True\<rparr>, c)"
  using assms
  by (simp add: GrantPermit_def mutate_def GrantPermit_txn_def Find_def no_permit_def)

text \<open>C5. A start permit is granted only to the owning agent of a run that nobody cancelled, and at
  most once: the grant makes the run \<^verbatim>\<open>RUNNING\<close> durably, and asking again, however often, is answered
  with the same permit and changes nothing, so an agent whose answer was lost can repeat the request.\<close>

theorem permit_granted_once:
  assumes "reachable_controller c" "GrantPermit env a i c = (Inr resp, c')" "prm_Granted resp"
  shows "(\<exists>e e'. Find (c_store c) i = Some e \<and> ex_AgentID e = a \<and> \<not> ex_CancelRequested e
      \<and> Find (c_store c') i = Some e' \<and> ex_PermitGranted e' \<and> ex_Status e' = StatusRunning
      \<and> (if ex_PermitGranted e then prm_AlreadyGranted resp \<and> c' = c
         else \<not> prm_AlreadyGranted resp \<and> e' = grant (op_now env) e))
    \<and> GrantPermit env' a i c' = (Inr \<lparr>prm_Granted = True, prm_Reason = '''', prm_AlreadyGranted = True\<rparr>, c')"
proof -
  note ok = reachable_snapshot [OF assms(1)]
  obtain e where e: "Find (c_store c) i = Some e" "ex_AgentID e = a" "\<not> ex_CancelRequested e" "\<not> ex_PermitRevoked e"
    and alt: "ex_Status e = StatusAssigned \<and> \<not> prm_AlreadyGranted resp
              \<or> ex_Status e = StatusRunning \<and> prm_AlreadyGranted resp \<and> c' = c"
    using GrantPermit_granted [OF assms(2,3)] by blast
  have l: "lifecycle_ok e" using ok e(1) find_lifecycle by (auto simp: Find_def)
  from alt show ?thesis
  proof
    assume a: "ex_Status e = StatusAssigned \<and> \<not> prm_AlreadyGranted resp"
    then have f: "Find (c_store c') i = Some (grant (op_now env) e)"
      using GrantPermit_fresh [OF _ assms(2,3) _ e(1)] ok by blast
    have "\<not> ex_PermitGranted e" using l a by (simp add: lifecycle_ok_def)
    moreover have "GrantPermit env' a i c' = (Inr \<lparr>prm_Granted = True, prm_Reason = '''', prm_AlreadyGranted = True\<rparr>, c')"
      by (rule GrantPermit_again [OF f]) (use e in \<open>simp_all add: grant_def\<close>)
    ultimately show ?thesis using e f a by (auto simp: grant_def)
  next
    assume a: "ex_Status e = StatusRunning \<and> prm_AlreadyGranted resp \<and> c' = c"
    then have "ex_PermitGranted e" using l by (simp add: lifecycle_ok_def)
    moreover have "GrantPermit env' a i c' = (Inr \<lparr>prm_Granted = True, prm_Reason = '''', prm_AlreadyGranted = True\<rparr>, c')"
      using a by (intro GrantPermit_again [of c' i e]) (use e in simp_all)
    ultimately show ?thesis using e a by auto
  qed
qed

theorem permit_granted_once_witness:
  "GrantPermit (sample_env 99) ''a1'' ''r'' sample_running =
     (Inr \<lparr>prm_Granted = True, prm_Reason = '''', prm_AlreadyGranted = True\<rparr>, sample_running)"
proof -
  let ?resp = "\<lparr>prm_Granted = True, prm_Reason = '''', prm_AlreadyGranted = False\<rparr>"
  have "fst (GrantPermit (sample_env 12) ''a1'' ''r'' sample_assigned) = Inr ?resp" by code_simp
  then have g: "GrantPermit (sample_env 12) ''a1'' ''r'' sample_assigned = (Inr ?resp, sample_running)"
    by (simp add: sample_running_def prod_eq_iff)
  show ?thesis using permit_granted_once [OF sample_reachable_assigned g, of "sample_env 99"] by simp
qed

section \<open>Reconciling\<close>

text \<open>What reconciliation does to one execution.\<close>

definition reconciled :: "string \<Rightarrow> string list \<Rightarrow> Execution \<Rightarrow> Execution" where
  "reconciled a known e =
     (if ex_AgentID e = a \<and> \<not> terminal_ex e \<and> ex_ID e \<notin> set known
      then if \<not> ex_PermitGranted e then requeue e
           else if \<not> ex_NeedsAttention e then escalate a e else e
      else e)"

definition acted_on :: "string \<Rightarrow> string list \<Rightarrow> Execution \<Rightarrow> bool" where
  "acted_on a known e \<longleftrightarrow> ex_AgentID e = a \<and> \<not> terminal_ex e \<and> ex_ID e \<notin> set known
     \<and> \<not> (ex_PermitGranted e \<and> ex_NeedsAttention e)"

lemma reconcile_loop_map:
  "reconcile_loop a known es = (map ex_ID (filter (acted_on a known) es), map (reconciled a known) es)"
  by (induction es) (auto simp: reconciled_def acted_on_def terminal_ex_def)

lemma reconciled_id [simp]: "ex_ID (reconciled a known e) = ex_ID e"
  by (simp add: reconciled_def requeue_def escalate_def)

lemma reconciled_live: "terminal_ex (reconciled a known e) = terminal_ex e"
  by (simp add: reconciled_def requeue_def escalate_def terminal_ex_def)

lemma find_map_id:
  assumes "\<And>e. ex_ID (f e) = ex_ID e"
  shows "find (\<lambda>e. ex_ID e = i) (map f es) = map_option f (find (\<lambda>e. ex_ID e = i) es)"
  using assms by (induction es) auto

lemma settled:
  assumes "a \<noteq> ''''" shows "\<not> acted_on a known (reconciled a known e)"
  using assms by (auto simp: acted_on_def reconciled_def requeue_def escalate_def terminal_ex_def)

text \<open>C14. Reconciling with an agent that no longer knows some of its runs: a run that was never
  permitted to start goes back to the queue, a permitted one keeps its state and is flagged for an
  operator, never restarted; every other unfinished run is untouched.  The answer names exactly the
  runs acted on, and reconciling again does nothing.\<close>

theorem Reconcile_outcome:
  assumes "reachable_controller c" "a \<noteq> ''''" "Reconcile io a known c = (Inr ids, c')"
    and "Find (c_store c) i = Some e" "\<not> terminal_ex e"
  shows "Find (c_store c') i = Some (reconciled a known e)
    \<and> (i \<in> set ids \<longleftrightarrow> acted_on a known e)
    \<and> Reconcile io' a known c' = (Inr [], c')"
proof -
  note ok = reachable_snapshot [OF assms(1)]
  let ?st = "st_data (c_store c)"
  let ?d = "?st\<lparr>sd_Executions := map (reconciled a known) (sd_Executions ?st)\<rparr>"
  have fe: "find_execution ?st i = Some e" using assms(4) by (simp add: Find_def)
  have mem: "e \<in> set (sd_Executions ?st)" "ex_ID e = i" using find_execution_Some [OF fe] by auto
  have named: "i \<in> ex_ID ` set (filter (acted_on a known) (sd_Executions ?st)) \<longleftrightarrow> acted_on a known e"
  proof
    assume "i \<in> ex_ID ` set (filter (acted_on a known) (sd_Executions ?st))"
    then obtain x where "x \<in> set (sd_Executions ?st)" "ex_ID x = i" "acted_on a known x" by auto
    with fe ok find_unique [of ?st x] show "acted_on a known e" by (simp add: unique_ids_def)
  qed (use mem in auto)
  obtain r err s' where m: "mutate io (Reconcile_txn a known) (c_store c) = (r, err, s')" by (metis surj_pair)
  then have r: "r = map ex_ID (filter (acted_on a known) (sd_Executions ?st))"
    by (rule mutate_cases) (auto simp: Reconcile_txn_def reconcile_loop_map)
  with assms(3) m have ids: "ids = sort r" and c': "c' = c\<lparr>c_store := s'\<rparr>"
    and err: "err = None \<or> err = Some ErrNoStateChange"
    by (auto simp: Reconcile_def split: if_splits)
  have quiet: "Reconcile io' a known c' = (Inr [], c')"
    if none: "\<forall>x \<in> set (sd_Executions (st_data s')). \<not> acted_on a known x"
  proof -
    have "filter (acted_on a known) (sd_Executions (st_data s')) = []" using none by (simp add: filter_empty_conv)
    then show ?thesis using c' by (simp add: Reconcile_def mutate_def Reconcile_txn_def reconcile_loop_map)
  qed
  from m have "Find s' i = Some (reconciled a known e)
      \<and> (\<forall>x \<in> set (sd_Executions (st_data s')). \<not> acted_on a known x)"
  proof (cases rule: mutate_cases)
    case (commit d)
    then have d: "d = ?d" by (auto simp: Reconcile_txn_def reconcile_loop_map split: if_splits)
    have u: "unique_ids d" using Reconcile_txn_ok [OF _ commit(1)] ok snapshot_ok_unique by blast
    have fd: "find_execution d i = Some (reconciled a known e)"
      using fe by (simp add: d find_execution_def find_map_id)
    have "\<not> terminal_ex (reconciled a known e)" using assms(5) by (simp add: reconciled_live)
    from committed_find_live [OF fd this u] commit(3) have "Find s' i = Some (reconciled a known e)"
      by (simp add: Find_def)
    moreover have "set (sd_Executions (st_data s')) \<subseteq> set (sd_Executions d)"
      using prune_subset [of "d\<lparr>sd_Sequence := sd_Sequence d + 1\<rparr>" "st_maxHistory (c_store c)"] commit(3)
      by (simp add: committed_def)
    ultimately show ?thesis using settled [OF assms(2)] d by auto
  next
    case refused
    then have none: "filter (acted_on a known) (sd_Executions ?st) = []"
      using err by (auto simp: Reconcile_txn_def reconcile_loop_map split: if_splits)
    then have "\<not> acted_on a known e" using mem by (auto simp: filter_empty_conv)
    then have "reconciled a known e = e" by (auto simp: reconciled_def acted_on_def)
    with none refused fe show ?thesis by (auto simp: Find_def filter_empty_conv)
  next
    case (lost d)
    with err show ?thesis by simp
  qed
  with quiet named ids r c' show ?thesis by simp
qed

theorem Reconcile_outcome_witness:
  "\<exists>c'. Reconcile io_ok ''a1'' [] sample_assigned = (Inr [''r''], c')
     \<and> Reconcile io_ok ''a1'' [] c' = (Inr [], c')"
proof -
  let ?c = "snd (Reconcile io_ok ''a1'' [] sample_assigned)"
  have "fst (Reconcile io_ok ''a1'' [] sample_assigned) = Inr [''r'']" by code_simp
  then have r: "Reconcile io_ok ''a1'' [] sample_assigned = (Inr [''r''], ?c)" by (metis prod.collapse)
  obtain e where e: "Find (c_store sample_assigned) ''r'' = Some e" "ex_Status e = StatusAssigned"
    using sample_assigned_status by blast
  then have "\<not> terminal_ex e" by (simp add: terminal_ex_def)
  from Reconcile_outcome [OF sample_reachable_assigned _ r e(1) this, of io_ok] r show ?thesis by blast
qed

section \<open>Results\<close>

lemma SubmitResult_accepted:
  assumes "SubmitResult sf env a rq c = (Inr resp, c')" "rrs_Accepted resp"
  obtains e sz status s' err r c1 where "Find (c_store c) (rrq_ExecutionID rq) = Some e" "ex_AgentID e = a"
    "sz = (case executionLogSize (st_logs (c_store c)) (rt_LogDir (c_runtime c)) (rrq_ExecutionID rq) of
             None \<Rightarrow> 0 | Some n \<Rightarrow> n)"
    "ex_LogTruncated e \<or> sz = rrq_LogLength rq" "normalizeResultStatus (rrq_Status rq) = Inr status"
    "mutate (op_io env) (SubmitResult_txn (op_now env) rq status sz) (c_store c) = (r, err, s')"
    "err = None \<or> err = Some ErrNoStateChange"
    "scheduleOnce (op_sched env) (c\<lparr>c_store := s'\<rparr>) = (c1, c')"
proof -
  obtain e where e: "Find (c_store c) (rrq_ExecutionID rq) = Some e" "ex_AgentID e = a"
    using assms by (auto simp: SubmitResult_def requireExecutionOwner_def Let_def Find_def split: option.splits if_splits)
  define sz where "sz = (case executionLogSize (st_logs (c_store c)) (rt_LogDir (c_runtime c)) (rrq_ExecutionID rq) of
             None \<Rightarrow> 0 | Some n \<Rightarrow> n)"
  have owner: "requireExecutionOwner (st_data (c_store c)) a (rrq_ExecutionID rq) = None"
    using e by (simp add: requireExecutionOwner_def Find_def)
  have trunc: "fst (logTruncationState (st_data (c_store c)) (rrq_ExecutionID rq)) = ex_LogTruncated e"
    using e by (simp add: logTruncationState_def Find_def)
  have sub: "SubmitResult sf env a rq c = (if sf then (Inl ErrIO, c)
      else if \<not> ex_LogTruncated e \<and> sz \<noteq> rrq_LogLength rq then
        (Inr \<lparr>rrs_Accepted = False, rrs_AckOffset = sz,
              rrs_Reason = ''controller holds '' @ dec sz @ '' of '' @ dec (rrq_LogLength rq) @ '' log bytes''\<rparr>, c)
      else case normalizeResultStatus (rrq_Status rq) of
         Inl err \<Rightarrow> (Inl err, c)
       | Inr status \<Rightarrow>
           (case mutate (op_io env) (SubmitResult_txn (op_now env) rq status sz) (c_store c) of
              (_, err, s') \<Rightarrow>
                if err \<noteq> None \<and> err \<noteq> Some ErrNoStateChange then (Inl (the err), c\<lparr>c_store := s'\<rparr>)
                else (Inr \<lparr>rrs_Accepted = True, rrs_AckOffset = sz, rrs_Reason = ''''\<rparr>,
                      snd (scheduleOnce (op_sched env) (c\<lparr>c_store := s'\<rparr>)))))"
    unfolding SubmitResult_def Let_def owner trunc sz_def [symmetric] by simp
  with assms have log: "ex_LogTruncated e \<or> sz = rrq_LogLength rq" by (auto split: if_splits)
  from sub assms log obtain status where status: "normalizeResultStatus (rrq_Status rq) = Inr status"
    by (auto split: if_splits sum.splits)
  obtain r err s' where m: "mutate (op_io env) (SubmitResult_txn (op_now env) rq status sz) (c_store c) = (r, err, s')"
    by (metis surj_pair)
  from sub assms log status m have "err = None \<or> err = Some ErrNoStateChange"
    "snd (scheduleOnce (op_sched env) (c\<lparr>c_store := s'\<rparr>)) = c'"
    by (auto split: if_splits)
  with that [OF e sz_def log status m, of "fst (scheduleOnce (op_sched env) (c\<lparr>c_store := s'\<rparr>))"] show thesis
    by (metis prod.collapse)
qed

lemma SubmitResult_outcome:
  assumes "snapshot_ok (st_data (c_store c))" and "SubmitResult sf env a rq c = (Inr resp, c')" "rrs_Accepted resp"
    and "Find (c_store c') (rrq_ExecutionID rq) = Some e'"
  shows "\<exists>e status sz. Find (c_store c) (rrq_ExecutionID rq) = Some e \<and> ex_AgentID e = a
    \<and> sz = (case executionLogSize (st_logs (c_store c)) (rt_LogDir (c_runtime c)) (rrq_ExecutionID rq) of
              None \<Rightarrow> 0 | Some n \<Rightarrow> n)
    \<and> (ex_LogTruncated e \<or> sz = rrq_LogLength rq)
    \<and> normalizeResultStatus (rrq_Status rq) = Inr status
    \<and> terminal_ex e' \<and> ex_LogComplete e'
    \<and> (if terminal_ex e then e' = e else e' = finish (op_now env) rq status sz e)
    \<and> (\<not> terminal_ex e \<and> ex_CancelRequested e \<and> status \<noteq> StatusSuccess \<longrightarrow> ex_Status e' = StatusCanceled)"
proof -
  note ok = assms(1) snapshot_ok_unique [OF assms(1)]
  let ?st = "st_data (c_store c)" and ?i = "rrq_ExecutionID rq"
  obtain e sz status s' err r c1 where e: "Find (c_store c) ?i = Some e" "ex_AgentID e = a"
    and sz: "sz = (case executionLogSize (st_logs (c_store c)) (rt_LogDir (c_runtime c)) ?i of None \<Rightarrow> 0 | Some n \<Rightarrow> n)"
    and log: "ex_LogTruncated e \<or> sz = rrq_LogLength rq" and status: "normalizeResultStatus (rrq_Status rq) = Inr status"
    and m: "mutate (op_io env) (SubmitResult_txn (op_now env) rq status sz) (c_store c) = (r, err, s')"
    and err: "err = None \<or> err = Some ErrNoStateChange"
    and sched: "scheduleOnce (op_sched env) (c\<lparr>c_store := s'\<rparr>) = (c1, c')"
    by (rule SubmitResult_accepted [OF assms(2,3)])
  have fe: "find_execution ?st ?i = Some e" using e(1) by (simp add: Find_def)
  have l: "lifecycle_ok e" using ok fe find_lifecycle by blast
  have over: "isExecutionTerminal status" using status by (auto simp: normalizeResultStatus_def split: if_splits)
  define f where "f = finish (op_now env) rq status sz e"
  define new where "new = (if terminal_ex e then e else f)"
  have new: "terminal_ex new \<and> ex_LogComplete new"
    using l finish_ok [OF over, of e "op_now env" rq sz] unfolding new_def f_def
    by (auto simp: lifecycle_ok_def terminal_ex_def finish_def Let_def split: if_splits)
  have stored: "unique_ids (st_data s') \<and> (\<forall>x. Find s' ?i = Some x \<longrightarrow> x = new)"
    using m
  proof (cases rule: mutate_cases)
    case (commit d)
    then have d: "\<not> terminal_ex e" "d = update_execution ?i (finish (op_now env) rq status sz) ?st"
      using fe by (auto simp: SubmitResult_txn_def terminal_ex_def split: if_splits)
    have "ex_ID e = ?i" using find_execution_Some [OF fe] by simp
    then have fd: "find_execution d ?i = Some new"
      unfolding d(2) new_def f_def using d(1) by (simp add: find_update_same [OF fe])
    have u: "unique_ids d"
      using SubmitResult_txn_ok [OF _ over commit(1)] ok snapshot_ok_unique by blast
    have "x = new" if "Find s' ?i = Some x" for x
      using committed_find [OF that [unfolded Find_def commit(3)] u] fd by simp
    with u commit(3) show ?thesis by (simp add: ids.I_committed)
  next
    case refused
    then have "terminal_ex e" using fe err by (auto simp: SubmitResult_txn_def terminal_ex_def split: if_splits)
    with refused e(1) ok show ?thesis by (simp add: new_def)
  next
    case (lost d)
    with err show ?thesis by simp
  qed
  have u': "unique_ids (st_data (c_store (c\<lparr>c_store := s'\<rparr>)))" using stored by simp
  obtain x where x: "Find s' ?i = Some x"
    using scheduleOnce_absent [OF u' sched, of ?i] assms(4) by (cases "Find s' ?i") auto
  with stored have xn: "Find (c_store (c\<lparr>c_store := s'\<rparr>)) ?i = Some new" by simp
  have "ex_Status new \<noteq> StatusQueued" using new by (auto simp: terminal_ex_def)
  from scheduleOnce_keeps [OF u' sched xn this] assms(4) have e': "e' = new" by blast
  have "ex_Status e' = StatusCanceled" if "\<not> terminal_ex e" "ex_CancelRequested e" "status \<noteq> StatusSuccess"
    using that unfolding e' new_def f_def by (simp add: finish_def Let_def)
  with e sz log status new e' show ?thesis unfolding new_def f_def by (intro exI [of _ e] exI [of _ status] exI [of _ sz]) simp
qed

text \<open>C15. A result is accepted only from the owning agent and only when the controller holds the
  complete log (or the log was cut at the cap); acceptance makes the run final with that result, a
  repeated submission is accepted and changes nothing, and a cancelled run that did not succeed is
  recorded as cancelled.\<close>

theorem SubmitResult_final:
  assumes "reachable_controller c" "SubmitResult sf env a rq c = (Inr resp, c')" "rrs_Accepted resp"
    and "Find (c_store c') (rrq_ExecutionID rq) = Some e'"
  shows "\<exists>e status sz. Find (c_store c) (rrq_ExecutionID rq) = Some e \<and> ex_AgentID e = a
    \<and> sz = (case executionLogSize (st_logs (c_store c)) (rt_LogDir (c_runtime c)) (rrq_ExecutionID rq) of
              None \<Rightarrow> 0 | Some n \<Rightarrow> n)
    \<and> (ex_LogTruncated e \<or> sz = rrq_LogLength rq)
    \<and> normalizeResultStatus (rrq_Status rq) = Inr status
    \<and> terminal_ex e' \<and> ex_LogComplete e'
    \<and> (if terminal_ex e then e' = e else e' = finish (op_now env) rq status sz e)
    \<and> (\<not> terminal_ex e \<and> ex_CancelRequested e \<and> status \<noteq> StatusSuccess \<longrightarrow> ex_Status e' = StatusCanceled)"
  by (rule SubmitResult_outcome [OF conjunct1 [OF conjunct2 [OF reachable_snapshot [OF assms(1)]]] assms(2-4)])

definition sample_result :: AgentResultRequest where
  "sample_result = \<lparr>rrq_AgentID = ''a1'', rrq_ExecutionID = ''r'', rrq_Status = StatusSuccess, rrq_ExitCode = 0, rrq_Error = '''',
     rrq_FailureReason = '''', rrq_LogLength = 0\<rparr>"

definition sample_finished :: Controller where
  "sample_finished = snd (SubmitResult False (sample_env 15) ''a1'' sample_result sample_running)"

theorem SubmitResult_final_witness:
  "\<exists>e'. Find (c_store sample_finished) ''r'' = Some e' \<and> terminal_ex e'"
proof -
  let ?resp = "\<lparr>rrs_Accepted = True, rrs_AckOffset = 0, rrs_Reason = ''''\<rparr>"
  have "fst (SubmitResult False (sample_env 15) ''a1'' sample_result sample_running) = Inr ?resp" by code_simp
  then have s: "SubmitResult False (sample_env 15) ''a1'' sample_result sample_running = (Inr ?resp, sample_finished)"
    by (simp add: sample_finished_def prod_eq_iff)
  have "Find (c_store sample_finished) ''r'' \<noteq> None" by code_simp
  then obtain e' where "Find (c_store sample_finished) ''r'' = Some e'" by blast
  with SubmitResult_final [OF sample_reachable_running s] show ?thesis by (auto simp: sample_result_def)
qed

section \<open>Enqueueing\<close>

lemma schedule_and_find_queued:
  assumes ok: "snapshot_ok (st_data (c_store c))" and s: "schedule_and_find se i c = (x, c')"
    and e: "Find (c_store c) i = Some e" "ex_Status e = StatusQueued"
  shows "\<exists>e'. x = Some e' \<and> (e' = e \<or> (\<exists>a. e' = e\<lparr>ex_Status := StatusAssigned, ex_AgentID := a, ex_AssignedAt := se_now se\<rparr>))"
proof -
  have u: "unique_ids (st_data (c_store c))" using ok by (rule snapshot_ok_unique)
  let ?av = "available_agents (AgentViews (se_viewNow se) c)" and ?st = "st_data (c_store c)"
  obtain err c1 where c1: "scheduleOnce se c = (err, c1)" by fastforce
  with s have eqs: "c1 = c'" "Find (c_store c') i = x" by (auto simp: schedule_and_find_def)
  show ?thesis
  proof (cases "?av = []")
    case True
    with c1 eqs e show ?thesis by (auto simp: scheduleOnce_def)
  next
    case False
    obtain r y s' where m: "mutate (se_io se) (scheduleOnce_txn (se_now se) ?av) (c_store c) = (r, y, s')"
      by (metis surj_pair)
    with False c1 have c': "c_store c' = s'" unfolding eqs by (auto simp: scheduleOnce_def Let_def)
    from m show ?thesis
    proof (cases rule: mutate_cases)
      case (commit d)
      have d: "d = sched_result (se_now se) ?av ?st" using commit(1) by (auto simp: sched_result_def)
      have ud: "unique_ids d" using unique_sched_result [OF u] d by simp
      obtain e' where fd: "find_execution d i = Some e'"
        and alt: "e' = e \<or> (\<exists>a. e' = e\<lparr>ex_Status := StatusAssigned, ex_AgentID := a, ex_AssignedAt := se_now se\<rparr>)"
        using find_sched_result [OF u, of "se_now se" ?av i] e d
        by (cases "map_of (sched_plan ?av ?st) i") (auto simp: Find_def)
      have "\<not> terminal_ex e'" using alt e(2) by (auto simp: terminal_ex_def)
      from committed_find_live [OF fd this ud] commit(3) c' eqs(2) alt show ?thesis by (auto simp: Find_def)
    next
      case refused
      with c' e(1) eqs(2) have "x = Some e" by simp
      then show ?thesis by blast
    next
      case (lost d)
      with c' e(1) eqs(2) have "x = Some e" by (auto simp: Find_def)
      then show ?thesis by blast
    qed
  qed
qed

text \<open>C17. Enqueueing always returns when identifiers do not repeat, and when it succeeds the answer
  is the recorded run: under an identifier that was not in use, carrying the job's script, labels and
  timeout and exactly the resolved parameters, and either waiting or already assigned.\<close>

theorem Enqueue_records_run:
  assumes "reachable_controller c" "inj gen"
  shows "\<exists>res c'. Enqueue env gen jobID values user c = Some (res, c')
    \<and> (case res of
         Inl err \<Rightarrow> st_data (c_store c') = st_data (c_store c)
       | Inr x \<Rightarrow> \<exists>job resolved i e. x = Some e \<and> findJob (c_cfg c) jobID = Some job \<and> JobConfig_IsEnabled job
           \<and> resolveParameters (c_cfg c) job values = Inr resolved
           \<and> Find (c_store c) i = None \<and> Find (c_store c') i = Some e
           \<and> work_packet e = work_packet (new_execution (op_now env) job resolved user i)
           \<and> (ex_Status e = StatusQueued \<or> ex_Status e = StatusAssigned) \<and> \<not> ex_PermitGranted e)"
proof (cases "findJob (c_cfg c) jobID")
  case None
  then show ?thesis by (simp add: Enqueue_def)
next
  case (Some job)
  note ok = reachable_snapshot [OF assms(1)]
  let ?st = "st_data (c_store c)"
  show ?thesis
  proof (cases "JobConfig_IsEnabled job")
    case False
    with Some show ?thesis by (simp add: Enqueue_def)
  next
    case enabled: True
    show ?thesis
    proof (cases "resolveParameters (c_cfg c) job values")
      case (Inl err)
      with Some enabled show ?thesis by (simp add: Enqueue_def)
    next
      case (Inr resolved)
      obtain i where i: "fresh_id gen ?st 0 = Some i" using fresh_id_returns [of ?st gen 0] fresh_draw_exists [OF assms(2), of ?st] by auto
      then have fresh: "find_execution ?st i = None" by (rule fresh_id_unused)
      let ?e = "new_execution (op_now env) job resolved user i"
      obtain r err s' where m: "mutate (op_io env) (Enqueue_txn ?e) (c_store c) = (r, err, s')" by (metis surj_pair)
      from m show ?thesis
      proof (cases rule: mutate_cases)
        case (commit d)
        have d: "d = ?st\<lparr>sd_Executions := sd_Executions ?st @ [?e]\<rparr>" using commit(1) by (simp add: Enqueue_txn_def)
        have sd: "snapshot_ok d" using Enqueue_txn_ok [OF _ fresh commit(1)] ok by blast
        have "?e \<in> set (sd_Executions d)" by (simp add: d)
        with find_unique [of d ?e] snapshot_ok_unique [OF sd] have fd: "find_execution d i = Some ?e"
          by (simp add: unique_ids_def)
        have "\<not> terminal_ex ?e" by (simp add: terminal_ex_def)
        from committed_find_live [OF fd this snapshot_ok_unique [OF sd]] commit(3)
        have f': "Find (c_store (c\<lparr>c_store := s'\<rparr>)) i = Some ?e" by (simp add: Find_def)
        obtain x c' where x: "schedule_and_find (op_sched env) i (c\<lparr>c_store := s'\<rparr>) = (x, c')" by fastforce
        have "snapshot_ok (st_data (c_store (c\<lparr>c_store := s'\<rparr>)))" using commit(3) sd by (simp add: ok.I_committed)
        from schedule_and_find_queued [OF this x f'] obtain e' where e': "x = Some e'"
          "e' = ?e \<or> (\<exists>a. e' = ?e\<lparr>ex_Status := StatusAssigned, ex_AgentID := a, ex_AssignedAt := se_now (op_sched env)\<rparr>)"
          by auto
        have "Find (c_store c') i = x" using x by (auto simp: schedule_and_find_def Let_def)
        moreover have "work_packet e' = work_packet ?e" "ex_Status e' = StatusQueued \<or> ex_Status e' = StatusAssigned"
          "\<not> ex_PermitGranted e'"
          using e'(2) by (auto simp: work_packet_def new_execution_def)
        moreover have "Enqueue env gen jobID values user c = Some (Inr x, c')"
          using Some enabled Inr i m commit(2) x by (simp add: Enqueue_def)
        ultimately show ?thesis using Some enabled Inr fresh e'(1) by (auto simp: Find_def)
      next
        case refused
        then show ?thesis by (simp add: Enqueue_txn_def)
      next
        case (lost d)
        then have "st_data s' = ?st" by auto
        with Some enabled Inr i m lost(2) show ?thesis by (simp add: Enqueue_def)
      qed
    qed
  qed
qed

theorem Enqueue_records_run_witness:
  "\<exists>res c'. Enqueue (sample_env 11) sample_ids ''build'' [] ''alice'' sample_online = Some (res, c')"
proof -
  have "inj sample_ids" unfolding inj_def sample_ids_def by simp
  from Enqueue_records_run [OF sample_reachable_online this, of "sample_env 11" "''build''" "[]" "''alice''"]
  show ?thesis by blast
qed


end
