(* ===== verification/Log_Props.thy ===== *)
theory Log_Props
  imports Agent_Props "HOL-Library.Sublist"
begin

text \<open>
  The log upload protocol as the controller sees it: whatever chunks of an agent's log arrive, in
  whatever order, repeated or with gaps, and whichever system call fails, the stored file is a prefix
  of the agent's log, and the offset in the answer is the length of that prefix.
\<close>

section \<open>The stored log\<close>

definition log_of :: "Controller \<Rightarrow> string \<Rightarrow> string" where
  "log_of c i =
     (case map_of (st_logs (c_store c)) (executionLogPath (rt_LogDir (c_runtime c)) i) of
        None \<Rightarrow> '''' | Some bytes \<Rightarrow> bytes)"

lemma log_of_put [simp]:
  "log_of (put_log (executionLogPath (rt_LogDir (c_runtime c)) i) bytes c) i = bytes"
  by (simp add: log_of_def put_log_def update_conv)

lemma log_of_offset [simp]: "log_of (c\<lparr>c_store := SetLogOffset j n (c_store (put_log path bytes c))\<rparr>) i = log_of (put_log path bytes c) i"
  by (simp add: log_of_def SetLogOffset_def put_log_def)

text \<open>A chunk of the agent's log: the bytes at the offset it claims.\<close>

definition chunk_of :: "string \<Rightarrow> AgentLogRequest \<Rightarrow> bool" where
  "chunk_of full rq \<longleftrightarrow> 0 \<le> lrq_Offset rq
     \<and> lrq_Data rq = take (length (lrq_Data rq)) (drop (nat (lrq_Offset rq)) full)"

lemma chunk_payload:
  assumes "chunk_of full rq" "prefix bytes full" "lrq_Offset rq \<le> int (length bytes)"
    "skip = int (length bytes) - lrq_Offset rq"
  shows "prefix (bytes @ drop (nat skip) (lrq_Data rq)) full"
proof -
  let ?o = "nat (lrq_Offset rq)"
  from assms(2) obtain rest where full: "full = bytes @ rest" by (auto simp: prefix_def)
  have "drop (nat skip) (lrq_Data rq) = drop (nat skip) (take (length (lrq_Data rq)) (drop ?o full))"
    using assms(1) by (simp add: chunk_of_def)
  also have "\<dots> = take (length (lrq_Data rq) - nat skip) (drop (nat skip + ?o) full)"
    by (simp add: drop_take)
  also have "nat skip + ?o = length bytes"
    using assms(3,4) conjunct1 [OF assms(1) [unfolded chunk_of_def]] by arith
  finally have "drop (nat skip) (lrq_Data rq) = take (length (lrq_Data rq) - nat skip) rest"
    using full by simp
  then show ?thesis using full by (simp add: take_is_prefix)
qed

lemma store_chunk_prefix:
  assumes s: "store_chunk lio io i (executionLogPath (rt_LogDir (c_runtime c)) i) bytes payload c = (res, c')"
    and pre: "prefix (bytes @ payload) full"
    and cap: "int (length full) \<le> rt_MaxLogBytes (c_runtime c)" "int (length full) < 2 ^ 63"
  shows "prefix (log_of c' i) full \<and> prefix bytes (log_of c' i)
     \<and> (\<forall>n. res = Inr n \<longrightarrow> log_of c' i = bytes @ payload \<and> n = int (length (bytes @ payload)))"
proof -
  have len: "int (length bytes) + int (length payload) \<le> int (length full)"
    using prefix_length_le [OF pre] by simp
  then have w: "wrap64 (int (length bytes) + int (length payload)) = int (length bytes) + int (length payload)"
    using cap(2) by (intro wrap64_id) (simp add: int64_def)
  have fits: "cap_payload (rt_MaxLogBytes (c_runtime c)) (int (length bytes)) payload = (payload, False)"
    using len cap(1) by (simp add: cap_payload_def w)
  have part: "prefix (bytes @ take n payload) full" for n
    using pre by (meson prefix_order.trans same_prefix_prefix take_is_prefix)
  show ?thesis
  proof (cases "li_payload lio")
    case None
    with s fits w pre show ?thesis
      by (auto simp: store_chunk_def Let_def append_bytes_def split: if_splits)
  next
    case (Some n)
    with s fits w pre part [of n] show ?thesis
      by (auto simp: store_chunk_def Let_def append_bytes_def split: if_splits)
  qed
qed

text \<open>C13. While the log fits under the cap: after any chunk of the agent's log, also a duplicate, one
  that overlaps, one that leaves a gap, or one whose write failed half way, the stored file is still a
  prefix of the agent's log that contains what was stored before; and an offset in the answer is
  exactly the number of bytes stored, so the agent resumes at the right place.\<close>

theorem AppendLog_prefix:
  assumes "chunk_of full rq" "prefix (log_of c (lrq_ExecutionID rq)) full"
    and "int (length full) \<le> rt_MaxLogBytes (c_runtime c)" "int (length full) < 2 ^ 63"
    and "\<not> fst (logTruncationState (st_data (c_store c)) (lrq_ExecutionID rq))"
    and "AppendLog lio io agent rq c = (res, c')"
  shows "prefix (log_of c' (lrq_ExecutionID rq)) full
    \<and> prefix (log_of c (lrq_ExecutionID rq)) (log_of c' (lrq_ExecutionID rq))
    \<and> (\<forall>n. res = Inr n \<longrightarrow> n = int (length (log_of c' (lrq_ExecutionID rq))))"
proof -
  let ?i = "lrq_ExecutionID rq" and ?st = "st_data (c_store c)"
  let ?path = "executionLogPath (rt_LogDir (c_runtime c)) ?i" and ?file = "log_of c ?i"
  let ?skip = "int (length ?file) - lrq_Offset rq"
  have len: "int (length ?file) < 2 ^ 63" using prefix_length_le [OF assms(2)] assms(4) by simp
  have w: "wrap64 ?skip = ?skip" if "lrq_Offset rq \<le> int (length ?file)"
    using that assms(1) len by (intro wrap64_id) (simp add: int64_def chunk_of_def)
  have keep: "prefix (log_of c ?i) full \<and> prefix (log_of c ?i) (log_of c ?i)" using assms(2) by simp
  obtain t o' where t: "logTruncationState ?st ?i = (t, o')" by fastforce
  with assms(5) have nt: "\<not> t" by simp
  have stored: "(case map_of (st_logs (c_store c)) ?path of None \<Rightarrow> '''' | Some bytes \<Rightarrow> bytes) = ?file"
    by (simp add: log_of_def)
  consider (early) err where "res = Inl err" "c' = c"
    | (kept) "c' = put_log ?path ?file c" "\<forall>n. res = Inr n \<longrightarrow> n = int (length ?file)"
    | (appended) "store_chunk lio io ?i ?path ?file (drop (nat ?skip) (lrq_Data rq)) c = (res, c')"
        "lrq_Offset rq \<le> int (length ?file)"
    using assms(6) nt w unfolding AppendLog_def Let_def t stored
    by (auto split: option.splits if_splits)
  then show ?thesis
  proof cases
    case early
    with keep show ?thesis by simp
  next
    case kept
    with keep show ?thesis by simp
  next
    case appended
    have pre: "prefix (?file @ drop (nat ?skip) (lrq_Data rq)) full"
      by (rule chunk_payload [OF assms(1,2) appended(2) refl])
    from store_chunk_prefix [OF appended(1) pre assms(3,4)] show ?thesis by simp
  qed
qed

definition sample_chunk :: AgentLogRequest where
  "sample_chunk = \<lparr>lrq_AgentID = ''a1'', lrq_ExecutionID = ''r'', lrq_Offset = 0, lrq_Data = ''hello''\<rparr>"

theorem AppendLog_prefix_witness:
  "prefix (log_of (snd (AppendLog log_io_ok io_ok ''a1'' sample_chunk sample_running)) ''r'') ''hello world''"
proof -
  have ch: "chunk_of ''hello world'' sample_chunk" by code_simp
  have pr: "prefix (log_of sample_running (lrq_ExecutionID sample_chunk)) ''hello world''"
  proof -
    have "log_of sample_running (lrq_ExecutionID sample_chunk) = ''''" by code_simp
    then show ?thesis by simp
  qed
  have cap: "int (length ''hello world'') \<le> rt_MaxLogBytes (c_runtime sample_running)" by code_simp
  have nt: "\<not> fst (logTruncationState (st_data (c_store sample_running)) (lrq_ExecutionID sample_chunk))" by code_simp
  have id: "lrq_ExecutionID sample_chunk = ''r''" by (simp add: sample_chunk_def)
  from AppendLog_prefix [OF ch pr cap _ nt surjective_pairing, of log_io_ok io_ok "''a1''"] show ?thesis
    by (simp add: id)
qed

section \<open>Progress\<close>

text \<open>The upload makes progress: when the owning agent of an open run sends the bytes at the
  acknowledged offset and no system call fails, all of them are stored and acknowledged.\<close>

theorem AppendLog_progress:
  assumes "requireExecutionOwner (st_data (c_store c)) agent (lrq_ExecutionID rq) = None"
    and "requireLogAppendable (st_data (c_store c)) (lrq_ExecutionID rq) = None"
    and "\<not> fst (logTruncationState (st_data (c_store c)) (lrq_ExecutionID rq))"
    and "lrq_Offset rq = int (length (log_of c (lrq_ExecutionID rq)))" "lrq_Data rq \<noteq> ''''"
    and "lrq_Offset rq + int (length (lrq_Data rq)) \<le> rt_MaxLogBytes (c_runtime c)"
    and "lrq_Offset rq + int (length (lrq_Data rq)) < 2 ^ 63"
  shows "\<exists>c'. AppendLog log_io_ok io agent rq c = (Inr (lrq_Offset rq + int (length (lrq_Data rq))), c')
    \<and> log_of c' (lrq_ExecutionID rq) = log_of c (lrq_ExecutionID rq) @ lrq_Data rq"
proof -
  let ?i = "lrq_ExecutionID rq"
  have stored: "(case map_of (st_logs (c_store c)) (executionLogPath (rt_LogDir (c_runtime c)) ?i) of
      None \<Rightarrow> '''' | Some bytes \<Rightarrow> bytes) = log_of c ?i" by (simp add: log_of_def)
  obtain t o' where t: "logTruncationState (st_data (c_store c)) ?i = (t, o')" by fastforce
  have w0: "wrap64 0 = 0" by (simp add: int64_def)
  have pos: "0 < int (length (lrq_Data rq))" using assms(5) by simp
  have a: "AppendLog log_io_ok io agent rq c = store_chunk log_io_ok io ?i
      (executionLogPath (rt_LogDir (c_runtime c)) ?i) (log_of c ?i) (lrq_Data rq) c"
    unfolding AppendLog_def Let_def stored t using assms(1-5) t pos by (simp add: w0 log_io_ok_def)
  have w: "wrap64 (int (length (log_of c ?i)) + int (length (lrq_Data rq))) = lrq_Offset rq + int (length (lrq_Data rq))"
    using assms(4,7) by (simp add: int64_def)
  show ?thesis
    unfolding a store_chunk_def Let_def cap_payload_def w
    using assms(5,6) by (simp add: append_bytes_def log_io_ok_def)
qed

theorem AppendLog_progress_witness:
  "\<exists>c'. AppendLog log_io_ok io_ok ''a1'' sample_chunk sample_running = (Inr 5, c') \<and> log_of c' ''r'' = ''hello''"
proof -
  have f: "log_of sample_running ''r'' = ''''" by code_simp
  have d: "lrq_ExecutionID sample_chunk = ''r''" "lrq_Offset sample_chunk = 0" "lrq_Data sample_chunk = ''hello''"
    by (simp_all add: sample_chunk_def)
  have "requireExecutionOwner (st_data (c_store sample_running)) ''a1'' ''r'' = None"
    "requireLogAppendable (st_data (c_store sample_running)) ''r'' = None"
    "\<not> fst (logTruncationState (st_data (c_store sample_running)) ''r'')"
    "5 \<le> rt_MaxLogBytes (c_runtime sample_running)"
    by code_simp+
  with AppendLog_progress [of sample_running "''a1''" sample_chunk io_ok] f d show ?thesis by simp
qed

end
