(* ===== verification/Findings.thy ===== *)
theory Findings
  imports Log_Props
begin

text \<open>
  Concrete runs of the model on which the code does not do what it means to: two panics that a request
  can provoke.
\<close>

section \<open>Cancelling a run that is pruned by its own cancellation\<close>

text \<open>An old queued run, two younger finished runs, and a history cap of two: cancelling the old run
  makes it the oldest finished one, the commit prunes it, \<^verbatim>\<open>Cancel\<close> returns nil, and
  \<^verbatim>\<open>CancelMany\<close> reads the status through the nil pointer.\<close>

definition full_history :: Controller where
  "full_history =
     sample_online\<lparr>c_store := (c_store sample_online)\<lparr>st_data := empty_state\<lparr>
       sd_Executions :=
         [new_execution 1 (sample_job\<lparr>job_Labels := [''gpu'']\<rparr>) no_parameters ''alice'' ''q1'',
          finish 5 (sample_result\<lparr>rrq_ExecutionID := ''f1''\<rparr>) StatusSuccess 0
            (new_execution 2 sample_job no_parameters ''alice'' ''f1''),
          finish 6 (sample_result\<lparr>rrq_ExecutionID := ''f2''\<rparr>) StatusSuccess 0
            (new_execution 3 sample_job no_parameters ''alice'' ''f2'')]\<rparr>\<rparr>\<rparr>"

lemma full_history_ok: "snapshot_ok (st_data (c_store full_history))"
  by code_simp

theorem CancelMany_panics:
  "fst (CancelMany [(''q1'', sample_env 20)] [] full_history) = Inl PanicNilPointer"
  by code_simp

section \<open>A log chunk at the most negative offset\<close>

text \<open>The agent has uploaded five bytes; a request with the most negative offset passes the test for a
  gap, the subtraction wraps to a negative number, and the slice expression panics.\<close>

theorem AppendLog_panics:
  "fst (AppendLog log_io_ok io_ok ''a1'' (sample_chunk\<lparr>lrq_Offset := - (2 ^ 63)\<rparr>)
      (snd (AppendLog log_io_ok io_ok ''a1'' sample_chunk sample_running))) = Inl PanicSliceBounds"
  by code_simp

end
