(* ===== verification/Ctrl_Validate.thy ===== *)
theory Ctrl_Validate
  imports Ctrl_Core
begin

text \<open>
  Validation of the controller configuration, \<^verbatim>\<open>ctrlvalidate.go\<close>, and the runtime values
  derived from it (\<^verbatim>\<open>controllerRuntime\<close> and \<^verbatim>\<open>controllerListenAddresses\<close> of
  \<^verbatim>\<open>ctrlconfig.go\<close>, \<^verbatim>\<open>parseDurationField\<close> and \<^verbatim>\<open>resolveConfigRelativeDir\<close> of
  \<^verbatim>\<open>rolecfg.go\<close>).  The source normalizes the document in place and returns an error or nil; here
  each function returns the error or the normalized value.  \<^verbatim>\<open>time.ParseDuration\<close>, which computes
  with floating-point numbers, is the argument \<open>parse\<close>: what is shown holds for every such function.
  A formatted error is represented by what it is about.
\<close>

section \<open>Errors\<close>

datatype val_error =
    NegativeField string
  | BadDuration string
  | NotPositive string
  | BadID string nat string
  | DuplicateID string string
  | NoOptions nat string
  | OptionNoValue string nat
  | OptionDuplicate string string
  | BadOptionLabels string nat val_error
  | BadOptionKey string nat string
  | BadOptionPath string nat path_error
  | TooManyLabels
  | EmptyLabel
  | BadLabel string
  | NoScript nat string
  | BadTimeout nat string
  | BadLabels string nat val_error
  | BadType nat string
  | BadCatalogLabels nat val_error
  | NotAChoice nat string
  | BothSources nat string
  | NoSource nat string
  | LabelsWithoutCatalog nat string
  | UnknownCatalog nat string string
  | SelectsNothing nat string
  | BadDefault nat string
  | EnvCollision nat string collision
  | BadWorkdirParam string

section \<open>Labels\<close>

definition maxQueueLabelCount :: nat where "maxQueueLabelCount = 32"

fun label_loop :: "string list \<Rightarrow> string list \<Rightarrow> val_error + string list" where
  "label_loop seen [] = Inr []"
| "label_loop seen (raw # rest) =
     (let label = to_lower (trim_space raw) in
      if label = '''' then Inl EmptyLabel
      else if \<not> validIdentifier label then Inl (BadLabel label)
      else if label \<in> set seen then label_loop seen rest
      else case label_loop (label # seen) rest of
             Inl e \<Rightarrow> Inl e
           | Inr normalized \<Rightarrow> Inr (label # normalized))"

definition normalizeLabels :: "string list \<Rightarrow> val_error + string list" where
  "normalizeLabels labels =
     (if length labels > maxQueueLabelCount then Inl TooManyLabels else label_loop [] labels)"

section \<open>Options\<close>

text \<open>The loop over \<^verbatim>\<open>option.Values\<close>; a Go map has no order, so which of several errors is
  reported depends on the run.\<close>

fun check_values :: "string \<Rightarrow> nat \<Rightarrow> string gomap \<Rightarrow> val_error option" where
  "check_values owner i [] = None"
| "check_values owner i ((field, value) # rest) =
     (if \<not> validIdentifier field then Some (BadOptionKey owner i field)
      else case (if field = optionPathField then validateRelativeWorkspacePath value else None) of
             Some e \<Rightarrow> Some (BadOptionPath owner i e)
           | None \<Rightarrow> check_values owner i rest)"

fun option_loop :: "string \<Rightarrow> nat \<Rightarrow> string list \<Rightarrow> OptionConfig list \<Rightarrow> val_error + OptionConfig list" where
  "option_loop owner i seen [] = Inr []"
| "option_loop owner i seen (raw # rest) =
     (let option = raw\<lparr>opt_Value := trim_space (opt_Value raw)\<rparr> in
      if opt_Value option = '''' then Inl (OptionNoValue owner i)
      else if opt_Value option \<in> set seen then Inl (OptionDuplicate owner (opt_Value option))
      else
        let option = (if trim_space (opt_Label option) = ''''
                      then option\<lparr>opt_Label := opt_Value option\<rparr> else option)
        in case normalizeLabels (opt_Labels option) of
             Inl e \<Rightarrow> Inl (BadOptionLabels owner i e)
           | Inr labels \<Rightarrow>
               (case check_values owner i (opt_Values option) of
                  Some e \<Rightarrow> Inl e
                | None \<Rightarrow>
                    (case option_loop owner (Suc i) (opt_Value option # seen) rest of
                       Inl e \<Rightarrow> Inl e
                     | Inr options \<Rightarrow> Inr (option\<lparr>opt_Labels := labels\<rparr> # options))))"

definition normalizeOptions :: "OptionConfig list \<Rightarrow> string \<Rightarrow> val_error + OptionConfig list" where
  "normalizeOptions options owner = option_loop owner 0 [] options"

section \<open>Catalogs\<close>

fun catalog_loop :: "nat \<Rightarrow> string list \<Rightarrow> CatalogConfig list \<Rightarrow> val_error + CatalogConfig list" where
  "catalog_loop i seen [] = Inr []"
| "catalog_loop i seen (raw # rest) =
     (let catalog = raw\<lparr>cat_ID := trim_space (cat_ID raw)\<rparr> in
      if \<not> validIdentifier (cat_ID catalog) then Inl (BadID ''catalogs'' i (cat_ID catalog))
      else if cat_ID catalog \<in> set seen then Inl (DuplicateID ''catalog'' (cat_ID catalog))
      else
        let catalog = (if trim_space (cat_Name catalog) = ''''
                       then catalog\<lparr>cat_Name := cat_ID catalog\<rparr> else catalog)
        in if cat_Options catalog = [] then Inl (NoOptions i (cat_ID catalog))
           else case normalizeOptions (cat_Options catalog) (cat_ID catalog) of
             Inl e \<Rightarrow> Inl e
           | Inr options \<Rightarrow>
               (case catalog_loop (Suc i) (cat_ID catalog # seen) rest of
                  Inl e \<Rightarrow> Inl e
                | Inr catalogs \<Rightarrow> Inr (catalog\<lparr>cat_Options := options\<rparr> # catalogs)))"

definition validateCatalogs :: "ControllerConfig \<Rightarrow> val_error + ControllerConfig" where
  "validateCatalogs cfg =
     (case catalog_loop 0 [] (cfg_Catalogs cfg) of
        Inl e \<Rightarrow> Inl e
      | Inr catalogs \<Rightarrow> Inr (cfg\<lparr>cfg_Catalogs := catalogs\<rparr>))"

section \<open>Parameters\<close>

definition optionValueExists :: "OptionConfig list \<Rightarrow> string \<Rightarrow> bool" where
  "optionValueExists options value = list_ex (\<lambda>option. opt_Value option = value) options"

definition optionsCarryPath :: "OptionConfig list \<Rightarrow> bool" where
  "optionsCarryPath options =
     (options \<noteq> [] \<and> list_all (\<lambda>option. map_of (opt_Values option) optionPathField \<noteq> None) options)"

definition normalizeParameterType :: "string \<Rightarrow> string option" where
  "normalizeParameterType value =
     (let v = to_lower (trim_space value) in
      if v \<in> set ['''', paramTypeString, ''input''] then Some paramTypeString
      else if v = paramTypeChoice then Some paramTypeChoice
      else if v \<in> set [paramTypeBoolean, ''bool''] then Some paramTypeBoolean
      else None)"

text \<open>\<^verbatim>\<open>validateParameterSource\<close>: the normalized parameter and the options it may select.\<close>

definition validateParameterSource ::
    "ControllerConfig \<Rightarrow> ParameterConfig \<Rightarrow> string \<Rightarrow> nat \<Rightarrow> val_error + ParameterConfig \<times> OptionConfig list" where
  "validateParameterSource cfg param owner index =
     (let param = param\<lparr>par_Catalog := trim_space (par_Catalog param)\<rparr> in
      case normalizeLabels (par_CatalogLabels param) of
        Inl e \<Rightarrow> Inl (BadCatalogLabels index e)
      | Inr catalogLabels \<Rightarrow>
        (let param = param\<lparr>par_CatalogLabels := catalogLabels\<rparr>;
             hasInline = (par_Options param \<noteq> []);
             hasCatalog = (par_Catalog param \<noteq> '''')
         in if par_Type param \<noteq> paramTypeChoice then
              (if hasInline \<or> hasCatalog \<or> par_CatalogLabels param \<noteq> []
               then Inl (NotAChoice index (par_ID param)) else Inr (param, []))
            else if hasInline \<and> hasCatalog then Inl (BothSources index (par_ID param))
            else if \<not> hasInline \<and> \<not> hasCatalog then Inl (NoSource index (par_ID param))
            else if hasInline then
              (if par_CatalogLabels param \<noteq> [] then Inl (LabelsWithoutCatalog index (par_ID param))
               else case normalizeOptions (par_Options param) owner of
                      Inl e \<Rightarrow> Inl e
                    | Inr options \<Rightarrow> Inr (param\<lparr>par_Options := options\<rparr>, options))
            else
              (case findCatalog cfg (par_Catalog param) of
                 None \<Rightarrow> Inl (UnknownCatalog index (par_ID param) (par_Catalog param))
               | Some catalog \<Rightarrow>
                   if filterCatalogOptions (cat_Options catalog) (par_CatalogLabels param) = []
                   then Inl (SelectsNothing index (par_ID param))
                   else Inr (param, cat_Options catalog))))"

definition validateParameterDefault :: "ParameterConfig \<Rightarrow> OptionConfig list \<Rightarrow> nat \<Rightarrow> val_error option" where
  "validateParameterDefault param options index =
     (if par_Default param = '''' then None
      else if par_Type param = paramTypeBoolean then
        (if normalizeBooleanValue (par_Default param) = None then Some (BadDefault index (par_ID param)) else None)
      else if par_Type param = paramTypeChoice then
        (if \<not> optionValueExists (filterCatalogOptions options (par_CatalogLabels param)) (par_Default param)
         then Some (BadDefault index (par_ID param)) else None)
      else None)"

text \<open>The loop of \<^verbatim>\<open>validateJobParameters\<close>: the parameter identifiers seen, the environment names
  in use, and in the result the normalized parameters and the ones whose options all carry a path.\<close>

fun param_loop ::
    "ControllerConfig \<Rightarrow> string \<Rightarrow> nat \<Rightarrow> string list \<Rightarrow> string list \<Rightarrow> ParameterConfig list
      \<Rightarrow> val_error + ParameterConfig list \<times> string list" where
  "param_loop cfg owner j seen names [] = Inr ([], [])"
| "param_loop cfg owner j seen names (raw # rest) =
     (let param = raw\<lparr>par_ID := trim_space (par_ID raw)\<rparr> in
      if \<not> validIdentifier (par_ID param) then Inl (BadID owner j (par_ID param))
      else if par_ID param \<in> set seen then Inl (DuplicateID owner (par_ID param))
      else
        let param = (if trim_space (par_Name param) = '''' then param\<lparr>par_Name := par_ID param\<rparr> else param)
        in case normalizeParameterType (par_Type param) of
          None \<Rightarrow> Inl (BadType j (par_Type param))
        | Some paramType \<Rightarrow>
          (case validateParameterSource cfg (param\<lparr>par_Type := paramType\<rparr>) owner j of
             Inl e \<Rightarrow> Inl e
           | Inr (param, options) \<Rightarrow>
             (case validateParameterDefault param options j of
                Some e \<Rightarrow> Inl e
              | None \<Rightarrow>
                (case collisions_add_all (paramEnvNames param options) names of
                   Inl c \<Rightarrow> Inl (EnvCollision j (par_ID param) c)
                 | Inr names' \<Rightarrow>
                   (case param_loop cfg owner (Suc j) (par_ID param # seen) names' rest of
                      Inl e \<Rightarrow> Inl e
                    | Inr (params, pathParams) \<Rightarrow>
                        Inr (param # params,
                             if optionsCarryPath options then par_ID param # pathParams else pathParams))))))"

definition validateJobParameters :: "ControllerConfig \<Rightarrow> JobConfig \<Rightarrow> val_error + JobConfig" where
  "validateJobParameters cfg job =
     (case param_loop cfg (job_ID job) 0 [] [] (job_Parameters job) of
        Inl e \<Rightarrow> Inl e
      | Inr (params, pathParams) \<Rightarrow>
          (let workdir = trim_space (job_WorkdirParam job) in
           if workdir \<noteq> '''' \<and> workdir \<notin> set pathParams then Inl (BadWorkdirParam workdir)
           else Inr (job\<lparr>job_Parameters := params, job_WorkdirParam := workdir\<rparr>)))"

section \<open>Jobs\<close>

fun job_loop ::
    "(string \<Rightarrow> int option) \<Rightarrow> ControllerConfig \<Rightarrow> nat \<Rightarrow> string list \<Rightarrow> JobConfig list \<Rightarrow> val_error + JobConfig list" where
  "job_loop parse cfg i seen [] = Inr []"
| "job_loop parse cfg i seen (raw # rest) =
     (let job = raw\<lparr>job_ID := trim_space (job_ID raw)\<rparr> in
      if \<not> validIdentifier (job_ID job) then Inl (BadID ''jobs'' i (job_ID job))
      else if job_ID job \<in> set seen then Inl (DuplicateID ''job'' (job_ID job))
      else
        let job = (if trim_space (job_Name job) = '''' then job\<lparr>job_Name := job_ID job\<rparr> else job)
        in if trim_space (job_Script job) = '''' then Inl (NoScript i (job_ID job))
           else if trim_space (job_Timeout job) \<noteq> ''''
                   \<and> (case parse (job_Timeout job) of None \<Rightarrow> True | Some timeout \<Rightarrow> timeout \<le> 0)
           then Inl (BadTimeout i (job_ID job))
           else case normalizeLabels (job_Labels job) of
             Inl e \<Rightarrow> Inl (BadLabels ''jobs'' i e)
           | Inr labels \<Rightarrow>
             (case validateJobParameters cfg (job\<lparr>job_Labels := labels\<rparr>) of
                Inl e \<Rightarrow> Inl e
              | Inr job \<Rightarrow>
                (case job_loop parse cfg (Suc i) (job_ID job # seen) rest of
                   Inl e \<Rightarrow> Inl e
                 | Inr jobs \<Rightarrow> Inr (job # jobs))))"

definition validateJobs :: "(string \<Rightarrow> int option) \<Rightarrow> ControllerConfig \<Rightarrow> val_error + ControllerConfig" where
  "validateJobs parse cfg =
     (case job_loop parse cfg 0 [] (cfg_Jobs cfg) of
        Inl e \<Rightarrow> Inl e
      | Inr jobs \<Rightarrow> Inr (cfg\<lparr>cfg_Jobs := jobs\<rparr>))"

section \<open>Agents\<close>

fun agent_loop :: "nat \<Rightarrow> string list \<Rightarrow> AgentDefinition list \<Rightarrow> val_error + AgentDefinition list" where
  "agent_loop i seen [] = Inr []"
| "agent_loop i seen (raw # rest) =
     (let agent = raw\<lparr>agd_ID := trim_space (agd_ID raw)\<rparr> in
      if \<not> validIdentifier (agd_ID agent) then Inl (BadID ''agents'' i (agd_ID agent))
      else if agd_ID agent \<in> set seen then Inl (DuplicateID ''agent'' (agd_ID agent))
      else
        let agent = (if trim_space (agd_Name agent) = '''' then agent\<lparr>agd_Name := agd_ID agent\<rparr> else agent)
        in case normalizeLabels (agd_Labels agent) of
             Inl e \<Rightarrow> Inl (BadLabels ''agents'' i e)
           | Inr labels \<Rightarrow>
               (case agent_loop (Suc i) (agd_ID agent # seen) rest of
                  Inl e \<Rightarrow> Inl e
                | Inr agents \<Rightarrow> Inr (agent\<lparr>agd_Labels := labels\<rparr> # agents)))"

definition validateAgentDefinitions :: "ControllerConfig \<Rightarrow> val_error + ControllerConfig" where
  "validateAgentDefinitions cfg =
     (case agent_loop 0 [] (cfg_Agents cfg) of
        Inl e \<Rightarrow> Inl e
      | Inr agents \<Rightarrow> Inr (cfg\<lparr>cfg_Agents := agents\<rparr>))"

section \<open>The document\<close>

text \<open>Durations are nanoseconds.\<close>

definition second :: int where "second = 1000000000"
definition defaultHeartbeatInterval :: int where "defaultHeartbeatInterval = 5 * second"
definition defaultOfflineAfter :: int where "defaultOfflineAfter = 30 * second"
definition defaultLongPollTimeout :: int where "defaultLongPollTimeout = 25 * second"
definition defaultMaxLogBytes :: int where "defaultMaxLogBytes = 67108864"

definition parseDurationField :: "(string \<Rightarrow> int option) \<Rightarrow> string \<Rightarrow> string \<Rightarrow> int \<Rightarrow> val_error + int" where
  "parseDurationField parse field value fallback =
     (let value = trim_space value in
      if value = '''' then Inr fallback
      else case parse value of
             None \<Rightarrow> Inl (BadDuration field)
           | Some parsed \<Rightarrow> if parsed \<le> 0 then Inl (NotPositive field) else Inr parsed)"

definition validateControllerConfig ::
    "(string \<Rightarrow> int option) \<Rightarrow> ControllerConfig \<Rightarrow> val_error + ControllerConfig" where
  "validateControllerConfig parse cfg =
     (let server = cfg_Server cfg in
      if srv_MaxHistory server < 0 then Inl (NegativeField ''server.max_history'')
      else if srv_MaxLogBytes server < 0 then Inl (NegativeField ''server.max_log_bytes'')
      else case parseDurationField parse ''server.heartbeat_interval'' (srv_HeartbeatInterval server) defaultHeartbeatInterval of
        Inl e \<Rightarrow> Inl e
      | Inr _ \<Rightarrow>
      (case parseDurationField parse ''server.offline_after'' (srv_OfflineAfter server) defaultOfflineAfter of
        Inl e \<Rightarrow> Inl e
      | Inr _ \<Rightarrow>
      (case parseDurationField parse ''server.long_poll_timeout'' (srv_LongPollTimeout server) defaultLongPollTimeout of
        Inl e \<Rightarrow> Inl e
      | Inr _ \<Rightarrow>
      (case validateCatalogs cfg of
        Inl e \<Rightarrow> Inl e
      | Inr cfg \<Rightarrow>
      (case validateJobs parse cfg of
        Inl e \<Rightarrow> Inl e
      | Inr cfg \<Rightarrow> validateAgentDefinitions cfg)))))"

section \<open>Runtime values\<close>

definition path_dir :: "string \<Rightarrow> string" where
  "path_dir path = clean (rev (dropWhile (\<lambda>c. c \<noteq> CHR ''/'') (rev path)))"

definition resolveConfigRelativeDir :: "string \<Rightarrow> string \<Rightarrow> string \<Rightarrow> string" where
  "resolveConfigRelativeDir configPath dir fallback =
     (let dir = trim_space dir;
          dir = (if dir = '''' then fallback else dir)
      in if is_abs dir then clean dir
         else
           let base = path_dir configPath
           in if trim_space base = '''' \<or> base = ''.'' then clean dir else clean (path_join base dir))"

definition defaultControllerAddress :: string where
  "defaultControllerAddress = ''127.0.0.1:28080''"

fun address_loop :: "string list \<Rightarrow> string list \<Rightarrow> string list" where
  "address_loop seen [] = []"
| "address_loop seen (raw # rest) =
     (let addr = trim_space raw in
      if addr = '''' \<or> addr \<in> set seen then address_loop seen rest
      else addr # address_loop (addr # seen) rest)"

definition controllerListenAddresses :: "ControllerServer \<Rightarrow> string list" where
  "controllerListenAddresses server =
     (let addrs = (if trim_space (srv_Address server) \<noteq> '''' then [srv_Address server] else []) @ srv_Addresses server;
          normalized = address_loop [] addrs
      in if normalized = [] then [defaultControllerAddress] else normalized)"

definition controllerRuntime ::
    "(string \<Rightarrow> int option) \<Rightarrow> string \<Rightarrow> ControllerConfig \<Rightarrow> val_error + ControllerRuntime" where
  "controllerRuntime parse configPath cfg =
     (let server = cfg_Server cfg;
          stateDir = resolveConfigRelativeDir configPath (srv_StateDir server) ''state''
      in case parseDurationField parse ''server.heartbeat_interval'' (srv_HeartbeatInterval server) defaultHeartbeatInterval of
        Inl e \<Rightarrow> Inl e
      | Inr heartbeat \<Rightarrow>
      (case parseDurationField parse ''server.offline_after'' (srv_OfflineAfter server) defaultOfflineAfter of
        Inl e \<Rightarrow> Inl e
      | Inr offline \<Rightarrow>
      (case parseDurationField parse ''server.long_poll_timeout'' (srv_LongPollTimeout server) defaultLongPollTimeout of
        Inl e \<Rightarrow> Inl e
      | Inr longPoll \<Rightarrow>
          Inr \<lparr>rt_ConfigPath = configPath, rt_StateDir = stateDir,
               rt_LogDir = path_join stateDir ''logs'', rt_StatePath = path_join stateDir ''state.json'',
               rt_CredentialsPath = path_join stateDir ''credentials.json'',
               rt_MaxHistory = (if srv_MaxHistory server \<le> 0 then defaultMaxHistory else srv_MaxHistory server),
               rt_MaxLogBytes = (if srv_MaxLogBytes server \<le> 0 then defaultMaxLogBytes else srv_MaxLogBytes server),
               rt_HeartbeatInterval = heartbeat, rt_OfflineAfter = offline, rt_LongPollTimeout = longPoll,
               rt_ListenAddresses = controllerListenAddresses server\<rparr>)))"

end
