(* ===== verification/Validate_Props.thy ===== *)
theory Validate_Props
  imports Ctrl_Validate
begin

text \<open>
  What validation of the controller configuration establishes, and that a validated configuration
  passes validation unchanged.
\<close>

section \<open>Trimming and case\<close>

lemma ident_char_ascii: "ident_char c \<Longrightarrow> (of_char c :: nat) < 128 \<and> (of_char c :: nat) > 32"
  by (auto simp: ident_char_def less_eq_char_def)

lemma trim_with_done: "trim_with ws k s = [] \<or> head_len ws (trim_with ws k s) = 0"
  by (induction ws k s rule: trim_with.induct) (auto split: nat.splits)

lemma trim_with_suffix: "\<exists>p. s = p @ trim_with ws k s"
proof (induction ws k s rule: trim_with.induct)
  case (2 ws k c cs)
  then show ?case by (metis append_Cons trim_with.simps(2))
next
  case (3 ws c cs)
  show ?case
  proof (cases "head_len ws (c # cs)")
    case (Suc k)
    with 3 show ?thesis by (metis append_Cons nat.simps(5) trim_with.simps(3))
  qed simp
qed simp

lemma head_len_zero:
  "[] \<notin> set ws \<Longrightarrow> head_len ws s = 0 \<longleftrightarrow> (\<forall>w \<in> set ws. \<not> has_prefix s w)"
  by (auto simp: head_len_def find_None_iff_all split: option.splits dest: find_Some_mem)

lemma has_prefix_append: "has_prefix s w \<Longrightarrow> has_prefix (s @ t) w"
proof -
  assume p: "has_prefix s w"
  then have "length w \<le> length s" by (metis has_prefix_def length_take min.bounded_iff order_refl)
  with p show ?thesis by (simp add: has_prefix_def)
qed

lemma trim_with_fixed: "head_len ws s = 0 \<Longrightarrow> trim_with ws 0 s = s"
  by (cases s) simp_all

lemma trim_with_idem: "trim_with ws 0 (trim_with ws 0 s) = trim_with ws 0 s"
  using trim_with_done [of ws 0 s] trim_with_fixed by auto

lemma trim_right_prefix: "\<exists>q. s = trim_right s @ q"
proof -
  obtain p where "rev s = p @ trim_with (map rev go_spaces) 0 (rev s)" using trim_with_suffix by blast
  then have "s = rev (trim_with (map rev go_spaces) 0 (rev s)) @ rev p"
    by (metis rev_append rev_rev_ident)
  then show ?thesis unfolding trim_right_def by blast
qed

lemma trim_left_right: "trim_left (trim_right (trim_left s)) = trim_right (trim_left s)"
proof -
  obtain q where q: "trim_left s = trim_right (trim_left s) @ q" using trim_right_prefix by blast
  have ws: "[] \<notin> set go_spaces" by (simp add: go_spaces_def)
  show ?thesis
  proof (cases "trim_left s = []")
    case True
    then show ?thesis by (simp add: trim_right_def trim_left_def)
  next
    case False
    then have "head_len go_spaces (trim_left s) = 0"
      using trim_with_done [of go_spaces 0 s] by (simp add: trim_left_def)
    then have "head_len go_spaces (trim_right (trim_left s)) = 0"
      using q has_prefix_append unfolding head_len_zero [OF ws] by metis
    then show ?thesis unfolding trim_left_def [of "trim_right (trim_left s)"] by (rule trim_with_fixed)
  qed
qed

lemma trim_space_idem [simp]: "trim_space (trim_space s) = trim_space s"
proof -
  have "trim_right (trim_right t) = trim_right t" for t
    by (simp add: trim_right_def trim_with_idem)
  then show ?thesis by (simp add: trim_space_def trim_left_right)
qed

lemma trim_space_Nil [simp]: "trim_space [] = []"
  by (simp add: trim_space_def trim_left_def trim_right_def)

lemma space_not_ident: "w \<in> set go_spaces \<Longrightarrow> \<not> ident_char (hd w) \<and> \<not> ident_char (last w) \<and> w \<noteq> []"
  unfolding go_spaces_def by (auto simp: ident_char_def less_eq_char_def)

text \<open>Nothing is trimmed from a text that begins and ends with a letter, digit, underscore or hyphen.\<close>

lemma trim_ends:
  assumes "s \<noteq> []" "ident_char (hd s)" "ident_char (last s)"
  shows "trim_space s = s"
proof -
  have ne: "[] \<notin> set go_spaces" "[] \<notin> set (map rev go_spaces)" by (simp_all add: go_spaces_def)
  have "\<not> has_prefix s w" if "w \<in> set go_spaces" for w
    using space_not_ident [OF that] assms(1,2) by (cases w; cases s) (auto simp: has_prefix_def)
  then have "head_len go_spaces s = 0" using ne(1) by (simp add: head_len_zero)
  moreover have "\<not> has_prefix (rev s) (rev w)" if "w \<in> set go_spaces" for w
    using space_not_ident [OF that] assms(1,3)
    by (cases w rule: rev_cases; cases s rule: rev_cases) (auto simp: has_prefix_def)
  then have "head_len (map rev go_spaces) (rev s) = 0" using ne(2) by (simp add: head_len_zero)
  ultimately show ?thesis by (simp add: trim_space_def trim_left_def trim_right_def trim_with_fixed)
qed

lemma trim_ident: "list_all ident_char s \<Longrightarrow> trim_space s = s"
  by (cases "s = []") (auto simp: list_all_iff intro: trim_ends)

lemma trim_validIdentifier: "validIdentifier s \<Longrightarrow> trim_space s = s"
  by (simp add: validIdentifier_def trim_ident)

lemma lower_char_idem [simp]: "lower_char (lower_char c) = lower_char c"
proof (cases "CHR ''A'' \<le> c \<and> c \<le> CHR ''Z''")
  case True
  then have n: "65 \<le> (of_char c :: nat)" "(of_char c :: nat) \<le> 90" by (auto simp: less_eq_char_def)
  then have "(of_char (char_of (of_char c + 32 :: nat)) :: nat) = of_char c + 32" by simp
  with True n show ?thesis by (auto simp: lower_char_def less_eq_char_def)
qed (auto simp: lower_char_def)

lemma lower_fixed: "c \<in> set (to_lower s) \<Longrightarrow> lower_char c = c"
  by (induction s rule: to_lower.induct) (auto simp: lower_char_def less_eq_char_def split: if_splits)

lemma to_lower_ascii: "list_all (\<lambda>c. (of_char c :: nat) < 128) s \<Longrightarrow> to_lower s = map lower_char s"
  by (induction s rule: to_lower.induct) auto

lemma to_lower_fixed:
  assumes "validIdentifier (to_lower s)" shows "to_lower (to_lower s) = to_lower s"
proof -
  have "to_lower (to_lower s) = map lower_char (to_lower s)"
    using assms ident_char_ascii by (intro to_lower_ascii) (auto simp: validIdentifier_def list_all_iff)
  also have "\<dots> = to_lower s" using lower_fixed by (simp add: map_idI)
  finally show ?thesis .
qed

section \<open>What validation establishes\<close>

definition labels_ok :: "string list \<Rightarrow> bool" where
  "labels_ok labels \<longleftrightarrow> length labels \<le> maxQueueLabelCount \<and> distinct labels
     \<and> (\<forall>l \<in> set labels. validIdentifier l \<and> to_lower l = l)"

definition options_ok :: "OptionConfig list \<Rightarrow> bool" where
  "options_ok options \<longleftrightarrow> distinct (map opt_Value options)
     \<and> (\<forall>o' \<in> set options. opt_Value o' \<noteq> '''' \<and> trim_space (opt_Value o') = opt_Value o'
          \<and> trim_space (opt_Label o') \<noteq> '''' \<and> labels_ok (opt_Labels o')
          \<and> (\<forall>(field, value) \<in> set (opt_Values o'). validIdentifier field
               \<and> (field = optionPathField \<longrightarrow> validateRelativeWorkspacePath value = None)))"

definition catalogs_ok :: "CatalogConfig list \<Rightarrow> bool" where
  "catalogs_ok cs \<longleftrightarrow> distinct (map cat_ID cs)
     \<and> (\<forall>c \<in> set cs. validIdentifier (cat_ID c) \<and> trim_space (cat_Name c) \<noteq> '''' \<and> cat_Options c \<noteq> []
          \<and> options_ok (cat_Options c))"

text \<open>The options a parameter may select from, before filtering by label.\<close>

definition source_options :: "ControllerConfig \<Rightarrow> ParameterConfig \<Rightarrow> OptionConfig list" where
  "source_options cfg param =
     (if par_Type param \<noteq> paramTypeChoice then []
      else if par_Catalog param = '''' then par_Options param
      else case findCatalog cfg (par_Catalog param) of None \<Rightarrow> [] | Some c \<Rightarrow> cat_Options c)"

definition param_ok :: "ControllerConfig \<Rightarrow> ParameterConfig \<Rightarrow> bool" where
  "param_ok cfg p \<longleftrightarrow> validIdentifier (par_ID p) \<and> trim_space (par_Name p) \<noteq> ''''
     \<and> par_Type p \<in> {paramTypeString, paramTypeChoice, paramTypeBoolean}
     \<and> trim_space (par_Catalog p) = par_Catalog p \<and> labels_ok (par_CatalogLabels p)
     \<and> (par_Type p \<noteq> paramTypeChoice \<longrightarrow> par_Options p = [] \<and> par_Catalog p = '''' \<and> par_CatalogLabels p = [])
     \<and> (par_Type p = paramTypeChoice \<longrightarrow>
          (par_Options p = []) = (par_Catalog p \<noteq> '''')
          \<and> (par_Catalog p = '''' \<longrightarrow> options_ok (par_Options p) \<and> par_CatalogLabels p = [])
          \<and> (par_Catalog p \<noteq> '''' \<longrightarrow> findCatalog cfg (par_Catalog p) \<noteq> None)
          \<and> filterCatalogOptions (source_options cfg p) (par_CatalogLabels p) \<noteq> [])
     \<and> validateParameterDefault p (source_options cfg p) 0 = None"

definition job_names :: "ControllerConfig \<Rightarrow> ParameterConfig list \<Rightarrow> string list" where
  "job_names cfg ps = concat (map (\<lambda>p. paramEnvNames p (source_options cfg p)) ps)"

definition job_ok :: "(string \<Rightarrow> int option) \<Rightarrow> ControllerConfig \<Rightarrow> JobConfig \<Rightarrow> bool" where
  "job_ok parse cfg j \<longleftrightarrow> validIdentifier (job_ID j) \<and> trim_space (job_Name j) \<noteq> ''''
     \<and> trim_space (job_Script j) \<noteq> '''' \<and> labels_ok (job_Labels j)
     \<and> (trim_space (job_Timeout j) \<noteq> '''' \<longrightarrow> (\<exists>t > 0. parse (job_Timeout j) = Some t))
     \<and> distinct (map par_ID (job_Parameters j)) \<and> (\<forall>p \<in> set (job_Parameters j). param_ok cfg p)
     \<and> distinct (job_names cfg (job_Parameters j))
     \<and> (\<forall>n \<in> set (job_names cfg (job_Parameters j)). \<not> isReservedEnvName n)
     \<and> (job_WorkdirParam j \<noteq> '''' \<longrightarrow>
          (\<exists>p \<in> set (job_Parameters j). par_ID p = job_WorkdirParam j \<and> optionsCarryPath (source_options cfg p)))"

definition agents_ok :: "AgentDefinition list \<Rightarrow> bool" where
  "agents_ok as \<longleftrightarrow> distinct (map agd_ID as)
     \<and> (\<forall>a \<in> set as. validIdentifier (agd_ID a) \<and> trim_space (agd_Name a) \<noteq> '''' \<and> labels_ok (agd_Labels a))"

lemma label_loop_ok:
  "label_loop seen ls = Inr r \<Longrightarrow> distinct r \<and> set r \<inter> set seen = {} \<and> length r \<le> length ls
     \<and> (\<forall>l \<in> set r. validIdentifier l \<and> to_lower l = l)"
proof (induction ls arbitrary: seen r)
  case (Cons raw rest)
  let ?l = "to_lower (trim_space raw)"
  from Cons.prems have v: "validIdentifier ?l" by (auto simp: Let_def split: if_splits)
  show ?case
  proof (cases "?l \<in> set seen")
    case True
    with Cons.prems v have "label_loop seen rest = Inr r" by (auto simp: Let_def split: if_splits)
    from Cons.IH [OF this] show ?thesis by (simp add: le_SucI)
  next
    case False
    with Cons.prems v obtain r' where rest: "label_loop (?l # seen) rest = Inr r'" and r: "r = ?l # r'"
      by (auto simp: Let_def split: if_splits sum.splits)
    from Cons.IH [OF rest] v False to_lower_fixed [OF v] show ?thesis unfolding r by auto
  qed
qed simp

lemma normalizeLabels_ok: "normalizeLabels ls = Inr r \<Longrightarrow> labels_ok r"
  using label_loop_ok [of "[]" ls r] by (auto simp: normalizeLabels_def labels_ok_def split: if_splits)

lemma check_values_None:
  "check_values owner i vs = None \<longleftrightarrow> (\<forall>(field, value) \<in> set vs. validIdentifier field
      \<and> (field = optionPathField \<longrightarrow> validateRelativeWorkspacePath value = None))"
  by (induction owner i vs rule: check_values.induct) (auto split: option.splits)

lemma option_loop_ok:
  "option_loop owner i seen os = Inr r \<Longrightarrow> options_ok r \<and> opt_Value ` set r \<inter> set seen = {} \<and> (r = [] \<longleftrightarrow> os = [])"
proof (induction "os" arbitrary: i seen r)
  case (Cons raw rest)
  let ?o = "raw\<lparr>opt_Value := trim_space (opt_Value raw)\<rparr>"
  let ?l = "if trim_space (opt_Label ?o) = '''' then ?o\<lparr>opt_Label := opt_Value ?o\<rparr> else ?o"
  from Cons.prems obtain labels os' where
    v: "trim_space (opt_Value raw) \<noteq> ''''" "trim_space (opt_Value raw) \<notin> set seen" and
    labels: "normalizeLabels (opt_Labels raw) = Inr labels" and
    vals: "check_values owner i (opt_Values raw) = None" and
    rest: "option_loop owner (Suc i) (trim_space (opt_Value raw) # seen) rest = Inr os'" and
    r: "r = ?l\<lparr>opt_Labels := labels\<rparr> # os'"
    by (auto simp: Let_def split: if_splits sum.splits option.splits)
  from Cons.IH [OF rest] have ih: "options_ok os' \<and> opt_Value ` set os' \<inter> set (trim_space (opt_Value raw) # seen) = {}" by blast
  with v labels vals r show ?case
    by (auto simp: options_ok_def check_values_None normalizeLabels_ok split: if_splits)
qed (simp add: options_ok_def)

lemma catalog_loop_ok:
  "catalog_loop i seen cs = Inr r \<Longrightarrow> catalogs_ok r \<and> cat_ID ` set r \<inter> set seen = {}"
proof (induction "cs" arbitrary: i seen r)
  case (Cons raw rest)
  let ?c = "raw\<lparr>cat_ID := trim_space (cat_ID raw)\<rparr>"
  let ?n = "if trim_space (cat_Name ?c) = '''' then ?c\<lparr>cat_Name := cat_ID ?c\<rparr> else ?c"
  from Cons.prems obtain os cs' where
    v: "validIdentifier (trim_space (cat_ID raw))" "trim_space (cat_ID raw) \<notin> set seen" "cat_Options raw \<noteq> []" and
    os: "normalizeOptions (cat_Options raw) (trim_space (cat_ID raw)) = Inr os" and
    rest: "catalog_loop (Suc i) (trim_space (cat_ID raw) # seen) rest = Inr cs'" and
    r: "r = ?n\<lparr>cat_Options := os\<rparr> # cs'"
    by (auto simp: Let_def split: if_splits sum.splits)
  from Cons.IH [OF rest] have "catalogs_ok cs' \<and> cat_ID ` set cs' \<inter> set (trim_space (cat_ID raw) # seen) = {}" .
  moreover have "os \<noteq> [] \<and> options_ok os"
    using os v(3) option_loop_ok [of _ 0 "[]" "cat_Options raw" os] by (auto simp: normalizeOptions_def)
  moreover have "trim_space (cat_ID raw) \<noteq> ''''" using v(1) by (auto simp: validIdentifier_def)
  ultimately show ?case using v r by (auto simp: catalogs_ok_def split: if_splits)
qed (simp add: catalogs_ok_def)

lemma agent_loop_ok:
  "agent_loop i seen as = Inr r \<Longrightarrow> agents_ok r \<and> agd_ID ` set r \<inter> set seen = {}"
proof (induction "as" arbitrary: i seen r)
  case (Cons raw rest)
  let ?a = "raw\<lparr>agd_ID := trim_space (agd_ID raw)\<rparr>"
  let ?n = "if trim_space (agd_Name ?a) = '''' then ?a\<lparr>agd_Name := agd_ID ?a\<rparr> else ?a"
  from Cons.prems obtain labels as' where
    v: "validIdentifier (trim_space (agd_ID raw))" "trim_space (agd_ID raw) \<notin> set seen" and
    labels: "normalizeLabels (agd_Labels raw) = Inr labels" and
    rest: "agent_loop (Suc i) (trim_space (agd_ID raw) # seen) rest = Inr as'" and
    r: "r = ?n\<lparr>agd_Labels := labels\<rparr> # as'"
    by (auto simp: Let_def split: if_splits sum.splits)
  from Cons.IH [OF rest] have "agents_ok as' \<and> agd_ID ` set as' \<inter> set (trim_space (agd_ID raw) # seen) = {}" .
  moreover have "trim_space (agd_ID raw) \<noteq> ''''" using v(1) by (auto simp: validIdentifier_def)
  ultimately show ?case using v r labels normalizeLabels_ok by (auto simp: agents_ok_def split: if_splits)
qed (simp add: agents_ok_def)

section \<open>Parameters and jobs\<close>

lemma collisions_add_all_ok:
  "collisions_add_all names owners = Inr owners' \<Longrightarrow> distinct names \<and> set names \<inter> set owners = {}
     \<and> set owners' = set names \<union> set owners \<and> (\<forall>n \<in> set names. \<not> isReservedEnvName n)"
proof (induction names arbitrary: owners)
  case (Cons n names)
  then have n: "\<not> isReservedEnvName n" "n \<notin> set owners" "collisions_add_all names (n # owners) = Inr owners'"
    by (auto simp: collisions_add_def split: if_splits)
  from Cons.IH [OF n(3)] n(1,2) show ?case by auto
qed simp

lemma validateParameterDefault_index:
  "validateParameterDefault p os j = None \<longleftrightarrow> validateParameterDefault p os 0 = None"
  by (simp add: validateParameterDefault_def)

lemma normalizeParameterType_type:
  "normalizeParameterType v = Some t \<Longrightarrow> t \<in> {paramTypeString, paramTypeChoice, paramTypeBoolean}"
  by (auto simp: normalizeParameterType_def Let_def split: if_splits)

lemma source_ok:
  assumes "validateParameterSource cfg p owner j = Inr (p', os)"
  shows "par_ID p' = par_ID p \<and> par_Name p' = par_Name p \<and> par_Type p' = par_Type p \<and> par_Default p' = par_Default p
    \<and> os = source_options cfg p'
    \<and> trim_space (par_Catalog p') = par_Catalog p' \<and> labels_ok (par_CatalogLabels p')
    \<and> (par_Type p \<noteq> paramTypeChoice \<longrightarrow> par_Options p' = [] \<and> par_Catalog p' = '''' \<and> par_CatalogLabels p' = [])
    \<and> (par_Type p = paramTypeChoice \<longrightarrow>
          (par_Options p' = []) = (par_Catalog p' \<noteq> '''')
          \<and> (par_Catalog p' = '''' \<longrightarrow> options_ok (par_Options p') \<and> par_CatalogLabels p' = [])
          \<and> (par_Catalog p' \<noteq> '''' \<longrightarrow> findCatalog cfg (par_Catalog p') \<noteq> None)
          \<and> filterCatalogOptions (source_options cfg p') (par_CatalogLabels p') \<noteq> [])"
proof -
  let ?cat = "trim_space (par_Catalog p)"
  obtain ls where ls: "normalizeLabels (par_CatalogLabels p) = Inr ls"
    using assms by (auto simp: validateParameterSource_def Let_def split: sum.splits)
  note lok = normalizeLabels_ok [OF ls]
  define q where "q = p\<lparr>par_Catalog := ?cat, par_CatalogLabels := ls\<rparr>"
  have q: "par_Catalog q = ?cat" "par_CatalogLabels q = ls" "par_Options q = par_Options p" "par_Type q = par_Type p"
    by (simp_all add: q_def)
  have v: "validateParameterSource cfg p owner j =
     (if par_Type p \<noteq> paramTypeChoice then
        (if par_Options p \<noteq> [] \<or> ?cat \<noteq> '''' \<or> ls \<noteq> [] then Inl (NotAChoice j (par_ID p)) else Inr (q, []))
      else if par_Options p \<noteq> [] \<and> ?cat \<noteq> '''' then Inl (BothSources j (par_ID p))
      else if \<not> par_Options p \<noteq> [] \<and> \<not> ?cat \<noteq> '''' then Inl (NoSource j (par_ID p))
      else if par_Options p \<noteq> [] then
        (if ls \<noteq> [] then Inl (LabelsWithoutCatalog j (par_ID p))
         else case normalizeOptions (par_Options p) owner of
                Inl e \<Rightarrow> Inl e | Inr options \<Rightarrow> Inr (q\<lparr>par_Options := options\<rparr>, options))
      else (case findCatalog cfg ?cat of
              None \<Rightarrow> Inl (UnknownCatalog j (par_ID p) ?cat)
            | Some catalog \<Rightarrow> if filterCatalogOptions (cat_Options catalog) ls = []
                then Inl (SelectsNothing j (par_ID p)) else Inr (q, cat_Options catalog)))"
    by (simp add: validateParameterSource_def Let_def ls q_def split: sum.splits option.splits)
  consider (plain) "par_Type p \<noteq> paramTypeChoice" "par_Options p = []" "?cat = ''''" "ls = []" "p' = q" "os = []"
    | (inline) "par_Type p = paramTypeChoice" "?cat = ''''" "ls = []" "par_Options p \<noteq> []"
        "normalizeOptions (par_Options p) owner = Inr os" "p' = q\<lparr>par_Options := os\<rparr>"
    | (cat) c where "par_Type p = paramTypeChoice" "?cat \<noteq> ''''" "par_Options p = []" "findCatalog cfg ?cat = Some c"
        "filterCatalogOptions (cat_Options c) ls \<noteq> []" "p' = q" "os = cat_Options c"
    using assms unfolding v by (auto split: if_splits sum.splits option.splits)
  then show ?thesis
  proof cases
    case plain
    then show ?thesis using lok q by (simp add: source_options_def q_def)
  next
    case inline
    then have "options_ok os \<and> os \<noteq> []"
      using option_loop_ok [of owner 0 "[]" "par_Options p" os] by (simp add: normalizeOptions_def)
    with inline lok show ?thesis by (simp add: source_options_def q_def filterCatalogOptions_def)
  next
    case cat
    then show ?thesis using lok by (simp add: source_options_def q_def)
  qed
qed

lemma param_loop_ok:
  "param_loop cfg owner j seen names ps = Inr (r, paths) \<Longrightarrow>
     distinct (map par_ID r) \<and> par_ID ` set r \<inter> set seen = {} \<and> (\<forall>p \<in> set r. param_ok cfg p)
     \<and> distinct (job_names cfg r) \<and> set (job_names cfg r) \<inter> set names = {}
     \<and> (\<forall>n \<in> set (job_names cfg r). \<not> isReservedEnvName n)
     \<and> set paths = par_ID ` {p \<in> set r. optionsCarryPath (source_options cfg p)}"
proof (induction ps arbitrary: j seen names r paths)
  case (Cons raw rest)
  let ?i = "trim_space (par_ID raw)"
  let ?p = "raw\<lparr>par_ID := ?i\<rparr>"
  let ?n = "if trim_space (par_Name ?p) = '''' then ?p\<lparr>par_Name := par_ID ?p\<rparr> else ?p"
  from Cons.prems obtain t p os names' r' paths' where
    v: "validIdentifier ?i" "?i \<notin> set seen" and
    t: "normalizeParameterType (par_Type raw) = Some t" and
    src: "validateParameterSource cfg (?n\<lparr>par_Type := t\<rparr>) owner j = Inr (p, os)" and
    def: "validateParameterDefault p os j = None" and
    coll: "collisions_add_all (paramEnvNames p os) names = Inr names'" and
    rest: "param_loop cfg owner (Suc j) (par_ID p # seen) names' rest = Inr (r', paths')" and
    r: "r = p # r'" "paths = (if optionsCarryPath os then par_ID p # paths' else paths')"
    by (auto simp: Let_def split: if_splits sum.splits option.splits prod.splits)
  note s = source_ok [OF src]
  have id: "par_ID p = ?i" using s by (auto split: if_splits)
  have nm: "trim_space (par_Name p) \<noteq> ''''" using s v(1) by (auto simp: validIdentifier_def)
  have os: "os = source_options cfg p" using s by blast
  have ty: "par_Type p = t" using s by simp
  have pok: "param_ok cfg p"
  proof -
    have "validIdentifier (par_ID p)" using v(1) id by simp
    moreover have "validateParameterDefault p (source_options cfg p) 0 = None"
      using def os validateParameterDefault_index by blast
    moreover have "par_Type (?n\<lparr>par_Type := t\<rparr>) = t" by simp
    note s [unfolded this]
    ultimately show ?thesis
      unfolding param_ok_def ty using nm normalizeParameterType_type [OF t] by blast
  qed
  note c = collisions_add_all_ok [OF coll, unfolded os]
  note ih = Cons.IH [OF rest]
  have names: "job_names cfg r = paramEnvNames p (source_options cfg p) @ job_names cfg r'"
    by (simp add: r(1) job_names_def)
  have paths: "set paths = par_ID ` {x \<in> set r. optionsCarryPath (source_options cfg x)}"
    using ih unfolding r os by (auto simp: image_iff)
  show ?case unfolding names paths
    using ih c v(2) id pok by (auto simp: r(1))
qed (simp add: job_names_def)

lemma param_ok_cfg:
  "cfg_Catalogs cfg' = cfg_Catalogs cfg \<Longrightarrow> param_ok cfg' = param_ok cfg \<and> source_options cfg' = source_options cfg"
  by (simp add: fun_eq_iff param_ok_def source_options_def findCatalog_def cong: option.case_cong)

lemma validateJobParameters_ok:
  assumes "validateJobParameters cfg job = Inr j" "validIdentifier (job_ID job)" "trim_space (job_Name job) \<noteq> ''''"
    "trim_space (job_Script job) \<noteq> ''''" "labels_ok (job_Labels job)"
    "trim_space (job_Timeout job) \<noteq> '''' \<longrightarrow> (\<exists>t > 0. parse (job_Timeout job) = Some t)"
  shows "job_ok parse cfg j \<and> job_ID j = job_ID job"
proof -
  from assms(1) obtain ps paths where
    loop: "param_loop cfg (job_ID job) 0 [] [] (job_Parameters job) = Inr (ps, paths)" and
    w: "trim_space (job_WorkdirParam job) = '''' \<or> trim_space (job_WorkdirParam job) \<in> set paths" and
    j: "j = job\<lparr>job_Parameters := ps, job_WorkdirParam := trim_space (job_WorkdirParam job)\<rparr>"
    by (auto simp: validateJobParameters_def Let_def split: sum.splits if_splits)
  from param_loop_ok [OF loop] w j assms(2-6) show ?thesis by (auto simp: job_ok_def)
qed

lemma job_loop_ok:
  "job_loop parse cfg i seen js = Inr r \<Longrightarrow> distinct (map job_ID r) \<and> job_ID ` set r \<inter> set seen = {}
     \<and> (\<forall>j \<in> set r. job_ok parse cfg j)"
proof (induction js arbitrary: i seen r)
  case (Cons raw rest)
  let ?i = "trim_space (job_ID raw)"
  let ?j = "raw\<lparr>job_ID := ?i\<rparr>"
  let ?n = "if trim_space (job_Name ?j) = '''' then ?j\<lparr>job_Name := job_ID ?j\<rparr> else ?j"
  from Cons.prems obtain labels j r' where
    v: "validIdentifier ?i" "?i \<notin> set seen" "trim_space (job_Script raw) \<noteq> ''''"
      "trim_space (job_Timeout raw) \<noteq> '''' \<longrightarrow> (\<exists>t > 0. parse (job_Timeout raw) = Some t)" and
    labels: "normalizeLabels (job_Labels raw) = Inr labels" and
    params: "validateJobParameters cfg (?n\<lparr>job_Labels := labels\<rparr>) = Inr j" and
    rest: "job_loop parse cfg (Suc i) (job_ID j # seen) rest = Inr r'" and r: "r = j # r'"
    by (auto simp: Let_def not_le split: if_splits sum.splits option.splits)
  have "?i \<noteq> ''''" using v(1) by (auto simp: validIdentifier_def)
  with validateJobParameters_ok [OF params, of parse] v labels normalizeLabels_ok
  have "job_ok parse cfg j \<and> job_ID j = ?i" by (auto split: if_splits)
  with Cons.IH [OF rest] v(2) show ?case unfolding r by auto
qed simp

definition config_ok :: "(string \<Rightarrow> int option) \<Rightarrow> ControllerConfig \<Rightarrow> bool" where
  "config_ok parse cfg \<longleftrightarrow> 0 \<le> srv_MaxHistory (cfg_Server cfg) \<and> 0 \<le> srv_MaxLogBytes (cfg_Server cfg)
     \<and> catalogs_ok (cfg_Catalogs cfg) \<and> agents_ok (cfg_Agents cfg)
     \<and> distinct (map job_ID (cfg_Jobs cfg)) \<and> (\<forall>j \<in> set (cfg_Jobs cfg). job_ok parse cfg j)"

definition durations_ok :: "(string \<Rightarrow> int option) \<Rightarrow> ControllerServer \<Rightarrow> bool" where
  "durations_ok parse server \<longleftrightarrow>
     \<not> isl (parseDurationField parse ''server.heartbeat_interval'' (srv_HeartbeatInterval server) defaultHeartbeatInterval)
     \<and> \<not> isl (parseDurationField parse ''server.offline_after'' (srv_OfflineAfter server) defaultOfflineAfter)
     \<and> \<not> isl (parseDurationField parse ''server.long_poll_timeout'' (srv_LongPollTimeout server) defaultLongPollTimeout)"

lemma job_ok_cfg: "cfg_Catalogs cfg' = cfg_Catalogs cfg \<Longrightarrow> job_ok parse cfg' = job_ok parse cfg"
  using param_ok_cfg [of cfg' cfg] by (simp add: fun_eq_iff job_ok_def job_names_def)

lemma validate_cases:
  "validateControllerConfig parse cfg = Inr cfg' \<longleftrightarrow>
     0 \<le> srv_MaxHistory (cfg_Server cfg) \<and> 0 \<le> srv_MaxLogBytes (cfg_Server cfg) \<and> durations_ok parse (cfg_Server cfg)
     \<and> (\<exists>cs js as. catalog_loop 0 [] (cfg_Catalogs cfg) = Inr cs
          \<and> job_loop parse (cfg\<lparr>cfg_Catalogs := cs\<rparr>) 0 [] (cfg_Jobs cfg) = Inr js
          \<and> agent_loop 0 [] (cfg_Agents cfg) = Inr as
          \<and> cfg' = cfg\<lparr>cfg_Catalogs := cs, cfg_Jobs := js, cfg_Agents := as\<rparr>)"
  by (auto simp: validateControllerConfig_def durations_ok_def Let_def not_less validateCatalogs_def validateJobs_def
      validateAgentDefinitions_def split: sum.splits if_splits)

text \<open>A configuration that needs normalizing: a catalog of two projects with their paths, and a job whose
  working directory follows the choice.  The sample duration parser knows one word.\<close>

definition sample_parse :: "string \<Rightarrow> int option" where
  "sample_parse s = (if s = ''1h'' then Some 3600000000000 else None)"

definition sample_option :: "string \<Rightarrow> string \<Rightarrow> OptionConfig" where
  "sample_option v path = \<lparr>opt_Value = v, opt_Label = '''', opt_Labels = ['' Linux''], opt_Values = [(''path'', path)]\<rparr>"

definition sample_project :: ParameterConfig where
  "sample_project = \<lparr>par_ID = '' project'', par_Name = '''', par_Description = '''', par_Type = ''Choice'', par_Default = ''web'',
     par_Required = True, par_Options = [], par_Catalog = ''projects'', par_CatalogLabels = [''LINUX'']\<rparr>"

definition sample_document :: ControllerConfig where
  "sample_document = \<lparr>cfg_Role = ''controller'',
     cfg_Server = \<lparr>srv_Address = '''', srv_Addresses = [], srv_StateDir = '''', srv_MaxHistory = 0,
       srv_HeartbeatInterval = '''', srv_OfflineAfter = ''1h'', srv_LongPollTimeout = '''', srv_MaxLogBytes = 0, srv_PublicURL = ''''\<rparr>,
     cfg_Catalogs = [\<lparr>cat_ID = ''projects '', cat_Name = '''', cat_Description = '''',
       cat_Options = [sample_option ''web'' ''apps/web'', sample_option ''api'' ''apps/api'']\<rparr>],
     cfg_Jobs = [\<lparr>job_ID = ''build'', job_Name = '''', job_Description = '''', job_Enabled = None, job_Labels = [''linux'', ''Linux''],
       job_Timeout = ''1h'', job_Script = ''make'', job_WorkdirParam = ''project'', job_Parameters = [sample_project]\<rparr>],
     cfg_Agents = [\<lparr>agd_ID = ''a1'', agd_Name = '''', agd_Description = '''', agd_Labels = [''Linux''], agd_Enabled = None, agd_Paused = False\<rparr>]\<rparr>"

definition sample_normalized :: ControllerConfig where
  "sample_normalized = sum.projr (validateControllerConfig sample_parse sample_document)"

lemma sample_validates: "validateControllerConfig sample_parse sample_document = Inr sample_normalized"
  by code_simp

lemma validated_parts:
  assumes "validateControllerConfig parse cfg = Inr cfg'"
  shows "config_ok parse cfg' \<and> durations_ok parse (cfg_Server cfg')"
proof -
  from assms obtain cs js as where server: "0 \<le> srv_MaxHistory (cfg_Server cfg)" "0 \<le> srv_MaxLogBytes (cfg_Server cfg)"
      "durations_ok parse (cfg_Server cfg)"
    and cs: "catalog_loop 0 [] (cfg_Catalogs cfg) = Inr cs"
    and js: "job_loop parse (cfg\<lparr>cfg_Catalogs := cs\<rparr>) 0 [] (cfg_Jobs cfg) = Inr js"
    and as: "agent_loop 0 [] (cfg_Agents cfg) = Inr as"
    and cfg': "cfg' = cfg\<lparr>cfg_Catalogs := cs, cfg_Jobs := js, cfg_Agents := as\<rparr>"
    unfolding validate_cases by blast
  have "job_ok parse cfg' = job_ok parse (cfg\<lparr>cfg_Catalogs := cs\<rparr>)" by (rule job_ok_cfg) (simp add: cfg')
  with job_loop_ok [OF js] catalog_loop_ok [OF cs] agent_loop_ok [OF as] server
  show ?thesis by (simp add: config_ok_def cfg')
qed

lemmas validated_well_formed = validated_parts [THEN conjunct1]

lemma runtime_exists:
  assumes "durations_ok parse (cfg_Server cfg)"
  shows "\<exists>rt. controllerRuntime parse configPath cfg = Inr rt \<and> 0 < rt_MaxHistory rt \<and> 0 < rt_MaxLogBytes rt"
  using assms
  by (auto simp: controllerRuntime_def Let_def durations_ok_def defaultMaxHistory_def defaultMaxLogBytes_def isl_def
      split: sum.splits)

text \<open>C22. A configuration that passes validation is well formed: identifiers are present, spelled
  safely and unique; labels are lower case, unique and at most 32; every choice has options to choose
  from and a default that is one of them; the environment names of a job's parameters are pairwise
  different and none is reserved; a job's working directory comes from a parameter whose options all
  name a path inside the workspace; and runtime values can be derived from it.\<close>

theorem validated_config_ok:
  assumes "validateControllerConfig parse cfg = Inr cfg'"
  shows "config_ok parse cfg'
    \<and> (\<exists>rt. controllerRuntime parse configPath cfg' = Inr rt \<and> 0 < rt_MaxHistory rt \<and> 0 < rt_MaxLogBytes rt)"
  using validated_parts [OF assms] runtime_exists by blast

theorem validated_config_ok_witness: "config_ok sample_parse sample_normalized"
  using validated_config_ok [OF sample_validates] by blast

section \<open>A validated configuration validates to itself\<close>

lemma label_loop_fixed:
  "distinct r \<Longrightarrow> set r \<inter> set seen = {} \<Longrightarrow> \<forall>l \<in> set r. validIdentifier l \<and> to_lower l = l \<Longrightarrow> label_loop seen r = Inr r"
proof (induction r arbitrary: seen)
  case (Cons l r)
  then have "label_loop (l # seen) r = Inr r" by auto
  moreover have "to_lower (trim_space l) = l" "validIdentifier l" "l \<noteq> ''''"
    using Cons.prems(3) by (auto simp: trim_validIdentifier validIdentifier_def)
  ultimately show ?case using Cons.prems(2) by (simp add: Let_def)
qed simp

lemma normalizeLabels_fixed: "labels_ok r \<Longrightarrow> normalizeLabels r = Inr r"
  by (simp add: labels_ok_def normalizeLabels_def label_loop_fixed)

lemma option_loop_fixed:
  "options_ok r \<Longrightarrow> opt_Value ` set r \<inter> set seen = {} \<Longrightarrow> option_loop owner i seen r = Inr r"
proof (induction r arbitrary: i seen)
  case (Cons o' r)
  from Cons.prems have ok: "options_ok r" "opt_Value ` set r \<inter> set (opt_Value o' # seen) = {}"
    by (auto simp: options_ok_def)
  have o: "trim_space (opt_Value o') = opt_Value o'" "opt_Value o' \<noteq> ''''" "trim_space (opt_Label o') \<noteq> ''''"
    "normalizeLabels (opt_Labels o') = Inr (opt_Labels o')" "check_values owner i (opt_Values o') = None"
    "opt_Value o' \<notin> set seen"
    using Cons.prems by (auto simp: options_ok_def normalizeLabels_fixed check_values_None)
  then show ?case using Cons.IH [OF ok, of "Suc i"] by (simp add: Let_def)
qed simp

lemma catalog_loop_fixed:
  "catalogs_ok r \<Longrightarrow> cat_ID ` set r \<inter> set seen = {} \<Longrightarrow> catalog_loop i seen r = Inr r"
proof (induction r arbitrary: i seen)
  case (Cons c r)
  from Cons.prems have ok: "catalogs_ok r" "cat_ID ` set r \<inter> set (cat_ID c # seen) = {}"
    by (auto simp: catalogs_ok_def)
  have "trim_space (cat_ID c) = cat_ID c" "validIdentifier (cat_ID c)" "trim_space (cat_Name c) \<noteq> ''''"
    "cat_Options c \<noteq> []" "normalizeOptions (cat_Options c) (cat_ID c) = Inr (cat_Options c)" "cat_ID c \<notin> set seen"
    using Cons.prems by (auto simp: catalogs_ok_def trim_validIdentifier normalizeOptions_def option_loop_fixed)
  then show ?case using Cons.IH [OF ok, of "Suc i"] by (simp add: Let_def)
qed simp

lemma agent_loop_fixed:
  "agents_ok r \<Longrightarrow> agd_ID ` set r \<inter> set seen = {} \<Longrightarrow> agent_loop i seen r = Inr r"
proof (induction r arbitrary: i seen)
  case (Cons a r)
  from Cons.prems have ok: "agents_ok r" "agd_ID ` set r \<inter> set (agd_ID a # seen) = {}"
    by (auto simp: agents_ok_def)
  have "trim_space (agd_ID a) = agd_ID a" "validIdentifier (agd_ID a)" "trim_space (agd_Name a) \<noteq> ''''"
    "normalizeLabels (agd_Labels a) = Inr (agd_Labels a)" "agd_ID a \<notin> set seen"
    using Cons.prems by (auto simp: agents_ok_def trim_validIdentifier normalizeLabels_fixed)
  then show ?case using Cons.IH [OF ok, of "Suc i"] by (simp add: Let_def)
qed simp

lemma type_fixed:
  "t \<in> {paramTypeString, paramTypeChoice, paramTypeBoolean} \<Longrightarrow> normalizeParameterType t = Some t"
proof -
  have "normalizeParameterType paramTypeString = Some paramTypeString"
    "normalizeParameterType paramTypeChoice = Some paramTypeChoice"
    "normalizeParameterType paramTypeBoolean = Some paramTypeBoolean"
    by code_simp+
  then show "t \<in> {paramTypeString, paramTypeChoice, paramTypeBoolean} \<Longrightarrow> normalizeParameterType t = Some t" by auto
qed

lemma source_fixed:
  assumes "param_ok cfg p"
  shows "validateParameterSource cfg p owner j = Inr (p, source_options cfg p)"
proof -
  have l: "normalizeLabels (par_CatalogLabels p) = Inr (par_CatalogLabels p)"
    using assms by (simp add: param_ok_def normalizeLabels_fixed)
  have c: "trim_space (par_Catalog p) = par_Catalog p" using assms by (simp add: param_ok_def)
  show ?thesis
  proof (cases "par_Type p = paramTypeChoice \<and> par_Catalog p = ''''")
    case True
    with assms have "option_loop owner 0 [] (par_Options p) = Inr (par_Options p)" "par_Options p \<noteq> []" "par_CatalogLabels p = []"
      by (auto simp: param_ok_def option_loop_fixed)
    with True l c show ?thesis
      by (simp add: validateParameterSource_def Let_def normalizeOptions_def source_options_def)
  next
    case False
    with assms l c show ?thesis
      by (auto simp: validateParameterSource_def Let_def param_ok_def source_options_def split: option.splits)
  qed
qed

lemma collisions_fixed:
  "distinct names \<Longrightarrow> set names \<inter> set owners = {} \<Longrightarrow> \<forall>n \<in> set names. \<not> isReservedEnvName n \<Longrightarrow>
     collisions_add_all names owners = Inr (rev names @ owners)"
  by (induction names arbitrary: owners) (auto simp: collisions_add_def)

lemma param_loop_fixed:
  "distinct (map par_ID r) \<Longrightarrow> par_ID ` set r \<inter> set seen = {} \<Longrightarrow> \<forall>p \<in> set r. param_ok cfg p \<Longrightarrow>
   distinct (job_names cfg r) \<Longrightarrow> set (job_names cfg r) \<inter> set names = {} \<Longrightarrow>
   \<forall>n \<in> set (job_names cfg r). \<not> isReservedEnvName n \<Longrightarrow>
     \<exists>paths. param_loop cfg owner j seen names r = Inr (r, paths)"
proof (induction r arbitrary: j seen names)
  case (Cons p r)
  let ?ns = "paramEnvNames p (source_options cfg p)"
  have names: "job_names cfg (p # r) = ?ns @ job_names cfg r" by (simp add: job_names_def)
  have coll: "collisions_add_all ?ns names = Inr (rev ?ns @ names)"
    using Cons.prems names by (intro collisions_fixed) auto
  have "\<exists>paths. param_loop cfg owner (Suc j) (par_ID p # seen) (rev ?ns @ names) r = Inr (r, paths)"
    using Cons.prems names by (intro Cons.IH) auto
  then obtain paths where rest: "param_loop cfg owner (Suc j) (par_ID p # seen) (rev ?ns @ names) r = Inr (r, paths)" ..
  have ok: "param_ok cfg p" using Cons.prems by simp
  then have p: "validIdentifier (par_ID p)" "trim_space (par_ID p) = par_ID p" "trim_space (par_Name p) \<noteq> ''''"
    "normalizeParameterType (par_Type p) = Some (par_Type p)" "validateParameterDefault p (source_options cfg p) j = None"
    "par_ID p \<notin> set seen"
    using Cons.prems(2) validateParameterDefault_index [of p "source_options cfg p" j]
    unfolding param_ok_def by (auto simp: trim_validIdentifier type_fixed)
  show ?case using p coll rest source_fixed [OF ok, of owner j] by (simp add: Let_def)
qed simp

lemma job_loop_fixed:
  "distinct (map job_ID r) \<Longrightarrow> job_ID ` set r \<inter> set seen = {} \<Longrightarrow> \<forall>j \<in> set r. job_ok parse cfg j \<Longrightarrow>
     job_loop parse cfg i seen r = Inr r"
proof (induction r arbitrary: i seen)
  case (Cons j r)
  have ok: "job_ok parse cfg j" using Cons.prems by simp
  then have "\<exists>paths. param_loop cfg (job_ID j) 0 [] [] (job_Parameters j) = Inr (job_Parameters j, paths)"
    by (intro param_loop_fixed) (simp_all add: job_ok_def)
  then obtain paths where loop: "param_loop cfg (job_ID j) 0 [] [] (job_Parameters j) = Inr (job_Parameters j, paths)" ..
  have paths: "set paths = par_ID ` {p \<in> set (job_Parameters j). optionsCarryPath (source_options cfg p)}"
    using param_loop_ok [OF loop] by blast
  have w: "trim_space (job_WorkdirParam j) = job_WorkdirParam j"
    using ok by (cases "job_WorkdirParam j = ''''") (auto simp: job_ok_def param_ok_def trim_validIdentifier)
  have "validateJobParameters cfg j = Inr j"
  proof -
    have "job_WorkdirParam j = '''' \<or> job_WorkdirParam j \<in> set paths"
      using ok unfolding paths job_ok_def by (metis (mono_tags, lifting) image_eqI mem_Collect_eq)
    then show ?thesis using loop w by (auto simp: validateJobParameters_def Let_def)
  qed
  moreover have "job_loop parse cfg (Suc i) (job_ID j # seen) r = Inr r"
    using Cons.prems by (intro Cons.IH) auto
  moreover have "validIdentifier (job_ID j)" "trim_space (job_ID j) = job_ID j" "trim_space (job_Name j) \<noteq> ''''"
    "trim_space (job_Script j) \<noteq> ''''" "normalizeLabels (job_Labels j) = Inr (job_Labels j)" "job_ID j \<notin> set seen"
    "\<not> (trim_space (job_Timeout j) \<noteq> '''' \<and> (case parse (job_Timeout j) of None \<Rightarrow> True | Some timeout \<Rightarrow> timeout \<le> 0))"
    using ok Cons.prems(2) by (auto simp: job_ok_def trim_validIdentifier normalizeLabels_fixed)
  ultimately show ?case by (simp add: Let_def)
qed simp

lemma validateControllerConfig_fixed:
  assumes "validateControllerConfig parse cfg = Inr cfg'"
  shows "validateControllerConfig parse cfg' = Inr cfg'"
proof -
  from assms obtain cs js as where server: "0 \<le> srv_MaxHistory (cfg_Server cfg)" "0 \<le> srv_MaxLogBytes (cfg_Server cfg)"
      "durations_ok parse (cfg_Server cfg)"
    and cs: "catalog_loop 0 [] (cfg_Catalogs cfg) = Inr cs"
    and js: "job_loop parse (cfg\<lparr>cfg_Catalogs := cs\<rparr>) 0 [] (cfg_Jobs cfg) = Inr js"
    and as: "agent_loop 0 [] (cfg_Agents cfg) = Inr as"
    and cfg': "cfg' = cfg\<lparr>cfg_Catalogs := cs, cfg_Jobs := js, cfg_Agents := as\<rparr>"
    unfolding validate_cases by blast
  have jok: "job_ok parse (cfg'\<lparr>cfg_Catalogs := cs\<rparr>) = job_ok parse (cfg\<lparr>cfg_Catalogs := cs\<rparr>)"
    by (rule job_ok_cfg) simp
  have "catalog_loop 0 [] cs = Inr cs" using catalog_loop_ok [OF cs] by (simp add: catalog_loop_fixed)
  moreover have "agent_loop 0 [] as = Inr as" using agent_loop_ok [OF as] by (simp add: agent_loop_fixed)
  moreover have "job_loop parse (cfg'\<lparr>cfg_Catalogs := cs\<rparr>) 0 [] js = Inr js"
    using job_loop_ok [OF js] jok by (simp add: job_loop_fixed)
  ultimately show ?thesis unfolding validate_cases using server cfg' by simp
qed

text \<open>Validation is idempotent: a validated configuration passes again and comes out unchanged.
  This is what lets the controller re-parse the document it is about to store.\<close>

theorem validate_idempotent:
  assumes "validateControllerConfig parse cfg = Inr cfg'"
  shows "validateControllerConfig parse cfg' = Inr cfg'"
  by (rule validateControllerConfig_fixed [OF assms])

theorem validate_idempotent_witness:
  "validateControllerConfig sample_parse sample_normalized = Inr sample_normalized"
  by (rule validate_idempotent [OF sample_validates])

end
