(* ===== verification/Param_Props.thy ===== *)
theory Param_Props
  imports Validate_Props
begin

text \<open>
  What resolving the parameters of a run promises when the configuration was validated: every value
  is one the parameter allows, its environment variable carries exactly that value, nothing outside
  the job's own variables is set, and re-running a run reproduces its resolution.
\<close>

section \<open>One parameter\<close>

definition value_ok :: "ControllerConfig \<Rightarrow> ParameterConfig \<Rightarrow> string \<Rightarrow> bool" where
  "value_ok cfg p v \<longleftrightarrow> (v = '''' \<longrightarrow> \<not> par_Required p)
     \<and> (par_Type p = paramTypeBoolean \<longrightarrow> v \<in> {'''', ''true'', ''false''})
     \<and> (par_Type p = paramTypeChoice \<longrightarrow> v = '''' \<or> v \<in> opt_Value ` set (parameterOptions cfg p))"

lemma set_value_simps [simp]:
  "map_of (res_Env (set_value i v r)) n = (if n = paramEnvName i then Some v else map_of (res_Env r) n)"
  "map_of (res_Values (set_value i v r)) j = (if j = i then Some v else map_of (res_Values r) j)"
  "res_Paths (set_value i v r) = res_Paths r" "res_WorkdirPath (set_value i v r) = res_WorkdirPath r"
  by (simp_all add: set_value_def set_env_def update_conv)

lemma emit_fields_spec:
  "emit_fields i sel fs r = Inr r' \<Longrightarrow>
     (\<forall>n. n \<notin> paramFieldEnvName i ` fst ` set fs \<longrightarrow> map_of (res_Env r') n = map_of (res_Env r) n)
     \<and> res_Values r' = res_Values r
     \<and> (\<forall>j. j \<noteq> i \<longrightarrow> map_of (res_Paths r') j = map_of (res_Paths r) j)
     \<and> (\<forall>path. map_of (res_Paths r') i = Some path \<longrightarrow>
          validateRelativeWorkspacePath path = None \<or> map_of (res_Paths r) i = Some path)"
proof (induction fs arbitrary: r)
  case (Cons f fs)
  obtain field v where f: "f = (field, v)" by fastforce
  let ?r = "set_env (paramFieldEnvName i field) v
     (if field = optionPathField then r\<lparr>res_Paths := AList.update i v (res_Paths r)\<rparr> else r)"
  from Cons.prems f have ok: "field = optionPathField \<Longrightarrow> validateRelativeWorkspacePath v = None"
    and rest: "emit_fields i sel fs ?r = Inr r'"
    by (auto simp: Let_def split: if_splits)
  from Cons.IH [OF rest] ok f show ?case by (auto simp: set_env_def update_conv split: if_splits)
qed simp

lemma option_in_source:
  assumes "findOption (parameterOptions cfg p) v = Some sel"
  shows "sel \<in> set (source_options cfg p) \<and> opt_Value sel = v \<and> sel \<in> set (parameterOptions cfg p)"
proof -
  have "sel \<in> set (parameterOptions cfg p)" "opt_Value sel = v"
    using find_Some_mem [OF assms [unfolded findOption_def]] by auto
  moreover have "set (parameterOptions cfg p) \<subseteq> set (source_options cfg p)"
    by (auto simp: parameterOptions_def source_options_def filterCatalogOptions_def split: option.splits if_splits)
  ultimately show ?thesis by blast
qed

lemma set_option_fields:
  "set (option_fields os) = insert optionLabelField (\<Union>o' \<in> set os. fst ` set (opt_Values o'))"
  by (auto simp: option_fields_def)

lemma field_names:
  assumes "sel \<in> set os" "n \<in> paramFieldEnvName (par_ID p) ` fst ` set (opt_Values sel)
     \<or> n = paramFieldEnvName (par_ID p) optionLabelField"
  shows "n \<in> set (paramEnvNames p os)"
proof -
  from assms(1) have os: "os \<noteq> []" by auto
  have "n \<in> paramFieldEnvName (par_ID p) ` set (option_fields os)"
    using assms unfolding set_option_fields by blast
  with os show ?thesis by (simp add: paramEnvNames_def)
qed

lemma boolean_values: "normalizeBooleanValue v = Some b \<Longrightarrow> b \<in> {''true'', ''false''}"
  by (auto simp: normalizeBooleanValue_def Let_def split: if_splits)

lemma resolve_parameter_spec:
  assumes "resolve_parameter cfg values p r = Inr r'"
  shows "(\<forall>n. n \<notin> set (paramEnvNames p (source_options cfg p)) \<longrightarrow> map_of (res_Env r') n = map_of (res_Env r) n)
    \<and> (\<forall>j. j \<noteq> par_ID p \<longrightarrow> map_of (res_Values r') j = map_of (res_Values r) j
                          \<and> map_of (res_Paths r') j = map_of (res_Paths r) j)
    \<and> (\<exists>v. map_of (res_Values r') (par_ID p) = Some v \<and> map_of (res_Env r') (paramEnvName (par_ID p)) = Some v
          \<and> value_ok cfg p v)
    \<and> (\<forall>path. map_of (res_Paths r') (par_ID p) = Some path \<longrightarrow>
          validateRelativeWorkspacePath path = None \<or> map_of (res_Paths r) (par_ID p) = Some path)"
proof -
  let ?i = "par_ID p" and ?v = "default_value (values_Get values (par_ID p)) p"
  have own: "paramEnvName ?i \<in> set (paramEnvNames p (source_options cfg p))" by (simp add: paramEnvNames_def)
  consider (empty) "?v = ''''" "\<not> par_Required p" "r' = set_value ?i '''' r"
    | (bool) b where "?v \<noteq> ''''" "par_Type p = paramTypeBoolean" "normalizeBooleanValue ?v = Some b" "r' = set_value ?i b r"
    | (choice) sel r1 where "?v \<noteq> ''''" "par_Type p = paramTypeChoice" "findOption (parameterOptions cfg p) ?v = Some sel"
        "emit_fields ?i sel (opt_Values sel) (select_option ?i sel r) = Inr r1" "r' = set_value ?i ?v r1"
    | (plain) "?v \<noteq> ''''" "par_Type p \<noteq> paramTypeBoolean" "par_Type p \<noteq> paramTypeChoice" "r' = set_value ?i ?v r"
    using assms by (auto simp: resolve_parameter_def Let_def split: if_splits option.splits sum.splits)
  then show ?thesis
  proof cases
    case empty
    with own show ?thesis by (auto simp: value_ok_def)
  next
    case bool
    with own boolean_values [OF bool(3)] show ?thesis by (auto simp: value_ok_def param_consts)
  next
    case choice
    note e = emit_fields_spec [OF choice(4)] and o = option_in_source [OF choice(3)]
    have "map_of (res_Env r') n = map_of (res_Env r) n" if n: "n \<notin> set (paramEnvNames p (source_options cfg p))" for n
    proof -
      have "n \<notin> paramFieldEnvName ?i ` fst ` set (opt_Values sel)" "n \<noteq> paramFieldEnvName ?i optionLabelField"
        "n \<noteq> paramEnvName ?i"
        using field_names [of sel "source_options cfg p" n p] o n own by blast+
      with e choice(5) show ?thesis by (auto simp: select_option_def set_env_def update_conv)
    qed
    moreover have "value_ok cfg p ?v"
      using choice(1,2) o by (auto simp: value_ok_def param_consts intro: rev_image_eqI)
    ultimately show ?thesis using e choice(5) by (auto simp: select_option_def set_env_def)
  next
    case plain
    with own show ?thesis by (auto simp: value_ok_def)
  qed
qed

section \<open>All parameters\<close>

lemma resolve_loop_spec:
  "resolve_loop cfg values ps r = Inr r' \<Longrightarrow> distinct (map par_ID ps) \<Longrightarrow> distinct (job_names cfg ps) \<Longrightarrow>
     (\<forall>n. n \<notin> set (job_names cfg ps) \<longrightarrow> map_of (res_Env r') n = map_of (res_Env r) n)
     \<and> (\<forall>j. j \<notin> par_ID ` set ps \<longrightarrow> map_of (res_Values r') j = map_of (res_Values r) j
                                \<and> map_of (res_Paths r') j = map_of (res_Paths r) j)
     \<and> (\<forall>p \<in> set ps. \<exists>v. map_of (res_Values r') (par_ID p) = Some v
          \<and> map_of (res_Env r') (paramEnvName (par_ID p)) = Some v \<and> value_ok cfg p v)
     \<and> ((\<forall>j path. map_of (res_Paths r) j = Some path \<longrightarrow> validateRelativeWorkspacePath path = None) \<longrightarrow>
        (\<forall>j path. map_of (res_Paths r') j = Some path \<longrightarrow> validateRelativeWorkspacePath path = None))"
proof (induction ps arbitrary: r)
  case (Cons p ps)
  let ?ns = "paramEnvNames p (source_options cfg p)"
  have names: "job_names cfg (p # ps) = ?ns @ job_names cfg ps" by (simp add: job_names_def)
  from Cons.prems(1) obtain r1 where r1: "resolve_parameter cfg values p r = Inr r1"
    and rest: "resolve_loop cfg values ps r1 = Inr r'" by (auto split: sum.splits)
  note one = resolve_parameter_spec [OF r1]
  have d: "distinct (map par_ID ps)" "distinct (job_names cfg ps)" "par_ID p \<notin> par_ID ` set ps"
    "set ?ns \<inter> set (job_names cfg ps) = {}"
    using Cons.prems(2,3) names by auto
  note ih = Cons.IH [OF rest d(1,2)]
  have own: "paramEnvName (par_ID p) \<notin> set (job_names cfg ps)" using d(4) by (auto simp: paramEnvNames_def)
  have env: "\<forall>n. n \<notin> set (job_names cfg (p # ps)) \<longrightarrow> map_of (res_Env r') n = map_of (res_Env r) n"
    using one ih names by auto
  have vals: "\<forall>j. j \<notin> par_ID ` set (p # ps) \<longrightarrow> map_of (res_Values r') j = map_of (res_Values r) j
                                \<and> map_of (res_Paths r') j = map_of (res_Paths r) j"
    using one ih by auto
  from one obtain v where v: "map_of (res_Values r1) (par_ID p) = Some v"
    "map_of (res_Env r1) (paramEnvName (par_ID p)) = Some v" "value_ok cfg p v" by blast
  have "map_of (res_Values r') (par_ID p) = Some v" "map_of (res_Env r') (paramEnvName (par_ID p)) = Some v"
    using ih d(3) own v(1,2) by simp_all
  with v(3) ih have all: "\<forall>q \<in> set (p # ps). \<exists>v. map_of (res_Values r') (par_ID q) = Some v
      \<and> map_of (res_Env r') (paramEnvName (par_ID q)) = Some v \<and> value_ok cfg q v" by simp
  have paths: "\<forall>j path. map_of (res_Paths r1) j = Some path \<longrightarrow> validateRelativeWorkspacePath path = None"
    if old: "\<forall>j path. map_of (res_Paths r) j = Some path \<longrightarrow> validateRelativeWorkspacePath path = None"
  proof (intro allI impI)
    fix j path assume j: "map_of (res_Paths r1) j = Some path"
    show "validateRelativeWorkspacePath path = None"
    proof (cases "j = par_ID p")
      case True
      with one j old show ?thesis by blast
    next
      case False
      with one j have "map_of (res_Paths r) j = Some path" by simp
      with old show ?thesis by blast
    qed
  qed
  from ih paths have paths': "(\<forall>j path. map_of (res_Paths r) j = Some path \<longrightarrow> validateRelativeWorkspacePath path = None) \<longrightarrow>
        (\<forall>j path. map_of (res_Paths r') j = Some path \<longrightarrow> validateRelativeWorkspacePath path = None)" by blast
  show ?case by (intro conjI env vals all paths')
qed (simp add: job_names_def)

lemma emit_fields_workdir: "emit_fields i sel fs r = Inr r' \<Longrightarrow> res_WorkdirPath r' = res_WorkdirPath r"
proof (induction fs arbitrary: r)
  case (Cons f fs)
  then show ?case by (cases f) (fastforce simp: Let_def set_env_def split: if_splits)
qed simp

lemma resolve_parameter_workdir: "resolve_parameter cfg values p r = Inr r' \<Longrightarrow> res_WorkdirPath r' = res_WorkdirPath r"
  by (auto simp: resolve_parameter_def Let_def select_option_def set_env_def dest!: emit_fields_workdir
      split: if_splits option.splits sum.splits)

lemma resolve_loop_workdir: "resolve_loop cfg values ps r = Inr r' \<Longrightarrow> res_WorkdirPath r' = res_WorkdirPath r"
  by (induction ps arbitrary: r) (auto dest!: resolve_parameter_workdir split: sum.splits)

lemma prefix_of_name: "n \<in> set (paramEnvNames p os) \<Longrightarrow> has_prefix n paramEnvPrefix"
  by (auto simp: paramEnvNames_def paramEnvName_def paramFieldEnvName_def has_prefix_def split: if_splits)

text \<open>C23. Resolving a run's parameters against a validated job: every parameter gets a value it allows
  (a required one is not empty, a boolean is \<^verbatim>\<open>true\<close> or \<^verbatim>\<open>false\<close>, a choice is one of its options), its
  environment variable carries exactly that value, every variable that is set has the parameter prefix
  and is none of Builda's own, and the working directory is a path inside the workspace.\<close>

theorem resolve_sound:
  assumes "config_ok parse cfg" "job \<in> set (cfg_Jobs cfg)" "resolveParameters cfg job values = Inr r"
  shows "(\<forall>p \<in> set (job_Parameters job). \<exists>v. map_of (res_Values r) (par_ID p) = Some v
          \<and> map_of (res_Env r) (paramEnvName (par_ID p)) = Some v \<and> value_ok cfg p v)
    \<and> (\<forall>n v. map_of (res_Env r) n = Some v \<longrightarrow> has_prefix n paramEnvPrefix \<and> \<not> isReservedEnvName n)
    \<and> (if job_WorkdirParam job = '''' then res_WorkdirPath r = ''''
       else validateRelativeWorkspacePath (res_WorkdirPath r) = None)"
proof -
  have ok: "job_ok parse cfg job" using assms(1,2) by (simp add: config_ok_def)
  from assms(3) obtain r0 where loop: "resolve_loop cfg values (job_Parameters job) no_parameters = Inr r0"
    and r: "r = r0\<lparr>res_WorkdirPath := res_WorkdirPath r\<rparr>"
    and w: "if job_WorkdirParam job = '''' then r = r0
            else map_of (res_Paths r0) (job_WorkdirParam job) = Some (res_WorkdirPath r)"
    by (auto simp: resolveParameters_def split: option.splits sum.splits if_splits)
  have d: "distinct (map par_ID (job_Parameters job))" "distinct (job_names cfg (job_Parameters job))"
    "\<forall>n \<in> set (job_names cfg (job_Parameters job)). \<not> isReservedEnvName n"
    using ok by (simp_all add: job_ok_def)
  note s = resolve_loop_spec [OF loop d(1,2)]
  have eqs: "res_Env r = res_Env r0" "res_Values r = res_Values r0" by (subst r, simp)+
  have names: "n \<in> set (job_names cfg (job_Parameters job))" if "map_of (res_Env r) n = Some v" for n v
    using s that eqs by (fastforce simp: no_parameters_def)
  have "has_prefix n paramEnvPrefix \<and> \<not> isReservedEnvName n" if "map_of (res_Env r) n = Some v" for n v
    using names [OF that] d(3) prefix_of_name by (auto simp: job_names_def)
  moreover have "\<forall>j path. map_of (res_Paths r0) j = Some path \<longrightarrow> validateRelativeWorkspacePath path = None"
    using s by (simp add: no_parameters_def)
  moreover have "res_WorkdirPath r0 = ''''" using loop resolve_loop_workdir by (fastforce simp: no_parameters_def)
  ultimately show ?thesis using s eqs w by (auto split: if_splits)
qed

definition sample_build :: JobConfig where
  "sample_build = hd (cfg_Jobs sample_normalized)"

definition sample_values :: url_values where
  "sample_values = [(''project'', ['' api ''])]"

definition sample_resolved :: ResolvedParameters where
  "sample_resolved = sum.projr (resolveParameters sample_normalized sample_build sample_values)"

lemma sample_build_in: "sample_build \<in> set (cfg_Jobs sample_normalized)"
  by code_simp

lemma sample_config_ok: "config_ok sample_parse sample_normalized"
  by (rule validated_well_formed [OF sample_validates])

lemma sample_resolves: "resolveParameters sample_normalized sample_build sample_values = Inr sample_resolved"
  by code_simp

theorem resolve_sound_witness: "validateRelativeWorkspacePath (res_WorkdirPath sample_resolved) = None"
proof -
  have "job_WorkdirParam sample_build \<noteq> ''''" by code_simp
  with resolve_sound [OF sample_config_ok sample_build_in sample_resolves] show ?thesis by simp
qed

section \<open>Running again\<close>

lemma boolean_fixed: "b \<in> {''true'', ''false''} \<Longrightarrow> normalizeBooleanValue b = Some b \<and> trim_space b = b \<and> b \<noteq> ''''"
proof -
  have "normalizeBooleanValue ''true'' = Some ''true''" "normalizeBooleanValue ''false'' = Some ''false''"
    "trim_space ''true'' = ''true''" "trim_space ''false'' = ''false''" by code_simp+
  then show "b \<in> {''true'', ''false''} \<Longrightarrow> normalizeBooleanValue b = Some b \<and> trim_space b = b \<and> b \<noteq> ''''" by auto
qed

lemma default_value_trimmed: "trim_space (default_value s p) = default_value s p"
  by (simp add: default_value_def Let_def)

lemma default_value_again:
  "default_value (default_value s p) p = default_value s p"
  by (simp add: default_value_def Let_def)

text \<open>Resolving a parameter again from its resolved value gives the same result.\<close>

lemma resolve_parameter_again:
  assumes "resolve_parameter cfg values p r = Inr r'" "map_of (res_Values r') (par_ID p) = Some v"
    "values_Get values' (par_ID p) = v"
  shows "resolve_parameter cfg values' p r = Inr r'"
proof -
  let ?i = "par_ID p" and ?v = "default_value (values_Get values (par_ID p)) p"
  consider (empty) "?v = ''''" "v = ''''"
    | (bool) b where "?v \<noteq> ''''" "par_Type p = paramTypeBoolean" "normalizeBooleanValue ?v = Some b" "v = b" "r' = set_value ?i b r"
    | (other) "?v \<noteq> ''''" "par_Type p \<noteq> paramTypeBoolean" "v = ?v"
    using assms(1,2) by (auto simp: resolve_parameter_def Let_def split: if_splits option.splits sum.splits)
  then show ?thesis
  proof cases
    case empty
    then have "trim_space (par_Default p) = ''''" by (simp add: default_value_def Let_def split: if_splits)
    with empty assms(1,3) show ?thesis by (simp add: resolve_parameter_def Let_def default_value_def)
  next
    case bool
    note b = boolean_fixed [OF boolean_values [OF bool(3)]]
    then have "default_value b p = b" by (simp add: default_value_def Let_def)
    with bool b assms(3) show ?thesis by (simp add: resolve_parameter_def Let_def)
  next
    case other
    then have eq: "default_value (values_Get values' ?i) p = ?v" using assms(3) default_value_again by simp
    have "resolve_parameter cfg values' p r = resolve_parameter cfg values p r"
      unfolding resolve_parameter_def Let_def eq ..
    with assms(1) show ?thesis by simp
  qed
qed

lemma resolve_loop_again:
  assumes "resolve_loop cfg values ps r = Inr r'" "distinct (map par_ID ps)" "distinct (job_names cfg ps)"
    "\<forall>p \<in> set ps. \<forall>v. map_of (res_Values r') (par_ID p) = Some v \<longrightarrow> values_Get values' (par_ID p) = v"
  shows "resolve_loop cfg values' ps r = Inr r'"
  using assms
proof (induction ps arbitrary: r)
  case (Cons p ps)
  from Cons.prems(1) obtain r1 where r1: "resolve_parameter cfg values p r = Inr r1"
    and rest: "resolve_loop cfg values ps r1 = Inr r'" by (auto split: sum.splits)
  have d: "distinct (map par_ID ps)" "distinct (job_names cfg ps)" "par_ID p \<notin> par_ID ` set ps"
    using Cons.prems(2,3) by (auto simp: job_names_def)
  obtain v where v: "map_of (res_Values r1) (par_ID p) = Some v" using resolve_parameter_spec [OF r1] by blast
  then have "map_of (res_Values r') (par_ID p) = Some v" using resolve_loop_spec [OF rest d(1,2)] d(3) by simp
  with Cons.prems(4) have "values_Get values' (par_ID p) = v" by simp
  from resolve_parameter_again [OF r1 v this] Cons.IH [OF rest d(1,2)] Cons.prems(4) show ?case by simp
qed simp

lemma query_get:
  assumes "distinct (map fst m)" "map_of m i = Some v"
  shows "values_Get (parameterValuesToQuery m) i = v"
proof -
  let ?names = "filter (\<lambda>name. map_of m name \<noteq> Some '''') (sort (map fst m))"
  have get: "map_of (map (\<lambda>n. (n, [g n])) ns) i = (if i \<in> set ns then Some [g i] else None)" for g :: "string \<Rightarrow> string" and ns
    by (induction ns) auto
  have "i \<in> fst ` set m" using assms(2) by (metis domI dom_map_of_conv_image_fst)
  then have "i \<in> set ?names \<longleftrightarrow> v \<noteq> ''''" using assms(2) by auto
  then show ?thesis using assms(2) unfolding parameterValuesToQuery_def values_Get_def get by simp
qed

lemma check_names_query:
  assumes "set ns \<subseteq> set (map par_ID (job_Parameters job))"
  shows "check_names job (map (\<lambda>n. (n, [g n])) ns) = None"
  using assms by (induction ns) auto

lemma query_names:
  assumes "fst ` set m \<subseteq> set (map par_ID (job_Parameters job))"
  shows "check_names job (parameterValuesToQuery m) = None"
  unfolding parameterValuesToQuery_def
  by (rule check_names_query) (use assms in auto)

lemma set_value_keys [simp]: "fst ` set (res_Values (set_value i v r)) = insert i (fst ` set (res_Values r))"
  "distinct (map fst (res_Values r)) \<Longrightarrow> distinct (map fst (res_Values (set_value i v r)))"
  by (simp_all add: set_value_def set_env_def dom_update distinct_update)

lemma resolve_parameter_keys:
  assumes "resolve_parameter cfg values p r = Inr r'" "distinct (map fst (res_Values r))"
  shows "fst ` set (res_Values r') = insert (par_ID p) (fst ` set (res_Values r)) \<and> distinct (map fst (res_Values r'))"
proof -
  have sel: "res_Values (select_option i sel r) = res_Values r" for i sel by (simp add: select_option_def set_env_def)
  obtain v r1 where "r' = set_value (par_ID p) v r1" "res_Values r1 = res_Values r"
    using assms(1) emit_fields_spec sel
    by (auto simp: resolve_parameter_def Let_def split: if_splits option.splits sum.splits)
  with assms(2) show ?thesis by simp
qed

lemma resolve_loop_keys:
  "resolve_loop cfg values ps r = Inr r' \<Longrightarrow> distinct (map fst (res_Values r)) \<Longrightarrow>
     fst ` set (res_Values r') = par_ID ` set ps \<union> fst ` set (res_Values r) \<and> distinct (map fst (res_Values r'))"
proof (induction ps arbitrary: r)
  case (Cons p ps)
  from Cons.prems(1) obtain r1 where r1: "resolve_parameter cfg values p r = Inr r1"
    and rest: "resolve_loop cfg values ps r1 = Inr r'" by (auto split: sum.splits)
  note k = resolve_parameter_keys [OF r1 Cons.prems(2)]
  from Cons.IH [OF rest] k show ?case by auto
qed simp

text \<open>Running a run again reproduces it: feeding the resolved values of a run back as a request,
  as \<^verbatim>\<open>Rerun\<close> does, resolves to exactly the same values, environment, options and working directory
  while the configuration is the same.\<close>

theorem resolve_rerun:
  assumes "config_ok parse cfg" "job \<in> set (cfg_Jobs cfg)" "resolveParameters cfg job values = Inr r"
  shows "resolveParameters cfg job (parameterValuesToQuery (res_Values r)) = Inr r"
proof -
  have ok: "job_ok parse cfg job" using assms(1,2) by (simp add: config_ok_def)
  from assms(3) obtain r0 where loop: "resolve_loop cfg values (job_Parameters job) no_parameters = Inr r0"
    and r: "res_Values r = res_Values r0"
    and w: "(if job_WorkdirParam job \<noteq> '''' then
               (case map_of (res_Paths r0) (job_WorkdirParam job) of
                  None \<Rightarrow> Inl (ErrWorkdirParameter (job_ID job) (job_WorkdirParam job))
                | Some path \<Rightarrow> Inr (r0\<lparr>res_WorkdirPath := path\<rparr>))
             else Inr r0) = Inr r"
    by (auto simp: resolveParameters_def split: option.splits sum.splits if_splits)
  have d: "distinct (map par_ID (job_Parameters job))" "distinct (job_names cfg (job_Parameters job))"
    using ok by (simp_all add: job_ok_def)
  have keys: "fst ` set (res_Values r0) = par_ID ` set (job_Parameters job)" "distinct (map fst (res_Values r0))"
    using resolve_loop_keys [OF loop] by (simp_all add: no_parameters_def)
  have "resolve_loop cfg (parameterValuesToQuery (res_Values r0)) (job_Parameters job) no_parameters = Inr r0"
    by (rule resolve_loop_again [OF loop d]) (simp add: query_get [OF keys(2)])
  moreover have "check_names job (parameterValuesToQuery (res_Values r0)) = None"
    by (rule query_names) (simp add: keys(1))
  ultimately show ?thesis using w by (simp add: resolveParameters_def r)
qed

theorem resolve_rerun_witness:
  "resolveParameters sample_normalized sample_build (parameterValuesToQuery (res_Values sample_resolved)) = Inr sample_resolved"
  by (rule resolve_rerun [OF sample_config_ok sample_build_in sample_resolves])

end
