(* ===== verification/Agent_Journal.thy ===== *)
theory Agent_Journal
  imports Ctrl_AgentOps
begin

text \<open>
  The agent's durable journal, \<^verbatim>\<open>agentjournal.go\<close>: one directory per execution with the journal
  entry and the local log.  The directories are kept by name; an entry is represented by the value
  its file encodes.  Which system call fails is an argument, also which entries cannot be read.
\<close>

section \<open>Entries\<close>

definition journalAccepted :: string where "journalAccepted = ''accepted''"
definition journalPermitted :: string where "journalPermitted = ''permitted''"
definition journalStarted :: string where "journalStarted = ''started''"
definition journalFinished :: string where "journalFinished = ''finished''"
definition journalReported :: string where "journalReported = ''reported''"
definition journalBlocked :: string where "journalBlocked = ''blocked''"

lemmas phase_defs = journalAccepted_def journalPermitted_def journalStarted_def journalFinished_def
  journalReported_def journalBlocked_def

lemma phase_distinct [simp]:
  "journalAccepted \<noteq> journalPermitted" "journalAccepted \<noteq> journalStarted" "journalAccepted \<noteq> journalFinished"
  "journalAccepted \<noteq> journalReported" "journalAccepted \<noteq> journalBlocked" "journalPermitted \<noteq> journalStarted"
  "journalPermitted \<noteq> journalFinished" "journalPermitted \<noteq> journalReported" "journalPermitted \<noteq> journalBlocked"
  "journalStarted \<noteq> journalFinished" "journalStarted \<noteq> journalReported" "journalStarted \<noteq> journalBlocked"
  "journalFinished \<noteq> journalReported" "journalFinished \<noteq> journalBlocked" "journalReported \<noteq> journalBlocked"
  by (simp_all add: phase_defs)

lemmas phase_distinct_sym [simp] = phase_distinct [symmetric]

record journalEntry =
  je_ExecutionID :: string
  je_Phase :: string
  je_Assignment :: AgentAssignment
  je_AcceptedAt :: time
  je_PermittedAt :: time
  je_StartedAt :: time
  je_FinishedAt :: time
  je_PID :: int
  je_PGID :: int
  je_ProcessToken :: string
  je_ProcessTokenError :: string
  je_Status :: string
  je_ExitCode :: int
  je_Error :: string
  je_FailureReason :: string
  je_LogLength :: int
  je_ResultAcked :: bool
  je_Attention :: string

section \<open>The journal\<close>

record agentJournal =
  jr_dir :: string
  jr_entries :: "journalEntry gomap"
  jr_logs :: "string gomap"

text \<open>What goes wrong: creating the directory or replacing the file when saving; removing the entry
  or the log.\<close>

record journal_io =
  ji_mkdir :: bool
  ji_io :: io_env

record remove_io =
  ri_entry :: bool
  ri_log :: bool

datatype journal_error = JournalNoExecutionID | JournalIO

definition entryDir :: "agentJournal \<Rightarrow> string \<Rightarrow> string" where
  "entryDir j i = path_join (jr_dir j) (path_base i)"

definition entryPath :: "agentJournal \<Rightarrow> string \<Rightarrow> string" where
  "entryPath j i = path_join (entryDir j i) ''journal.json''"

definition LogPath :: "agentJournal \<Rightarrow> string \<Rightarrow> string" where
  "LogPath j i = path_join (entryDir j i) ''run.log''"

definition Save :: "journal_io \<Rightarrow> journalEntry \<Rightarrow> agentJournal \<Rightarrow> journal_error option \<times> agentJournal" where
  "Save jio entry j =
     (if je_ExecutionID entry = '''' then (Some JournalNoExecutionID, j)
      else if ji_mkdir jio then (Some JournalIO, j)
      else
        let name = path_base (je_ExecutionID entry)
        in case writeFileAtomicSync (ji_io jio) entry (map_of (jr_entries j) name) of
             (ok, content) \<Rightarrow>
               (if ok then None else Some JournalIO,
                case content of
                  None \<Rightarrow> j
                | Some e \<Rightarrow> j\<lparr>jr_entries := AList.update name e (jr_entries j)\<rparr>))"

definition Load :: "(string \<Rightarrow> bool) \<Rightarrow> agentJournal \<Rightarrow> string \<Rightarrow> journalEntry option" where
  "Load unreadable j i =
     (let name = path_base i in if unreadable name then None else map_of (jr_entries j) name)"

text \<open>The directory names come sorted from \<^verbatim>\<open>os.ReadDir\<close>, entries that cannot be read are skipped,
  and the rest is sorted by acceptance.\<close>

definition List :: "bool \<Rightarrow> (string \<Rightarrow> bool) \<Rightarrow> agentJournal \<Rightarrow> journalEntry list option" where
  "List dir_fails unreadable j =
     (if dir_fails then None
      else Some (sort_key je_AcceptedAt
             (List.map_filter (\<lambda>name. if unreadable name then None else map_of (jr_entries j) name)
                (sort (remdups (map fst (jr_entries j)))))))"

definition Remove :: "remove_io \<Rightarrow> string \<Rightarrow> agentJournal \<Rightarrow> bool \<times> agentJournal" where
  "Remove rio i j =
     (let name = path_base i
      in (\<not> ri_entry rio \<and> \<not> ri_log rio,
          j\<lparr>jr_entries := if ri_entry rio then jr_entries j else AList.delete name (jr_entries j),
            jr_logs := if ri_log rio then jr_logs j else AList.delete name (jr_logs j)\<rparr>))"

definition IDs :: "bool \<Rightarrow> (string \<Rightarrow> bool) \<Rightarrow> agentJournal \<Rightarrow> string list" where
  "IDs dir_fails unreadable j =
     (case List dir_fails unreadable j of None \<Rightarrow> [] | Some entries \<Rightarrow> map je_ExecutionID entries)"

text \<open>The local log of an execution.\<close>

definition local_log :: "agentJournal \<Rightarrow> string \<Rightarrow> string option" where
  "local_log j i = map_of (jr_logs j) (path_base i)"

section \<open>Lemmas\<close>

lemma Save_ok:
  assumes "Save jio entry j = (None, j')"
  shows "j' = j\<lparr>jr_entries := AList.update (path_base (je_ExecutionID entry)) entry (jr_entries j)\<rparr>"
    "je_ExecutionID entry \<noteq> ''''"
  using assms by (auto simp: Save_def writeFileAtomicSync_def Let_def split: if_splits)

lemma Save_entries:
  assumes "Save jio entry j = (err, j')"
  shows "map_of (jr_entries j') = map_of (jr_entries j)
    \<or> map_of (jr_entries j') = (map_of (jr_entries j))(path_base (je_ExecutionID entry) \<mapsto> entry)"
proof (cases "je_ExecutionID entry = '''' \<or> ji_mkdir jio")
  case True
  with assms show ?thesis by (auto simp: Save_def split: if_splits)
next
  case False
  obtain ok content where w: "writeFileAtomicSync (ji_io jio) entry
      (map_of (jr_entries j) (path_base (je_ExecutionID entry))) = (ok, content)" by fastforce
  with False assms have j': "j' = (case content of None \<Rightarrow> j
      | Some e \<Rightarrow> j\<lparr>jr_entries := AList.update (path_base (je_ExecutionID entry)) e (jr_entries j)\<rparr>)"
    by (auto simp: Save_def Let_def)
  from w have "content = Some entry \<or> content = map_of (jr_entries j) (path_base (je_ExecutionID entry))"
    by (auto simp: writeFileAtomicSync_def split: if_splits)
  with j' show ?thesis by (auto simp: update_conv' fun_upd_idem split: option.splits)
qed

lemma Save_logs [simp]: "jr_logs (snd (Save jio entry j)) = jr_logs j" "jr_dir (snd (Save jio entry j)) = jr_dir j"
  by (auto simp: Save_def Let_def split: prod.splits option.splits)

lemma Load_Some: "Load u j i = Some e \<Longrightarrow> map_of (jr_entries j) (path_base i) = Some e"
  by (simp add: Load_def Let_def split: if_splits)

lemma Remove_entries:
  "map_of (jr_entries (snd (Remove rio i j))) name = None
   \<or> map_of (jr_entries (snd (Remove rio i j))) name = map_of (jr_entries j) name"
  by (simp add: Remove_def Let_def delete_conv')

lemma List_mem:
  assumes "List b u j = Some es" "e \<in> set es"
  shows "\<exists>name. map_of (jr_entries j) name = Some e"
proof -
  have "e \<in> set (List.map_filter (\<lambda>name. if u name then None else map_of (jr_entries j) name)
      (sort (remdups (map fst (jr_entries j)))))" using assms by (auto simp: List_def split: if_splits)
  then show ?thesis by (force simp: map_filter_def split: if_splits)
qed

text \<open>An entry that was saved can be read back, and is listed.\<close>

lemma Save_Load:
  assumes "Save jio entry j = (None, j')" "\<not> u (path_base (je_ExecutionID entry))"
  shows "Load u j' (je_ExecutionID entry) = Some entry"
  using Save_ok [OF assms(1)] assms(2) by (simp add: Load_def Let_def update_conv')

lemma Load_listed:
  assumes "Load u j i = Some e" "List False u j = Some es"
  shows "e \<in> set es"
proof -
  have "path_base i \<in> set (map fst (jr_entries j))"
    using Load_Some [OF assms(1)] by (metis domI dom_map_of_conv_image_fst set_map)
  with assms show ?thesis by (force simp: List_def map_filter_def Load_def Let_def split: if_splits)
qed

end
