(* ===== verification/Agent_Exec.thy ===== *)
theory Agent_Exec
  imports Agent_Journal
begin

text \<open>
  Running one script on the agent: the environment and the script text it gets
  (\<^verbatim>\<open>agentexec.go\<close>), the result it yields, and how the agent decides after a restart what became of a
  process it started (\<^verbatim>\<open>agentproc.go\<close>).  What the operating system answers is an argument.
\<close>

section \<open>The agent's runtime values\<close>

record AgentRuntime =
  art_ConfigPath :: string
  art_ID :: string
  art_ControllerURL :: string
  art_SpoolDir :: string
  art_ExecDir :: string
  art_CredentialsPath :: string
  art_WorkspaceRoot :: string
  art_ScriptHeader :: string
  art_HeartbeatInterval :: int
  art_PollTimeout :: int
  art_RequestTimeout :: int

section \<open>Environment, working directory and script\<close>

definition identity_env :: "AgentRuntime \<Rightarrow> AgentAssignment \<Rightarrow> string gomap" where
  "identity_env runtime assignment =
     [(''BUILDA_AGENT_ID'', art_ID runtime), (''BUILDA_CONTROLLER_URL'', art_ControllerURL runtime),
      (''BUILDA_EXECUTION_ID'', asg_ExecutionID assignment), (''BUILDA_JOB_ID'', asg_JobID assignment),
      (''BUILDA_JOB_NAME'', asg_JobName assignment), (''BUILDA_WORKSPACE'', art_WorkspaceRoot runtime)]"

definition execution_values :: "AgentRuntime \<Rightarrow> AgentAssignment \<Rightarrow> string gomap" where
  "execution_values runtime assignment =
     fold (\<lambda>(name, value) values. if isReservedEnvName name then values else AList.update name value values)
       (asg_Env assignment) (identity_env runtime assignment)"

definition buildExecutionEnv :: "string list \<Rightarrow> AgentRuntime \<Rightarrow> AgentAssignment \<Rightarrow> string list" where
  "buildExecutionEnv environ runtime assignment =
     sanitizeInheritedEnv environ @ sortedEnv (execution_values runtime assignment)"

definition resolveExecutionWorkdir ::
    "(string \<Rightarrow> string option) \<Rightarrow> (string \<Rightarrow> bool + string) \<Rightarrow> AgentRuntime \<Rightarrow> AgentAssignment \<Rightarrow> path_error + string" where
  "resolveExecutionWorkdir abs_path eval_symlinks runtime assignment =
     (if asg_WorkdirPath assignment = '''' then Inr (art_WorkspaceRoot runtime)
      else resolveWorkspacePath abs_path eval_symlinks (art_WorkspaceRoot runtime) (asg_WorkdirPath assignment))"

definition defaultScriptHeader :: string where
  "defaultScriptHeader = ''#!/usr/bin/env bash''"

definition taskScriptContent :: "string \<Rightarrow> string \<Rightarrow> string" where
  "taskScriptContent header script =
     (let header = trim_right_set [CHR 0x0D, CHR 0x0A] header;
          header = (if trim_space header = '''' then defaultScriptHeader else header)
      in header @ [CHR 0x0A, CHR 0x0A] @ script @ [CHR 0x0A])"

section \<open>The outcome of a script\<close>

definition execAbandoned :: string where "execAbandoned = ''ABANDONED-BY-SHUTDOWN''"

record execOutcome =
  out_Status :: string
  out_ExitCode :: int
  out_Error :: string
  out_FailureReason :: string

definition agentFailure :: "string \<Rightarrow> execOutcome" where
  "agentFailure err = \<lparr>out_Status = StatusFailed, out_ExitCode = - 1, out_Error = err,
     out_FailureReason = FailureReasonAgent\<rparr>"

text \<open>How the script ended: the agent shut down meanwhile, or the process was reaped, with the error
  of \<^verbatim>\<open>cmd.Wait\<close> (\<open>None\<close> is nil) and the exit code if there is a process state.  \<open>timed_out\<close> and
  \<open>canceled\<close> are the flags the watching goroutine sets before it kills the process group.\<close>

datatype script_end = ShutDown | Reaped "string option" "int option"

definition superviseExecution :: "journalEntry \<Rightarrow> bool \<Rightarrow> bool \<Rightarrow> script_end \<Rightarrow> execOutcome" where
  "superviseExecution entry timed_out canceled how =
     (case how of
        ShutDown \<Rightarrow> \<lparr>out_Status = execAbandoned, out_ExitCode = - 1, out_Error = '''', out_FailureReason = ''''\<rparr>
      | Reaped waitErr code \<Rightarrow>
          (let exitCode = (case code of None \<Rightarrow> - 1 | Some n \<Rightarrow> n)
           in if timed_out then
                \<lparr>out_Status = StatusFailed, out_ExitCode = exitCode,
                 out_Error = ''job timed out after '' @ asg_TimeoutText (je_Assignment entry),
                 out_FailureReason = FailureReasonTimeout\<rparr>
              else if canceled then
                \<lparr>out_Status = StatusCanceled, out_ExitCode = exitCode,
                 out_Error = ''canceled by the controller'', out_FailureReason = ''''\<rparr>
              else if waitErr = None \<and> exitCode = 0 then
                \<lparr>out_Status = StatusSuccess, out_ExitCode = exitCode, out_Error = '''', out_FailureReason = ''''\<rparr>
              else
                \<lparr>out_Status = StatusFailed, out_ExitCode = exitCode,
                 out_Error = (case waitErr of None \<Rightarrow> '''' | Some e \<Rightarrow> e),
                 out_FailureReason = FailureReasonScript\<rparr>))"

text \<open>The timer that sets \<open>timed_out\<close> exists only when this gives a duration.\<close>

definition execution_timeout :: "(string \<Rightarrow> int option) \<Rightarrow> journalEntry \<Rightarrow> int option" where
  "execution_timeout parse entry =
     (let timeout = (if asg_TimeoutText (je_Assignment entry) \<noteq> ''''
                     then (case parse (asg_TimeoutText (je_Assignment entry)) of None \<Rightarrow> 0 | Some d \<Rightarrow> d)
                     else 0)
      in if timeout > 0 then Some timeout else None)"

fun joinMessages :: "string list \<Rightarrow> string" where
  "joinMessages values =
     fold (\<lambda>value joined. if value = '''' then joined
             else (if joined \<noteq> '''' then joined @ ''; '' else joined) @ value) values ''''"

section \<open>Processes left by a previous agent\<close>

record orphanVerdict =
  ov_Ended :: bool
  ov_Owned :: bool
  ov_Details :: string

text \<open>The index of the last closing parenthesis, as \<^verbatim>\<open>strings.LastIndex\<close> gives it.\<close>

definition last_paren :: "string \<Rightarrow> nat option" where
  "last_paren stat =
     (if CHR '')'' \<in> set stat then Some (length stat - 1 - length (takeWhile (\<lambda>c. c \<noteq> CHR '')'') (rev stat)))
      else None)"

definition procStartTime :: "string \<Rightarrow> string + string" where
  "procStartTime stat =
     (case last_paren stat of
        None \<Rightarrow> Inl ''unexpected /proc stat format''
      | Some end_ \<Rightarrow>
          if end_ + 2 \<ge> length stat then Inl ''unexpected /proc stat format''
          else
            let fs = split_fields (drop (end_ + 2) stat)
            in if length fs < 20 then Inl ''unexpected /proc stat field count'' else Inr (fs ! 19))"

text \<open>What the host answers: \<^verbatim>\<open>/proc/<pid>/stat\<close> if it can be read, the boot identifier (empty when
  it cannot be read), the output of \<^verbatim>\<open>ps\<close> or its error, and the result of signal 0 to a group.\<close>

datatype kill_result = KillOk | KillNoSuchProcess | KillNotPermitted | KillFailed string

record host =
  ho_stat :: "int \<Rightarrow> string option"
  ho_boot :: string
  ho_ps :: "int \<Rightarrow> string + string"
  ho_signal0 :: "int \<Rightarrow> kill_result"

definition processStartToken :: "host \<Rightarrow> int \<Rightarrow> string + string" where
  "processStartToken h pid =
     (if pid \<le> 0 then Inl ''invalid pid''
      else case ho_stat h pid of
        Some data \<Rightarrow>
          (case procStartTime data of
             Inl e \<Rightarrow> Inl e
           | Inr start \<Rightarrow> Inr (''linux:'' @ trim_space (ho_boot h) @ '':'' @ start))
      | None \<Rightarrow>
          (case ho_ps h pid of
             Inl e \<Rightarrow> Inl e
           | Inr output \<Rightarrow>
               (let start = trim_space output
                in if start = '''' then Inl ''process not found'' else Inr (''ps:'' @ start))))"

definition processGroupExists :: "host \<Rightarrow> int \<Rightarrow> bool \<times> string option" where
  "processGroupExists h pgid =
     (if pgid \<le> 0 then (False, Some ''invalid process group'')
      else case ho_signal0 h pgid of
        KillOk \<Rightarrow> (True, None)
      | KillNoSuchProcess \<Rightarrow> (False, None)
      | KillNotPermitted \<Rightarrow> (True, Some ''process group exists but is not owned by this agent'')
      | KillFailed e \<Rightarrow> (True, Some e))"

definition verifyOrphan :: "host \<Rightarrow> journalEntry \<Rightarrow> orphanVerdict" where
  "verifyOrphan h entry =
     (if je_Phase entry \<noteq> journalStarted then
        \<lparr>ov_Ended = True, ov_Owned = True, ov_Details = ''the execution never reached process start''\<rparr>
      else if je_PID entry \<le> 0 \<or> je_PGID entry \<le> 0 then
        \<lparr>ov_Ended = False, ov_Owned = False,
         ov_Details = ''the agent crashed between launching the script and recording its process identity''\<rparr>
      else if je_ProcessToken entry = '''' then
        (case processGroupExists h (je_PGID entry) of (groupExists, groupErr) \<Rightarrow>
           if \<not> groupExists \<and> groupErr = None then
             \<lparr>ov_Ended = True, ov_Owned = True,
              ov_Details = ''no process identity was recorded, and process group '' @ dec (je_PGID entry)
                           @ '' no longer exists''\<rparr>
           else
             \<lparr>ov_Ended = False, ov_Owned = False,
              ov_Details = ''no process identity was recorded for pid '' @ dec (je_PID entry)
                @ '', so this process group cannot be proven to belong to this execution''
                @ (if je_ProcessTokenError entry \<noteq> '''' then '': '' @ je_ProcessTokenError entry else '''')\<rparr>)
      else
        (let token = processStartToken h (je_PID entry)
         in case processGroupExists h (je_PGID entry) of (groupExists, groupErr) \<Rightarrow>
           if isl token \<and> \<not> groupExists \<and> groupErr = None then
             \<lparr>ov_Ended = True, ov_Owned = True, ov_Details = ''the leader process and its process group are gone''\<rparr>
           else if token = Inr (je_ProcessToken entry) then
             \<lparr>ov_Ended = False, ov_Owned = True,
              ov_Details = ''the original process group is still running and is provably owned by this execution''\<rparr>
           else if \<not> isl token then
             \<lparr>ov_Ended = False, ov_Owned = False,
              ov_Details = ''pid '' @ dec (je_PID entry) @ '' was reused by an unrelated process''\<rparr>
           else
             \<lparr>ov_Ended = False, ov_Owned = False,
              ov_Details = (if groupExists then ''process group '' @ dec (je_PGID entry)
                              @ '' still has members that cannot be proven to belong to this execution''
                            else ''process group state could not be determined'')
                @ (case groupErr of None \<Rightarrow> '''' | Some e \<Rightarrow> '': '' @ e)\<rparr>))"

end
