(* ===== verification/Ctrl_AgentApi.thy ===== *)
theory Ctrl_AgentApi
  imports Ctrl_AgentOps
begin

text \<open>
  The controller's side of the agent protocol, \<^verbatim>\<open>api_agentproto.go\<close> with the messages of
  \<^verbatim>\<open>proto.go\<close>.  Each handler gets the identity its token was issued to, the request as decoded from the
  body (\<open>None\<close> is a body that cannot be decoded), and what the operations it calls need from the
  outside.  It answers with a value, or refuses with a status code.  The long poll is split where it
  blocks: \<^verbatim>\<open>poll_begin\<close> is the part before the loop, \<^verbatim>\<open>poll_ready\<close> the test at the head of the loop,
  and \<^verbatim>\<open>handleAgentPoll\<close> runs them against the sequence of events that wake it.
\<close>

section \<open>Messages\<close>

record AgentPollRequest =
  plq_AgentID :: string
  plq_Version :: string
  plq_CurrentExecutionID :: string
  plq_KnownExecutions :: "string list"

text \<open>The two durations are sent as text (\<^verbatim>\<open>Duration.String\<close>); the model keeps the duration.\<close>

record AgentPollResponse =
  plr_Assignment :: "AgentAssignment option"
  plr_CancelRequested :: "string list"
  plr_Unknown :: "string list"
  plr_HeartbeatInterval :: int
  plr_PollTimeout :: int

record AgentPermitRequest =
  prq_AgentID :: string
  prq_ExecutionID :: string

record AgentHeartbeatRequest =
  hbq_AgentID :: string
  hbq_Version :: string
  hbq_ExecutionID :: string
  hbq_State :: string

record AgentAttentionRequest =
  atq_AgentID :: string
  atq_ExecutionID :: string
  atq_Message :: string

text \<open>\<open>Dropped\<close> is the connection closed without an answer, which is what \<^verbatim>\<open>net/http\<close> makes of a
  handler that panics.\<close>

datatype 'a reply = Answer 'a | Refused nat string | Dropped

section \<open>Binding and errors\<close>

definition bindAgent :: "Controller \<Rightarrow> string \<Rightarrow> string \<Rightarrow> (nat \<times> string) option" where
  "bindAgent c who requestedID =
     (if requestedID \<noteq> '''' \<and> requestedID \<noteq> who
      then Some (403, ''agent token does not match the requested agent id'')
      else case findAgentDefinition (c_cfg c) who of
             None \<Rightarrow> Some (403, ''agent is not configured on this controller'')
           | Some _ \<Rightarrow> None)"

text \<open>The text of an internal error is the formatted error; the model leaves it out.\<close>

definition respondAgentError :: "ctrl_error \<Rightarrow> 'a reply" where
  "respondAgentError err =
     (if err = ErrExecutionNotFound then Refused 404 ''execution not found''
      else if err = ErrNotExecutionOwner then Refused 403 ''execution is not assigned to this agent''
      else if err = ErrLogClosed then Refused 409 ''the execution already reported its final result''
      else Refused 500 '''')"

text \<open>The common head of every handler: decode, bind, then the body.\<close>

definition with_bound_agent ::
    "string \<Rightarrow> Controller \<Rightarrow> string \<Rightarrow> 'q option \<Rightarrow> ('q \<Rightarrow> string) \<Rightarrow> ('q \<Rightarrow> 'a reply \<times> Controller)
      \<Rightarrow> 'a reply \<times> Controller" where
  "with_bound_agent invalid c who body agent_of k =
     (case body of
        None \<Rightarrow> (Refused 400 invalid, c)
      | Some request \<Rightarrow>
          (case bindAgent c who (agent_of request) of
             Some (status, message) \<Rightarrow> (Refused status message, c)
           | None \<Rightarrow> k request))"

definition failed_reply :: "ctrl_error \<Rightarrow> 'a reply" where
  "failed_reply err =
     (if err = PanicSliceBounds \<or> err = PanicNilPointer then Dropped else respondAgentError err)"

section \<open>Handlers\<close>

record poll_env =
  pe_now :: time
  pe_io :: io_env
  pe_sched :: sched_env

definition poll_begin ::
    "poll_env \<Rightarrow> string \<Rightarrow> AgentPollRequest option \<Rightarrow> Controller \<Rightarrow> (string list) reply \<times> Controller" where
  "poll_begin env who body c =
     with_bound_agent ''invalid poll request'' c who body plq_AgentID (\<lambda>request.
       let c1 = markAgentSeen (pe_now env) who (plq_Version request) c in
       case Reconcile (pe_io env) who (plq_KnownExecutions request) c1 of
         (Inl _, c2) \<Rightarrow> (Refused 500 '''', c2)
       | (Inr unknown, c2) \<Rightarrow>
           (case scheduleOnce (pe_sched env) c2 of
              (Some _, c3) \<Rightarrow> (Refused 500 '''', c3)
            | (None, c3) \<Rightarrow> (Answer unknown, c3)))"

definition poll_response :: "string \<Rightarrow> string list \<Rightarrow> Controller \<Rightarrow> AgentPollResponse" where
  "poll_response who unknown c =
     \<lparr>plr_Assignment = AssignmentFor (st_data (c_store c)) who,
      plr_CancelRequested = CancelRequestsFor (st_data (c_store c)) who,
      plr_Unknown = unknown,
      plr_HeartbeatInterval = rt_HeartbeatInterval (c_runtime c),
      plr_PollTimeout = rt_LongPollTimeout (c_runtime c)\<rparr>"

definition poll_ready :: "AgentPollResponse \<Rightarrow> bool" where
  "poll_ready response \<longleftrightarrow>
     plr_Assignment response \<noteq> None \<or> plr_CancelRequested response \<noteq> [] \<or> plr_Unknown response \<noteq> []"

datatype poll_event = StoreChanged Controller | DeadlinePassed | RequestGone | ControllerStopped

datatype poll_outcome = Answered AgentPollResponse | AnswerLost | StillWaiting

fun poll_loop :: "string \<Rightarrow> string list \<Rightarrow> Controller \<Rightarrow> poll_event list \<Rightarrow> poll_outcome" where
  "poll_loop who unknown c events =
     (let response = poll_response who unknown c in
      if poll_ready response then Answered response
      else case events of
             [] \<Rightarrow> StillWaiting
           | StoreChanged c' # rest \<Rightarrow> poll_loop who unknown c' rest
           | DeadlinePassed # rest \<Rightarrow> Answered response
           | RequestGone # rest \<Rightarrow> AnswerLost
           | ControllerStopped # rest \<Rightarrow> Answered response)"

definition handleAgentPoll ::
    "poll_env \<Rightarrow> string \<Rightarrow> AgentPollRequest option \<Rightarrow> poll_event list \<Rightarrow> Controller
      \<Rightarrow> poll_outcome reply \<times> Controller" where
  "handleAgentPoll env who body events c =
     (case poll_begin env who body c of
        (Refused status message, c') \<Rightarrow> (Refused status message, c')
      | (Dropped, c') \<Rightarrow> (Dropped, c')
      | (Answer unknown, c') \<Rightarrow> (Answer (poll_loop who unknown c' events), c'))"

definition handleAgentPermit ::
    "op_env \<Rightarrow> string \<Rightarrow> AgentPermitRequest option \<Rightarrow> Controller \<Rightarrow> AgentPermitResponse reply \<times> Controller" where
  "handleAgentPermit env who body c =
     with_bound_agent ''invalid permit request'' c who body prq_AgentID (\<lambda>request.
       case GrantPermit env who (prq_ExecutionID request) (markAgentSeen (op_now env) who '''' c) of
         (Inl err, c') \<Rightarrow> (failed_reply err, c')
       | (Inr response, c') \<Rightarrow> (Answer response, c'))"

definition handleAgentHeartbeat ::
    "time \<Rightarrow> string \<Rightarrow> AgentHeartbeatRequest option \<Rightarrow> Controller \<Rightarrow> AgentHeartbeatResponse reply \<times> Controller" where
  "handleAgentHeartbeat now who body c =
     with_bound_agent ''invalid heartbeat request'' c who body hbq_AgentID (\<lambda>request.
       apfst Answer (Heartbeat now who (hbq_Version request) (hbq_ExecutionID request) c))"

definition handleAgentLog ::
    "log_io \<Rightarrow> op_env \<Rightarrow> string \<Rightarrow> AgentLogRequest option \<Rightarrow> Controller \<Rightarrow> int reply \<times> Controller" where
  "handleAgentLog lio env who body c =
     with_bound_agent ''invalid log request'' c who body lrq_AgentID (\<lambda>request.
       case AppendLog lio (op_io env) who request (markAgentSeen (op_now env) who '''' c) of
         (Inl err, c') \<Rightarrow> (failed_reply err, c')
       | (Inr acked, c') \<Rightarrow> (Answer acked, c'))"

definition handleAgentResult ::
    "bool \<Rightarrow> op_env \<Rightarrow> string \<Rightarrow> AgentResultRequest option \<Rightarrow> Controller \<Rightarrow> AgentResultResponse reply \<times> Controller" where
  "handleAgentResult stat_fails env who body c =
     with_bound_agent ''invalid result request'' c who body rrq_AgentID (\<lambda>request.
       case SubmitResult stat_fails env who request (markAgentSeen (op_now env) who '''' c) of
         (Inl err, c') \<Rightarrow> (failed_reply err, c')
       | (Inr response, c') \<Rightarrow> (Answer response, c'))"

definition handleAgentAttention ::
    "op_env \<Rightarrow> string \<Rightarrow> AgentAttentionRequest option \<Rightarrow> Controller \<Rightarrow> unit reply \<times> Controller" where
  "handleAgentAttention env who body c =
     with_bound_agent ''invalid attention request'' c who body atq_AgentID (\<lambda>request.
       case ReportAttention (op_io env) who (atq_ExecutionID request) (atq_Message request)
              (markAgentSeen (op_now env) who '''' c) of
         (err, c') \<Rightarrow>
           (case err of
              None \<Rightarrow> (Answer (), c')
            | Some e \<Rightarrow> if e = ErrNoStateChange then (Answer (), c') else (failed_reply e, c')))"

section \<open>What a handler can do\<close>

lemma with_bound_agent_cases:
  assumes "with_bound_agent invalid c who body agent_of k = (rep, c')"
  obtains (refused) status message where "rep = Refused status message" "c' = c"
    | (handled) request agd where "body = Some request" "findAgentDefinition (c_cfg c) who = Some agd"
        "agent_of request = '''' \<or> agent_of request = who" "k request = (rep, c')"
  using assms by (auto simp: with_bound_agent_def bindAgent_def split: option.splits if_splits)

lemma failed_reply_no_answer [simp]: "failed_reply err \<noteq> Answer x" "Answer x \<noteq> failed_reply err"
  by (simp_all add: failed_reply_def respondAgentError_def)

end
