(* ===== verification/Agent_Core.thy ===== *)
theory Agent_Core
  imports Agent_Exec Ctrl_AgentApi
begin

text \<open>
  The agent: its volatile state and the operations on it (\<^verbatim>\<open>agent.go\<close>), its calls to the controller
  (\<^verbatim>\<open>agentclient.go\<close>) and the upload of a log (\<^verbatim>\<open>agentupload.go\<close>).  A call runs the controller's
  handler on the controller's state; the network decides whether the request arrives, whether the
  answer does, or whether something else answers (\<^verbatim>\<open>net\<close>).
\<close>

section \<open>Calls\<close>

datatype agent_error = ControllerError string nat string | OtherError string

definition isPermanentAgentError :: "agent_error \<Rightarrow> bool" where
  "isPermanentAgentError err =
     (case err of ControllerError path status message \<Rightarrow> status \<in> set [404, 403, 401] | OtherError _ \<Rightarrow> False)"

definition error_text :: "agent_error \<Rightarrow> string" where
  "error_text err =
     (case err of
        ControllerError path status message \<Rightarrow> path @ '' returned '' @ dec (int status) @ '': '' @ message
      | OtherError message \<Rightarrow> message)"

text \<open>\<open>Rejected\<close> is an answer that no handler of the agent protocol gave: the token is not accepted,
  or something between agent and controller refuses.\<close>

datatype net = Delivered | RequestLost string | ReplyLost string | Rejected nat string

definition call :: "net \<Rightarrow> string \<Rightarrow> 'a reply \<times> Controller \<Rightarrow> Controller \<Rightarrow> (agent_error + 'a) \<times> Controller" where
  "call n path handled c =
     (case n of
        RequestLost e \<Rightarrow> (Inl (OtherError e), c)
      | Rejected status message \<Rightarrow> (Inl (ControllerError path status message), c)
      | ReplyLost e \<Rightarrow> (Inl (OtherError e), snd handled)
      | Delivered \<Rightarrow>
          (case handled of
             (Answer x, c') \<Rightarrow> (Inr x, c')
           | (Refused status message, c') \<Rightarrow> (Inl (ControllerError path status message), c')
           | (Dropped, c') \<Rightarrow> (Inl (OtherError ''EOF''), c')))"

definition agentAPIPrefix :: string where "agentAPIPrefix = ''/api/agent/v1/''"

definition client_Permit ::
    "net \<Rightarrow> op_env \<Rightarrow> string \<Rightarrow> string \<Rightarrow> Controller \<Rightarrow> (agent_error + AgentPermitResponse) \<times> Controller" where
  "client_Permit n env agentID i c =
     call n (agentAPIPrefix @ ''permit'')
       (handleAgentPermit env agentID (Some \<lparr>prq_AgentID = agentID, prq_ExecutionID = i\<rparr>) c) c"

definition client_Heartbeat ::
    "net \<Rightarrow> time \<Rightarrow> string \<Rightarrow> string \<Rightarrow> string \<Rightarrow> string \<Rightarrow> Controller
      \<Rightarrow> (agent_error + AgentHeartbeatResponse) \<times> Controller" where
  "client_Heartbeat n now agentID version i state c =
     call n (agentAPIPrefix @ ''heartbeat'')
       (handleAgentHeartbeat now agentID
          (Some \<lparr>hbq_AgentID = agentID, hbq_Version = version, hbq_ExecutionID = i, hbq_State = state\<rparr>) c) c"

definition client_UploadLog ::
    "net \<Rightarrow> log_io \<Rightarrow> op_env \<Rightarrow> string \<Rightarrow> string \<Rightarrow> int \<Rightarrow> string \<Rightarrow> Controller \<Rightarrow> (agent_error + int) \<times> Controller" where
  "client_UploadLog n lio env agentID i offset data c =
     call n (agentAPIPrefix @ ''log'')
       (handleAgentLog lio env agentID
          (Some \<lparr>lrq_AgentID = agentID, lrq_ExecutionID = i, lrq_Offset = offset, lrq_Data = data\<rparr>) c) c"

definition client_SubmitResult ::
    "net \<Rightarrow> bool \<Rightarrow> op_env \<Rightarrow> string \<Rightarrow> AgentResultRequest \<Rightarrow> Controller
      \<Rightarrow> (agent_error + AgentResultResponse) \<times> Controller" where
  "client_SubmitResult n stat_fails env agentID request c =
     call n (agentAPIPrefix @ ''result'')
       (handleAgentResult stat_fails env agentID (Some (request\<lparr>rrq_AgentID := agentID\<rparr>)) c) c"

definition client_ReportAttention ::
    "net \<Rightarrow> op_env \<Rightarrow> string \<Rightarrow> string \<Rightarrow> string \<Rightarrow> Controller \<Rightarrow> (agent_error + unit) \<times> Controller" where
  "client_ReportAttention n env agentID i message c =
     call n (agentAPIPrefix @ ''attention'')
       (handleAgentAttention env agentID
          (Some \<lparr>atq_AgentID = agentID, atq_ExecutionID = i, atq_Message = message\<rparr>) c) c"

section \<open>Volatile state\<close>

definition agentStateIdle :: string where "agentStateIdle = ''idle''"
definition agentStateAccepted :: string where "agentStateAccepted = ''accepted''"
definition agentStateRunning :: string where "agentStateRunning = ''running''"
definition agentStateUploading :: string where "agentStateUploading = ''uploading''"
definition agentStateBlocked :: string where "agentStateBlocked = ''blocked''"

text \<open>The cancellation channel is \<open>None\<close> when it is nil, and otherwise whether it is closed.\<close>

record Agent =
  ag_runtime :: AgentRuntime
  ag_version :: string
  ag_journal :: agentJournal
  ag_current :: string
  ag_state :: string
  ag_cancel :: "bool option"
  ag_cancelled :: bool
  ag_blocked :: "string list"
  ag_acked :: "int gomap"

definition newAgent :: "AgentRuntime \<Rightarrow> string \<Rightarrow> agentJournal \<Rightarrow> Agent" where
  "newAgent runtime version journal =
     \<lparr>ag_runtime = runtime, ag_version = version, ag_journal = journal, ag_current = '''',
      ag_state = agentStateIdle, ag_cancel = None, ag_cancelled = False, ag_blocked = [], ag_acked = []\<rparr>"

definition beginExecution :: "string \<Rightarrow> Agent \<Rightarrow> Agent" where
  "beginExecution i a =
     a\<lparr>ag_current := i, ag_state := agentStateAccepted, ag_cancel := Some False, ag_cancelled := False\<rparr>"

definition endExecution :: "Agent \<Rightarrow> Agent" where
  "endExecution a =
     a\<lparr>ag_current := '''', ag_state := agentStateIdle, ag_cancel := None, ag_cancelled := False\<rparr>"

definition requestCancel :: "string \<Rightarrow> Agent \<Rightarrow> Agent" where
  "requestCancel i a =
     (if ag_current a \<noteq> i \<or> ag_cancel a = None \<or> ag_cancelled a then a
      else a\<lparr>ag_cancelled := True, ag_cancel := Some True\<rparr>)"

definition setState :: "string \<Rightarrow> Agent \<Rightarrow> Agent" where
  "setState state a = a\<lparr>ag_state := state\<rparr>"

definition markBlocked :: "string \<Rightarrow> Agent \<Rightarrow> Agent" where
  "markBlocked i a = a\<lparr>ag_blocked := List.insert i (ag_blocked a), ag_state := agentStateBlocked\<rparr>"

definition clearBlocked :: "string \<Rightarrow> Agent \<Rightarrow> Agent" where
  "clearBlocked i a =
     (let left = removeAll i (ag_blocked a);
          a = a\<lparr>ag_blocked := left\<rparr>
      in if left = [] \<and> ag_state a = agentStateBlocked then a\<lparr>ag_state := agentStateIdle\<rparr> else a)"

definition isBlocked :: "Agent \<Rightarrow> bool" where
  "isBlocked a \<longleftrightarrow> ag_blocked a \<noteq> []"

definition ackedOffset :: "int gomap \<Rightarrow> string \<Rightarrow> int" where
  "ackedOffset acked i = (case map_of acked i of None \<Rightarrow> 0 | Some n \<Rightarrow> n)"

definition setAckedOffset :: "string \<Rightarrow> int \<Rightarrow> int gomap \<Rightarrow> int gomap" where
  "setAckedOffset i offset acked = AList.update i offset acked"

definition localLogSize :: "agentJournal \<Rightarrow> string \<Rightarrow> int" where
  "localLogSize j i = (case local_log j i of None \<Rightarrow> 0 | Some bytes \<Rightarrow> int (length bytes))"

section \<open>Uploading the log\<close>

definition agentLogChunkLimit :: int where "agentLogChunkLimit = 524288"

text \<open>The local file as the successive attempts find it: its content, whether \<^verbatim>\<open>Stat\<close> fails, and
  whether a read stops early.  Uploading is a state transformer given by the client.\<close>

record local_file =
  lf_content :: "nat \<Rightarrow> string"
  lf_stat :: "nat \<Rightarrow> string option"
  lf_short :: "nat \<Rightarrow> (nat \<times> string) option"

definition read_at :: "local_file \<Rightarrow> nat \<Rightarrow> int \<Rightarrow> int \<Rightarrow> string \<times> string option" where
  "read_at lf k offset len =
     (if offset < 0 then ('''', Some ''negative offset'')
      else
        let bytes = take (nat len) (drop (nat offset) (lf_content lf k))
        in case lf_short lf k of None \<Rightarrow> (bytes, None) | Some (n, e) \<Rightarrow> (take n bytes, Some e))"

fun flush_loop ::
    "local_file \<Rightarrow> (nat \<Rightarrow> int \<Rightarrow> string \<Rightarrow> 's \<Rightarrow> (agent_error + int) \<times> 's) \<Rightarrow> string \<Rightarrow> nat \<Rightarrow> nat
      \<Rightarrow> int \<Rightarrow> int gomap \<Rightarrow> 's \<Rightarrow> (agent_error + int) \<times> int gomap \<times> 's" where
  "flush_loop lf upload i k 0 acked m s = (Inl (OtherError ''log upload did not converge''), m, s)"
| "flush_loop lf upload i k (Suc attempts) acked m s =
     (case lf_stat lf k of
        Some e \<Rightarrow> (Inl (OtherError e), m, s)
      | None \<Rightarrow>
        (let sz = int (length (lf_content lf k)) in
         if acked \<ge> sz then (Inr acked, setAckedOffset i acked m, s)
         else
           let len = (if sz - acked > agentLogChunkLimit then agentLogChunkLimit else sz - acked)
           in case read_at lf k acked len of (bytes, err) \<Rightarrow>
             if bytes = '''' then (case err of Some e \<Rightarrow> (Inl (OtherError e), m, s) | None \<Rightarrow> (Inr acked, m, s))
             else case upload k acked bytes s of
                    (Inl e, s') \<Rightarrow> (Inl e, m, s')
                  | (Inr next, s') \<Rightarrow>
                      if next = acked then (Inr acked, setAckedOffset i acked m, s')
                      else flush_loop lf upload i (Suc k) attempts next (setAckedOffset i next m) s'))"

text \<open>\<open>file\<close> is the outcome of opening the local log: \<open>Inl None\<close> when it does not exist.\<close>

definition flushLog ::
    "string option + local_file \<Rightarrow> (nat \<Rightarrow> int \<Rightarrow> string \<Rightarrow> 's \<Rightarrow> (agent_error + int) \<times> 's) \<Rightarrow> string
      \<Rightarrow> int gomap \<Rightarrow> 's \<Rightarrow> (agent_error + int) \<times> int gomap \<times> 's" where
  "flushLog file upload i m s =
     (case file of
        Inl None \<Rightarrow> (Inr 0, m, s)
      | Inl (Some e) \<Rightarrow> (Inl (OtherError e), m, s)
      | Inr lf \<Rightarrow> flush_loop lf upload i 0 10000 (ackedOffset m i) m s)"

end
