(* ===== verification/Agent_Steps.thy ===== *)
theory Agent_Steps
  imports Agent_Core
begin

text \<open>
  The agent's main goroutine as a program that can be interrupted: \<^verbatim>\<open>Run\<close>, \<^verbatim>\<open>resumePending\<close>,
  \<^verbatim>\<open>handleAssignment\<close>, \<^verbatim>\<open>runAssignment\<close> and \<^verbatim>\<open>requestPermit\<close> of \<^verbatim>\<open>agent.go\<close>, \<^verbatim>\<open>runExecution\<close> of
  \<^verbatim>\<open>agentexec.go\<close>, and \<^verbatim>\<open>completeExecution\<close>, \<^verbatim>\<open>recover\<close> and what they call from \<^verbatim>\<open>agentupload.go\<close>.  The
  program counter names the places where the process can be when it dies or waits; between two of
  them a step runs the code there, including its effect on the controller.  The list in a program
  counter holds the entries \<^verbatim>\<open>recover\<close> has still to look at; it is empty in the main loop.
  Everything the outside decides in a step (clock, I/O faults, network, operating system) is in
  \<^verbatim>\<open>agent_env\<close>.
\<close>

section \<open>Environment and program counter\<close>

record agent_env =
  ae_now :: time
  ae_save :: "nat \<Rightarrow> journal_io"
  ae_rm :: "nat \<Rightarrow> remove_io"
  ae_dir_fails :: bool
  ae_unreadable :: "string \<Rightarrow> bool"
  ae_net :: "nat \<Rightarrow> net"
  ae_op :: "nat \<Rightarrow> op_env"
  ae_stat_fails :: bool
  ae_upload :: "nat \<Rightarrow> net \<times> log_io \<times> op_env"
  ae_open :: "string option"
  ae_short :: "nat \<Rightarrow> (nat \<times> string) option"
  ae_stat :: "nat \<Rightarrow> string option"
  ae_host :: "nat \<Rightarrow> host"
  ae_kill_polls :: nat
  ae_poll :: poll_env
  ae_deadline :: bool
  ae_abs :: "string \<Rightarrow> string option"
  ae_symlinks :: "string \<Rightarrow> bool + string"
  ae_path_text :: "path_error \<Rightarrow> string"
  ae_save_text :: string
  ae_script_io :: "string option"
  ae_pipe_io :: "string option"
  ae_lines :: string
  ae_start :: "string + int"
  ae_parse :: "string \<Rightarrow> int option"
  ae_timer :: bool
  ae_cancel_seen :: bool
  ae_end :: script_end
  ae_sync :: "string option"

datatype agent_pc =
    Off
  | Recovering "journalEntry list"
  | AskingPermit journalEntry nat "journalEntry list"
  | Launching journalEntry "journalEntry list"
  | Starting journalEntry "journalEntry list"
  | Launched journalEntry int "journalEntry list"
  | Supervising journalEntry "journalEntry list"
  | Completing journalEntry bool "journalEntry list"
  | Polling "string list"
  | GotResponse AgentPollResponse

record AgentNode =
  nd_agent :: Agent
  nd_pc :: agent_pc

abbreviation agent_id :: "Agent \<Rightarrow> string" where
  "agent_id a \<equiv> art_ID (ag_runtime a)"

abbreviation node :: "Agent \<Rightarrow> agent_pc \<Rightarrow> AgentNode" where
  "node a pc \<equiv> \<lparr>nd_agent = a, nd_pc = pc\<rparr>"

text \<open>Saving an entry, and appending lines to the local log.\<close>

definition save_entry :: "agent_env \<Rightarrow> nat \<Rightarrow> journalEntry \<Rightarrow> Agent \<Rightarrow> bool \<times> Agent" where
  "save_entry env k entry a =
     (case Save (ae_save env k) entry (ag_journal a) of (err, j) \<Rightarrow> (err = None, a\<lparr>ag_journal := j\<rparr>))"

definition remove_entry :: "agent_env \<Rightarrow> nat \<Rightarrow> string \<Rightarrow> Agent \<Rightarrow> Agent" where
  "remove_entry env k i a = a\<lparr>ag_journal := snd (Remove (ae_rm env k) i (ag_journal a))\<rparr>"

definition append_log :: "string \<Rightarrow> string \<Rightarrow> Agent \<Rightarrow> Agent" where
  "append_log i lines a =
     (let j = ag_journal a; old = (case local_log j i of None \<Rightarrow> '''' | Some bytes \<Rightarrow> bytes)
      in a\<lparr>ag_journal := j\<lparr>jr_logs := AList.update (path_base i) (old @ lines) (jr_logs j)\<rparr>\<rparr>)"

definition flush_node :: "agent_env \<Rightarrow> string \<Rightarrow> Agent \<Rightarrow> Controller \<Rightarrow> (agent_error + int) \<times> Agent \<times> Controller" where
  "flush_node env i a c =
     (let log_file = (case local_log (ag_journal a) i of
                    None \<Rightarrow> Inl None
                  | Some bytes \<Rightarrow>
                      (case ae_open env of
                         Some e \<Rightarrow> Inl (Some e)
                       | None \<Rightarrow> Inr \<lparr>lf_content = (\<lambda>_. bytes), lf_stat = ae_stat env, lf_short = ae_short env\<rparr>));
          upload = (\<lambda>k offset data c. case ae_upload env k of (n, lio, oe) \<Rightarrow>
                      client_UploadLog n lio oe (agent_id a) i offset data c)
      in case flushLog log_file upload i (ag_acked a) c of
           (res, acked, c') \<Rightarrow> (res, a\<lparr>ag_acked := acked\<rparr>, c'))"

section \<open>Completing an execution\<close>

text \<open>Returning from \<^verbatim>\<open>completeExecution\<close>: inside \<^verbatim>\<open>runAssignment\<close> the deferred \<^verbatim>\<open>endExecution\<close> runs.\<close>

definition return_to :: "bool \<Rightarrow> journalEntry list \<Rightarrow> Agent \<Rightarrow> AgentNode" where
  "return_to in_run rest a = node (if in_run then endExecution a else a) (Recovering rest)"

definition blockExecution :: "agent_env \<Rightarrow> journalEntry \<Rightarrow> string \<Rightarrow> Agent \<Rightarrow> Controller \<Rightarrow> Agent \<times> Controller" where
  "blockExecution env entry details a c =
     (let entry = entry\<lparr>je_Phase := journalBlocked, je_Attention := details\<rparr>;
          a = snd (save_entry env 0 entry a)
      in case client_ReportAttention (ae_net env 1) (ae_op env 1) (agent_id a) (je_ExecutionID entry) details c of
           (_, c') \<Rightarrow> (markBlocked (je_ExecutionID entry) a, c'))"

definition abandonExecution ::
    "agent_env \<Rightarrow> journalEntry \<Rightarrow> string \<Rightarrow> agent_error \<Rightarrow> Agent \<Rightarrow> Controller \<Rightarrow> Agent \<times> Controller" where
  "abandonExecution env entry reason cause a c =
     (let details = reason @ '': '' @ error_text cause @ ''; the result stays in the agent spool at ''
                    @ entryDir (ag_journal a) (je_ExecutionID entry)
      in case blockExecution env entry details a c of
           (a', c') \<Rightarrow> (setState agentStateBlocked a', c'))"

definition result_request :: "journalEntry \<Rightarrow> AgentResultRequest" where
  "result_request entry =
     \<lparr>rrq_AgentID = '''', rrq_ExecutionID = je_ExecutionID entry, rrq_Status = je_Status entry,
      rrq_ExitCode = je_ExitCode entry, rrq_Error = je_Error entry,
      rrq_FailureReason = je_FailureReason entry, rrq_LogLength = je_LogLength entry\<rparr>"

definition complete_reported :: "agent_env \<Rightarrow> journalEntry \<Rightarrow> bool \<Rightarrow> journalEntry list \<Rightarrow> Agent \<Rightarrow> AgentNode" where
  "complete_reported env entry in_run rest a =
     (case save_entry env 0 (entry\<lparr>je_Phase := journalReported, je_ResultAcked := True\<rparr>) a of
        (False, a') \<Rightarrow> return_to in_run rest a'
      | (True, a') \<Rightarrow>
          return_to in_run rest (setState agentStateIdle (remove_entry env 0 (je_ExecutionID entry) a')))"

text \<open>One iteration of the loop.\<close>

definition completeExecution ::
    "agent_env \<Rightarrow> journalEntry \<Rightarrow> bool \<Rightarrow> journalEntry list \<Rightarrow> Agent \<Rightarrow> Controller \<Rightarrow> AgentNode \<times> Controller" where
  "completeExecution env entry in_run rest a0 c =
     (let a = setState agentStateUploading a0; i = je_ExecutionID entry in
      case flush_node env i a c of
        (Inl err, a1, c1) \<Rightarrow>
          if isPermanentAgentError err then
            (case abandonExecution env entry ''the controller refused the log upload'' err a1 c1 of
               (a2, c2) \<Rightarrow> (return_to in_run rest a2, c2))
          else (node a1 (Completing entry in_run rest), c1)
      | (Inr _, a1, c1) \<Rightarrow>
          (case client_SubmitResult (ae_net env 0) (ae_stat_fails env) (ae_op env 0) (agent_id a1)
                  (result_request entry) c1 of
             (Inl err, c2) \<Rightarrow>
               if isPermanentAgentError err then
                 (case abandonExecution env entry ''the controller refused the result'' err a1 c2 of
                    (a2, c3) \<Rightarrow> (return_to in_run rest a2, c3))
               else (node a1 (Completing entry in_run rest), c2)
           | (Inr response, c2) \<Rightarrow>
               if rrs_Accepted response then (complete_reported env entry in_run rest a1, c2)
               else (node (a1\<lparr>ag_acked := setAckedOffset i (rrs_AckOffset response) (ag_acked a1)\<rparr>)
                       (Completing entry in_run rest), c2)))"

section \<open>Running an assignment\<close>

definition permitAttempts :: nat where "permitAttempts = 5"

text \<open>\<^verbatim>\<open>runAssignment\<close> up to the permit, or to the launch when the permit is already journalled.\<close>

definition runAssignment :: "journalEntry \<Rightarrow> journalEntry list \<Rightarrow> Agent \<Rightarrow> AgentNode" where
  "runAssignment entry rest a0 =
     (let a = beginExecution (je_ExecutionID entry) a0
      in if je_Phase entry \<noteq> journalPermitted then node a (AskingPermit entry permitAttempts rest)
         else node (setState agentStateRunning a) (Launching entry rest))"

definition permit_denied :: "agent_env \<Rightarrow> journalEntry \<Rightarrow> AgentPermitResponse \<Rightarrow> journalEntry list \<Rightarrow> Agent \<Rightarrow> AgentNode" where
  "permit_denied env entry permit rest a =
     (let entry = entry\<lparr>je_Phase := journalFinished, je_Status := StatusCanceled, je_FinishedAt := ae_now env,
                        je_Error := prm_Reason permit,
                        je_LogLength := localLogSize (ag_journal a) (je_ExecutionID entry)\<rparr>
      in case save_entry env 0 entry a of
           (False, a') \<Rightarrow> return_to True rest a'
         | (True, a') \<Rightarrow> node a' (Completing entry True rest))"

definition permit_granted :: "agent_env \<Rightarrow> journalEntry \<Rightarrow> journalEntry list \<Rightarrow> Agent \<Rightarrow> AgentNode" where
  "permit_granted env entry rest a =
     (let entry = entry\<lparr>je_Phase := journalPermitted, je_PermittedAt := ae_now env\<rparr>
      in case save_entry env 0 entry a of
           (False, a') \<Rightarrow> return_to True rest a'
         | (True, a') \<Rightarrow> node (setState agentStateRunning a') (Launching entry rest))"

text \<open>One attempt of \<^verbatim>\<open>requestPermit\<close>, and what \<^verbatim>\<open>runAssignment\<close> makes of the answer.\<close>

definition requestPermit ::
    "agent_env \<Rightarrow> journalEntry \<Rightarrow> nat \<Rightarrow> journalEntry list \<Rightarrow> Agent \<Rightarrow> Controller \<Rightarrow> AgentNode \<times> Controller" where
  "requestPermit env entry attempts rest a c =
     (case attempts of
        0 \<Rightarrow> (return_to True rest a, c)
      | Suc left \<Rightarrow>
          (case client_Permit (ae_net env 0) (ae_op env 0) (agent_id a) (je_ExecutionID entry) c of
             (Inl err, c') \<Rightarrow>
               if isPermanentAgentError err then (return_to True rest a, c')
               else (node a (AskingPermit entry left rest), c')
           | (Inr permit, c') \<Rightarrow>
               if \<not> prm_Granted permit then (permit_denied env entry permit rest a, c')
               else (permit_granted env entry rest a, c')))"

text \<open>\<^verbatim>\<open>runAssignment\<close> after the script: the outcome is journalled, then reported.\<close>

definition execution_ended :: "agent_env \<Rightarrow> nat \<Rightarrow> journalEntry \<Rightarrow> execOutcome \<Rightarrow> journalEntry list \<Rightarrow> Agent \<Rightarrow> AgentNode" where
  "execution_ended env k entry oc rest a =
     (if out_Status oc = execAbandoned then node (endExecution a) Off
      else
        let entry = entry\<lparr>je_Phase := journalFinished, je_Status := out_Status oc,
                          je_ExitCode := out_ExitCode oc, je_Error := out_Error oc,
                          je_FailureReason := out_FailureReason oc, je_FinishedAt := ae_now env,
                          je_LogLength := localLogSize (ag_journal a) (je_ExecutionID entry)\<rparr>
        in case save_entry env k entry a of
             (False, a') \<Rightarrow> return_to True rest a'
           | (True, a') \<Rightarrow> node a' (Completing entry True rest))"

section \<open>Running the script\<close>

text \<open>\<^verbatim>\<open>runExecution\<close> up to the durable record that the script is about to start.\<close>

definition runExecution_prepare :: "agent_env \<Rightarrow> journalEntry \<Rightarrow> journalEntry list \<Rightarrow> Agent \<Rightarrow> AgentNode" where
  "runExecution_prepare env entry rest a =
     (let assignment = je_Assignment entry; i = asg_ExecutionID assignment;
          fail = (\<lambda>e a. execution_ended env 1 entry (agentFailure e) rest a)
      in case ae_open env of
        Some e \<Rightarrow> fail e a
      | None \<Rightarrow>
      (case resolveExecutionWorkdir (ae_abs env) (ae_symlinks env) (ag_runtime a) assignment of
        Inl e \<Rightarrow> fail (ae_path_text env e) (append_log i (ae_lines env) a)
      | Inr workdir \<Rightarrow>
      (case ae_script_io env of
        Some e \<Rightarrow> fail e (append_log i (ae_lines env) a)
      | None \<Rightarrow>
      (case ae_pipe_io env of
        Some e \<Rightarrow> fail e (append_log i (ae_lines env) a)
      | None \<Rightarrow>
        (let entry = entry\<lparr>je_Phase := journalStarted, je_StartedAt := ae_now env\<rparr>
         in case save_entry env 0 entry (append_log i (ae_lines env) a) of
              (False, a') \<Rightarrow> execution_ended env 1 entry (agentFailure (ae_save_text env)) rest a'
            | (True, a') \<Rightarrow> node a' (Starting entry rest))))))"

text \<open>\<^verbatim>\<open>cmd.Start\<close>: the script is launched (the second component names it) or never runs.\<close>

definition runExecution_start :: "agent_env \<Rightarrow> journalEntry \<Rightarrow> journalEntry list \<Rightarrow> Agent \<Rightarrow> AgentNode \<times> string list" where
  "runExecution_start env entry rest a =
     (case ae_start env of
        Inl e \<Rightarrow>
          (let entry = entry\<lparr>je_Phase := journalPermitted\<rparr>;
               a' = append_log (asg_ExecutionID (je_Assignment entry)) (ae_lines env) (snd (save_entry env 0 entry a))
           in (execution_ended env 1 entry (agentFailure e) rest a', []))
      | Inr pid \<Rightarrow> (node a (Launched entry pid rest), [je_ExecutionID entry]))"

definition runExecution_record :: "agent_env \<Rightarrow> journalEntry \<Rightarrow> int \<Rightarrow> journalEntry list \<Rightarrow> Agent \<Rightarrow> AgentNode" where
  "runExecution_record env entry pid rest a =
     (let entry = entry\<lparr>je_PID := pid, je_PGID := pid\<rparr>;
          entry = (case processStartToken (ae_host env 0) pid of
                     Inr token \<Rightarrow> entry\<lparr>je_ProcessToken := token\<rparr>
                   | Inl e \<Rightarrow> entry\<lparr>je_ProcessTokenError := e\<rparr>)
      in case save_entry env 0 entry a of
           (False, a') \<Rightarrow> execution_ended env 1 entry (agentFailure (ae_save_text env)) rest a'
         | (True, a') \<Rightarrow> node a' (Supervising entry rest))"

definition runExecution_finish :: "agent_env \<Rightarrow> journalEntry \<Rightarrow> journalEntry list \<Rightarrow> Agent \<Rightarrow> AgentNode" where
  "runExecution_finish env entry rest a =
     (let timed_out = (ae_timer env \<and> execution_timeout (ae_parse env) entry \<noteq> None);
          canceled = (ae_cancel_seen env \<and> \<not> timed_out \<and> ag_cancel a = Some True);
          oc = superviseExecution entry timed_out canceled (ae_end env);
          a' = append_log (asg_ExecutionID (je_Assignment entry)) (ae_lines env) a;
          oc = (case ae_sync env of
                       Some e \<Rightarrow> if out_Status oc = execAbandoned then oc
                                 else oc\<lparr>out_Error := joinMessages [out_Error oc, e]\<rparr>
                     | None \<Rightarrow> oc)
      in execution_ended env 0 entry oc rest a')"

section \<open>Recovering\<close>

text \<open>Waiting for a killed process group to end: the verdict is taken again until it says so or the
  grace period is over.\<close>

fun orphan_wait :: "(nat \<Rightarrow> host) \<Rightarrow> journalEntry \<Rightarrow> nat \<Rightarrow> nat \<Rightarrow> orphanVerdict \<Rightarrow> orphanVerdict" where
  "orphan_wait hosts entry k 0 verdict = verdict"
| "orphan_wait hosts entry k (Suc polls) verdict =
     (let verdict = verifyOrphan (hosts k) entry
      in if ov_Ended verdict then verdict else orphan_wait hosts entry (Suc k) polls verdict)"

text \<open>The run a restart interrupted is over: it is journalled as aborted, then reported.\<close>

definition recover_ended :: "agent_env \<Rightarrow> journalEntry \<Rightarrow> string \<Rightarrow> journalEntry list \<Rightarrow> Agent \<Rightarrow> AgentNode" where
  "recover_ended env entry details rest a =
     (let entry = entry\<lparr>je_Phase := journalFinished, je_Status := StatusAborted, je_ExitCode := - 1,
                        je_FailureReason := FailureReasonAgent,
                        je_Error := ''agent restarted while the run was in progress: '' @ details,
                        je_FinishedAt := ae_now env,
                        je_LogLength := localLogSize (ag_journal a) (je_ExecutionID entry)\<rparr>
      in case save_entry env 0 entry a of
           (False, a') \<Rightarrow> node a' (Recovering rest)
         | (True, a') \<Rightarrow> node a' (Completing entry False rest))"

text \<open>The second component is the process group killed, if any.\<close>

definition recoverStarted ::
    "agent_env \<Rightarrow> journalEntry \<Rightarrow> journalEntry list \<Rightarrow> Agent \<Rightarrow> Controller \<Rightarrow> AgentNode \<times> int option \<times> Controller" where
  "recoverStarted env entry rest a c =
     (let first = verifyOrphan (ae_host env 0) entry;
          kill = (\<not> ov_Ended first \<and> ov_Owned first);
          killed = (if kill then Some (je_PGID entry) else None);
          verdict = (if kill then orphan_wait (ae_host env) entry 1 (ae_kill_polls env) first else first)
      in if \<not> ov_Ended verdict then
           (case blockExecution env entry (ov_Details verdict) a c of
              (a', c') \<Rightarrow> (node a' (Recovering rest), killed, c'))
         else (recover_ended env entry (ov_Details verdict) rest a, killed, c))"

text \<open>One entry of the loop of \<^verbatim>\<open>recover\<close>.\<close>

definition recover_entry ::
    "agent_env \<Rightarrow> journalEntry \<Rightarrow> journalEntry list \<Rightarrow> Agent \<Rightarrow> Controller \<Rightarrow> AgentNode \<times> Controller" where
  "recover_entry env entry rest a c =
     (let phase = je_Phase entry; i = je_ExecutionID entry in
      if phase = journalReported then (node (remove_entry env 0 i a) (Recovering rest), c)
      else if phase = journalFinished then (node a (Completing entry False rest), c)
      else if phase = journalStarted then
        (case recoverStarted env entry rest a c of (n, _, c') \<Rightarrow> (n, c'))
      else if phase = journalBlocked then (node (markBlocked i a) (Recovering rest), c)
      else if phase = journalAccepted \<or> phase = journalPermitted then (runAssignment entry rest a, c)
      else (node a (Recovering rest), c))"

section \<open>The main loop\<close>

text \<open>\<^verbatim>\<open>resumePending\<close>: what it does with the first entry the journal still owns, \<open>None\<close> when there is
  nothing to do.\<close>

fun resume_entries :: "agent_env \<Rightarrow> journalEntry list \<Rightarrow> Agent \<Rightarrow> AgentNode option" where
  "resume_entries env [] a = None"
| "resume_entries env (entry # rest) a =
     (let phase = je_Phase entry in
      if phase = journalAccepted \<or> phase = journalPermitted then Some (runAssignment entry [] a)
      else if phase = journalFinished then Some (node a (Completing entry False []))
      else if phase = journalReported then
        Some (node (remove_entry env 0 (je_ExecutionID entry) a) (Recovering []))
      else resume_entries env rest a)"

definition resumePending :: "agent_env \<Rightarrow> Agent \<Rightarrow> AgentNode option" where
  "resumePending env a =
     (case List (ae_dir_fails env) (ae_unreadable env) (ag_journal a) of
        None \<Rightarrow> None
      | Some entries \<Rightarrow> resume_entries env entries a)"

fun wait_blocked_loop :: "agent_env \<Rightarrow> nat \<Rightarrow> string list \<Rightarrow> Agent \<Rightarrow> Controller \<Rightarrow> Agent \<times> Controller" where
  "wait_blocked_loop env k [] a c = (a, c)"
| "wait_blocked_loop env k (i # ids) a c =
     (case client_Heartbeat (ae_net env k) (op_now (ae_op env k)) (agent_id a) (ag_version a) i agentStateBlocked c of
        (Inl _, c') \<Rightarrow> wait_blocked_loop env (Suc k) ids a c'
      | (Inr response, c') \<Rightarrow>
          if \<not> hb_Known response \<or> isExecutionTerminal (hb_Status response)
          then wait_blocked_loop env (Suc k) ids (remove_entry env k i (clearBlocked i a)) c'
          else wait_blocked_loop env (Suc k) ids a c')"

definition waitBlocked :: "agent_env \<Rightarrow> Agent \<Rightarrow> Controller \<Rightarrow> Agent \<times> Controller" where
  "waitBlocked env a c = wait_blocked_loop env 0 (ag_blocked a) a c"

text \<open>The head of the loop of \<^verbatim>\<open>Run\<close>, up to the poll.\<close>

definition run_loop :: "agent_env \<Rightarrow> Agent \<Rightarrow> Controller \<Rightarrow> AgentNode \<times> Controller" where
  "run_loop env a c =
     (if isBlocked a then (case waitBlocked env a c of (a', c') \<Rightarrow> (node a' (Recovering []), c'))
      else case resumePending env a of
        Some n \<Rightarrow> (n, c)
      | None \<Rightarrow>
          (case call (ae_net env 0) (agentAPIPrefix @ ''poll'')
                  (poll_begin (ae_poll env) (agent_id a)
                     (Some \<lparr>plq_AgentID = agent_id a, plq_Version = ag_version a,
                            plq_CurrentExecutionID = ag_current a,
                            plq_KnownExecutions = IDs (ae_dir_fails env) (ae_unreadable env) (ag_journal a)\<rparr>) c) c of
             (Inl _, c') \<Rightarrow> (node a (Recovering []), c')
           | (Inr unknown, c') \<Rightarrow> (node a (Polling unknown), c')))"

text \<open>The controller holds the poll until it has something to say or the deadline passes; the agent
  gives up when the answer is lost.\<close>

definition poll_wait :: "agent_env \<Rightarrow> string list \<Rightarrow> Agent \<Rightarrow> Controller \<Rightarrow> AgentNode" where
  "poll_wait env unknown a c =
     (let response = poll_response (agent_id a) unknown c in
      if ae_net env 0 \<noteq> Delivered then node a (Recovering [])
      else if poll_ready response \<or> ae_deadline env then node a (GotResponse response)
      else node a (Polling unknown))"

definition handleAssignment :: "agent_env \<Rightarrow> AgentAssignment \<Rightarrow> Agent \<Rightarrow> AgentNode" where
  "handleAssignment env assignment a =
     (let proceed = (\<lambda>entry a.
            if je_Phase entry = journalStarted \<or> je_Phase entry = journalFinished \<or> je_Phase entry = journalReported
            then node a (Recovering []) else runAssignment entry [] a)
      in case Load (ae_unreadable env) (ag_journal a) (asg_ExecutionID assignment) of
           Some entry \<Rightarrow> proceed entry a
         | None \<Rightarrow>
             (let entry = \<lparr>je_ExecutionID = asg_ExecutionID assignment, je_Phase = journalAccepted,
                           je_Assignment = assignment, je_AcceptedAt = ae_now env, je_PermittedAt = 0,
                           je_StartedAt = 0, je_FinishedAt = 0, je_PID = 0, je_PGID = 0,
                           je_ProcessToken = '''', je_ProcessTokenError = '''', je_Status = '''',
                           je_ExitCode = - 1, je_Error = '''', je_FailureReason = '''', je_LogLength = 0,
                           je_ResultAcked = False, je_Attention = ''''\<rparr>
              in case save_entry env 0 entry a of
                   (False, a') \<Rightarrow> node a' (Recovering [])
                 | (True, a') \<Rightarrow> proceed entry a'))"

definition poll_answered :: "agent_env \<Rightarrow> AgentPollResponse \<Rightarrow> Agent \<Rightarrow> AgentNode" where
  "poll_answered env response a0 =
     (let a = fold requestCancel (plr_CancelRequested response) a0
      in case plr_Assignment response of
           None \<Rightarrow> node a (Recovering [])
         | Some assignment \<Rightarrow> handleAssignment env assignment a)"

section \<open>Steps\<close>

text \<open>One step of the main goroutine: the node and the controller afterwards, and the scripts
  launched.\<close>

definition agent_step ::
    "agent_env \<Rightarrow> AgentNode \<Rightarrow> Controller \<Rightarrow> AgentNode \<times> string list \<times> Controller" where
  "agent_step env n c =
     (let a = nd_agent n; quiet = (\<lambda>(n', c'). (n', [], c')) in
      case nd_pc n of
        Off \<Rightarrow> (n, [], c)
      | Recovering [] \<Rightarrow> quiet (run_loop env a c)
      | Recovering (entry # rest) \<Rightarrow> quiet (recover_entry env entry rest a c)
      | AskingPermit entry attempts rest \<Rightarrow> quiet (requestPermit env entry attempts rest a c)
      | Launching entry rest \<Rightarrow> (runExecution_prepare env entry rest a, [], c)
      | Starting entry rest \<Rightarrow> (case runExecution_start env entry rest a of (n', started) \<Rightarrow> (n', started, c))
      | Launched entry pid rest \<Rightarrow> (runExecution_record env entry pid rest a, [], c)
      | Supervising entry rest \<Rightarrow> (runExecution_finish env entry rest a, [], c)
      | Completing entry in_run rest \<Rightarrow> quiet (completeExecution env entry in_run rest a c)
      | Polling unknown \<Rightarrow> (poll_wait env unknown a c, [], c)
      | GotResponse response \<Rightarrow> (poll_answered env response a, [], c))"

text \<open>One beat of \<^verbatim>\<open>heartbeatLoop\<close>, one round of \<^verbatim>\<open>streamLog\<close>, and output of the running script.\<close>

definition heartbeat_step :: "agent_env \<Rightarrow> AgentNode \<Rightarrow> Controller \<Rightarrow> AgentNode \<times> Controller" where
  "heartbeat_step env n c =
     (let a = nd_agent n; current = ag_current a in
      case client_Heartbeat (ae_net env 0) (op_now (ae_op env 0)) (agent_id a) (ag_version a) current (ag_state a) c of
        (Inl _, c') \<Rightarrow> (n, c')
      | (Inr response, c') \<Rightarrow>
          (if current \<noteq> '''' \<and> hb_CancelRequested response then n\<lparr>nd_agent := requestCancel current a\<rparr> else n, c'))"

definition streaming :: "agent_pc \<Rightarrow> string option" where
  "streaming pc =
     (case pc of
        Launching entry rest \<Rightarrow> Some (je_ExecutionID entry)
      | Starting entry rest \<Rightarrow> Some (je_ExecutionID entry)
      | Launched entry pid rest \<Rightarrow> Some (je_ExecutionID entry)
      | Supervising entry rest \<Rightarrow> Some (je_ExecutionID entry)
      | _ \<Rightarrow> None)"

definition stream_step :: "agent_env \<Rightarrow> AgentNode \<Rightarrow> Controller \<Rightarrow> AgentNode \<times> Controller" where
  "stream_step env n c =
     (case streaming (nd_pc n) of
        None \<Rightarrow> (n, c)
      | Some i \<Rightarrow> (case flush_node env i (nd_agent n) c of (_, a', c') \<Rightarrow> (n\<lparr>nd_agent := a'\<rparr>, c')))"

definition output_step :: "agent_env \<Rightarrow> AgentNode \<Rightarrow> AgentNode" where
  "output_step env n =
     (case nd_pc n of
        Supervising entry rest \<Rightarrow>
          n\<lparr>nd_agent := append_log (asg_ExecutionID (je_Assignment entry)) (ae_lines env) (nd_agent n)\<rparr>
      | _ \<Rightarrow> n)"

text \<open>The process dies; later a new one starts on the same spool and runs \<^verbatim>\<open>recover\<close>.\<close>

definition crash_node :: "AgentNode \<Rightarrow> AgentNode" where
  "crash_node n = n\<lparr>nd_pc := Off\<rparr>"

definition boot_node :: "agent_env \<Rightarrow> AgentNode \<Rightarrow> AgentNode" where
  "boot_node env n =
     (case nd_pc n of
        Off \<Rightarrow>
          (let a = newAgent (ag_runtime (nd_agent n)) (ag_version (nd_agent n)) (ag_journal (nd_agent n))
           in node a (Recovering (case List (ae_dir_fails env) (ae_unreadable env) (ag_journal a) of
                                    None \<Rightarrow> [] | Some entries \<Rightarrow> entries)))
      | _ \<Rightarrow> n)"


end
