(* ===== verification/Fleet.thy ===== *)
theory Fleet
  imports Agent_Steps Agent_Props
begin

text \<open>
  A controller and its agents as one system.  The controller moves by the steps of
  \<^verbatim>\<open>Ctrl_System\<close> (requests of users, late or repeated requests of agents, the scheduler, restarts),
  every agent by the steps of \<^verbatim>\<open>Agent_Steps\<close>, and an agent may die at any point and start again on its
  spool.  The system also records which scripts were launched where, which permits reached which
  agent, and which execution identifiers were ever in use.
\<close>

section \<open>The system\<close>

record Fleet =
  fl_ctrl :: Controller
  fl_nodes :: "string \<Rightarrow> AgentNode"
  fl_starts :: "(string \<times> string) list"
  fl_permits :: "(string \<times> string) list"
  fl_used :: "string list"

definition recorded_ids :: "Controller \<Rightarrow> string list" where
  "recorded_ids c = map ex_ID (sd_Executions (st_data (c_store c)))"

text \<open>Identifiers of new executions have never been in use and are plain file names; this is what
  \<^verbatim>\<open>newExecutionID\<close> (a time stamp and random digits) is relied on for.\<close>

definition fresh_ids :: "string list \<Rightarrow> Controller \<Rightarrow> Controller \<Rightarrow> bool" where
  "fresh_ids used c c' \<longleftrightarrow>
     list_all (\<lambda>i. i \<in> set (recorded_ids c) \<or> (i \<notin> set used \<and> path_base i = i)) (recorded_ids c')"

text \<open>The permit that reaches an agent in a step.\<close>

definition permit_received :: "agent_env \<Rightarrow> AgentNode \<Rightarrow> Controller \<Rightarrow> string list" where
  "permit_received env n c =
     (case nd_pc n of
        AskingPermit entry (Suc left) rest \<Rightarrow>
          (case fst (client_Permit (ae_net env 0) (ae_op env 0) (agent_id (nd_agent n)) (je_ExecutionID entry) c) of
             Inr permit \<Rightarrow> if prm_Granted permit then [je_ExecutionID entry] else []
           | Inl _ \<Rightarrow> [])
      | _ \<Rightarrow> [])"

definition fleet_agent_step :: "agent_env \<Rightarrow> string \<Rightarrow> Fleet \<Rightarrow> Fleet" where
  "fleet_agent_step env a f =
     (case agent_step env (fl_nodes f a) (fl_ctrl f) of (n', started, c') \<Rightarrow>
        f\<lparr>fl_ctrl := c', fl_nodes := (fl_nodes f)(a := n'),
          fl_starts := fl_starts f @ map (Pair a) started,
          fl_permits := fl_permits f @ map (Pair a) (permit_received env (fl_nodes f a) (fl_ctrl f))\<rparr>)"

inductive fleet_step :: "Fleet \<Rightarrow> Fleet \<Rightarrow> bool" where
  controller: "store_step (c_store (fl_ctrl f)) (c_store c') \<Longrightarrow> named_agents c' \<Longrightarrow>
     fresh_ids (fl_used f) (fl_ctrl f) c' \<Longrightarrow>
     fleet_step f (f\<lparr>fl_ctrl := c', fl_used := recorded_ids c' @ fl_used f\<rparr>)"
| agent: "fleet_step f (fleet_agent_step env a f)"
| heartbeat: "heartbeat_step env (fl_nodes f a) (fl_ctrl f) = (n', c') \<Longrightarrow>
     fleet_step f (f\<lparr>fl_ctrl := c', fl_nodes := (fl_nodes f)(a := n')\<rparr>)"
| stream: "stream_step env (fl_nodes f a) (fl_ctrl f) = (n', c') \<Longrightarrow>
     fleet_step f (f\<lparr>fl_ctrl := c', fl_nodes := (fl_nodes f)(a := n')\<rparr>)"
| script_output: "fleet_step f (f\<lparr>fl_nodes := (fl_nodes f)(a := output_step env (fl_nodes f a))\<rparr>)"
| crash: "fleet_step f (f\<lparr>fl_nodes := (fl_nodes f)(a := crash_node (fl_nodes f a))\<rparr>)"
| boot: "fleet_step f (f\<lparr>fl_nodes := (fl_nodes f)(a := boot_node env (fl_nodes f a))\<rparr>)"

definition initial_fleet :: "Fleet \<Rightarrow> bool" where
  "initial_fleet f \<longleftrightarrow>
     initial_store (c_store (fl_ctrl f)) \<and> named_agents (fl_ctrl f)
     \<and> (\<forall>a. nd_pc (fl_nodes f a) = Off \<and> agent_id (nd_agent (fl_nodes f a)) = a
            \<and> jr_entries (ag_journal (nd_agent (fl_nodes f a))) = [])
     \<and> fl_starts f = [] \<and> fl_permits f = [] \<and> fl_used f = []"

inductive fleet_reachable :: "Fleet \<Rightarrow> bool" where
  start: "initial_fleet f \<Longrightarrow> fleet_reachable f"
| step: "fleet_reachable f \<Longrightarrow> fleet_step f f' \<Longrightarrow> fleet_reachable f'"

section \<open>Steps that create no execution\<close>

definition quiet_step :: "ControllerStore \<Rightarrow> ControllerStore \<Rightarrow> bool" where
  "quiet_step s s' \<longleftrightarrow> store_step s s' \<and> ex_ID ` set (sd_Executions (st_data s')) \<subseteq> ex_ID ` set (sd_Executions (st_data s))"

abbreviation quiet :: "ControllerStore \<Rightarrow> ControllerStore \<Rightarrow> bool" where
  "quiet \<equiv> quiet_step\<^sup>*\<^sup>*"

lemma ids_within: "snapshot_property (\<lambda>d. ex_ID ` set (sd_Executions d) \<subseteq> S)"
  by unfold_locales (use prune_subset in fastforce)+

lemma ids_mutate:
  assumes "mutate io fn s = (r, e, s')"
    and "\<And>r d. fn (st_data s) = (r, Inr d) \<Longrightarrow> ex_ID ` set (sd_Executions d) \<subseteq> ex_ID ` set (sd_Executions (st_data s))"
  shows "ex_ID ` set (sd_Executions (st_data s')) \<subseteq> ex_ID ` set (sd_Executions (st_data s))"
  by (rule snapshot_property.I_mutate [OF ids_within, of s "ex_ID ` set (sd_Executions (st_data s))" io fn r e s'])
     (use assms in auto)

lemma ids_map: "map ex_ID (sd_Executions d) = map ex_ID (sd_Executions d') \<Longrightarrow>
  ex_ID ` set (sd_Executions d) \<subseteq> ex_ID ` set (sd_Executions d')"
  by (metis set_map subset_refl)

lemma quiet_txn:
  assumes "mutate io fn s = (r, e, s')" "store_step s s'"
    and "\<And>r d. fn (st_data s) = (r, Inr d) \<Longrightarrow> map ex_ID (sd_Executions d) = map ex_ID (sd_Executions (st_data s))"
  shows "quiet_step s s'"
  unfolding quiet_step_def using assms(2) ids_mutate [OF assms(1) ids_map] assms(3) by blast

lemma ids_Reconcile: "Reconcile_txn a known st = (r, Inr d) \<Longrightarrow> map ex_ID (sd_Executions d) = map ex_ID (sd_Executions st)"
  by (auto simp: Reconcile_txn_def split: prod.splits if_splits)
     (metis reconcile_loop_ids snd_conv)

lemma ids_Grant: "GrantPermit_txn now a i st = (r, Inr d) \<Longrightarrow> map ex_ID (sd_Executions d) = map ex_ID (sd_Executions st)"
  by (auto simp: GrantPermit_txn_def grant_def split: option.splits if_splits)

lemma ids_truncated: "markLogTruncated_txn i st = (r, Inr d) \<Longrightarrow> map ex_ID (sd_Executions d) = map ex_ID (sd_Executions st)"
  by (auto simp: markLogTruncated_txn_def split: option.splits if_splits)

lemma ids_Submit: "SubmitResult_txn now rq status sz st = (r, Inr d) \<Longrightarrow> map ex_ID (sd_Executions d) = map ex_ID (sd_Executions st)"
  by (auto simp: SubmitResult_txn_def split: option.splits if_splits)

lemma ids_Report: "ReportAttention_txn a i m st = (r, Inr d) \<Longrightarrow> map ex_ID (sd_Executions d) = map ex_ID (sd_Executions st)"
  by (auto simp: ReportAttention_txn_def split: option.splits if_splits)

lemma ids_schedule: "scheduleOnce_txn now av st = (r, Inr d) \<Longrightarrow> map ex_ID (sd_Executions d) = map ex_ID (sd_Executions st)"
  using ids_run_plan by (auto simp: scheduleOnce_txn_plan split: if_splits)

lemma quiet_refl_log: "quiet_step s (s\<lparr>st_logs := logs\<rparr>)"
  by (simp add: quiet_step_def store_step.log_files)

lemma quiet_offset: "quiet_step s (SetLogOffset i n s)"
proof -
  have "map ex_ID (sd_Executions (st_data (SetLogOffset i n s))) = map ex_ID (sd_Executions (st_data s))"
    by (simp add: SetLogOffset_def)
  then show ?thesis by (simp add: quiet_step_def store_step.log_offset ids_map)
qed

interpretation calm: agent_requests quiet_step
proof
  show "quiet_step s s'" if "'''' \<notin> fst ` set available" "mutate io (scheduleOnce_txn now available) s = (r, e, s')"
    for available io now s r e s'
    using that by (rule quiet_txn [OF that(2) store_step.schedule]) (rule ids_schedule)
  show "quiet_step s s'" if "mutate io (Reconcile_txn agent known) s = (rs, e, s')" for io agent known s rs e s'
    by (rule quiet_txn [OF that store_step.reconcile [OF that]]) (rule ids_Reconcile)
  show "quiet_step s s'" if "mutate io (GrantPermit_txn now agent i) s = (rp, e, s')" for io now agent i s rp e s'
    by (rule quiet_txn [OF that store_step.permit [OF that]]) (rule ids_Grant)
  show "quiet_step s s'" if "mutate io (markLogTruncated_txn i) s = (r, e, s')" for io i s r e s'
    by (rule quiet_txn [OF that store_step.truncated [OF that]]) (rule ids_truncated)
  show "quiet_step s s'" if "isExecutionTerminal status" "mutate io (SubmitResult_txn now request status sz) s = (r, e, s')"
    for status io now request sz s r e s'
    by (rule quiet_txn [OF that(2) store_step.result [OF that]]) (rule ids_Submit)
  show "quiet_step s s'" if "mutate io (ReportAttention_txn agent i msg) s = (r, e, s')" for io agent i msg s r e s'
    by (rule quiet_txn [OF that store_step.attention [OF that]]) (rule ids_Report)
qed (rule quiet_offset, rule quiet_refl_log)

section \<open>The requests of an agent\<close>

text \<open>What a call of an agent leaves of a controller: the same configuration, and a store reached by
  the steps the locale allows.\<close>

context agent_requests
begin

definition serves :: "Controller \<Rightarrow> Controller \<Rightarrow> bool" where
  "serves c c' \<longleftrightarrow> R\<^sup>*\<^sup>* (c_store c) (c_store c') \<and> c_cfg c' = c_cfg c"

lemma serves_refl [simp, intro]: "serves c c"
  by (simp add: serves_def)

lemma serves_trans [trans]: "serves c c' \<Longrightarrow> serves c' c'' \<Longrightarrow> serves c c''"
  by (auto simp: serves_def)

lemma serves_named: "serves c c' \<Longrightarrow> named_agents c \<Longrightarrow> named_agents c'"
  by (simp add: serves_def named_agents_def)

lemma serves_seen [simp]: "serves (markAgentSeen now a v c) c' = serves c c'"
  by (simp add: serves_def)

lemma bound_serves:
  assumes "with_bound_agent invalid c who body agent_of k = (rep, c')"
    and "\<And>rq. k rq = (rep, c') \<Longrightarrow> serves c c'"
  shows "serves c c'"
  using assms(1) by (rule with_bound_agent_cases) (use assms(2) in auto)

lemma handleAgentPermit_serves: "handleAgentPermit env who body c = (rep, c') \<Longrightarrow> serves c c'"
  unfolding handleAgentPermit_def
  by (erule bound_serves)
     (auto simp: serves_def dest: GrantPermit_R split: prod.splits sum.splits)

lemma handleAgentHeartbeat_serves: "handleAgentHeartbeat now who body c = (rep, c') \<Longrightarrow> serves c c'"
  unfolding handleAgentHeartbeat_def
  by (erule bound_serves) (auto simp: serves_def Heartbeat_def Let_def split: if_splits)

lemma handleAgentLog_serves: "handleAgentLog lio env who body c = (rep, c') \<Longrightarrow> serves c c'"
  unfolding handleAgentLog_def
  by (erule bound_serves) (auto simp: serves_def dest: AppendLog_R split: prod.splits sum.splits)

lemma handleAgentResult_serves:
  assumes "named_agents c" "handleAgentResult sf env who body c = (rep, c')" shows "serves c c'"
proof -
  have "named_agents (markAgentSeen (op_now env) who '''' c)" using assms(1) by (simp add: named_agents_def)
  from SubmitResult_R [OF this] assms(2) show ?thesis
    unfolding handleAgentResult_def
    by (elim bound_serves) (auto simp: serves_def split: prod.splits sum.splits)
qed

lemma handleAgentAttention_serves: "handleAgentAttention env who body c = (rep, c') \<Longrightarrow> serves c c'"
  unfolding handleAgentAttention_def
  by (erule bound_serves)
     (auto simp: serves_def dest: ReportAttention_R split: prod.splits option.splits if_splits)

lemma poll_begin_serves:
  assumes "named_agents c" "poll_begin env who body c = (rep, c')" shows "serves c c'"
  using assms(2) unfolding poll_begin_def
proof (rule bound_serves)
  fix rq
  let ?c1 = "markAgentSeen (pe_now env) who (plq_Version rq) c"
  obtain r c2 where r: "Reconcile (pe_io env) who (plq_KnownExecutions rq) ?c1 = (r, c2)" by fastforce
  from Reconcile_R [OF r] have s2: "serves c c2" by (simp add: serves_def)
  obtain e c3 where e: "scheduleOnce (pe_sched env) c2 = (e, c3)" by fastforce
  from scheduleOnce_R [OF serves_named [OF s2 assms(1)] e] have s3: "serves c2 c3" by (simp add: serves_def)
  assume "(let c1 = ?c1 in case Reconcile (pe_io env) who (plq_KnownExecutions rq) c1 of
         (Inl _, c2) \<Rightarrow> (Refused 500 '''', c2)
       | (Inr unknown, c2) \<Rightarrow>
           (case scheduleOnce (pe_sched env) c2 of
              (Some _, c3) \<Rightarrow> (Refused 500 '''', c3)
            | (None, c3) \<Rightarrow> (Answer unknown, c3))) = (rep, c')"
  then have "c' = c2 \<or> c' = c3" using r e by (auto simp: Let_def split: sum.splits option.splits)
  with s2 s3 show "serves c c'" by (auto intro: serves_trans)
qed

lemma call_serves:
  assumes "call n path handled c = (r, c')" "serves c (snd handled)"
  shows "serves c c'"
  using assms by (auto simp: call_def split: net.splits prod.splits reply.splits)

lemma client_serves:
  "client_Permit n env a i c = (rp, c') \<Longrightarrow> serves c c'"
  "client_Heartbeat n now a v i st c = (rh, c') \<Longrightarrow> serves c c'"
  "client_UploadLog n lio env a i off data c = (ru, c') \<Longrightarrow> serves c c'"
  "client_ReportAttention n env a i msg c = (ra, c') \<Longrightarrow> serves c c'"
  "named_agents c \<Longrightarrow> client_SubmitResult n sf env a rq c = (rs, c') \<Longrightarrow> serves c c'"
  unfolding client_Permit_def client_Heartbeat_def client_UploadLog_def client_ReportAttention_def
    client_SubmitResult_def
  using handleAgentPermit_serves handleAgentHeartbeat_serves handleAgentLog_serves
    handleAgentAttention_serves handleAgentResult_serves
  by (metis call_serves prod.collapse)+

lemma flush_loop_serves:
  assumes "\<And>k off data c r c'. upload k off data c = (r, c') \<Longrightarrow> serves c c'"
    and "flush_loop lf upload i k n acked m c = (r, m', c')"
  shows "serves c c'"
  using assms(2)
proof (induction n arbitrary: k acked m c)
  case (Suc n)
  show ?case
  proof (cases "c' = c")
    case False
    with Suc.prems obtain bytes c1 ru where
      u: "upload k acked bytes c = (ru, c1)" and
      r: "c' = c1 \<or> (\<exists>next m1. flush_loop lf upload i (Suc k) n next m1 c1 = (r, m', c'))"
      by (simp add: Let_def split: option.splits if_splits prod.splits sum.splits) blast+
    from r show ?thesis using assms(1) [OF u] Suc.IH serves_trans by blast
  qed simp
qed simp

lemma flush_node_serves:
  assumes "flush_node env i a c = (r, a', c')" shows "serves c c'"
proof -
  let ?up = "\<lambda>k offset data c. case ae_upload env k of (n, lio, oe) \<Rightarrow>
                      client_UploadLog n lio oe (agent_id a) i offset data c"
  have up: "serves x y" if "?up k off data x = (ru, y)" for k off data x ru y
    using that client_serves(3) by (auto split: prod.splits)
  from assms show ?thesis unfolding flush_node_def flushLog_def Let_def
    by (auto split: option.splits prod.splits sum.splits intro: flush_loop_serves [OF up])
qed

lemma blockExecution_serves: "blockExecution env e d a c = (a', c') \<Longrightarrow> serves c c'"
  unfolding blockExecution_def Let_def using client_serves(4) by (auto split: prod.splits)

lemma abandonExecution_serves: "abandonExecution env e rs er a c = (a', c') \<Longrightarrow> serves c c'"
  unfolding abandonExecution_def Let_def using blockExecution_serves by (auto split: prod.splits)

lemma completeExecution_serves:
  assumes "named_agents c" "completeExecution env e b rest a c = (n', c')" shows "serves c c'"
proof -
  obtain r a1 c1 where f: "flush_node env (je_ExecutionID e) (setState agentStateUploading a) c = (r, a1, c1)"
    by (metis surj_pair)
  note s1 = flush_node_serves [OF f]
  show ?thesis
  proof (cases r)
    case (Inl err)
    with f assms(2) obtain a2 where "c' = c1 \<or> (\<exists>rs. abandonExecution env e rs err a1 c1 = (a2, c'))"
      by (auto simp: completeExecution_def Let_def split: if_splits prod.splits)
    with s1 abandonExecution_serves serves_trans show ?thesis by blast
  next
    case (Inr acked)
    obtain rs c2 where sub: "client_SubmitResult (ae_net env 0) (ae_stat_fails env) (ae_op env 0) (agent_id a1)
                  (result_request e) c1 = (rs, c2)" by fastforce
    have s2: "serves c c2"
      using client_serves(5) [OF serves_named [OF s1 assms(1)] sub] s1 by (rule serves_trans [rotated])
    have "c' = c2 \<or> (\<exists>x err a2. abandonExecution env e x err a1 c2 = (a2, c'))"
      using f Inr sub assms(2)
      by (auto simp: completeExecution_def Let_def split: if_splits prod.splits sum.splits)
    with s2 abandonExecution_serves serves_trans show ?thesis by blast
  qed
qed

lemma requestPermit_serves: "requestPermit env e k rest a c = (n', c') \<Longrightarrow> serves c c'"
  unfolding requestPermit_def using client_serves(1)
  by (fastforce split: nat.splits prod.splits sum.splits if_splits)

lemma recover_entry_serves: "recover_entry env e rest a c = (n', c') \<Longrightarrow> serves c c'"
  unfolding recover_entry_def recoverStarted_def Let_def using blockExecution_serves
  by (fastforce split: if_splits prod.splits bool.splits)

lemma wait_blocked_serves: "wait_blocked_loop env k ids a c = (a', c') \<Longrightarrow> serves c c'"
proof (induction ids arbitrary: k a c)
  case (Cons i ids)
  obtain r c1 where h: "client_Heartbeat (ae_net env k) (op_now (ae_op env k)) (agent_id a) (ag_version a) i
      agentStateBlocked c = (r, c1)" by fastforce
  have "\<exists>k1 a1. wait_blocked_loop env k1 ids a1 c1 = (a', c')"
    using Cons.prems h by (auto split: sum.splits if_splits)
  with Cons.IH client_serves(2) [OF h] serves_trans show ?case by blast
qed simp

lemma run_loop_serves:
  assumes "named_agents c" "run_loop env a c = (n', c')" shows "serves c c'"
proof -
  have "serves c c'" if "call n path (poll_begin pe who body c) c = (r, c')" for n path pe who body r
    by (rule call_serves [OF that]) (metis poll_begin_serves [OF assms(1)] prod.collapse)
  with assms(2) wait_blocked_serves show ?thesis
    unfolding run_loop_def waitBlocked_def
    by (auto split: if_splits prod.splits option.splits sum.splits)
qed

lemma agent_step_serves:
  assumes "named_agents c" "agent_step env n c = (n', started, c')" shows "serves c c'"
  using assms(2) run_loop_serves [OF assms(1)] recover_entry_serves requestPermit_serves
    completeExecution_serves [OF assms(1)]
  unfolding agent_step_def Let_def
  by (auto split: agent_pc.splits list.splits prod.splits)

lemma heartbeat_step_serves: "heartbeat_step env n c = (n', c') \<Longrightarrow> serves c c'"
  unfolding heartbeat_step_def Let_def using client_serves(2) by (auto split: prod.splits sum.splits)

lemma stream_step_serves: "stream_step env n c = (n', c') \<Longrightarrow> serves c c'"
  unfolding stream_step_def using flush_node_serves by (auto split: option.splits prod.splits)

end

end
