(* ===== verification/Fleet_Nodes.thy ===== *)
theory Fleet_Nodes
  imports Fleet
begin

text \<open>
  The invariant of a single agent: what its journal and its program counter say about the scripts
  it has launched and the permits it has received.  Every step that neither launches a script nor
  receives a permit keeps it; the sets of launches and permits are parameters here.
\<close>

section \<open>The invariant\<close>

definition plain :: "journalEntry \<Rightarrow> bool" where
  "plain e \<longleftrightarrow> path_base (je_ExecutionID e) = je_ExecutionID e"

text \<open>An entry before the start was not started, and a journalled permit was received.\<close>

definition entry_ok :: "(string \<times> string) set \<Rightarrow> (string \<times> string) set \<Rightarrow> string \<Rightarrow> journalEntry \<Rightarrow> bool" where
  "entry_ok S P a e \<longleftrightarrow>
     (je_Phase e = journalAccepted \<or> je_Phase e = journalPermitted \<longrightarrow> (a, je_ExecutionID e) \<notin> S)
     \<and> (je_Phase e = journalPermitted \<longrightarrow> (a, je_ExecutionID e) \<in> P)"

definition journal_ok :: "(string \<times> string) set \<Rightarrow> (string \<times> string) set \<Rightarrow> string \<Rightarrow> agentJournal \<Rightarrow> bool" where
  "journal_ok S P a j \<longleftrightarrow>
     (\<forall>name e. map_of (jr_entries j) name = Some e \<longrightarrow> je_ExecutionID e = name \<and> plain e \<and> entry_ok S P a e)"

definition base_ok :: "(string \<times> string) set \<Rightarrow> (string \<times> string) set \<Rightarrow> string \<Rightarrow> Agent \<Rightarrow> bool" where
  "base_ok S P a ag \<longleftrightarrow> agent_id ag = a \<and> journal_ok S P a (ag_journal ag)"

definition rest_ok :: "(string \<times> string) set \<Rightarrow> (string \<times> string) set \<Rightarrow> string \<Rightarrow> journalEntry list \<Rightarrow> bool" where
  "rest_ok S P a rest \<longleftrightarrow>
     distinct (map je_ExecutionID rest) \<and> (\<forall>e \<in> set rest. plain e \<and> entry_ok S P a e)"

text \<open>The entry being worked on is none of those still to be recovered.\<close>

definition work_ok :: "(string \<times> string) set \<Rightarrow> (string \<times> string) set \<Rightarrow> string \<Rightarrow> journalEntry \<Rightarrow> journalEntry list \<Rightarrow> bool" where
  "work_ok S P a e rest \<longleftrightarrow> plain e \<and> je_ExecutionID e \<notin> je_ExecutionID ` set rest \<and> rest_ok S P a rest"

definition pc_ok :: "(string \<times> string) set \<Rightarrow> (string \<times> string) set \<Rightarrow> string \<Rightarrow> agentJournal \<Rightarrow> agent_pc \<Rightarrow> bool" where
  "pc_ok S P a j pc \<longleftrightarrow>
     (case pc of
        Off \<Rightarrow> True
      | Recovering rest \<Rightarrow> rest_ok S P a rest
      | AskingPermit e k rest \<Rightarrow> work_ok S P a e rest \<and> (a, je_ExecutionID e) \<notin> S
      | Launching e rest \<Rightarrow>
          work_ok S P a e rest \<and> (a, je_ExecutionID e) \<notin> S \<and> (a, je_ExecutionID e) \<in> P
      | Starting e rest \<Rightarrow>
          work_ok S P a e rest \<and> (a, je_ExecutionID e) \<notin> S \<and> (a, je_ExecutionID e) \<in> P
          \<and> je_Phase e = journalStarted
          \<and> (\<forall>e'. map_of (jr_entries j) (je_ExecutionID e) = Some e' \<longrightarrow>
               je_Phase e' \<noteq> journalAccepted \<and> je_Phase e' \<noteq> journalPermitted)
      | Launched e pid rest \<Rightarrow> work_ok S P a e rest \<and> je_Phase e = journalStarted
      | Supervising e rest \<Rightarrow> work_ok S P a e rest
      | Completing e in_run rest \<Rightarrow> work_ok S P a e rest
      | Polling unknown \<Rightarrow> True
      | GotResponse response \<Rightarrow>
          (\<forall>asg. plr_Assignment response = Some asg \<longrightarrow>
             path_base (asg_ExecutionID asg) = asg_ExecutionID asg \<and> (a, asg_ExecutionID asg) \<notin> S))"

definition node_ok :: "(string \<times> string) set \<Rightarrow> (string \<times> string) set \<Rightarrow> string \<Rightarrow> AgentNode \<Rightarrow> bool" where
  "node_ok S P a n \<longleftrightarrow> base_ok S P a (nd_agent n) \<and> pc_ok S P a (ag_journal (nd_agent n)) (nd_pc n)"

section \<open>Volatile state does not matter\<close>

lemma base_ok_volatile [simp]:
  "base_ok S P a (endExecution ag) = base_ok S P a ag"
  "base_ok S P a (beginExecution i ag) = base_ok S P a ag"
  "base_ok S P a (setState st ag) = base_ok S P a ag"
  "base_ok S P a (markBlocked i ag) = base_ok S P a ag"
  "base_ok S P a (clearBlocked i ag) = base_ok S P a ag"
  "base_ok S P a (requestCancel i ag) = base_ok S P a ag"
  "base_ok S P a (ag\<lparr>ag_acked := m\<rparr>) = base_ok S P a ag"
  "base_ok S P a (append_log i lines ag) = base_ok S P a ag"
  by (simp_all add: base_ok_def endExecution_def beginExecution_def setState_def markBlocked_def
      clearBlocked_def requestCancel_def append_log_def journal_ok_def Let_def)

lemma volatile_journal [simp]:
  "ag_journal (endExecution ag) = ag_journal ag"
  "ag_journal (beginExecution i ag) = ag_journal ag"
  "ag_journal (setState st ag) = ag_journal ag"
  "ag_journal (markBlocked i ag) = ag_journal ag"
  "ag_journal (requestCancel i ag) = ag_journal ag"
  "jr_entries (ag_journal (append_log i lines ag)) = jr_entries (ag_journal ag)"
  by (simp_all add: endExecution_def beginExecution_def setState_def markBlocked_def requestCancel_def
      append_log_def Let_def)

lemma base_ok_cancels [simp]: "base_ok S P a (fold requestCancel ids ag) = base_ok S P a ag"
  by (induction ids arbitrary: ag) auto

section \<open>The journal\<close>

lemma save_entry_ok:
  assumes "save_entry env k e ag = (ok, ag')" "base_ok S P a ag" "plain e" "entry_ok S P a e"
  shows "base_ok S P a ag'"
proof -
  obtain err j where s: "Save (ae_save env k) e (ag_journal ag) = (err, j)" by fastforce
  with assms(1) have ag': "ag' = ag\<lparr>ag_journal := j\<rparr>" by (simp add: save_entry_def)
  have name: "path_base (je_ExecutionID e) = je_ExecutionID e" using assms(3) by (simp add: plain_def)
  have "journal_ok S P a j"
    unfolding journal_ok_def
  proof (intro allI impI)
    fix name e' assume m: "map_of (jr_entries j) name = Some e'"
    show "je_ExecutionID e' = name \<and> plain e' \<and> entry_ok S P a e'"
      using m assms(2-4) name Save_entries [OF s]
      by (cases "map_of (jr_entries (ag_journal ag)) name = Some e'")
         (auto simp: base_ok_def journal_ok_def update_conv' split: if_splits)
  qed
  with assms(2) ag' show ?thesis by (simp add: base_ok_def)
qed

lemma save_entry_saved:
  assumes "save_entry env k e ag = (True, ag')" "plain e"
  shows "map_of (jr_entries (ag_journal ag')) (je_ExecutionID e) = Some e"
  using assms Save_ok [of "ae_save env k" e "ag_journal ag"]
  by (auto simp: save_entry_def plain_def update_conv' split: prod.splits)

lemma remove_entry_ok: "base_ok S P a ag \<Longrightarrow> base_ok S P a (remove_entry env k i ag)"
  using Remove_entries [of "ae_rm env k" i "ag_journal ag"]
  by (auto simp: base_ok_def journal_ok_def remove_entry_def) (metis option.distinct(1))+

lemma entry_ok_late [simp]:
  "je_Phase e = journalStarted \<or> je_Phase e = journalFinished \<or> je_Phase e = journalReported
     \<or> je_Phase e = journalBlocked \<Longrightarrow> entry_ok S P a e"
  by (auto simp: entry_ok_def)

lemma listed_ok:
  assumes "journal_ok S P a j" "List b u j = Some es"
  shows "rest_ok S P a es"
proof -
  let ?pick = "\<lambda>name. if u name then None else map_of (jr_entries j) name"
  let ?names = "sort (remdups (map fst (jr_entries j)))"
  have es: "es = sort_key je_AcceptedAt (List.map_filter ?pick ?names)"
    using assms(2) by (auto simp: List_def split: if_splits)
  have "map je_ExecutionID (List.map_filter ?pick names) = filter (\<lambda>name. ?pick name \<noteq> None) names" for names
    using assms(1) by (induction names) (auto simp: map_filter_simps journal_ok_def split: option.splits)
  then have "distinct (map je_ExecutionID (List.map_filter ?pick ?names))" by simp
  then have "distinct (map je_ExecutionID es)"
    unfolding es by (simp add: distinct_map)
  moreover have "plain e \<and> entry_ok S P a e" if "e \<in> set es" for e
    using assms(1) List_mem [OF assms(2) that] by (auto simp: journal_ok_def)
  ultimately show ?thesis by (simp add: rest_ok_def)
qed


section \<open>Growing sets\<close>

lemma node_ok_mono:
  assumes "node_ok S P a n" "\<And>i. (a, i) \<in> S' \<Longrightarrow> (a, i) \<in> S" "P \<subseteq> P'"
  shows "node_ok S' P' a n"
proof -
  have e: "entry_ok S P a e \<Longrightarrow> entry_ok S' P' a e" for e
    using assms(2,3) by (auto simp: entry_ok_def)
  then have r: "rest_ok S P a rest \<Longrightarrow> rest_ok S' P' a rest" for rest by (auto simp: rest_ok_def)
  have w: "work_ok S P a e rest \<Longrightarrow> work_ok S' P' a e rest" for e rest
    using r by (auto simp: work_ok_def)
  have "base_ok S' P' a (nd_agent n)"
    using assms(1) e by (auto simp: node_ok_def base_ok_def journal_ok_def)
  moreover have "pc_ok S' P' a (ag_journal (nd_agent n)) (nd_pc n)"
    using assms r w by (cases "nd_pc n") (auto simp: node_ok_def pc_ok_def)
  ultimately show ?thesis by (simp add: node_ok_def)
qed

text \<open>A launch of the entry in hand: nothing else in the agent speaks of it.\<close>

lemma launched_ok:
  assumes "base_ok S P a ag" "pc_ok S P a (ag_journal ag) (Starting e rest)"
  shows "node_ok (insert (a, je_ExecutionID e) S) P a (node ag (Launched e pid rest))"
proof -
  have "je_ExecutionID e' \<noteq> je_ExecutionID e" if "e' \<in> set rest" for e'
    using assms(2) that unfolding pc_ok_def work_ok_def by (auto dest: image_eqI [OF sym])
  then have "rest_ok (insert (a, je_ExecutionID e) S) P a rest"
    using assms(2) by (auto simp: pc_ok_def work_ok_def rest_ok_def entry_ok_def)
  moreover have "journal_ok (insert (a, je_ExecutionID e) S) P a (ag_journal ag)"
    using assms by (auto simp: base_ok_def journal_ok_def entry_ok_def pc_ok_def)
  ultimately show ?thesis using assms
    by (auto simp: node_ok_def base_ok_def pc_ok_def work_ok_def)
qed

section \<open>The operations\<close>

lemma node_ok_node [simp]: "node_ok S P a (node ag pc) \<longleftrightarrow> base_ok S P a ag \<and> pc_ok S P a (ag_journal ag) pc"
  by (simp add: node_ok_def)

lemma pc_ok_simps [simp]:
  "pc_ok S P a j Off"
  "pc_ok S P a j (Recovering rest) = rest_ok S P a rest"
  "pc_ok S P a j (Completing e b rest) = work_ok S P a e rest"
  "pc_ok S P a j (Supervising e rest) = work_ok S P a e rest"
  "pc_ok S P a j (Polling unknown)"
  "rest_ok S P a []"
  by (simp_all add: pc_ok_def rest_ok_def)

lemma work_okD [dest]: "work_ok S P a e rest \<Longrightarrow> rest_ok S P a rest" "work_ok S P a e rest \<Longrightarrow> plain e"
  by (simp_all add: work_ok_def)

lemma plain_id: "je_ExecutionID e' = je_ExecutionID e \<Longrightarrow> plain e' = plain e"
  by (simp add: plain_def)

lemma plain_update [simp]:
  "plain (e\<lparr>je_Phase := x0\<rparr>) = plain e"
  "plain (e\<lparr>je_Status := x1\<rparr>) = plain e"
  "plain (e\<lparr>je_ExitCode := x2\<rparr>) = plain e"
  "plain (e\<lparr>je_Error := x3\<rparr>) = plain e"
  "plain (e\<lparr>je_FailureReason := x4\<rparr>) = plain e"
  "plain (e\<lparr>je_FinishedAt := x5\<rparr>) = plain e"
  "plain (e\<lparr>je_LogLength := x6\<rparr>) = plain e"
  "plain (e\<lparr>je_PermittedAt := x7\<rparr>) = plain e"
  "plain (e\<lparr>je_StartedAt := x8\<rparr>) = plain e"
  "plain (e\<lparr>je_PID := x9\<rparr>) = plain e"
  "plain (e\<lparr>je_PGID := x10\<rparr>) = plain e"
  "plain (e\<lparr>je_ProcessToken := x11\<rparr>) = plain e"
  "plain (e\<lparr>je_ProcessTokenError := x12\<rparr>) = plain e"
  "plain (e\<lparr>je_Attention := x13\<rparr>) = plain e"
  "plain (e\<lparr>je_ResultAcked := x14\<rparr>) = plain e"
  by (simp_all add: plain_def)

lemma work_update [simp]:
  "work_ok S P a (e\<lparr>je_Phase := x0\<rparr>) rest = work_ok S P a e rest"
  "work_ok S P a (e\<lparr>je_Status := x1\<rparr>) rest = work_ok S P a e rest"
  "work_ok S P a (e\<lparr>je_ExitCode := x2\<rparr>) rest = work_ok S P a e rest"
  "work_ok S P a (e\<lparr>je_Error := x3\<rparr>) rest = work_ok S P a e rest"
  "work_ok S P a (e\<lparr>je_FailureReason := x4\<rparr>) rest = work_ok S P a e rest"
  "work_ok S P a (e\<lparr>je_FinishedAt := x5\<rparr>) rest = work_ok S P a e rest"
  "work_ok S P a (e\<lparr>je_LogLength := x6\<rparr>) rest = work_ok S P a e rest"
  "work_ok S P a (e\<lparr>je_PermittedAt := x7\<rparr>) rest = work_ok S P a e rest"
  "work_ok S P a (e\<lparr>je_StartedAt := x8\<rparr>) rest = work_ok S P a e rest"
  "work_ok S P a (e\<lparr>je_PID := x9\<rparr>) rest = work_ok S P a e rest"
  "work_ok S P a (e\<lparr>je_PGID := x10\<rparr>) rest = work_ok S P a e rest"
  "work_ok S P a (e\<lparr>je_ProcessToken := x11\<rparr>) rest = work_ok S P a e rest"
  "work_ok S P a (e\<lparr>je_ProcessTokenError := x12\<rparr>) rest = work_ok S P a e rest"
  "work_ok S P a (e\<lparr>je_Attention := x13\<rparr>) rest = work_ok S P a e rest"
  "work_ok S P a (e\<lparr>je_ResultAcked := x14\<rparr>) rest = work_ok S P a e rest"
  by (simp_all add: work_ok_def)

lemma return_to_ok [simp]:
  "node_ok S P a (return_to b rest ag) \<longleftrightarrow> base_ok S P a ag \<and> rest_ok S P a rest"
  by (simp add: return_to_def)

lemma flush_node_ok:
  assumes "flush_node env i ag c = (r, ag', c')"
  shows "base_ok S P a ag' = base_ok S P a ag \<and> ag_journal ag' = ag_journal ag"
  using assms by (auto simp: flush_node_def Let_def split: prod.splits)

lemma blockExecution_ok:
  assumes "blockExecution env e details ag c = (ag', c')" "base_ok S P a ag" "plain e"
  shows "base_ok S P a ag'"
proof -
  let ?e = "e\<lparr>je_Phase := journalBlocked, je_Attention := details\<rparr>"
  obtain ok ag1 where s: "save_entry env 0 ?e ag = (ok, ag1)" by fastforce
  from save_entry_ok [OF s assms(2)] assms(3) have "base_ok S P a ag1" by (simp add: plain_def)
  with assms(1) s show ?thesis by (auto simp: blockExecution_def Let_def split: prod.splits)
qed

lemma abandonExecution_ok:
  assumes "abandonExecution env e reason cause ag c = (ag', c')" "base_ok S P a ag" "plain e"
  shows "base_ok S P a ag'"
  using assms blockExecution_ok by (fastforce simp: abandonExecution_def Let_def split: prod.splits)

text \<open>Saving an entry that has left the phases before the start, and going on with it.\<close>

lemma save_late_ok:
  assumes "base_ok S P a ag" "work_ok S P a e rest" "je_ExecutionID e' = je_ExecutionID e" "entry_ok S P a e'"
    and "\<And>ag1. base_ok S P a ag1 \<Longrightarrow> node_ok S P a (bad ag1)"
    and "\<And>ag1. base_ok S P a ag1 \<Longrightarrow> node_ok S P a (good ag1)"
  shows "node_ok S P a (case save_entry env k e' ag of (False, ag1) \<Rightarrow> bad ag1 | (True, ag1) \<Rightarrow> good ag1)"
proof -
  obtain ok ag1 where s: "save_entry env k e' ag = (ok, ag1)" by fastforce
  from save_entry_ok [OF s assms(1)] assms(2-4) have "base_ok S P a ag1"
    using plain_id [OF assms(3)] by blast
  with s assms(5,6) show ?thesis by (cases ok) auto
qed

lemma complete_reported_ok:
  assumes "base_ok S P a ag" "work_ok S P a e rest"
  shows "node_ok S P a (complete_reported env e b rest ag)"
  unfolding complete_reported_def
  by (rule save_late_ok [OF assms]) (use assms in \<open>auto simp: remove_entry_ok\<close>)

lemma completeExecution_ok:
  assumes "completeExecution env e b rest ag c = (n', c')" "base_ok S P a ag" "work_ok S P a e rest"
  shows "node_ok S P a n'"
proof -
  obtain r ag1 c1 where f: "flush_node env (je_ExecutionID e) (setState agentStateUploading ag) c = (r, ag1, c1)"
    by (metis surj_pair)
  have b1: "base_ok S P a ag1" using flush_node_ok [OF f] assms(2) by simp
  note abandon = abandonExecution_ok [OF _ b1 work_okD(2) [OF assms(3)]]
  from assms(1) f show ?thesis
    using b1 work_okD(1) [OF assms(3)] assms(3) complete_reported_ok [OF b1 assms(3)] abandon
    unfolding completeExecution_def Let_def
    by (auto split: if_splits prod.splits sum.splits)
qed

lemma execution_ended_ok:
  assumes "base_ok S P a ag" "work_ok S P a e rest"
  shows "node_ok S P a (execution_ended env k e oc rest ag)"
proof (cases "out_Status oc = execAbandoned")
  case False
  show ?thesis
    unfolding execution_ended_def Let_def if_not_P [OF False]
    by (rule save_late_ok [OF assms]) (use assms in auto)
qed (simp add: execution_ended_def assms)


lemma runAssignment_ok:
  assumes "base_ok S P a ag" "work_ok S P a e rest" "(a, je_ExecutionID e) \<notin> S"
    "je_Phase e = journalPermitted \<longrightarrow> (a, je_ExecutionID e) \<in> P"
  shows "node_ok S P a (runAssignment e rest ag)"
  using assms by (auto simp: runAssignment_def Let_def pc_ok_def)

lemma permit_denied_ok:
  assumes "base_ok S P a ag" "work_ok S P a e rest"
  shows "node_ok S P a (permit_denied env e permit rest ag)"
  unfolding permit_denied_def Let_def
  by (rule save_late_ok [OF assms]) (use assms in auto)

lemma permit_granted_ok:
  assumes "base_ok S P a ag" "work_ok S P a e rest" "(a, je_ExecutionID e) \<notin> S" "(a, je_ExecutionID e) \<in> P"
  shows "node_ok S P a (permit_granted env e rest ag)"
  unfolding permit_granted_def Let_def
  by (rule save_late_ok [OF assms(1,2)]) (use assms in \<open>auto simp: entry_ok_def pc_ok_def\<close>)

lemma requestPermit_ok:
  assumes "requestPermit env e k rest ag c = (n', c')" "base_ok S P a ag"
    "pc_ok S P a (ag_journal ag) (AskingPermit e k rest)"
    "\<forall>i \<in> set (permit_received env (node ag (AskingPermit e k rest)) c). (a, i) \<in> P"
  shows "node_ok S P a n'"
proof -
  have w: "work_ok S P a e rest" "(a, je_ExecutionID e) \<notin> S" using assms(3) by (auto simp: pc_ok_def)
  show ?thesis
  proof (cases k)
    case 0
    with assms(1,2) w show ?thesis by (auto simp: requestPermit_def)
  next
    case (Suc left)
    obtain r c1 where p: "client_Permit (ae_net env 0) (ae_op env 0) (agent_id ag) (je_ExecutionID e) c = (r, c1)"
      by fastforce
    have "(a, je_ExecutionID e) \<in> P" if "r = Inr permit" "prm_Granted permit" for permit
      using that assms(4) p Suc by (simp add: permit_received_def)
    then show ?thesis
      using assms(1,2) w p Suc permit_denied_ok [OF assms(2) w(1)] permit_granted_ok [OF assms(2) w]
      by (auto simp: requestPermit_def pc_ok_def split: sum.splits if_splits)
  qed
qed

lemma runExecution_prepare_ok:
  assumes "base_ok S P a ag" "pc_ok S P a (ag_journal ag) (Launching e rest)"
  shows "node_ok S P a (runExecution_prepare env e rest ag)"
proof -
  have w: "work_ok S P a e rest" "(a, je_ExecutionID e) \<notin> S" "(a, je_ExecutionID e) \<in> P"
    using assms(2) by (auto simp: pc_ok_def)
  let ?e = "e\<lparr>je_Phase := journalStarted, je_StartedAt := agent_env.ae_now env\<rparr>"
  let ?ag = "append_log (asg_ExecutionID (je_Assignment e)) (ae_lines env) ag"
  obtain ok ag1 where s: "save_entry env 0 ?e ?ag = (ok, ag1)" by fastforce
  have b1: "base_ok S P a ag1"
    by (rule save_entry_ok [OF s]) (use assms(1) w in auto)
  have "node_ok S P a (node ag1 (Starting ?e rest))" if ok
    using save_entry_saved [of env 0 ?e ?ag ag1] s that b1 w by (auto simp: pc_ok_def)
  moreover have "node_ok S P a (execution_ended env 1 ?e oc rest ag1)" for oc
    by (rule execution_ended_ok [OF b1]) (use w in simp)
  moreover have "node_ok S P a (execution_ended env 1 e oc rest ?ag)" for oc
    by (rule execution_ended_ok) (use assms(1) w in auto)
  ultimately show ?thesis
    using s execution_ended_ok [OF assms(1) w(1)]
    by (auto simp: runExecution_prepare_def Let_def split: option.splits sum.splits bool.splits)
qed

lemma runExecution_start_ok:
  assumes "runExecution_start env e rest ag = (n', started)" "base_ok S P a ag"
    "pc_ok S P a (ag_journal ag) (Starting e rest)"
  shows "node_ok (S \<union> Pair a ` set started) P a n'"
    "distinct started" "\<forall>i \<in> set started. (a, i) \<in> P \<and> (a, i) \<notin> S"
proof -
  have w: "work_ok S P a e rest" "(a, je_ExecutionID e) \<notin> S" "(a, je_ExecutionID e) \<in> P"
    using assms(3) by (auto simp: pc_ok_def)
  let ?e = "e\<lparr>je_Phase := journalPermitted\<rparr>"
  obtain ok ag1 where s: "save_entry env 0 ?e ag = (ok, ag1)" by fastforce
  have b1: "base_ok S P a ag1"
    by (rule save_entry_ok [OF s]) (use assms(2) w in \<open>auto simp: entry_ok_def\<close>)
  have failed: "node_ok S P a (execution_ended env 1 ?e oc rest (append_log i lines ag1))" for oc i lines
    by (rule execution_ended_ok) (use b1 w in auto)
  show "node_ok (S \<union> Pair a ` set started) P a n'"
    using assms(1) s failed launched_ok [OF assms(2,3)]
    by (auto simp: runExecution_start_def Let_def split: sum.splits)
  show "distinct started" "\<forall>i \<in> set started. (a, i) \<in> P \<and> (a, i) \<notin> S"
    using assms(1) w by (auto simp: runExecution_start_def Let_def split: sum.splits)
qed

lemma runExecution_record_ok:
  assumes "base_ok S P a ag" "pc_ok S P a (ag_journal ag) (Launched e pid rest)"
  shows "node_ok S P a (runExecution_record env e pid rest ag)"
proof -
  define e1 where "e1 = (case processStartToken (ae_host env 0) pid of
                     Inr token \<Rightarrow> e\<lparr>je_PID := pid, je_PGID := pid, je_ProcessToken := token\<rparr>
                   | Inl m \<Rightarrow> e\<lparr>je_PID := pid, je_PGID := pid, je_ProcessTokenError := m\<rparr>)"
  have w: "work_ok S P a e1 rest" "je_Phase e1 = journalStarted"
    using assms(2) by (auto simp: pc_ok_def e1_def split: sum.splits)
  have "node_ok S P a (case save_entry env 0 e1 ag of
           (False, a') \<Rightarrow> execution_ended env 1 e1 (agentFailure (ae_save_text env)) rest a'
         | (True, a') \<Rightarrow> node a' (Supervising e1 rest))"
    by (rule save_late_ok [OF assms(1) w(1)]) (use w execution_ended_ok in auto)
  then show ?thesis
    unfolding runExecution_record_def Let_def e1_def by (simp cong: sum.case_cong)
qed

lemma runExecution_finish_ok:
  assumes "base_ok S P a ag" "work_ok S P a e rest"
  shows "node_ok S P a (runExecution_finish env e rest ag)"
  unfolding runExecution_finish_def Let_def
  by (rule execution_ended_ok) (use assms in auto)

lemma recover_ended_ok:
  assumes "base_ok S P a ag" "work_ok S P a e rest"
  shows "node_ok S P a (recover_ended env e details rest ag)"
  unfolding recover_ended_def Let_def
  by (rule save_late_ok [OF assms]) (use assms in auto)

lemma recoverStarted_ok:
  assumes "recoverStarted env e rest ag c = (n', killed, c')" "base_ok S P a ag" "work_ok S P a e rest"
  shows "node_ok S P a n'"
proof -
  have "base_ok S P a ag'" if "blockExecution env e d ag c = (ag', c'')" for d ag' c''
    by (rule blockExecution_ok [OF that assms(2)]) (use assms(3) in auto)
  with assms(1) recover_ended_ok [OF assms(2,3)] work_okD(1) [OF assms(3)] show ?thesis
    unfolding recoverStarted_def Let_def by (auto split: if_splits prod.splits)
qed

lemma recover_entry_ok:
  assumes "recover_entry env e rest ag c = (n', c')" "base_ok S P a ag" "rest_ok S P a (e # rest)"
  shows "node_ok S P a n'"
proof -
  have w: "work_ok S P a e rest" "entry_ok S P a e" using assms(3) by (auto simp: work_ok_def rest_ok_def)
  have run: "node_ok S P a (runAssignment e rest ag)"
    if "je_Phase e = journalAccepted \<or> je_Phase e = journalPermitted"
    using that w by (intro runAssignment_ok [OF assms(2)]) (auto simp: entry_ok_def)
  show ?thesis
    using assms(1,2) w run recoverStarted_ok [OF _ assms(2) w(1)] remove_entry_ok [OF assms(2)]
    unfolding recover_entry_def Let_def
    by (auto split: if_splits prod.splits)
qed

section \<open>The main loop\<close>

lemma resume_entries_ok:
  "\<lbrakk>resume_entries env es ag = Some n'; base_ok S P a ag; rest_ok S P a es\<rbrakk> \<Longrightarrow> node_ok S P a n'"
proof (induction es)
  case (Cons e es)
  have e: "plain e" "entry_ok S P a e" "rest_ok S P a es" using Cons.prems(3) by (auto simp: rest_ok_def)
  then have w: "work_ok S P a e []" by (simp add: work_ok_def)
  have "node_ok S P a (runAssignment e [] ag)"
    if "je_Phase e = journalAccepted \<or> je_Phase e = journalPermitted"
    using that e w by (intro runAssignment_ok [OF Cons.prems(2)]) (auto simp: entry_ok_def)
  then show ?case
    using Cons e w remove_entry_ok [OF Cons.prems(2)] by (auto simp: Let_def split: if_splits)
qed simp

lemma resumePending_ok:
  assumes "resumePending env ag = Some n'" "base_ok S P a ag" shows "node_ok S P a n'"
proof -
  from assms(1) obtain es where es: "List (ae_dir_fails env) (ae_unreadable env) (ag_journal ag) = Some es"
      "resume_entries env es ag = Some n'"
    by (auto simp: resumePending_def split: option.splits)
  have "journal_ok S P a (ag_journal ag)" using assms(2) by (simp add: base_ok_def)
  from resume_entries_ok [OF es(2) assms(2) listed_ok [OF this es(1)]] show ?thesis .
qed

lemma wait_blocked_ok: "\<lbrakk>wait_blocked_loop env k ids ag c = (ag', c'); base_ok S P a ag\<rbrakk> \<Longrightarrow> base_ok S P a ag'"
  by (induction ids arbitrary: k ag c) (auto split: sum.splits prod.splits if_splits simp: remove_entry_ok)

lemma run_loop_ok:
  assumes "run_loop env ag c = (n', c')" "base_ok S P a ag" shows "node_ok S P a n'"
  using assms wait_blocked_ok [OF _ assms(2)] resumePending_ok [OF _ assms(2)]
  unfolding run_loop_def waitBlocked_def
  by (auto split: if_splits prod.splits option.splits sum.splits)

lemma poll_wait_ok:
  assumes "base_ok S P a ag"
    and "\<And>asg. AssignmentFor (st_data (c_store c)) a = Some asg \<Longrightarrow>
      path_base (asg_ExecutionID asg) = asg_ExecutionID asg \<and> (a, asg_ExecutionID asg) \<notin> S"
  shows "node_ok S P a (poll_wait env unknown ag c)"
  using assms by (auto simp: poll_wait_def Let_def pc_ok_def poll_response_def base_ok_def)

lemma handleAssignment_ok:
  assumes "base_ok S P a ag" "path_base (asg_ExecutionID asg) = asg_ExecutionID asg"
    "(a, asg_ExecutionID asg) \<notin> S"
  shows "node_ok S P a (handleAssignment env asg ag)"
proof -
  let ?i = "asg_ExecutionID asg"
  have run: "node_ok S P a (runAssignment e [] ag1)"
    if "base_ok S P a ag1" "je_ExecutionID e = ?i" "entry_ok S P a e" for e ag1
    using that assms by (intro runAssignment_ok) (auto simp: work_ok_def plain_def entry_ok_def)
  show ?thesis
  proof (cases "Load (ae_unreadable env) (ag_journal ag) ?i")
    case (Some e)
    with Load_Some [OF Some] assms(1,2) have "je_ExecutionID e = ?i" "entry_ok S P a e"
      by (auto simp: base_ok_def journal_ok_def)
    with Some run [OF assms(1)] assms(1) show ?thesis by (auto simp: handleAssignment_def Let_def)
  next
    case None
    let ?e = "\<lparr>je_ExecutionID = asg_ExecutionID asg, je_Phase = journalAccepted,
                           je_Assignment = asg, je_AcceptedAt = agent_env.ae_now env, je_PermittedAt = 0,
                           je_StartedAt = 0, je_FinishedAt = 0, je_PID = 0, je_PGID = 0,
                           je_ProcessToken = '''', je_ProcessTokenError = '''', je_Status = '''',
                           je_ExitCode = - 1, je_Error = '''', je_FailureReason = '''', je_LogLength = 0,
                           je_ResultAcked = False, je_Attention = ''''\<rparr>"
    have e: "work_ok S P a ?e []" "entry_ok S P a ?e"
      using assms(2,3) by (auto simp: work_ok_def plain_def entry_ok_def)
    obtain ok ag1 where s: "save_entry env 0 ?e ag = (ok, ag1)" by fastforce
    have "base_ok S P a ag1" by (rule save_entry_ok [OF s assms(1)]) (use e in auto)
    with None s e(2) run [of ag1 ?e] show ?thesis by (cases ok) (auto simp: handleAssignment_def Let_def)
  qed
qed

lemma poll_answered_ok:
  assumes "base_ok S P a ag" "pc_ok S P a (ag_journal ag) (GotResponse response)"
  shows "node_ok S P a (poll_answered env response ag)"
  using assms handleAssignment_ok
  by (auto simp: poll_answered_def Let_def pc_ok_def split: option.splits)

section \<open>Steps\<close>

text \<open>One step of the agent, given what the controller can have answered to a poll.\<close>

lemma agent_step_ok:
  assumes "agent_step env n c = (n', started, c')" "node_ok S P a n"
    and poll: "\<And>asg. AssignmentFor (st_data (c_store c)) a = Some asg \<Longrightarrow>
      path_base (asg_ExecutionID asg) = asg_ExecutionID asg \<and> (a, asg_ExecutionID asg) \<notin> S"
    and permit: "\<forall>i \<in> set (permit_received env n c). (a, i) \<in> P"
  shows "node_ok (S \<union> Pair a ` set started) P a n' \<and> distinct started
    \<and> (\<forall>i \<in> set started. (a, i) \<in> P \<and> (a, i) \<notin> S)"
proof -
  obtain ag pc where n: "n = node ag pc" by (cases n) simp
  have b: "base_ok S P a ag" and p: "pc_ok S P a (ag_journal ag) pc" using assms(2) n by auto
  show ?thesis
  proof (cases pc)
    case (Starting e rest)
    with assms(1) n obtain n1 where "runExecution_start env e rest ag = (n1, started)" "n' = n1"
      by (auto simp: agent_step_def split: prod.splits)
    with runExecution_start_ok [OF _ b p [unfolded Starting]] show ?thesis by metis
  next
    case (Recovering es)
    with assms(1) n b p run_loop_ok [OF _ b] recover_entry_ok [OF _ b] show ?thesis
      by (cases es) (auto simp: agent_step_def split: prod.splits)
  next
    case (AskingPermit e k rest)
    with assms(1) n permit requestPermit_ok [OF _ b p [unfolded AskingPermit]] show ?thesis
      by (auto simp: agent_step_def split: prod.splits)
  next
    case (Completing e r rest)
    with assms(1) n p completeExecution_ok [OF _ b] show ?thesis
      by (auto simp: agent_step_def split: prod.splits)
  qed (use assms(1) n b p poll_wait_ok [OF b poll] poll_answered_ok [OF b] runExecution_prepare_ok [OF b]
       runExecution_record_ok [OF b] runExecution_finish_ok [OF b] in \<open>auto simp: agent_step_def\<close>)
qed

lemma side_steps_ok:
  assumes "node_ok S P a n"
  shows "heartbeat_step env n c = (n1, c1) \<Longrightarrow> node_ok S P a n1"
    and "stream_step env n c = (n2, c2) \<Longrightarrow> node_ok S P a n2"
    and "node_ok S P a (output_step env n)"
    and "node_ok S P a (crash_node n)"
    and "node_ok S P a (boot_node env n)"
proof -
  obtain ag pc where n: "n = node ag pc" by (cases n) simp
  have b: "base_ok S P a ag" and p: "pc_ok S P a (ag_journal ag) pc" using assms n by auto
  show "node_ok S P a n1" if "heartbeat_step env n c = (n1, c1)"
    using that n b p by (auto simp: heartbeat_step_def Let_def split: prod.splits sum.splits if_splits)
  show "node_ok S P a n2" if "stream_step env n c = (n2, c2)"
    using that n b p flush_node_ok
    by (auto simp: stream_step_def split: prod.splits option.splits)
  show "node_ok S P a (output_step env n)"
    using n b p by (auto simp: output_step_def split: agent_pc.splits)
  show "node_ok S P a (crash_node n)" using n b by (simp add: crash_node_def)
  have "rest_ok S P a es" if "List u v (ag_journal ag) = Some es" for u v es
    using listed_ok [OF _ that] b by (simp add: base_ok_def)
  then show "node_ok S P a (boot_node env n)"
    using n b p
    by (auto simp: boot_node_def Let_def newAgent_def base_ok_def split: agent_pc.splits option.splits)
qed

end
