(* ===== verification/Fleet_Invariant.thy ===== *)
theory Fleet_Invariant
  imports Fleet_Nodes
begin

text \<open>
  The invariant of the system of a controller and its agents: every script is started at most once, however often agents
  and controller crash and come back, requests are repeated or lost, and files cannot be written.
\<close>

section \<open>Permits of the controller\<close>

definition permit_holds :: "ControllerStore \<Rightarrow> string \<Rightarrow> string \<Rightarrow> bool" where
  "permit_holds s i a \<longleftrightarrow> (\<forall>e. Find s i = Some e \<longrightarrow> ex_PermitGranted e \<and> ex_AgentID e = a)"

lemma recorded_iff: "i \<in> set (recorded_ids c) \<longleftrightarrow> Find (c_store c) i \<noteq> None"
  by (auto simp: recorded_ids_def Find_def find_execution_None)

lemma permit_holds_step:
  assumes "store_ok s" "store_step s s'" "permit_holds s i a" "Find s' i \<noteq> None \<Longrightarrow> Find s i \<noteq> None"
  shows "permit_holds s' i a"
  unfolding permit_holds_def
proof (intro allI impI)
  fix e' assume e': "Find s' i = Some e'"
  then obtain e where e: "Find s i = Some e" using assms(4) by auto
  have "evolves e e'"
    using store_step_ok [OF assms(2,1)] progresses_find e e' by (auto simp: Find_def)
  with assms(3) e show "ex_PermitGranted e' \<and> ex_AgentID e' = a"
    by (auto simp: permit_holds_def evolves_def)
qed

lemma quiet_find: "quiet_step s s' \<Longrightarrow> Find s' i \<noteq> None \<Longrightarrow> Find s i \<noteq> None"
  by (auto simp: quiet_step_def Find_def find_execution_None)

lemma quiet_keeps:
  assumes "quiet s s'" "store_ok s"
  shows "store_ok s' \<and> (\<forall>i. Find s' i \<noteq> None \<longrightarrow> Find s i \<noteq> None)
    \<and> (\<forall>i a. permit_holds s i a \<longrightarrow> permit_holds s' i a)"
  using assms
proof (induction rule: rtranclp_induct)
  case (step s1 s2)
  then have ok: "store_ok s1" and q: "quiet_step s1 s2" by blast+
  have "store_step s1 s2" using q by (simp add: quiet_step_def)
  with ok step.IH step.prems quiet_find [OF q] permit_holds_step store_step_ok show ?case by meson
qed auto

lemma client_Permit_granted:
  assumes "client_Permit n env a i c = (Inr p, c')" "prm_Granted p" "store_ok (c_store c)"
  shows "\<exists>e. Find (c_store c) i = Some e \<and> ex_AgentID e = a" "permit_holds (c_store c') i a"
proof -
  let ?c = "markAgentSeen (op_now env) a '''' c"
  have "handleAgentPermit env a (Some \<lparr>prq_AgentID = a, prq_ExecutionID = i\<rparr>) c = (Answer p, c')"
    using assms(1) by (auto simp: client_Permit_def call_def split: net.splits prod.splits reply.splits)
  then have g: "GrantPermit env a i ?c = (Inr p, c')"
    unfolding handleAgentPermit_def
    by (rule with_bound_agent_cases) (auto split: prod.splits sum.splits)
  from GrantPermit_granted [OF g assms(2)] obtain e where
    e: "Find (c_store c) i = Some e" "ex_AgentID e = a" and
    alt: "ex_Status e = StatusAssigned \<and> \<not> prm_AlreadyGranted p \<or> ex_Status e = StatusRunning \<and> c' = ?c"
    by auto
  then show "\<exists>e. Find (c_store c) i = Some e \<and> ex_AgentID e = a" by blast
  have ok: "snapshot_ok (st_data (c_store c))" using assms(3) by (simp add: store_ok_def)
  have l: "lifecycle_ok e" using ok e(1) find_lifecycle by (auto simp: Find_def)
  from alt show "permit_holds (c_store c') i a"
  proof
    assume s: "ex_Status e = StatusAssigned \<and> \<not> prm_AlreadyGranted p"
    have "Find (c_store c') i = Some (grant (op_now env) e)"
      by (rule GrantPermit_fresh [OF _ g assms(2)]) (use s e ok in auto)
    with e show ?thesis by (simp add: permit_holds_def grant_def)
  qed (use l e in \<open>auto simp: permit_holds_def lifecycle_ok_def\<close>)
qed

lemma permit_received_sound:
  assumes "i \<in> set (permit_received env n c)" "agent_step env n c = (n', started, c')" "store_ok (c_store c)"
  shows "\<exists>e. Find (c_store c) i = Some e \<and> ex_AgentID e = agent_id (nd_agent n)"
    "permit_holds (c_store c') i (agent_id (nd_agent n))"
proof -
  from assms(1) obtain e k rest p where pc: "nd_pc n = AskingPermit e (Suc k) rest" "i = je_ExecutionID e"
    "fst (client_Permit (ae_net env 0) (ae_op env 0) (agent_id (nd_agent n)) i c) = Inr p" "prm_Granted p"
    by (auto simp: permit_received_def dest!: sym [of "AskingPermit _ _ _"] sym [of "Inr _"]
        split: agent_pc.splits nat.splits sum.splits if_splits)
  then obtain c1 where p: "client_Permit (ae_net env 0) (ae_op env 0) (agent_id (nd_agent n)) i c = (Inr p, c1)"
    by (metis prod.collapse)
  have "c' = c1" using assms(2) pc p by (auto simp: agent_step_def requestPermit_def)
  with client_Permit_granted [OF p pc(4) assms(3)]
  show "\<exists>e. Find (c_store c) i = Some e \<and> ex_AgentID e = agent_id (nd_agent n)"
    "permit_holds (c_store c') i (agent_id (nd_agent n))" by auto
qed

lemma permit_received_distinct: "distinct (permit_received env n c)"
  by (auto simp: permit_received_def split: agent_pc.splits nat.splits sum.splits)

lemma AssignmentFor_ungranted:
  assumes "AssignmentFor (st_data (c_store c)) a = Some asg" "store_ok (c_store c)"
  shows "asg_ExecutionID asg \<in> set (recorded_ids c)" "\<not> permit_holds (c_store c) (asg_ExecutionID asg) b"
proof -
  let ?st = "st_data (c_store c)"
  have ok: "snapshot_ok ?st" using assms(2) by (simp add: store_ok_def)
  from assms(1) obtain e where e: "e \<in> set (sd_Executions ?st)" "ex_Status e = StatusAssigned"
    "asg_ExecutionID asg = ex_ID e"
    by (auto simp: AssignmentFor_def split: option.splits dest!: find_Some_mem)
  with ok have "find_execution ?st (ex_ID e) = Some e" by (simp add: find_unique snapshot_ok_def unique_ids_def)
  moreover have "\<not> ex_PermitGranted e"
    using ok e by (auto simp: snapshot_ok_def lifecycle_def lifecycle_ok_def)
  ultimately show "\<not> permit_holds (c_store c) (asg_ExecutionID asg) b"
    using e(3) by (auto simp: permit_holds_def Find_def)
  show "asg_ExecutionID asg \<in> set (recorded_ids c)" using e by (auto simp: recorded_ids_def)
qed

section \<open>The invariant of the system\<close>

definition fleet_ok :: "Fleet \<Rightarrow> bool" where
  "fleet_ok f \<longleftrightarrow>
     store_ok (c_store (fl_ctrl f)) \<and> named_agents (fl_ctrl f)
     \<and> set (recorded_ids (fl_ctrl f)) \<subseteq> set (fl_used f)
     \<and> (\<forall>i \<in> set (recorded_ids (fl_ctrl f)). path_base i = i)
     \<and> (\<forall>(a, i) \<in> set (fl_permits f). i \<in> set (fl_used f) \<and> permit_holds (c_store (fl_ctrl f)) i a)
     \<and> (\<forall>(a, i) \<in> set (fl_permits f). \<forall>b. (b, i) \<in> set (fl_permits f) \<longrightarrow> b = a)
     \<and> set (fl_starts f) \<subseteq> set (fl_permits f) \<and> distinct (fl_starts f)
     \<and> (\<forall>a. node_ok (set (fl_starts f)) (set (fl_permits f)) a (fl_nodes f a))"

lemma fleet_okD:
  assumes "fleet_ok f"
  shows "store_ok (c_store (fl_ctrl f))" "named_agents (fl_ctrl f)"
    "set (recorded_ids (fl_ctrl f)) \<subseteq> set (fl_used f)"
    "\<And>i. i \<in> set (recorded_ids (fl_ctrl f)) \<Longrightarrow> path_base i = i"
    "\<And>a i. (a, i) \<in> set (fl_permits f) \<Longrightarrow> i \<in> set (fl_used f)"
    "\<And>a i. (a, i) \<in> set (fl_permits f) \<Longrightarrow> permit_holds (c_store (fl_ctrl f)) i a"
    "\<And>a b i. \<lbrakk>(a, i) \<in> set (fl_permits f); (b, i) \<in> set (fl_permits f)\<rbrakk> \<Longrightarrow> b = a"
    "set (fl_starts f) \<subseteq> set (fl_permits f)" "distinct (fl_starts f)"
    "\<And>a. node_ok (set (fl_starts f)) (set (fl_permits f)) a (fl_nodes f a)"
  using assms unfolding fleet_ok_def by blast+

text \<open>What a step of an agent does to the controller.\<close>

lemma fleet_ok_serves:
  assumes "fleet_ok f" "calm.serves (fl_ctrl f) c'"
    and "\<And>b. node_ok (set (fl_starts f)) (set (fl_permits f)) b (nodes b)"
  shows "fleet_ok (f\<lparr>fl_ctrl := c', fl_nodes := nodes\<rparr>)"
proof -
  note f = fleet_okD [OF assms(1)]
  have q: "quiet (c_store (fl_ctrl f)) (c_store c')" using assms(2) by (simp add: calm.serves_def)
  have "set (recorded_ids c') \<subseteq> set (recorded_ids (fl_ctrl f))"
    using quiet_keeps [OF q f(1)] by (auto simp: recorded_iff)
  then have "set (recorded_ids c') \<subseteq> set (fl_used f)" "\<forall>i \<in> set (recorded_ids c'). path_base i = i"
    using f(3,4) by auto
  moreover have "\<forall>(a, i) \<in> set (fl_permits f). i \<in> set (fl_used f) \<and> permit_holds (c_store c') i a"
    using quiet_keeps [OF q f(1)] f(5,6) by auto
  moreover have "\<forall>(a, i) \<in> set (fl_permits f). \<forall>b. (b, i) \<in> set (fl_permits f) \<longrightarrow> b = a" using f(7) by blast
  ultimately show ?thesis
    using quiet_keeps [OF q f(1)] calm.serves_named [OF assms(2) f(2)] f(8,9) assms(3)
    by (simp add: fleet_ok_def)
qed

lemma fleet_ok_call:
  assumes "fleet_ok f" "calm.serves (fl_ctrl f) c'"
    "node_ok (set (fl_starts f)) (set (fl_permits f)) a n'"
  shows "fleet_ok (f\<lparr>fl_ctrl := c', fl_nodes := (fl_nodes f)(a := n')\<rparr>)"
proof -
  have "node_ok (set (fl_starts f)) (set (fl_permits f)) b (((fl_nodes f)(a := n')) b)" for b
    using fleet_okD(10) [OF assms(1)] assms(3) by (cases "b = a") simp_all
  then show ?thesis by (rule fleet_ok_serves [OF assms(1,2)])
qed

lemma fleet_ok_nodes:
  assumes "fleet_ok f" "node_ok (set (fl_starts f)) (set (fl_permits f)) a n'"
  shows "fleet_ok (f\<lparr>fl_nodes := (fl_nodes f)(a := n')\<rparr>)"
  using fleet_ok_call [OF assms(1) calm.serves_refl assms(2)] by simp

lemma fleet_ok_controller:
  assumes "fleet_ok f" "store_step (c_store (fl_ctrl f)) (c_store c')" "named_agents c'"
    "fresh_ids (fl_used f) (fl_ctrl f) c'"
  shows "fleet_ok (f\<lparr>fl_ctrl := c', fl_used := recorded_ids c' @ fl_used f\<rparr>)"
proof -
  note f = fleet_okD [OF assms(1)]
  have ok': "store_ok (c_store c')" using store_step_ok [OF assms(2) f(1)] by blast
  have fresh: "i \<in> set (recorded_ids (fl_ctrl f)) \<or> (i \<notin> set (fl_used f) \<and> path_base i = i)"
    if "i \<in> set (recorded_ids c')" for i
    using assms(4) that by (auto simp: fresh_ids_def list_all_iff)
  have holds: "permit_holds (c_store c') i a" if p: "(a, i) \<in> set (fl_permits f)" for a i
  proof (rule permit_holds_step [OF f(1) assms(2) f(6) [OF p]])
    show "Find (c_store (fl_ctrl f)) i \<noteq> None" if "Find (c_store c') i \<noteq> None"
      using that f(5) [OF p] fresh unfolding recorded_iff [symmetric] by blast
  qed
  have "\<forall>(a, i) \<in> set (fl_permits f). i \<in> set (recorded_ids c' @ fl_used f) \<and> permit_holds (c_store c') i a"
    using f(5) holds by auto
  moreover have "\<forall>i \<in> set (recorded_ids c'). path_base i = i" using fresh f(4) by blast
  moreover have "\<forall>(a, i) \<in> set (fl_permits f). \<forall>b. (b, i) \<in> set (fl_permits f) \<longrightarrow> b = a" using f(7) by blast
  ultimately show ?thesis using ok' assms(3) f(8-10) by (simp add: fleet_ok_def)
qed

lemma fleet_ok_agent:
  assumes "fleet_ok f" shows "fleet_ok (fleet_agent_step env a f)"
proof -
  note f = fleet_okD [OF assms]
  let ?S = "set (fl_starts f)" and ?P = "set (fl_permits f)" and ?c = "fl_ctrl f" and ?n = "fl_nodes f a"
  obtain n' started c' where st: "agent_step env ?n ?c = (n', started, c')" by (metis surj_pair)
  define perm where "perm = permit_received env ?n ?c"
  let ?P' = "?P \<union> Pair a ` set perm"
  have a: "agent_id (nd_agent ?n) = a" using f(10) [of a] by (simp add: node_ok_def base_ok_def)
  have q: "calm.serves ?c c'" by (rule calm.agent_step_serves [OF f(2) st])
  then have "quiet (c_store ?c) (c_store c')" by (simp add: calm.serves_def)
  note keep = quiet_keeps [OF this f(1)]
  have new: "(\<exists>e. Find (c_store ?c) i = Some e \<and> ex_AgentID e = a) \<and> permit_holds (c_store c') i a"
    if "i \<in> set perm" for i
    using permit_received_sound [OF _ st f(1)] that a by (simp add: perm_def)
  have poll: "path_base (asg_ExecutionID asg) = asg_ExecutionID asg \<and> (a, asg_ExecutionID asg) \<notin> ?S"
    if "AssignmentFor (st_data (c_store ?c)) a = Some asg" for asg
    using AssignmentFor_ungranted [OF that f(1)] f(4,6,8) by blast
  have "node_ok ?S ?P' a ?n" by (rule node_ok_mono [OF f(10)]) auto
  from agent_step_ok [OF st this poll] have step: "node_ok (?S \<union> Pair a ` set started) ?P' a n'"
    "distinct started" "\<forall>i \<in> set started. (a, i) \<in> ?P' \<and> (a, i) \<notin> ?S"
    by (auto simp: perm_def)
  have nodes: "node_ok (?S \<union> Pair a ` set started) ?P' b (((fl_nodes f)(a := n')) b)" for b
    using step(1) by (cases "b = a") (auto intro: node_ok_mono [OF f(10)])
  have "i \<in> set (fl_used f)" if "i \<in> set perm" for i
    using new [OF that] f(3) by (auto simp: recorded_iff subset_iff)
  then have used: "\<forall>(b, i) \<in> ?P'. i \<in> set (fl_used f) \<and> permit_holds (c_store c') i b"
    using f(5,6) new keep by auto
  have own: "b = a" if "i \<in> set perm" "(b, i) \<in> ?P" for b i
    using new [OF that(1)] f(6) [OF that(2)] by (auto simp: permit_holds_def)
  have func: "\<forall>(b, i) \<in> ?P'. \<forall>b'. (b', i) \<in> ?P' \<longrightarrow> b' = b"
    using own f(7) by blast
  have ids: "set (recorded_ids c') \<subseteq> set (recorded_ids ?c)" using keep by (auto simp: recorded_iff)
  have starts: "?S \<union> Pair a ` set started \<subseteq> ?P'" "distinct (fl_starts f @ map (Pair a) started)"
    using step(2,3) f(8,9) by (auto simp: distinct_map inj_on_def)
  have "fleet_agent_step env a f = f\<lparr>fl_ctrl := c', fl_nodes := (fl_nodes f)(a := n'),
      fl_starts := fl_starts f @ map (Pair a) started, fl_permits := fl_permits f @ map (Pair a) perm\<rparr>"
    by (simp add: fleet_agent_step_def st perm_def)
  moreover have "named_agents c'" by (rule calm.serves_named [OF q f(2)])
  moreover have "set (recorded_ids c') \<subseteq> set (fl_used f)" "\<forall>i \<in> set (recorded_ids c'). path_base i = i"
    using ids f(3,4) by auto
  ultimately show ?thesis
    using conjunct1 [OF keep] nodes used func starts by (simp add: fleet_ok_def del: fun_upd_apply)
qed

lemma fleet_step_ok: "fleet_step f f' \<Longrightarrow> fleet_ok f \<Longrightarrow> fleet_ok f'"
proof (induction rule: fleet_step.induct)
  case (heartbeat env f a n' c')
  show ?case
    by (rule fleet_ok_call [OF heartbeat.prems calm.heartbeat_step_serves [OF heartbeat.hyps]
          side_steps_ok(1) [OF fleet_okD(10) [OF heartbeat.prems] heartbeat.hyps]])
next
  case (stream env f a n' c')
  show ?case
    by (rule fleet_ok_call [OF stream.prems calm.stream_step_serves [OF stream.hyps]
          side_steps_ok(2) [OF fleet_okD(10) [OF stream.prems] stream.hyps]])
next
  case (controller f c')
  then show ?case by (intro fleet_ok_controller)
next
  case (agent f env a)
  then show ?case by (rule fleet_ok_agent)
next
  case (script_output f a env)
  then show ?case by (intro fleet_ok_nodes side_steps_ok(3) fleet_okD(10))
next
  case (crash f a)
  then show ?case by (intro fleet_ok_nodes side_steps_ok(4) fleet_okD(10))
next
  case (boot f a env)
  then show ?case by (intro fleet_ok_nodes side_steps_ok(5) fleet_okD(10))
qed

lemma initial_fleet_ok: "initial_fleet f \<Longrightarrow> fleet_ok f"
  by (auto simp: initial_fleet_def fleet_ok_def initial_ok recorded_ids_def initial_store_def empty_state_def
      node_ok_def base_ok_def journal_ok_def)

lemma fleet_reachable_ok: "fleet_reachable f \<Longrightarrow> fleet_ok f"
  by (induction rule: fleet_reachable.induct) (auto intro: initial_fleet_ok fleet_step_ok)

end
