(* ===== verification/Sample_Fleet.thy ===== *)
theory Sample_Fleet
  imports Fleet_Invariant Sample_States
begin

text \<open>
  A concrete run of the system: the sample controller, its agents on empty spools, a run enqueued
  and assigned, the agent's poll, permit and launch, and a crash of the agent afterwards.
\<close>

definition sample_host :: host where
  "sample_host = \<lparr>ho_stat = (\<lambda>_. None), ho_boot = ''b'', ho_ps = (\<lambda>_. Inr ''Mon''), ho_signal0 = (\<lambda>_. KillOk)\<rparr>"

definition sample_agent_env :: "time \<Rightarrow> agent_env" where
  "sample_agent_env now =
     \<lparr>agent_env.ae_now = now, ae_save = (\<lambda>_. \<lparr>ji_mkdir = False, ji_io = io_ok\<rparr>),
      ae_rm = (\<lambda>_. \<lparr>ri_entry = False, ri_log = False\<rparr>), ae_dir_fails = False, ae_unreadable = (\<lambda>_. False),
      ae_net = (\<lambda>_. Delivered), ae_op = (\<lambda>_. sample_env now), ae_stat_fails = False,
      ae_upload = (\<lambda>_. (Delivered, log_io_ok, sample_env now)), ae_open = None, ae_short = (\<lambda>_. None),
      ae_stat = (\<lambda>_. None), ae_host = (\<lambda>_. sample_host), ae_kill_polls = 2,
      ae_poll = \<lparr>pe_now = now, pe_io = io_ok, pe_sched = op_sched (sample_env now)\<rparr>, ae_deadline = False,
      ae_abs = Some, ae_symlinks = Inr, ae_path_text = (\<lambda>_. ''bad path''), ae_save_text = ''save failed'',
      ae_script_io = None, ae_pipe_io = None, ae_lines = ''ok'', ae_start = Inr 42, ae_parse = (\<lambda>_. None),
      ae_timer = False, ae_cancel_seen = False, ae_end = Reaped None (Some 0), ae_sync = None\<rparr>"

definition sample_agent_runtime :: "string \<Rightarrow> AgentRuntime" where
  "sample_agent_runtime a =
     \<lparr>art_ConfigPath = ''/etc/agent.yaml'', art_ID = a, art_ControllerURL = ''http://c'', art_SpoolDir = ''/spool'',
      art_ExecDir = ''/exec'', art_CredentialsPath = ''/cred'', art_WorkspaceRoot = ''/ws'', art_ScriptHeader = ''#!/bin/sh'',
      art_HeartbeatInterval = 5, art_PollTimeout = 20, art_RequestTimeout = 10\<rparr>"

definition sample_node :: "string \<Rightarrow> AgentNode" where
  "sample_node a = node (newAgent (sample_agent_runtime a) ''1.0'' \<lparr>jr_dir = ''/spool'', jr_entries = [], jr_logs = []\<rparr>) Off"

definition sample_fleet :: Fleet where
  "sample_fleet = \<lparr>fl_ctrl = sample_online, fl_nodes = sample_node, fl_starts = [], fl_permits = [], fl_used = []\<rparr>"

text \<open>The run is enqueued; the agent's poll schedules it.\<close>

definition sample_enqueued_ctrl :: Controller where
  "sample_enqueued_ctrl = sample_online\<lparr>c_store := snd (snd (mutate io_ok
     (Enqueue_txn (new_execution 11 sample_job (sum.projr (resolveParameters sample_config sample_job [])) ''alice'' ''r''))
     (c_store sample_online)))\<rparr>"

definition sample_enqueued :: Fleet where
  "sample_enqueued = sample_fleet\<lparr>fl_ctrl := sample_enqueued_ctrl,
     fl_used := recorded_ids sample_enqueued_ctrl @ fl_used sample_fleet\<rparr>"

definition sample_booted :: Fleet where
  "sample_booted = sample_enqueued\<lparr>fl_nodes := (fl_nodes sample_enqueued)(''a1'' :=
     boot_node (sample_agent_env 12) (fl_nodes sample_enqueued ''a1''))\<rparr>"

definition sample_launched :: Fleet where
  "sample_launched = (fleet_agent_step (sample_agent_env 13) ''a1'' ^^ 6) sample_booted"

lemma sample_fleet_reachable: "fleet_reachable sample_fleet"
proof (rule fleet_reachable.start)
  have "c_store sample_online = sample_store" "c_cfg sample_online = sample_config"
    by (simp_all add: sample_online_def Heartbeat_def sample_controller_def Let_def)
  then show "initial_fleet sample_fleet"
    by (simp add: initial_fleet_def sample_fleet_def initial_store_def sample_store_def named_agents_def
        sample_config_def sample_agent_def sample_node_def newAgent_def sample_agent_runtime_def)
qed

lemma sample_enqueued_reachable: "fleet_reachable sample_enqueued"
  unfolding sample_enqueued_def
proof (rule fleet_reachable.step [OF sample_fleet_reachable fleet_step.controller])
  have none: "find_execution (st_data (c_store sample_online)) ''r'' = None" by code_simp
  show "store_step (c_store (fl_ctrl sample_fleet)) (c_store sample_enqueued_ctrl)"
  proof -
    let ?x = "new_execution 11 sample_job (sum.projr (resolveParameters sample_config sample_job [])) ''alice'' ''r''"
    obtain r e s' where m: "mutate io_ok (Enqueue_txn ?x) (c_store sample_online) = (r, e, s')" by (metis surj_pair)
    from store_step.enqueue [OF none this] m show ?thesis
      by (simp add: sample_enqueued_ctrl_def sample_fleet_def)
  qed
  show "named_agents sample_enqueued_ctrl"
    by (simp add: named_agents_def sample_enqueued_ctrl_def sample_online_def Heartbeat_def sample_controller_def
        Let_def sample_config_def sample_agent_def)
  show "fresh_ids (fl_used sample_fleet) (fl_ctrl sample_fleet) sample_enqueued_ctrl" by code_simp
qed

lemma sample_booted_reachable: "fleet_reachable sample_booted"
  unfolding sample_booted_def by (rule fleet_reachable.step [OF sample_enqueued_reachable fleet_step.boot])

lemma agent_steps_reachable: "fleet_reachable f \<Longrightarrow> fleet_reachable ((fleet_agent_step env a ^^ n) f)"
  by (induction n) (auto intro: fleet_reachable.step fleet_step.agent)

lemma sample_launched_reachable: "fleet_reachable sample_launched"
  unfolding sample_launched_def by (rule agent_steps_reachable [OF sample_booted_reachable])

text \<open>The part of the system one agent sees while only it moves.\<close>

definition agent_run :: "agent_env \<Rightarrow> AgentNode \<times> string list \<times> Controller \<Rightarrow> AgentNode \<times> string list \<times> Controller" where
  "agent_run env p = (case p of (n, s, c) \<Rightarrow> case agent_step env n c of (n', s', c') \<Rightarrow> (n', s @ s', c'))"

lemma agent_run_fleet:
  "fl_nodes ((fleet_agent_step env a ^^ k) f) a = fst ((agent_run env ^^ k) (fl_nodes f a, [], fl_ctrl f))
   \<and> fl_ctrl ((fleet_agent_step env a ^^ k) f) = snd (snd ((agent_run env ^^ k) (fl_nodes f a, [], fl_ctrl f)))
   \<and> fl_starts ((fleet_agent_step env a ^^ k) f)
       = fl_starts f @ map (Pair a) (fst (snd ((agent_run env ^^ k) (fl_nodes f a, [], fl_ctrl f))))"
  by (induction k) (auto simp: fleet_agent_step_def agent_run_def split: prod.splits)

lemma sample_launched_starts: "fl_starts sample_launched = [(''a1'', ''r'')]"
proof -
  have "fl_nodes sample_booted ''a1'' = boot_node (sample_agent_env 12) (sample_node ''a1'')"
    "fl_ctrl sample_booted = sample_enqueued_ctrl" "fl_starts sample_booted = []"
    by (simp_all add: sample_booted_def sample_enqueued_def sample_fleet_def)
  moreover have "fst (snd ((agent_run (sample_agent_env 13) ^^ 6)
      (boot_node (sample_agent_env 12) (sample_node ''a1''), [], sample_enqueued_ctrl))) = [''r'']"
    by code_simp
  ultimately show ?thesis by (simp add: sample_launched_def agent_run_fleet)
qed

end
