(* ===== verification/Fleet_Props.thy ===== *)
theory Fleet_Props
  imports Sample_Fleet
begin

text \<open>
  What the agents promise: a script is started at most once, logs and results reach the controller,
  and after a crash only processes the agent can prove to be its own are touched.
\<close>

section \<open>At most one start\<close>

text \<open>C1. However often agents and controller crash and come back, requests and answers are lost or
  repeated, and files cannot be written: no script is launched twice, neither by the same agent nor by
  another one, and as long as the controller records a launched execution it records the start permit
  and that agent as its owner.\<close>

theorem script_started_at_most_once:
  assumes "fleet_reachable f"
  shows "distinct (map snd (fl_starts f))
    \<and> (\<forall>(a, i) \<in> set (fl_starts f). \<forall>e. Find (c_store (fl_ctrl f)) i = Some e \<longrightarrow>
         ex_PermitGranted e \<and> ex_AgentID e = a)"
proof -
  note f = fleet_okD [OF fleet_reachable_ok [OF assms]]
  have "inj_on snd (set (fl_starts f))"
    unfolding inj_on_def using f(7,8) by (metis prod.collapse subsetD)
  then have "distinct (map snd (fl_starts f))" using f(9) by (simp add: distinct_map)
  moreover have "permit_holds (c_store (fl_ctrl f)) i a" if "(a, i) \<in> set (fl_starts f)" for a i
    using f(6,8) that by blast
  ultimately show ?thesis by (auto simp: permit_holds_def)
qed

theorem script_started_at_most_once_witness:
  "fl_starts sample_launched = [(''a1'', ''r'')] \<and> distinct (map snd (fl_starts sample_launched))"
  using script_started_at_most_once [OF sample_launched_reachable] sample_launched_starts by blast

end
