(* ===== verification/Upload_Props.thy ===== *)
theory Upload_Props
  imports Fleet_Props Log_Props
begin

text \<open>
  The way of a log and a result from the agent's spool to the controller: the upload converges to
  the complete log wherever agent and controller stand, and reporting a finished execution ends with
  the result on record and the spool entry gone.
\<close>

lemma ackedOffset_set [simp]: "ackedOffset (setAckedOffset i n m) i = n"
  by (simp add: ackedOffset_def setAckedOffset_def update_conv)

section \<open>A receiver of log chunks\<close>

text \<open>What the upload loop relies on: a chunk that starts within the stored prefix extends it to the
  end of the chunk, one that starts beyond it is answered with the stored length.\<close>

locale log_sink =
  fixes upload :: "nat \<Rightarrow> int \<Rightarrow> string \<Rightarrow> 's \<Rightarrow> (agent_error + int) \<times> 's"
    and stored :: "'s \<Rightarrow> string"
    and ready :: "'s \<Rightarrow> bool"
    and full :: string
  assumes stored_prefix: "ready s \<Longrightarrow> stored s = take (length (stored s)) full"
    and extends: "\<lbrakk>ready s; data \<noteq> ''''; n \<le> length (stored s); data = take (length data) (drop n full)\<rbrakk> \<Longrightarrow>
      \<exists>s'. upload k (int n) data s = (Inr (int (max (length (stored s)) (n + length data))), s') \<and> ready s'
         \<and> stored s' = take (max (length (stored s)) (n + length data)) full"
    and beyond: "\<lbrakk>ready s; length (stored s) < n; data \<noteq> ''''; data = take (length data) (drop n full)\<rbrakk> \<Longrightarrow>
      \<exists>s'. upload k (int n) data s = (Inr (int (length (stored s))), s') \<and> ready s' \<and> stored s' = stored s"
begin

definition quiet_file :: "local_file \<Rightarrow> bool" where
  "quiet_file lf \<longleftrightarrow> (\<forall>k. lf_content lf k = full \<and> lf_stat lf k = None \<and> lf_short lf k = None)"

lemma stored_le: "ready s \<Longrightarrow> length (stored s) \<le> length full"
  using stored_prefix [of s] by (metis length_take min.cobounded1)

abbreviation chunk :: "nat \<Rightarrow> string" where
  "chunk n \<equiv> take (nat (if int (length full) - int n > agentLogChunkLimit then agentLogChunkLimit
     else int (length full) - int n)) (drop n full)"

lemma chunk_length: "n < length full \<Longrightarrow> length (chunk n) = min 524288 (length full - n)"
  by (auto simp: agentLogChunkLimit_def)

lemma chunk_nonempty: "n < length full \<Longrightarrow> chunk n \<noteq> ''''"
  by (auto simp: agentLogChunkLimit_def)

lemma chunk_self: "chunk n = take (length (chunk n)) (drop n full)"
  by (metis length_take min.cobounded2 take_all_iff take_take min.commute length_drop)

lemma flush_unfold:
  assumes "quiet_file lf" "n < length full"
  shows "flush_loop lf upload i k (Suc attempts) (int n) m s =
    (case upload k (int n) (chunk n) s of
       (Inl e, s') \<Rightarrow> (Inl e, m, s')
     | (Inr next, s') \<Rightarrow>
         if next = int n then (Inr (int n), setAckedOffset i (int n) m, s')
         else flush_loop lf upload i (Suc k) attempts next (setAckedOffset i next m) s')"
proof -
  have "chunk n \<noteq> ''''" by (rule chunk_nonempty [OF assms(2)])
  with assms show ?thesis by (simp add: quiet_file_def read_at_def Let_def)
qed

lemma flush_at_end:
  assumes "quiet_file lf" "length full \<le> n"
  shows "flush_loop lf upload i k (Suc attempts) (int n) m s = (Inr (int n), setAckedOffset i (int n) m, s)"
  using assms by (simp add: quiet_file_def Let_def)

text \<open>From an offset the receiver has reached, every attempt moves on by a full chunk.\<close>

lemma flush_from_stored:
  assumes "quiet_file lf" "ready s" "n \<le> length (stored s)" "length full \<le> n + 524288 * attempts"
  shows "\<exists>m' s'. flush_loop lf upload i k (Suc attempts) (int n) m s = (Inr (int (length full)), m', s')
    \<and> ready s' \<and> stored s' = full \<and> ackedOffset m' i = int (length full)"
  using assms(2-4)
proof (induction attempts arbitrary: k n m s)
  case 0
  with stored_le [OF 0(1)] have "n = length full" "length (stored s) = length full" by auto
  with 0 stored_prefix [OF 0(1)] show ?case using flush_at_end [OF assms(1), of n] by simp
next
  case (Suc a)
  show ?case
  proof (cases "n < length full")
    case False
    with stored_le [OF Suc.prems(1)] Suc.prems(2) have "n = length full" "length (stored s) = length full" by auto
    with Suc.prems(1) stored_prefix [OF Suc.prems(1)] show ?thesis using flush_at_end [OF assms(1), of n] by simp
  next
    case True
    let ?d = "chunk n" and ?n' = "max (length (stored s)) (n + length (chunk n))"
    have len: "length ?d = min 524288 (length full - n)" by (rule chunk_length [OF True])
    have ne: "?d \<noteq> ''''" by (rule chunk_nonempty [OF True])
    obtain s' where u: "upload k (int n) ?d s = (Inr (int ?n'), s')" "ready s'" "stored s' = take ?n' full"
      using extends [OF Suc.prems(1) ne Suc.prems(2) chunk_self] by blast
    have fits: "?n' \<le> length full" using len stored_le [OF Suc.prems(1)] True by simp
    then have "length (stored s') = ?n'" using u(3) by simp
    moreover have "length full \<le> ?n' + 524288 * a" using Suc.prems(3) len True by simp
    ultimately obtain m' s'' where
      "flush_loop lf upload i (Suc k) (Suc a) (int ?n') (setAckedOffset i (int ?n') m) s' = (Inr (int (length full)), m', s'')"
      "ready s''" "stored s'' = full" "ackedOffset m' i = int (length full)"
      using Suc.IH [OF u(2), of ?n'] by (metis order_refl)
    moreover have "int ?n' \<noteq> int n" using len True by simp
    ultimately show ?thesis using u(1) by (simp only: flush_unfold [OF assms(1) True] prod.case sum.case if_False) blast
  qed
qed

text \<open>From any offset short of the end: one attempt is spent when the agent is ahead.\<close>

lemma flush_converges:
  assumes "quiet_file lf" "ready s" "n < length full" "length full \<le> 524288 * attempts"
  shows "\<exists>m' s'. flush_loop lf upload i k (Suc (Suc attempts)) (int n) m s = (Inr (int (length full)), m', s')
    \<and> ready s' \<and> stored s' = full \<and> ackedOffset m' i = int (length full)"
proof (cases "n \<le> length (stored s)")
  case True
  with assms show ?thesis by (intro flush_from_stored) auto
next
  case False
  let ?n' = "length (stored s)"
  have ne: "chunk n \<noteq> ''''" by (rule chunk_nonempty [OF assms(3)])
  from False obtain s' where u: "upload k (int n) (chunk n) s = (Inr (int ?n'), s')" "ready s'" "stored s' = stored s"
    using beyond [OF assms(2) _ ne chunk_self] by auto
  have "\<exists>m' s''. flush_loop lf upload i (Suc k) (Suc attempts) (int ?n') (setAckedOffset i (int ?n') m) s'
      = (Inr (int (length full)), m', s'') \<and> ready s'' \<and> stored s'' = full \<and> ackedOffset m' i = int (length full)"
    using assms(4) u(3) by (intro flush_from_stored [OF assms(1) u(2)]) auto
  moreover have "int ?n' \<noteq> int n" using False by simp
  ultimately show ?thesis using u(1) by (simp only: flush_unfold [OF assms(1,3)] prod.case sum.case if_False)
qed

end

section \<open>The controller as a receiver\<close>

text \<open>A controller that takes the log of run \<open>i\<close> from agent \<open>a\<close>: the agent is configured and owns the
  run, whose log is open, was not cut, and fits under the cap; what is stored is a prefix of it.\<close>

definition takes_log :: "string \<Rightarrow> string \<Rightarrow> string \<Rightarrow> Controller \<Rightarrow> bool" where
  "takes_log a i full c \<longleftrightarrow>
     findAgentDefinition (c_cfg c) a \<noteq> None
     \<and> (case Find (c_store c) i of
          None \<Rightarrow> False
        | Some e \<Rightarrow> ex_AgentID e = a \<and> \<not> ex_LogComplete e \<and> \<not> ex_LogTruncated e)
     \<and> int (length full) \<le> rt_MaxLogBytes (c_runtime c) \<and> int (length full) < 2 ^ 63
     \<and> log_of c i = take (length (log_of c i)) full"

lemma takes_log_put:
  assumes "takes_log a i full c"
  shows "takes_log a i full (put_log (executionLogPath (rt_LogDir (c_runtime c)) i) (take n full) c)"
  using assms by (auto simp: takes_log_def put_log_def Find_def log_of_def update_conv min_def split: option.splits)

lemma Find_SetLogOffset:
  "Find (SetLogOffset i n s) i =
     map_option (\<lambda>e. if n > ex_LogOffset e then e\<lparr>ex_LogOffset := n\<rparr> else e) (Find s i)"
proof (cases "Find s i")
  case None
  then show ?thesis 
    by (simp add: Find_def SetLogOffset_def update_execution_def find_execution_def upd_first_None)
next
  case (Some e)
  then have "ex_ID e = i" using find_execution_Some by (auto simp: Find_def)
  with Some show ?thesis by (simp add: Find_def SetLogOffset_def find_update_same)
qed

lemma takes_log_offset:
  assumes "takes_log a i full c"
  shows "takes_log a i full (c\<lparr>c_store := SetLogOffset i n (c_store c)\<rparr>)"
proof -
  have "log_of (c\<lparr>c_store := SetLogOffset i n (c_store c)\<rparr>) i = log_of c i"
    by (simp add: log_of_def SetLogOffset_def)
  with assms show ?thesis by (auto simp: takes_log_def Find_SetLogOffset split: option.splits)
qed

lemma AppendLog_unfold:
  assumes "takes_log a i full c"
  shows "AppendLog log_io_ok io a \<lparr>lrq_AgentID = a', lrq_ExecutionID = i, lrq_Offset = int n, lrq_Data = data\<rparr> c =
    (let path = executionLogPath (rt_LogDir (c_runtime c)) i; bytes = log_of c i in
     if length bytes < n \<or> n + length data \<le> length bytes then (Inr (int (length bytes)), put_log path bytes c)
     else store_chunk log_io_ok io i path bytes (drop (length bytes - n) data) c)"
proof -
  let ?bytes = "log_of c i"
  have stored: "(case map_of (st_logs (c_store c)) (executionLogPath (rt_LogDir (c_runtime c)) i) of
      None \<Rightarrow> '''' | Some bytes \<Rightarrow> bytes) = ?bytes" by (simp add: log_of_def)
  have l: "length ?bytes \<le> length full" "int (length full) < 2 ^ 63"
    using assms by (auto simp: takes_log_def) (metis length_take min.cobounded1)
  have w: "wrap64 (int (length ?bytes) - int n) = int (length ?bytes) - int n" if "n \<le> length ?bytes"
    using that l by (intro wrap64_id) (simp add: int64_def)
  have req: "requireExecutionOwner (st_data (c_store c)) a i = None" "requireLogAppendable (st_data (c_store c)) i = None"
      "\<exists>off. logTruncationState (st_data (c_store c)) i = (False, off)"
    using assms by (auto simp: takes_log_def Find_def requireExecutionOwner_def requireLogAppendable_def
        logTruncationState_def split: option.splits)
  show ?thesis
    unfolding AppendLog_def Let_def using req w
    by (auto simp: stored log_io_ok_def nat_diff_distrib' of_nat_diff)
qed

lemma store_chunk_takes:
  assumes "takes_log a i full c" "log_of c i @ payload = take k full" "k \<le> length full" "payload \<noteq> ''''"
  shows "\<exists>c'. store_chunk log_io_ok io i (executionLogPath (rt_LogDir (c_runtime c)) i) (log_of c i) payload c
      = (Inr (int k), c') \<and> takes_log a i full c' \<and> log_of c' i = take k full"
proof -
  let ?path = "executionLogPath (rt_LogDir (c_runtime c)) i" and ?bytes = "log_of c i"
  have len: "int (length ?bytes) + int (length payload) = int k"
    using arg_cong [OF assms(2), of length] assms(3) by simp
  have cap: "int (length full) \<le> rt_MaxLogBytes (c_runtime c)" "int (length full) < 2 ^ 63"
    using assms(1) by (simp_all add: takes_log_def)
  have w: "wrap64 (int (length ?bytes) + int (length payload)) = int k"
    unfolding len using assms(3) cap(2) by (intro wrap64_id) (simp add: int64_def)
  have fits: "cap_payload (rt_MaxLogBytes (c_runtime c)) (int (length ?bytes)) payload = (payload, False)"
    using cap(1) assms(3) by (simp add: cap_payload_def w)
  let ?c1 = "put_log ?path (take k full) c"
  have "store_chunk log_io_ok io i ?path ?bytes payload c = (Inr (int k), ?c1\<lparr>c_store := SetLogOffset i (int k) (c_store ?c1)\<rparr>)"
    using assms(2,4) by (simp add: store_chunk_def Let_def fits w append_bytes_def log_io_ok_def put_log_def)
  moreover have "takes_log a i full (?c1\<lparr>c_store := SetLogOffset i (int k) (c_store ?c1)\<rparr>)"
    by (rule takes_log_offset [OF takes_log_put [OF assms(1)]])
  moreover have "log_of (?c1\<lparr>c_store := SetLogOffset i (int k) (c_store ?c1)\<rparr>) i = take k full"
    by (simp add: log_of_def SetLogOffset_def put_log_def update_conv)
  ultimately show ?thesis by blast
qed

lemma AppendLog_takes:
  assumes "takes_log a i full c" "data \<noteq> ''''" "data = take (length data) (drop n full)"
  shows "n \<le> length (log_of c i) \<Longrightarrow>
      \<exists>c'. AppendLog log_io_ok io a \<lparr>lrq_AgentID = a', lrq_ExecutionID = i, lrq_Offset = int n, lrq_Data = data\<rparr> c
        = (Inr (int (max (length (log_of c i)) (n + length data))), c')
      \<and> takes_log a i full c' \<and> log_of c' i = take (max (length (log_of c i)) (n + length data)) full"
    and "length (log_of c i) < n \<Longrightarrow>
      \<exists>c'. AppendLog log_io_ok io a \<lparr>lrq_AgentID = a', lrq_ExecutionID = i, lrq_Offset = int n, lrq_Data = data\<rparr> c
        = (Inr (int (length (log_of c i))), c') \<and> takes_log a i full c' \<and> log_of c' i = log_of c i"
proof -
  let ?path = "executionLogPath (rt_LogDir (c_runtime c)) i" and ?l = "length (log_of c i)"
  have pre: "log_of c i = take ?l full" using assms(1) by (simp add: takes_log_def)
  have keep: "takes_log a i full (put_log ?path (log_of c i) c)"
    using takes_log_put [OF assms(1), of ?l] pre by simp
  show "\<exists>c'. AppendLog log_io_ok io a \<lparr>lrq_AgentID = a', lrq_ExecutionID = i, lrq_Offset = int n, lrq_Data = data\<rparr> c
        = (Inr (int ?l), c') \<and> takes_log a i full c' \<and> log_of c' i = log_of c i" if "?l < n"
    unfolding AppendLog_unfold [OF assms(1)] using that keep by (simp add: Let_def)
  assume n: "n \<le> ?l"
  show "\<exists>c'. AppendLog log_io_ok io a \<lparr>lrq_AgentID = a', lrq_ExecutionID = i, lrq_Offset = int n, lrq_Data = data\<rparr> c
        = (Inr (int (max ?l (n + length data))), c')
      \<and> takes_log a i full c' \<and> log_of c' i = take (max ?l (n + length data)) full"
  proof (cases "n + length data \<le> ?l")
    case True
    with n keep pre show ?thesis unfolding AppendLog_unfold [OF assms(1)] by (simp add: Let_def max_absorb1)
  next
    case False
    have fits: "n + length data \<le> length full"
      using arg_cong [OF assms(3), of length] assms(2) by (cases data) auto
    have "drop (?l - n) data = take (n + length data - ?l) (drop ?l full)"
      using n by (subst assms(3)) (simp add: drop_take add.commute)
    then have "log_of c i @ drop (?l - n) data = take (n + length data) full"
      using pre False by (metis le_add_diff_inverse linear take_add)
    moreover have "drop (?l - n) data \<noteq> ''''" using n False by simp
    ultimately show ?thesis using n False store_chunk_takes [OF assms(1) _ fits, of _ io]
      unfolding AppendLog_unfold [OF assms(1)] by (simp add: Let_def max_absorb2)
  qed
qed

lemma client_UploadLog_Delivered:
  assumes "takes_log a i full c"
    and "AppendLog log_io_ok (op_io oe) a \<lparr>lrq_AgentID = a, lrq_ExecutionID = i, lrq_Offset = off, lrq_Data = data\<rparr>
           (markAgentSeen (op_now oe) a '''' c) = (Inr n, c')"
  shows "client_UploadLog Delivered log_io_ok oe a i off data c = (Inr n, c')"
  using assms
  by (auto simp: client_UploadLog_def call_def handleAgentLog_def with_bound_agent_def bindAgent_def takes_log_def)

lemma takes_log_seen [simp]: "takes_log a i full (markAgentSeen now b v c) = takes_log a i full c"
  by (simp add: takes_log_def log_of_def)

lemma log_of_seen [simp]: "log_of (markAgentSeen now b v c) i = log_of c i"
  by (simp add: log_of_def)

interpretation sink: log_sink "\<lambda>k off data c. client_UploadLog Delivered log_io_ok (oe k) a i off data c"
    "\<lambda>c. log_of c i" "takes_log a i full" full
  for oe a i full
proof
  show "log_of c i = take (length (log_of c i)) full" if "takes_log a i full c" for c
    using that by (simp add: takes_log_def)
  show "\<exists>c'. client_UploadLog Delivered log_io_ok (oe k) a i (int n) data c
           = (Inr (int (max (length (log_of c i)) (n + length data))), c') \<and> takes_log a i full c'
         \<and> log_of c' i = take (max (length (log_of c i)) (n + length data)) full"
    if "takes_log a i full c" "data \<noteq> ''''" "n \<le> length (log_of c i)" "data = take (length data) (drop n full)" for c data n k
    using AppendLog_takes(1) [of a i full "markAgentSeen (op_now (oe k)) a '''' c" data n "op_io (oe k)" a] that
      client_UploadLog_Delivered [OF that(1)] by auto
  show "\<exists>c'. client_UploadLog Delivered log_io_ok (oe k) a i (int n) data c = (Inr (int (length (log_of c i))), c')
         \<and> takes_log a i full c' \<and> log_of c' i = log_of c i"
    if "takes_log a i full c" "length (log_of c i) < n" "data \<noteq> ''''" "data = take (length data) (drop n full)" for c data n k
    using AppendLog_takes(2) [of a i full "markAgentSeen (op_now (oe k)) a '''' c" data n "op_io (oe k)" a] that
      client_UploadLog_Delivered [OF that(1)] by auto
qed

section \<open>Uploading the log\<close>

definition upload_works :: "agent_env \<Rightarrow> bool" where
  "upload_works env \<longleftrightarrow> ae_open env = None
     \<and> (\<forall>k. ae_stat env k = None \<and> ae_short env k = None
          \<and> fst (ae_upload env k) = Delivered \<and> fst (snd (ae_upload env k)) = log_io_ok)"

lemma flush_node_loop:
  assumes "upload_works env" "local_log (ag_journal ag) i = Some full" "ackedOffset (ag_acked ag) i = int n"
    and "flush_loop \<lparr>lf_content = (\<lambda>_. full), lf_stat = (\<lambda>_. None), lf_short = (\<lambda>_. None)\<rparr>
           (\<lambda>k off data c. client_UploadLog Delivered log_io_ok (snd (snd (ae_upload env k))) (agent_id ag) i off data c)
           i 0 10000 (int n) (ag_acked ag) c = (r, m', c')"
  shows "flush_node env i ag c = (r, ag\<lparr>ag_acked := m'\<rparr>, c')"
proof -
  have "ae_stat env = (\<lambda>_. None)" "ae_short env = (\<lambda>_. None)"
    using assms(1) by (auto simp: upload_works_def)
  moreover have "(\<lambda>k off data c. case ae_upload env k of (n, lio, oe) \<Rightarrow> client_UploadLog n lio oe (agent_id ag) i off data c)
      = (\<lambda>k off data c. client_UploadLog Delivered log_io_ok (snd (snd (ae_upload env k))) (agent_id ag) i off data c)"
    using assms(1) by (simp add: upload_works_def case_prod_beta)
  moreover have "ae_open env = None" using assms(1) by (simp add: upload_works_def)
  ultimately show ?thesis using assms(2-4) by (simp add: flush_node_def flushLog_def Let_def)
qed

lemma flush_node_delivers:
  assumes "upload_works env" "local_log (ag_journal ag) i = Some full" "takes_log (agent_id ag) i full c"
    and "ackedOffset (ag_acked ag) i = int n" "n < length full" "length full \<le> 524288 * 9998"
  shows "\<exists>m' c'. flush_node env i ag c = (Inr (int (length full)), ag\<lparr>ag_acked := m'\<rparr>, c')
    \<and> takes_log (agent_id ag) i full c' \<and> log_of c' i = full \<and> ackedOffset m' i = int (length full)"
proof -
  let ?lf = "\<lparr>lf_content = (\<lambda>_. full), lf_stat = (\<lambda>_. None), lf_short = (\<lambda>_. None)\<rparr> :: local_file"
  let ?oe = "\<lambda>k. snd (snd (ae_upload env k))"
  have q: "sink.quiet_file full ?lf" by (simp add: sink.quiet_file_def)
  have "10000 = Suc (Suc 9998)" by simp
  with sink.flush_converges [OF q assms(3,5,6), of ?oe i 0 "ag_acked ag"] obtain m' c' where
    "flush_loop ?lf (\<lambda>k off data c. client_UploadLog Delivered log_io_ok (?oe k) (agent_id ag) i off data c)
       i 0 10000 (int n) (ag_acked ag) c = (Inr (int (length full)), m', c')"
    and c': "takes_log (agent_id ag) i full c'" "log_of c' i = full" "ackedOffset m' i = int (length full)"
    by metis
  from flush_node_loop [OF assms(1,2,4) this(1)] c' show ?thesis by blast
qed

lemma flush_node_ahead:
  assumes "upload_works env" "local_log (ag_journal ag) i = Some full" "ackedOffset (ag_acked ag) i = int n" "length full \<le> n"
  shows "flush_node env i ag c = (Inr (int n), ag\<lparr>ag_acked := setAckedOffset i (int n) (ag_acked ag)\<rparr>, c)"
proof -
  have "10000 = Suc 9999" by simp
  with assms(4) have "flush_loop \<lparr>lf_content = (\<lambda>_. full), lf_stat = (\<lambda>_. None), lf_short = (\<lambda>_. None)\<rparr>
           (\<lambda>k off data c. client_UploadLog Delivered log_io_ok (snd (snd (ae_upload env k))) (agent_id ag) i off data c)
           i 0 10000 (int n) (ag_acked ag) c = (Inr (int n), setAckedOffset i (int n) (ag_acked ag), c)"
    by (simp only: flush_loop.simps) (simp add: Let_def)
  from flush_node_loop [OF assms(1-3) this] show ?thesis .
qed


definition sample_finishing :: Agent where
  "sample_finishing = newAgent (sample_agent_runtime ''a1'') ''1.0''
     \<lparr>jr_dir = ''/spool'', jr_entries = [], jr_logs = [(''r'', ''hello'')]\<rparr>"

lemma sample_upload_works: "upload_works (sample_agent_env now)"
  by (simp add: upload_works_def sample_agent_env_def)

lemma sample_takes_log: "takes_log ''a1'' ''r'' ''hello'' sample_running"
  by code_simp

lemma sample_finishing_log: "local_log (ag_journal sample_finishing) ''r'' = Some ''hello''"
  "agent_id sample_finishing = ''a1''" "ackedOffset (ag_acked sample_finishing) ''r'' = 0"
  by code_simp+


section \<open>Reporting the result\<close>

definition report_works :: "agent_env \<Rightarrow> bool" where
  "report_works env \<longleftrightarrow> upload_works env \<and> ae_net env 0 = Delivered \<and> \<not> ae_stat_fails env
     \<and> op_io (ae_op env 0) = io_ok \<and> \<not> ji_mkdir (ae_save env 0) \<and> ji_io (ae_save env 0) = io_ok
     \<and> \<not> ri_entry (ae_rm env 0)"

definition local_bytes :: "Agent \<Rightarrow> string \<Rightarrow> string" where
  "local_bytes ag i = (case local_log (ag_journal ag) i of None \<Rightarrow> '''' | Some bytes \<Rightarrow> bytes)"

text \<open>The result on record after the agent reported \<open>entry\<close>.\<close>

definition reported_as :: "journalEntry \<Rightarrow> Execution \<Rightarrow> bool" where
  "reported_as entry x \<longleftrightarrow>
     (ex_Status x = je_Status entry \<or> (ex_Status x = StatusCanceled \<and> ex_CancelRequested x))
     \<and> ex_ExitCode x = je_ExitCode entry \<and> ex_Error x = je_Error entry
     \<and> ex_FailureReason x = je_FailureReason entry \<and> ex_LogComplete x \<and> ex_LogOffset x = je_LogLength entry"

lemma log_size: "(case executionLogSize (st_logs (c_store c)) (rt_LogDir (c_runtime c)) i of None \<Rightarrow> 0 | Some n \<Rightarrow> n)
    = int (length (log_of c i))"
  by (simp add: executionLogSize_def log_of_def split: option.splits)

lemma takes_log_open:
  assumes "takes_log a i full c" "snapshot_ok (st_data (c_store c))"
  obtains x where "Find (c_store c) i = Some x" "ex_AgentID x = a" "\<not> ex_LogTruncated x" "\<not> terminal_ex x"
proof -
  from assms(1) obtain x where x: "Find (c_store c) i = Some x" "ex_AgentID x = a" "\<not> ex_LogTruncated x" "\<not> ex_LogComplete x"
    by (auto simp: takes_log_def split: option.splits)
  have "lifecycle_ok x" using assms(2) x(1) find_lifecycle by (auto simp: Find_def)
  with x(4) have "\<not> terminal_ex x" by (auto simp: lifecycle_ok_def terminal_ex_def split: if_splits)
  with x that show thesis by blast
qed

text \<open>With the complete log stored the result is accepted, with less it is refused and the stored
  length is returned.\<close>

lemma submit_accepted:
  assumes "takes_log a i full c" "snapshot_ok (st_data (c_store c))" "op_io oe = io_ok"
    and "log_of c i = full" "rrq_ExecutionID rq = i" "rrq_LogLength rq = int (length full)"
    and "rrq_Status rq \<in> set [StatusSuccess, StatusFailed, StatusCanceled, StatusAborted]"
  shows "\<exists>resp c'. client_SubmitResult Delivered False oe a rq c = (Inr resp, c') \<and> rrs_Accepted resp
    \<and> (\<forall>x x'. Find (c_store c) i = Some x \<longrightarrow> Find (c_store c') i = Some x' \<longrightarrow>
         x' = finish (op_now oe) (rq\<lparr>rrq_AgentID := a\<rparr>) (rrq_Status rq) (int (length full)) x)"
proof -
  let ?c = "markAgentSeen (op_now oe) a '''' c" and ?rq = "rq\<lparr>rrq_AgentID := a\<rparr>"
  obtain x where x: "Find (c_store c) i = Some x" "ex_AgentID x = a" "\<not> ex_LogTruncated x" "\<not> terminal_ex x"
    by (rule takes_log_open [OF assms(1,2)])
  have own: "requireExecutionOwner (st_data (c_store c)) a i = None" "\<not> fst (logTruncationState (st_data (c_store c)) i)"
    using x by (auto simp: Find_def requireExecutionOwner_def logTruncationState_def)
  have norm: "normalizeResultStatus (rrq_Status rq) = Inr (rrq_Status rq)"
    using assms(7) by (simp add: normalizeResultStatus_def)
  let ?txn = "SubmitResult_txn (op_now oe) ?rq (rrq_Status rq) (int (length full))"
  have "?txn (st_data (c_store c)) = ((), Inr (update_execution i (finish (op_now oe) ?rq (rrq_Status rq) (int (length full))) (st_data (c_store c))))"
    using x assms(5) by (simp add: SubmitResult_txn_def Find_def terminal_ex_def)
  from mutate_io_ok [of ?txn, OF this] obtain s' where m: "mutate io_ok ?txn (c_store c) = ((), None, s')" by blast
  let ?resp = "\<lparr>rrs_Accepted = True, rrs_AckOffset = int (length full), rrs_Reason = ''''\<rparr>"
  obtain c' where s: "SubmitResult False oe a ?rq ?c = (Inr ?resp, c')"
    using own norm m assms(3-6) log_size [of ?c i] by (auto simp: SubmitResult_def Let_def)
  have "client_SubmitResult Delivered False oe a rq c = (Inr ?resp, c')"
    using s assms(1) by (auto simp: client_SubmitResult_def call_def handleAgentResult_def with_bound_agent_def
        bindAgent_def takes_log_def)
  moreover have "x' = finish (op_now oe) ?rq (rrq_Status rq) (int (length full)) x"
    if f': "Find (c_store c') i = Some x'" for x'
  proof -
    have "snapshot_ok (st_data (c_store ?c))" "rrs_Accepted ?resp" "Find (c_store c') (rrq_ExecutionID ?rq) = Some x'"
      using assms(2,5) f' by simp_all
    from SubmitResult_outcome [OF this(1) s this(2,3)] obtain e status sz where
      "Find (c_store ?c) (rrq_ExecutionID ?rq) = Some e" and
      sz: "sz = (case executionLogSize (st_logs (c_store ?c)) (rt_LogDir (c_runtime ?c)) (rrq_ExecutionID ?rq) of
                   None \<Rightarrow> 0 | Some n \<Rightarrow> n)" and
      st: "normalizeResultStatus (rrq_Status ?rq) = Inr status" and
      e': "if terminal_ex e then x' = e else x' = finish (op_now oe) ?rq status sz e"
      by blast
    then have "e = x" using x(1) assms(5) by simp
    moreover have "sz = int (length full)" using sz log_size [of ?c i] assms(4,5) by simp
    moreover have "status = rrq_Status rq" using st norm by simp
    ultimately show ?thesis using e' x(4) by simp
  qed
  ultimately show ?thesis using x(1) by fastforce
qed

lemma submit_refused:
  assumes "takes_log a i full c" "snapshot_ok (st_data (c_store c))"
    and "log_of c i \<noteq> full" "rrq_ExecutionID rq = i" "rrq_LogLength rq = int (length full)"
  shows "\<exists>resp. client_SubmitResult Delivered False oe a rq c = (Inr resp, markAgentSeen (op_now oe) a '''' c)
    \<and> \<not> rrs_Accepted resp \<and> rrs_AckOffset resp = int (length (log_of c i))"
proof -
  let ?c = "markAgentSeen (op_now oe) a '''' c" and ?rq = "rq\<lparr>rrq_AgentID := a\<rparr>"
  obtain x where x: "Find (c_store c) i = Some x" "ex_AgentID x = a" "\<not> ex_LogTruncated x" "\<not> terminal_ex x"
    by (rule takes_log_open [OF assms(1,2)])
  have own: "requireExecutionOwner (st_data (c_store c)) a i = None" "\<not> fst (logTruncationState (st_data (c_store c)) i)"
    using x by (auto simp: Find_def requireExecutionOwner_def logTruncationState_def)
  have "log_of c i = take (length (log_of c i)) full" using assms(1) by (simp add: takes_log_def)
  with assms(3) have "length (log_of c i) \<noteq> length full" by (metis order_refl take_all)
  then obtain resp where "SubmitResult False oe a ?rq ?c = (Inr resp, ?c)" "\<not> rrs_Accepted resp"
      "rrs_AckOffset resp = int (length (log_of c i))"
    using own assms(4,5) log_size [of ?c i] by (auto simp: SubmitResult_def Let_def)
  with assms(1) show ?thesis
    by (auto simp: client_SubmitResult_def call_def handleAgentResult_def with_bound_agent_def
        bindAgent_def takes_log_def)
qed

lemma flush_cases:
  assumes "upload_works env" "takes_log (agent_id ag) i (local_bytes ag i) c" "store_ok (c_store c)"
    and "ackedOffset (ag_acked ag) i = int n" "length (local_bytes ag i) \<le> 524288 * 9998"
  obtains r m' c1 where "flush_node env i ag c = (Inr r, ag\<lparr>ag_acked := m'\<rparr>, c1)"
    "takes_log (agent_id ag) i (local_bytes ag i) c1" "store_ok (c_store c1)"
    "log_of c1 i = local_bytes ag i \<or> (c1 = c \<and> length (local_bytes ag i) \<le> n)"
proof -
  obtain r m' c1 where f: "flush_node env i ag c = (Inr r, ag\<lparr>ag_acked := m'\<rparr>, c1)"
    and t: "takes_log (agent_id ag) i (local_bytes ag i) c1"
      "log_of c1 i = local_bytes ag i \<or> (c1 = c \<and> length (local_bytes ag i) \<le> n)"
  proof (cases "local_log (ag_journal ag) i")
    case None
    then have f: "flush_node env i ag c = (Inr 0, ag\<lparr>ag_acked := ag_acked ag\<rparr>, c)"
      by (simp add: flush_node_def flushLog_def)
    have "log_of c i = local_bytes ag i" using assms(2) None by (simp add: takes_log_def local_bytes_def)
    with f assms(2) that show ?thesis by blast
  next
    case (Some full)
    then have full: "local_bytes ag i = full" by (simp add: local_bytes_def)
    show ?thesis
    proof (cases "n < length full")
      case True
      with flush_node_delivers [OF assms(1) Some _ assms(4)] assms(2,5) that show ?thesis unfolding full by blast
    next
      case False
      with flush_node_ahead [OF assms(1) Some assms(4)] assms(2) that show ?thesis unfolding full
        by (metis not_le_imp_less)
    qed
  qed
  have "quiet (c_store c) (c_store c1)" using calm.flush_node_serves [OF f] by (simp add: calm.serves_def)
  with quiet_keeps assms(3) have "store_ok (c_store c1)" by blast
  with f t that show thesis by blast
qed

lemma complete_reported_done:
  assumes "report_works env" "je_ExecutionID e \<noteq> ''''"
  shows "nd_pc (complete_reported env e b rest ag) = Recovering rest
    \<and> map_of (jr_entries (ag_journal (nd_agent (complete_reported env e b rest ag)))) (path_base (je_ExecutionID e)) = None"
proof -
  let ?e = "e\<lparr>je_Phase := journalReported, je_ResultAcked := True\<rparr>"
  have "fst (save_entry env 0 ?e ag)"
    using assms by (simp add: report_works_def save_entry_def Save_def writeFileAtomicSync_def io_ok_def Let_def)
  then obtain ag1 where s: "save_entry env 0 ?e ag = (True, ag1)" by (metis prod.collapse)
  have "map_of (jr_entries (ag_journal (remove_entry env 0 (je_ExecutionID e) ag1))) (path_base (je_ExecutionID e)) = None"
    using assms(1) by (simp add: report_works_def remove_entry_def Remove_def delete_conv' Let_def)
  then show ?thesis using s by (simp add: complete_reported_def return_to_def)
qed

lemma complete_round:
  assumes "report_works env" "store_ok (c_store c)" "takes_log (agent_id ag) i (local_bytes ag i) c"
    and "je_ExecutionID e = i" "i \<noteq> ''''" "je_LogLength e = int (length (local_bytes ag i))"
    and "je_Status e \<in> set [StatusSuccess, StatusFailed, StatusCanceled, StatusAborted]"
    and "ackedOffset (ag_acked ag) i = int n" "length (local_bytes ag i) \<le> 524288 * 9998"
  shows "(\<exists>n' c'. completeExecution env e b rest ag c = (n', c') \<and> nd_pc n' = Recovering rest
      \<and> map_of (jr_entries (ag_journal (nd_agent n'))) (path_base i) = None
      \<and> (\<forall>x. Find (c_store c') i = Some x \<longrightarrow> reported_as e x))
    \<or> (\<exists>ag' c' k. completeExecution env e b rest ag c = (node ag' (Completing e b rest), c')
         \<and> store_ok (c_store c') \<and> takes_log (agent_id ag') i (local_bytes ag' i) c' \<and> local_bytes ag' i = local_bytes ag i
         \<and> ackedOffset (ag_acked ag') i = int k \<and> k < length (local_bytes ag i) \<and> length (local_bytes ag i) \<le> n)"
proof -
  let ?ag = "setState agentStateUploading ag" and ?full = "local_bytes ag i"
  have same: "agent_id ?ag = agent_id ag" "local_bytes ?ag i = ?full" "ag_acked ?ag = ag_acked ag"
    by (simp_all add: setState_def local_bytes_def)
  have up: "upload_works env" and net: "ae_net env 0 = Delivered" "\<not> ae_stat_fails env" "op_io (ae_op env 0) = io_ok"
    using assms(1) by (simp_all add: report_works_def)
  obtain r m' c1 where f: "flush_node env i ?ag c = (Inr r, ?ag\<lparr>ag_acked := m'\<rparr>, c1)"
    and t: "takes_log (agent_id ag) i ?full c1" and ok: "store_ok (c_store c1)"
    and alt: "log_of c1 i = ?full \<or> (c1 = c \<and> length ?full \<le> n)"
    using flush_cases [OF up, of ?ag i c n] assms(2,3,8,9) unfolding same by metis
  have sok: "snapshot_ok (st_data (c_store c1))" using ok by (simp add: store_ok_def)
  let ?ag1 = "?ag\<lparr>ag_acked := m'\<rparr>" and ?rq = "result_request e"
  have rq: "rrq_ExecutionID ?rq = i" "rrq_LogLength ?rq = int (length ?full)" "rrq_Status ?rq = je_Status e"
    using assms(4,6) by (simp_all add: result_request_def)
  show ?thesis
  proof (cases "log_of c1 i = ?full")
    case True
    obtain resp c2 where s: "client_SubmitResult Delivered False (ae_op env 0) (agent_id ag) ?rq c1 = (Inr resp, c2)"
      and acc: "rrs_Accepted resp" and
      fin: "\<And>x x'. Find (c_store c1) i = Some x \<Longrightarrow> Find (c_store c2) i = Some x' \<Longrightarrow>
         x' = finish (op_now (ae_op env 0)) (?rq\<lparr>rrq_AgentID := agent_id ag\<rparr>) (je_Status e) (int (length ?full)) x"
      using submit_accepted [OF t sok net(3) True rq(1,2)] assms(7) unfolding rq(3) by metis
    obtain x where x: "Find (c_store c1) i = Some x" using takes_log_open [OF t sok] by metis
    have "reported_as e x'" if "Find (c_store c2) i = Some x'" for x'
      unfolding fin [OF x that] using assms(6)
      by (simp add: reported_as_def finish_def result_request_def Let_def)
    moreover have "completeExecution env e b rest ag c = (complete_reported env e b rest ?ag1, c2)"
      using f s acc net assms(4) by (simp add: completeExecution_def same)
    ultimately show ?thesis using complete_reported_done [OF assms(1)] assms(4,5) by blast
  next
    case False
    with alt have c1: "c1 = c" and n: "length ?full \<le> n" by auto
    obtain resp where s: "client_SubmitResult Delivered False (ae_op env 0) (agent_id ag) ?rq c1
        = (Inr resp, markAgentSeen (op_now (ae_op env 0)) (agent_id ag) '''' c1)"
      "\<not> rrs_Accepted resp" "rrs_AckOffset resp = int (length (log_of c1 i))"
      using submit_refused [OF t sok False rq(1,2)] by blast
    let ?ag2 = "?ag1\<lparr>ag_acked := setAckedOffset i (rrs_AckOffset resp) m'\<rparr>"
    have "completeExecution env e b rest ag c
        = (node ?ag2 (Completing e b rest), markAgentSeen (op_now (ae_op env 0)) (agent_id ag) '''' c1)"
      using f s net assms(4) by (simp add: completeExecution_def same)
    moreover have "length (log_of c1 i) < length ?full"
      using False t by (metis length_take min.cobounded1 nat_less_le take_all_iff takes_log_def order_refl)
    moreover have "local_bytes ?ag2 i = ?full" "agent_id ?ag2 = agent_id ag" "ackedOffset (ag_acked ?ag2) i = int (length (log_of c1 i))"
      using s(3) by (simp_all add: local_bytes_def setState_def)
    ultimately show ?thesis using t ok n by (metis markAgentSeen_simps(1) takes_log_seen)
  qed
qed

lemma agent_run_completing:
  "agent_run env (node ag (Completing e b rest), s, c) =
     (case completeExecution env e b rest ag c of (n', c') \<Rightarrow> (n', s, c'))"
  by (simp add: agent_run_def agent_step_def split: prod.splits)

text \<open>C8. A finished execution gets reported: while no request is lost and no file operation fails,
  the agent needs at most two rounds of \<^verbatim>\<open>completeExecution\<close> until it returns to its loop; its
  journal entry is then gone, and if the controller still records the run it records the exit code,
  the error, the failure reason and the log length of the journal, with the journalled status or, when
  its cancellation was requested, as cancelled.\<close>

theorem completeExecution_reports:
  assumes "report_works env" "store_ok (c_store c)" "takes_log (agent_id ag) i (local_bytes ag i) c"
    and "je_ExecutionID e = i" "i \<noteq> ''''" "je_LogLength e = int (length (local_bytes ag i))"
    and "je_Status e \<in> set [StatusSuccess, StatusFailed, StatusCanceled, StatusAborted]"
    and "0 \<le> ackedOffset (ag_acked ag) i" "length (local_bytes ag i) \<le> 524288 * 9998"
  shows "\<exists>k n' c'. k \<in> {1, 2} \<and> (agent_run env ^^ k) (node ag (Completing e b rest), [], c) = (n', [], c')
    \<and> nd_pc n' = Recovering rest
    \<and> map_of (jr_entries (ag_journal (nd_agent n'))) (path_base i) = None
    \<and> (\<forall>x. Find (c_store c') i = Some x \<longrightarrow> reported_as e x)"
proof -
  obtain n where n: "ackedOffset (ag_acked ag) i = int n" using assms(8) nonneg_int_cases by blast
  from complete_round [OF assms(1-7) n assms(9), of b rest] show ?thesis
  proof
    assume "\<exists>n' c'. completeExecution env e b rest ag c = (n', c') \<and> nd_pc n' = Recovering rest
      \<and> map_of (jr_entries (ag_journal (nd_agent n'))) (path_base i) = None
      \<and> (\<forall>x. Find (c_store c') i = Some x \<longrightarrow> reported_as e x)"
    then show ?thesis
      by (intro exI [of _ 1]) (auto simp: agent_run_completing)
  next
    assume "\<exists>ag' c' k. completeExecution env e b rest ag c = (node ag' (Completing e b rest), c')
         \<and> store_ok (c_store c') \<and> takes_log (agent_id ag') i (local_bytes ag' i) c' \<and> local_bytes ag' i = local_bytes ag i
         \<and> ackedOffset (ag_acked ag') i = int k \<and> k < length (local_bytes ag i) \<and> length (local_bytes ag i) \<le> n"
    then obtain ag' c1 k where r: "completeExecution env e b rest ag c = (node ag' (Completing e b rest), c1)"
      "store_ok (c_store c1)" "takes_log (agent_id ag') i (local_bytes ag' i) c1" "local_bytes ag' i = local_bytes ag i"
      "ackedOffset (ag_acked ag') i = int k" "k < length (local_bytes ag i)" by blast
    have "je_LogLength e = int (length (local_bytes ag' i))" "length (local_bytes ag' i) \<le> 524288 * 9998"
      using assms(6,9) r(4) by simp_all
    from complete_round [OF assms(1) r(2,3) assms(4,5) this(1) assms(7) r(5) this(2), of b rest] r(4,6)
    obtain n' c' where "completeExecution env e b rest ag' c1 = (n', c')" "nd_pc n' = Recovering rest"
      "map_of (jr_entries (ag_journal (nd_agent n'))) (path_base i) = None"
      "\<forall>x. Find (c_store c') i = Some x \<longrightarrow> reported_as e x" by auto
    with r(1) show ?thesis
      by (intro exI [of _ 2]) (auto simp: agent_run_completing numeral_2_eq_2)
  qed
qed

definition sample_entry :: journalEntry where
  "sample_entry = \<lparr>je_ExecutionID = ''r'', je_Phase = journalFinished,
     je_Assignment = \<lparr>asg_ExecutionID = ''r'', asg_JobID = ''build'', asg_JobName = ''Build'', asg_Script = ''make'',
       asg_TimeoutText = '''', asg_WorkdirPath = '''', asg_Parameters = [], asg_Env = [], asg_AssignedAt = 11\<rparr>,
     je_AcceptedAt = 12, je_PermittedAt = 12, je_StartedAt = 12, je_FinishedAt = 14, je_PID = 42, je_PGID = 42,
     je_ProcessToken = ''t'', je_ProcessTokenError = '''', je_Status = StatusFailed, je_ExitCode = 2, je_Error = ''exit status 2'',
     je_FailureReason = FailureReasonScript, je_LogLength = 5, je_ResultAcked = False, je_Attention = ''''\<rparr>"

lemma sample_report_works: "report_works (sample_agent_env now)"
  by (simp add: report_works_def upload_works_def sample_agent_env_def sample_env_def)

theorem completeExecution_reports_witness:
  "\<exists>k n' c'. k \<in> {1, 2}
     \<and> (agent_run (sample_agent_env 15) ^^ k) (node sample_finishing (Completing sample_entry True []), [], sample_running) = (n', [], c')
     \<and> nd_pc n' = Recovering [] \<and> (\<forall>x. Find (c_store c') ''r'' = Some x \<longrightarrow> ex_ExitCode x = 2)"
proof -
  have ok: "store_ok (c_store sample_running)"
    using reachable_ok reachable_controller_store [OF sample_reachable_running] by blast
  have b: "local_bytes sample_finishing ''r'' = ''hello''" by (simp add: local_bytes_def sample_finishing_log)
  have e: "je_ExecutionID sample_entry = ''r''" "je_LogLength sample_entry = 5" "je_Status sample_entry = StatusFailed"
    "je_ExitCode sample_entry = 2" by (simp_all add: sample_entry_def)
  have x: "ex_ExitCode x = 2" if "reported_as sample_entry x" for x using that e(4) by (simp add: reported_as_def)
  obtain k n' c' where "k \<in> {1, 2}"
    "(agent_run (sample_agent_env 15) ^^ k) (node sample_finishing (Completing sample_entry True []), [], sample_running) = (n', [], c')"
    "nd_pc n' = Recovering []" "\<forall>x. Find (c_store c') ''r'' = Some x \<longrightarrow> reported_as sample_entry x"
    using completeExecution_reports [OF sample_report_works [of 15] ok, of sample_finishing "''r''" sample_entry True "[]",
        unfolded sample_finishing_log b e, OF sample_takes_log] by auto
  with x show ?thesis by blast
qed

end
