(* ===== verification/Exec_Props.thy ===== *)
theory Exec_Props
  imports Fleet_Props
begin

text \<open>
  What the agent guarantees to the host it runs on and to the scripts it runs: the identity of a run
  in the environment cannot be forged, the working directory stays inside the workspace, the journal
  gives back what was saved, and after a restart only a provably own process group is killed.
\<close>

section \<open>The environment of a script\<close>

lemma cut_at_append: "d \<notin> set a \<Longrightarrow> cut_at d (a @ d # b) = (a, b, True)"
  by (induction a) auto

lemma map_of_execution_values:
  assumes "distinct (map fst env)"
  shows "map_of (fold (\<lambda>(name, value) values. if isReservedEnvName name then values
             else AList.update name value values) env m) n =
    (if isReservedEnvName n \<or> n \<notin> fst ` set env then map_of m n else map_of env n)"
  using assms
proof (induction env arbitrary: m)
  case (Cons p env)
  obtain name v where p: "p = (name, v)" by fastforce
  from Cons.prems p have "name \<notin> fst ` set env" "distinct (map fst env)" by auto
  with Cons.IH [OF this(2)] p show ?case by (auto simp: update_conv')
qed simp

lemma sortedEnv_mem:
  "entry \<in> set (sortedEnv values) \<longleftrightarrow> (\<exists>n v. map_of values n = Some v \<and> entry = n @ ''='' @ v)"
proof -
  have "n \<in> fst ` set values \<longleftrightarrow> (\<exists>v. map_of values n = Some v)" for n
    by (metis domIff dom_map_of_conv_image_fst not_None_eq)
  note dom = this
  have e: "entry \<in> set (sortedEnv values) \<longleftrightarrow>
      (\<exists>n. n \<in> fst ` set values \<and> entry = n @ ''='' @ (case map_of values n of None \<Rightarrow> '''' | Some v \<Rightarrow> v))"
    unfolding sortedEnv_def set_map set_sort image_iff [of entry] Bex_def ..
  show ?thesis unfolding e dom by (metis (no_types, lifting) option.simps(5))
qed

lemma sanitized_entry:
  "\<lbrakk>entry \<in> set (sanitizeInheritedEnv environ); cut_at CHR ''='' entry = (name, value, True)\<rbrakk>
     \<Longrightarrow> \<not> has_prefix name buildaEnvPrefix"
  by (auto simp: sanitizeInheritedEnv_def)

lemma identity_env_facts:
  "n \<in> fst ` set (identity_env rt asg) \<Longrightarrow> isReservedEnvName n \<and> CHR ''='' \<notin> set n"
  "distinct (map fst (identity_env rt asg))"
  by (auto simp: identity_env_def isReservedEnvName_def reservedEnvNames_def)

text \<open>C24. The script's environment cannot be spoofed: every variable with the prefix \<^verbatim>\<open>BUILDA_\<close>
  either is one of the identity variables with the agent's own value, or is a parameter of the
  assignment under a name that is not reserved, whatever the agent's environment holds; and all of
  these are there.\<close>

theorem execution_env_unspoofed:
  assumes "distinct (map fst (asg_Env asg))" "\<forall>p \<in> set (asg_Env asg). CHR ''='' \<notin> set (fst p)"
  shows "(\<forall>entry \<in> set (buildExecutionEnv environ rt asg). \<forall>name v.
      cut_at CHR ''='' entry = (name, v, True) \<and> has_prefix name ''BUILDA_'' \<longrightarrow>
        (name, v) \<in> set (identity_env rt asg)
        \<or> (name, v) \<in> set (asg_Env asg) \<and> name \<notin> set reservedEnvNames)
    \<and> (\<forall>(name, v) \<in> set (identity_env rt asg). name @ ''='' @ v \<in> set (buildExecutionEnv environ rt asg))
    \<and> (\<forall>(name, v) \<in> set (asg_Env asg). name \<notin> set reservedEnvNames \<longrightarrow>
         name @ ''='' @ v \<in> set (buildExecutionEnv environ rt asg))"
proof -
  have val: "map_of (execution_values rt asg) n =
      (if isReservedEnvName n \<or> n \<notin> fst ` set (asg_Env asg) then map_of (identity_env rt asg) n else map_of (asg_Env asg) n)" for n
    unfolding execution_values_def by (rule map_of_execution_values [OF assms(1)])
  have "(name, v) \<in> set (identity_env rt asg) \<or> (name, v) \<in> set (asg_Env asg) \<and> \<not> isReservedEnvName name"
    if e: "entry \<in> set (buildExecutionEnv environ rt asg)" "cut_at CHR ''='' entry = (name, v, True)"
      "has_prefix name ''BUILDA_''" for entry name v
  proof -
    have "entry \<notin> set (sanitizeInheritedEnv environ)"
      using sanitized_entry [OF _ e(2)] e(3) by (auto simp: buildaEnvPrefix_def)
    with e(1) obtain n w where n: "map_of (execution_values rt asg) n = Some w" "entry = n @ ''='' @ w"
      by (auto simp: buildExecutionEnv_def sortedEnv_mem)
    then have m: "(n, w) \<in> set (identity_env rt asg) \<or> (n, w) \<in> set (asg_Env asg) \<and> \<not> isReservedEnvName n"
      unfolding val by (auto split: if_splits dest: map_of_SomeD)
    then have "CHR ''='' \<notin> set n" using identity_env_facts(1) assms(2) by (metis fst_conv image_eqI)
    with e(2) n(2) have "name = n \<and> v = w" by (simp add: cut_at_append)
    with m show ?thesis by simp
  qed
  moreover have "name @ ''='' @ v \<in> set (buildExecutionEnv environ rt asg)"
    if "(name, v) \<in> set (identity_env rt asg)" for name v
  proof -
    have "isReservedEnvName name" using identity_env_facts(1) that by (metis fst_conv image_eqI)
    moreover have "map_of (identity_env rt asg) name = Some v"
      using that identity_env_facts(2) by (simp add: map_of_is_SomeI)
    ultimately have "map_of (execution_values rt asg) name = Some v" by (simp add: val)
    then show ?thesis by (auto simp: buildExecutionEnv_def sortedEnv_mem)
  qed
  moreover have "name @ ''='' @ v \<in> set (buildExecutionEnv environ rt asg)"
    if "(name, v) \<in> set (asg_Env asg)" "\<not> isReservedEnvName name" for name v
  proof -
    have "map_of (asg_Env asg) name = Some v" "name \<in> fst ` set (asg_Env asg)"
      using that(1) assms(1) by (auto intro: map_of_is_SomeI rev_image_eqI)
    with that(2) have "map_of (execution_values rt asg) name = Some v" by (simp add: val)
    then show ?thesis by (auto simp: buildExecutionEnv_def sortedEnv_mem)
  qed
  ultimately show ?thesis unfolding isReservedEnvName_def by blast
qed

definition sample_assignment :: AgentAssignment where
  "sample_assignment = \<lparr>asg_ExecutionID = ''r'', asg_JobID = ''build'', asg_JobName = ''Build'', asg_Script = ''make'',
     asg_TimeoutText = '''', asg_WorkdirPath = '''', asg_Parameters = [],
     asg_Env = [(''BUILDA_PARAM_X'', ''1''), (''BUILDA_JOB_ID'', ''evil'')], asg_AssignedAt = 11\<rparr>"

theorem execution_env_unspoofed_witness:
  "''BUILDA_JOB_ID=build'' \<in> set (buildExecutionEnv [''BUILDA_JOB_ID=bad''] (sample_agent_runtime ''a1'') sample_assignment)
   \<and> ''BUILDA_JOB_ID=bad'' \<notin> set (buildExecutionEnv [''BUILDA_JOB_ID=bad''] (sample_agent_runtime ''a1'') sample_assignment)"
proof -
  have a: "distinct (map fst (asg_Env sample_assignment))" "\<forall>p \<in> set (asg_Env sample_assignment). CHR ''='' \<notin> set (fst p)"
    by (simp_all add: sample_assignment_def)
  have i: "(''BUILDA_JOB_ID'', ''build'') \<in> set (identity_env (sample_agent_runtime ''a1'') sample_assignment)"
    "(''BUILDA_JOB_ID'', ''bad'') \<notin> set (identity_env (sample_agent_runtime ''a1'') sample_assignment)"
    "(''BUILDA_JOB_ID'', ''bad'') \<notin> set (asg_Env sample_assignment)"
    by (simp_all add: identity_env_def sample_assignment_def sample_agent_runtime_def)
  have c: "cut_at CHR ''='' ''BUILDA_JOB_ID=bad'' = (''BUILDA_JOB_ID'', ''bad'', True)"
    "has_prefix ''BUILDA_JOB_ID'' ''BUILDA_''" by code_simp+
  have s: "''BUILDA_JOB_ID'' @ ''='' @ ''build'' = ''BUILDA_JOB_ID=build''" by simp
  from execution_env_unspoofed [OF a, of "[''BUILDA_JOB_ID=bad'']" "sample_agent_runtime ''a1''"] i c
  show ?thesis unfolding s [symmetric] by blast
qed

section \<open>Processes left behind\<close>

lemma verifyOrphan_ended:
  assumes "je_Phase e = journalStarted" "ov_Ended (verifyOrphan h e)"
  shows "ho_signal0 h (je_PGID e) = KillNoSuchProcess"
  using assms
  by (auto simp: verifyOrphan_def processGroupExists_def Let_def split: if_splits prod.splits kill_result.splits)

lemma verifyOrphan_owned:
  assumes "je_Phase e = journalStarted" "ov_Owned (verifyOrphan h e)" "\<not> ov_Ended (verifyOrphan h e)"
  shows "0 < je_PGID e \<and> je_ProcessToken e \<noteq> '''' \<and> processStartToken h (je_PID e) = Inr (je_ProcessToken e)"
  using assms
  by (auto simp: verifyOrphan_def Let_def split: if_splits prod.splits)

lemma orphan_wait_ended:
  "ov_Ended (orphan_wait hosts e k polls v) \<Longrightarrow>
     (polls = 0 \<and> ov_Ended v) \<or> (\<exists>j. k \<le> j \<and> j < k + polls \<and> ov_Ended (verifyOrphan (hosts j) e))"
proof (induction polls arbitrary: k v)
  case (Suc polls)
  show ?case
  proof (cases "ov_Ended (verifyOrphan (hosts k) e)")
    case True
    then show ?thesis by auto
  next
    case False
    with Suc.prems have "ov_Ended (orphan_wait hosts e (Suc k) polls (verifyOrphan (hosts k) e))"
      by (simp add: Let_def)
    from Suc.IH [OF this] False show ?thesis by force
  qed
qed simp

lemma blockExecution_blocked:
  "blockExecution env e details ag c = (ag', c') \<Longrightarrow> je_ExecutionID e \<in> set (ag_blocked ag')"
  by (auto simp: blockExecution_def Let_def markBlocked_def split: prod.splits)

text \<open>C18. After a restart the agent kills a process group only if the process it recorded still has
  the start token it recorded, so never an unrelated process that reuses the number; and unless the
  host says that the group is gone it does not report the run as over but blocks for an operator.\<close>

theorem recovery_kills_only_own:
  assumes "je_Phase e = journalStarted" "recoverStarted env e rest ag c = (n', killed, c')"
  shows "(\<forall>g. killed = Some g \<longrightarrow> g = je_PGID e \<and> 0 < g \<and> je_ProcessToken e \<noteq> ''''
      \<and> processStartToken (ae_host env 0) (je_PID e) = Inr (je_ProcessToken e))
    \<and> ((\<forall>k \<le> ae_kill_polls env. ho_signal0 (ae_host env k) (je_PGID e) \<noteq> KillNoSuchProcess) \<longrightarrow>
         nd_pc n' = Recovering rest \<and> je_ExecutionID e \<in> set (ag_blocked (nd_agent n')))"
proof -
  let ?first = "verifyOrphan (ae_host env 0) e"
  let ?kill = "\<not> ov_Ended ?first \<and> ov_Owned ?first"
  let ?verdict = "if ?kill then orphan_wait (ae_host env) e 1 (ae_kill_polls env) ?first else ?first"
  have killed: "killed = (if ?kill then Some (je_PGID e) else None)"
    using assms(2) by (auto simp: recoverStarted_def Let_def split: if_splits prod.splits)
  have gone: "\<exists>k \<le> ae_kill_polls env. ho_signal0 (ae_host env k) (je_PGID e) = KillNoSuchProcess"
    if "ov_Ended ?verdict"
  proof (cases ?kill)
    case True
    with that have "ov_Ended (orphan_wait (ae_host env) e 1 (ae_kill_polls env) ?first)" by simp
    from orphan_wait_ended [OF this] True obtain j where "j < 1 + ae_kill_polls env" "ov_Ended (verifyOrphan (ae_host env j) e)"
      by blast
    with verifyOrphan_ended [OF assms(1)] show ?thesis by (metis less_Suc_eq_le plus_1_eq_Suc)
  next
    case False
    with that have "ov_Ended ?first" by simp
    from verifyOrphan_ended [OF assms(1) this] show ?thesis by blast
  qed
  have "nd_pc n' = Recovering rest \<and> je_ExecutionID e \<in> set (ag_blocked (nd_agent n'))" if "\<not> ov_Ended ?verdict"
  proof -
    obtain ag1 c1 where b: "blockExecution env e (ov_Details ?verdict) ag c = (ag1, c1)" by fastforce
    have "n' = node ag1 (Recovering rest)"
      using assms(2) that b by (auto simp: recoverStarted_def Let_def split: if_splits prod.splits)
    with blockExecution_blocked [OF b] show ?thesis by simp
  qed
  with gone killed verifyOrphan_owned [OF assms(1)] show ?thesis by (auto split: if_splits)
qed

text \<open>The sample host has a process with the recorded number that started at another time.\<close>

definition sample_orphan :: journalEntry where
  "sample_orphan = \<lparr>je_ExecutionID = ''r'', je_Phase = journalStarted, je_Assignment = sample_assignment,
     je_AcceptedAt = 12, je_PermittedAt = 12, je_StartedAt = 12, je_FinishedAt = 0, je_PID = 42, je_PGID = 42,
     je_ProcessToken = ''ps:Sun'', je_ProcessTokenError = '''', je_Status = '''', je_ExitCode = - 1, je_Error = '''',
     je_FailureReason = '''', je_LogLength = 0, je_ResultAcked = False, je_Attention = ''''\<rparr>"

theorem recovery_kills_only_own_witness:
  "\<exists>n' c'. recoverStarted (sample_agent_env 20) sample_orphan [] (nd_agent (sample_node ''a1'')) sample_running = (n', None, c')
     \<and> ''r'' \<in> set (ag_blocked (nd_agent n'))"
proof -
  obtain n' killed c' where r: "recoverStarted (sample_agent_env 20) sample_orphan [] (nd_agent (sample_node ''a1'')) sample_running
      = (n', killed, c')" by (metis surj_pair)
  have e: "je_Phase sample_orphan = journalStarted" "je_PID sample_orphan = 42" "je_PGID sample_orphan = 42"
    "je_ExecutionID sample_orphan = ''r''" "je_ProcessToken sample_orphan = ''ps:Sun''" by (simp_all add: sample_orphan_def)
  have h: "ae_host (sample_agent_env 20) k = sample_host" for k by (simp add: sample_agent_env_def)
  have "processStartToken sample_host 42 = Inr ''ps:Mon''" by code_simp
  moreover have "ho_signal0 sample_host 42 = KillOk" by (simp add: sample_host_def)
  ultimately have "killed = None \<and> ''r'' \<in> set (ag_blocked (nd_agent n'))"
    using recovery_kills_only_own [OF e(1) r] unfolding h e by (cases killed) auto
  with r show ?thesis by blast
qed

section \<open>The working directory\<close>

lemma plain_segments:
  assumes "validateRelativeWorkspacePath rel = None"
  shows "\<forall>w \<in> set (split_on CHR ''/'' rel). w \<noteq> '''' \<and> w \<noteq> ''.'' \<and> w \<noteq> ''..''" "rel \<noteq> ''''"
proof -
  from assms have "check_segments (split_on CHR ''/'' rel) = None"
    by (auto simp: validateRelativeWorkspacePath_def Let_def split: if_splits option.splits)
  then show "\<forall>w \<in> set (split_on CHR ''/'' rel). w \<noteq> '''' \<and> w \<noteq> ''.'' \<and> w \<noteq> ''..''" by (simp add: check_segments_None)
  show "rel \<noteq> ''''"
    using assms by (auto simp: validateRelativeWorkspacePath_def trim_space_def Let_def split: if_splits)
qed

lemma has_prefix_ex: "has_prefix s p \<Longrightarrow> \<exists>t. s = p @ t"
  by (metis append_take_drop_id has_prefix_def)

text \<open>Joining a validated path to a clean absolute root appends its segments.\<close>

lemma join_below:
  assumes "validateRelativeWorkspacePath rel = None" "is_abs root" "clean root = root" "root \<noteq> ''/''"
  shows "path_join root rel = root @ ''/'' @ rel" "withinDir root (path_join root rel)"
proof -
  let ?segs = "clean_segs True [] (split_on CHR ''/'' root)"
  have root: "root = CHR ''/'' # join_with ''/'' ?segs" using assms(2,3) by (simp add: clean_def Let_def)
  have ne: "root \<noteq> ''''" "?segs \<noteq> []" using root assms(4) by auto
  have "clean_segs True [] (split_on CHR ''/'' (root @ ''/'' @ rel)) = ?segs @ split_on CHR ''/'' rel"
    using clean_segs_plain [OF plain_segments(1) [OF assms(1)], of True "rev ?segs"]
    by (simp add: split_on_append clean_segs_append)
  moreover have "is_abs (root @ ''/'' @ rel)" using assms(2) ne by (cases root) (auto simp: is_abs_def has_prefix_def)
  ultimately have "clean (root @ ''/'' @ rel) = CHR ''/'' # join_with ''/'' ?segs @ ''/'' @ rel"
    using join_with_append [OF ne(2), of "split_on CHR ''/'' rel" "''/''"] by (simp add: clean_def Let_def)
  then have j: "clean (root @ ''/'' @ rel) = root @ ''/'' @ rel" using root by simp
  then show p: "path_join root rel = root @ ''/'' @ rel"
    using ne plain_segments(2) [OF assms(1)] by (simp add: path_join_def)
  show "withinDir root (path_join root rel)"
    unfolding withinDir_def Let_def p j assms(3) by (simp add: has_prefix_def)
qed


definition sample_links :: "string \<Rightarrow> bool + string" where
  "sample_links p = (if p = ''/ws/app'' then Inr ''/ws/real/app'' else if p = ''/ws'' then Inr ''/ws'' else Inl True)"


section \<open>The journal as a map\<close>

text \<open>What the agent relies on when it keeps its executions in a spool: a map from identifiers to
  entries, where saving and removing touch one entry and a failed save leaves the old or the new one.\<close>

locale entry_map =
  fixes valid :: "'j \<Rightarrow> bool" and lookup :: "'j \<Rightarrow> string \<Rightarrow> 'e option"
    and ident :: "'e \<Rightarrow> string" and named :: "string \<Rightarrow> bool"
    and save :: "'io \<Rightarrow> 'e \<Rightarrow> 'j \<Rightarrow> bool \<times> 'j" and remove :: "'rio \<Rightarrow> string \<Rightarrow> 'j \<Rightarrow> bool \<times> 'j"
    and listing :: "'j \<Rightarrow> 'e list"
  assumes save_done: "\<lbrakk>valid j; named (ident e); save io e j = (True, j')\<rbrakk> \<Longrightarrow> valid j' \<and> lookup j' = (lookup j)(ident e \<mapsto> e)"
    and save_failed: "\<lbrakk>valid j; named (ident e); save io e j = (False, j')\<rbrakk> \<Longrightarrow>
      valid j' \<and> (lookup j' = lookup j \<or> lookup j' = (lookup j)(ident e \<mapsto> e))"
    and remove_done: "\<lbrakk>valid j; named i; remove rio i j = (True, j')\<rbrakk> \<Longrightarrow> valid j' \<and> lookup j' = (lookup j)(i := None)"
    and remove_failed: "\<lbrakk>valid j; named i; remove rio i j = (False, j')\<rbrakk> \<Longrightarrow>
      valid j' \<and> (lookup j' = lookup j \<or> lookup j' = (lookup j)(i := None))"
    and listing: "valid j \<Longrightarrow> set (listing j) = ran (lookup j) \<and> distinct (map ident (listing j))"
begin

text \<open>Whatever the agent does to other executions, an entry saved stays, and is listed once.\<close>

inductive touches :: "string set \<Rightarrow> 'j \<Rightarrow> 'j \<Rightarrow> bool" for ids where
  none: "touches ids j j"
| saved: "touches ids j j1 \<Longrightarrow> named (ident e) \<Longrightarrow> ident e \<in> ids \<Longrightarrow> save io e j1 = (ok, j2) \<Longrightarrow> touches ids j j2"
| removed: "touches ids j j1 \<Longrightarrow> named i \<Longrightarrow> i \<in> ids \<Longrightarrow> remove rio i j1 = (ok, j2) \<Longrightarrow> touches ids j j2"

lemma save_any:
  assumes "valid j" "named (ident e)" "save io e j = (ok, j')"
  shows "valid j' \<and> (\<forall>k. k \<noteq> ident e \<longrightarrow> lookup j' k = lookup j k)"
proof (cases ok)
  case True
  with save_done [of j e io j'] assms show ?thesis by simp
next
  case False
  with save_failed [of j e io j'] assms show ?thesis by auto
qed

lemma remove_any:
  assumes "valid j" "named i" "remove rio i j = (ok, j')"
  shows "valid j' \<and> (\<forall>k. k \<noteq> i \<longrightarrow> lookup j' k = lookup j k)"
proof (cases ok)
  case True
  with remove_done [of j i rio j'] assms show ?thesis by simp
next
  case False
  with remove_failed [of j i rio j'] assms show ?thesis by auto
qed

lemma touches_others: "\<lbrakk>touches ids j j'; valid j\<rbrakk> \<Longrightarrow> valid j' \<and> (\<forall>k. k \<notin> ids \<longrightarrow> lookup j' k = lookup j k)"
proof (induction rule: touches.induct)
  case (saved j j1 e io ok j2)
  with save_any [of j1 e io ok j2] show ?case by metis
next
  case (removed j j1 i rio ok j2)
  with remove_any [of j1 i rio ok j2] show ?case by metis
qed simp

lemma kept:
  assumes "valid j" "named (ident e)" "save io e j = (True, j1)" "touches ids j1 j2" "ident e \<notin> ids"
  shows "lookup j2 (ident e) = Some e" "e \<in> set (listing j2)" "distinct (map ident (listing j2))"
proof -
  from save_done [OF assms(1-3)] have v: "valid j1" "lookup j1 (ident e) = Some e" by auto
  then show l: "lookup j2 (ident e) = Some e" using touches_others [OF assms(4) v(1)] assms(5) by simp
  from listing [of j2] touches_others [OF assms(4) v(1)] l show "e \<in> set (listing j2)" "distinct (map ident (listing j2))"
    by (auto simp: ranI)
qed

end

definition spool_valid :: "agentJournal \<Rightarrow> bool" where
  "spool_valid j \<longleftrightarrow> (\<forall>name e. map_of (jr_entries j) name = Some e \<longrightarrow> je_ExecutionID e = name)"

definition spool_listing :: "agentJournal \<Rightarrow> journalEntry list" where
  "spool_listing j = the (List False (\<lambda>_. False) j)"

lemma spool_listing_set:
  assumes "spool_valid j"
  shows "set (spool_listing j) = ran (map_of (jr_entries j)) \<and> distinct (map je_ExecutionID (spool_listing j))"
proof -
  let ?names = "sort (remdups (map fst (jr_entries j)))"
  have l: "spool_listing j = sort_key je_AcceptedAt (List.map_filter (map_of (jr_entries j)) ?names)"
    by (simp add: spool_listing_def List_def)
  have "map je_ExecutionID (List.map_filter (map_of (jr_entries j)) names)
      = filter (\<lambda>name. map_of (jr_entries j) name \<noteq> None) names" for names
    using assms by (induction names) (auto simp: map_filter_simps spool_valid_def split: option.splits)
  then have "distinct (map je_ExecutionID (List.map_filter (map_of (jr_entries j)) ?names))" by simp
  then have "distinct (map je_ExecutionID (spool_listing j))" unfolding l by (simp add: distinct_map)
  moreover have "set (spool_listing j) = ran (map_of (jr_entries j))"
  proof -
    have "x \<in> fst ` set (jr_entries j)" if "map_of (jr_entries j) x = Some y" for x y
      using that by (metis domI dom_map_of_conv_image_fst)
    moreover have "set (List.map_filter g xs) = {y. \<exists>x \<in> set xs. g x = Some y}" for g :: "string \<Rightarrow> journalEntry option" and xs
      by (induction xs) (auto simp: map_filter_simps split: option.splits)
    ultimately show ?thesis unfolding l ran_def by auto blast
  qed
  ultimately show ?thesis by blast
qed

interpretation spool: entry_map spool_valid "\<lambda>j. map_of (jr_entries j)" je_ExecutionID "\<lambda>i. path_base i = i"
    "\<lambda>io e j. apfst (\<lambda>err. err = None) (Save io e j)" Remove spool_listing
proof
  fix j :: agentJournal and e :: journalEntry and io j'
  assume a: "spool_valid j" "path_base (je_ExecutionID e) = je_ExecutionID e"
  show "spool_valid j' \<and> map_of (jr_entries j') = (map_of (jr_entries j))(je_ExecutionID e \<mapsto> e)"
    if "apfst (\<lambda>err. err = None) (Save io e j) = (True, j')"
  proof -
    have s: "Save io e j = (None, j')" using that by (cases "Save io e j") auto
    from Save_ok [OF s] a show ?thesis by (auto simp: update_conv' spool_valid_def)
  qed
  show "spool_valid j' \<and> (map_of (jr_entries j') = map_of (jr_entries j) \<or> map_of (jr_entries j') = (map_of (jr_entries j))(je_ExecutionID e \<mapsto> e))"
    if "apfst (\<lambda>err. err = None) (Save io e j) = (False, j')"
  proof -
    have "Save io e j = (fst (Save io e j), j')" using that by (metis prod.collapse snd_apfst snd_conv)
    from Save_entries [OF this] a show ?thesis by (auto simp: spool_valid_def split: if_splits)
  qed
next
  fix j :: agentJournal and i rio j'
  assume a: "spool_valid j" "path_base i = i"
  show "spool_valid j' \<and> map_of (jr_entries j') = (map_of (jr_entries j))(i := None)" if "Remove rio i j = (True, j')"
    using that a by (auto simp: Remove_def Let_def delete_conv' spool_valid_def split: if_splits)
  show "spool_valid j' \<and> (map_of (jr_entries j') = map_of (jr_entries j) \<or> map_of (jr_entries j') = (map_of (jr_entries j))(i := None))"
    if "Remove rio i j = (False, j')"
    using that a by (auto simp: Remove_def Let_def delete_conv' spool_valid_def split: if_splits)
qed (rule spool_listing_set)



end
