(* ===== verification/Import_Props.thy ===== *)
theory Import_Props
  imports Agent_Props
begin

text \<open>
  Importing legacy history: the import is one transaction that adds every planned run or none, it
  never pushes existing history out, and importing the same bundle again adds nothing.
\<close>

abbreviation legacy_id :: "plannedImport \<Rightarrow> string" where
  "legacy_id item \<equiv> (case ex_Origin (pln_Execution item) of None \<Rightarrow> '''' | Some o' \<Rightarrow> org_LegacyRunID o')"

section \<open>The plan\<close>

lemma report_simps [simp]:
  "rep_Imported (skip_run d rep) = rep_Imported rep"
  "rep_Imported (add_diag d rep) = rep_Imported rep"
  by (simp_all add: skip_run_def add_diag_def)

lemma built_origin:
  assumes "buildImportedExecution now i cfg job bundle mapping task run = Inr (e, retired)"
  shows "\<exists>o'. ex_Origin e = Some o' \<and> org_LegacyRunID o' = run_ID run"
  using assms by (auto simp: buildImportedExecution_def import_origin_def split: sum.splits)

text \<open>Whether a run can be built does not depend on the clock or on the identifier drawn for it.\<close>

lemma built_independent:
  "isl (buildImportedExecution now i cfg job bundle mapping task run)
     = isl (buildImportedExecution now' i' cfg job bundle mapping task run)"
  by (auto simp: buildImportedExecution_def split: sum.splits)

text \<open>One run that is neither a duplicate nor skipped.\<close>

definition plans :: "Controller \<Rightarrow> MigrationBundle \<Rightarrow> MigrationMapping \<Rightarrow> LegacyRun \<Rightarrow> bool" where
  "plans c bundle mapping run \<longleftrightarrow>
     isTerminal (run_Status run) \<and> \<not> HasImportedOrigin (c_store c) (bun_Machine bundle) (run_ID run)
     \<and> (case map_of (map_Tasks mapping) (run_TaskID run) of
          None \<Rightarrow> False
        | Some task \<Rightarrow>
            (case findJob (c_cfg c) (mpt_Job task) of
               None \<Rightarrow> False
             | Some job \<Rightarrow> \<not> isl (buildImportedExecution 0 '''' (c_cfg c) job bundle mapping task run)))"

abbreviation run_key :: "MigrationBundle \<Rightarrow> LegacyRun \<Rightarrow> originKey" where
  "run_key bundle run \<equiv> (bun_Machine bundle, run_ID run)"

lemma plan_loop_skips:
  assumes "run_key bundle run \<in> set seen \<or> \<not> plans c bundle mapping run"
  obtains seen' rep1 where
    "plan_loop env c bundle mapping (run # runs) seen taken n rep = plan_loop env c bundle mapping runs seen' taken n rep1"
    "set seen' = insert (run_key bundle run) (set seen)" "rep_Imported rep1 = rep_Imported rep"
proof -
  note result = that
  let ?goal = "\<lambda>seen' rep1. plan_loop env c bundle mapping (run # runs) seen taken n rep
      = plan_loop env c bundle mapping runs seen' taken n rep1"
  show thesis
  proof (cases "run_key bundle run \<in> set seen")
    case True
    then show thesis
      by (intro that [of seen "skip_run (SkipDuplicate (run_ID run)) rep"]) (auto simp: insert_absorb)
  next
    case False
    with assms have np: "\<not> plans c bundle mapping run" by blast
    have skip: thesis if "?goal (run_key bundle run # seen) rep1" "rep_Imported rep1 = rep_Imported rep" for rep1
      using that by (intro result [of "run_key bundle run # seen" rep1]) simp_all
    consider "\<not> isTerminal (run_Status run)"
      | "isTerminal (run_Status run)" "HasImportedOrigin (c_store c) (bun_Machine bundle) (run_ID run)"
      | "isTerminal (run_Status run)" "\<not> HasImportedOrigin (c_store c) (bun_Machine bundle) (run_ID run)"
      by blast
    then show thesis
    proof cases
      case 1
      with False show thesis by (intro skip [of "skip_run (SkipNotTerminal (run_ID run) (run_Status run)) rep"]) auto
    next
      case 2
      with False show thesis by (intro skip [of "rep\<lparr>rep_Existing := Suc (rep_Existing rep)\<rparr>"]) auto
    next
      case live: 3
      show thesis
      proof (cases "map_of (map_Tasks mapping) (run_TaskID run)")
        case None
        with False live show thesis by (intro skip [of "skip_run (SkipUnmapped (run_ID run) (run_TaskID run)) rep"]) auto
      next
        case task: (Some task)
        show thesis
        proof (cases "findJob (c_cfg c) (mpt_Job task)")
          case None
          with False live task show thesis by (intro skip [of "skip_run (SkipNoJob (run_ID run) (mpt_Job task)) rep"]) auto
        next
          case (Some job)
          have "isl (buildImportedExecution (ie_now env) (ie_gen env n) (c_cfg c) job bundle mapping task run)"
            using np live task Some built_independent [of 0 "''''" "c_cfg c" job "bundle" mapping task run] by (simp add: plans_def)
          then obtain e where "buildImportedExecution (ie_now env) (ie_gen env n) (c_cfg c) job bundle mapping task run = Inl e"
            by (auto simp: isl_def)
          with False live task Some show thesis by (intro skip [of "skip_run (SkipInvalid (run_ID run) e) rep"]) auto
        qed
      qed
    qed
  qed
qed

lemma plan_loop_plans:
  assumes "plan_loop env c bundle mapping (run # runs) seen taken n rep = Some (planned, rep')"
    "run_key bundle run \<notin> set seen" "plans c bundle mapping run"
  obtains item rest taken' n' rep1 where "planned = item # rest" "legacy_id item = run_ID run"
    "plan_loop env c bundle mapping runs (run_key bundle run # seen) taken' n' rep1 = Some (rest, rep')"
    "rep_Imported rep1 = Suc (rep_Imported rep)"
proof -
  from assms(3) obtain task job where live: "isTerminal (run_Status run)"
      "\<not> HasImportedOrigin (c_store c) (bun_Machine bundle) (run_ID run)"
    and task: "map_of (map_Tasks mapping) (run_TaskID run) = Some task" "findJob (c_cfg c) (mpt_Job task) = Some job"
    and "\<not> isl (buildImportedExecution 0 '''' (c_cfg c) job bundle mapping task run)"
    by (auto simp: plans_def split: option.splits)
  then obtain e retired where b: "buildImportedExecution (ie_now env) (ie_gen env n) (c_cfg c) job bundle mapping task run = Inr (e, retired)"
    using built_independent [of 0 "''''" "c_cfg c" job "bundle" mapping task run]
    by (metis isl_def old.prod.exhaust sum.exhaust)
  from built_origin [OF b] obtain o' where o': "ex_Origin e = Some o'" "org_LegacyRunID o' = run_ID run" by blast
  from assms(1,2) live task b obtain i n' where u: "untaken_id (ie_gen env) taken n = Some (i, n')"
    by (auto simp: Let_def split: option.splits)
  obtain source nt where l: "importedLogSource (ie_stat env) (ie_bundleDir env) run = (source, nt)" by fastforce
  from assms(1,2) live task b u l obtain rest rep1 where
    "plan_loop env c bundle mapping runs (run_key bundle run # seen) (i # taken) n' rep1 = Some (rest, rep')"
    "rep_Imported rep1 = Suc (rep_Imported rep)"
    "planned = \<lparr>pln_Execution = e\<lparr>ex_ID := i, ex_Origin := map_option (\<lambda>o'. o'\<lparr>org_LogImported := (source \<noteq> ''''), org_LogNote := nt\<rparr>)
                                       (ex_Origin e)\<rparr>, pln_LogSource = source\<rparr> # rest"
    by (auto simp: Let_def split: if_splits)
  with o' that show thesis by auto
qed

lemma plan_loop_imported:
  assumes "plan_loop env c bundle mapping runs seen taken n rep = Some (planned, rep')"
  shows "rep_Imported rep' = rep_Imported rep + length planned"
  using assms
proof (induction runs arbitrary: seen taken n rep planned)
  case (Cons run runs)
  show ?case
  proof (cases "run_key bundle run \<in> set seen \<or> \<not> plans c bundle mapping run")
    case True
    then show ?thesis using Cons by (metis plan_loop_skips)
  next
    case False
    with Cons.prems obtain item rest taken' n' rep1 where r: "planned = item # rest"
      "plan_loop env c bundle mapping runs (run_key bundle run # seen) taken' n' rep1 = Some (rest, rep')"
      "rep_Imported rep1 = Suc (rep_Imported rep)"
      by (metis plan_loop_plans)
    from Cons.IH [OF r(2)] r show ?thesis by simp
  qed
qed simp

lemma plans_mono:
  assumes "c_cfg c2 = c_cfg c"
    "\<And>i. HasImportedOrigin (c_store c) (bun_Machine bundle) i \<Longrightarrow> HasImportedOrigin (c_store c2) (bun_Machine bundle) i"
    "plans c2 bundle mapping run"
  shows "plans c bundle mapping run"
  using assms(2,3) unfolding plans_def assms(1) by blast

text \<open>A second plan over a ledger that has what the first one planned.\<close>

lemma plan_again:
  assumes "plan_loop env c bundle mapping runs seen taken n rep = Some (planned, rep')"
    and c2: "c_cfg c2 = c_cfg c" "\<And>i. HasImportedOrigin (c_store c) (bun_Machine bundle) i \<Longrightarrow> HasImportedOrigin (c_store c2) (bun_Machine bundle) i"
    and "\<forall>item \<in> set planned. HasImportedOrigin (c_store c2) (bun_Machine bundle) (legacy_id item)" "set seen2 = set seen"
  shows "\<exists>rep2'. plan_loop env2 c2 bundle mapping runs seen2 taken2 n2 rep2 = Some ([], rep2')
    \<and> rep_Imported rep2' = rep_Imported rep2"
  using assms(1,4,5)
proof (induction runs arbitrary: seen taken n rep planned seen2 taken2 n2 rep2)
  case (Cons run runs)
  have go: ?case if np: "run_key bundle run \<in> set seen2 \<or> \<not> plans c2 bundle mapping run"
    and rest: "plan_loop env c bundle mapping runs seen' taken' n' rep1 = Some (planned', rep')"
      "set seen' = insert (run_key bundle run) (set seen)" "set planned' \<subseteq> set planned" for seen' taken' n' rep1 planned'
  proof -
    obtain seen2' rep2' where "plan_loop env2 c2 bundle mapping (run # runs) seen2 taken2 n2 rep2
        = plan_loop env2 c2 bundle mapping runs seen2' taken2 n2 rep2'"
      "set seen2' = insert (run_key bundle run) (set seen2)" "rep_Imported rep2' = rep_Imported rep2"
      by (rule plan_loop_skips [OF np])
    moreover have "\<forall>item \<in> set planned'. HasImportedOrigin (c_store c2) (bun_Machine bundle) (legacy_id item)"
      using Cons.prems(2) rest(3) by blast
    ultimately show ?thesis using Cons.IH [OF rest(1), of seen2' taken2 n2 rep2'] rest(2) Cons.prems(3) by simp
  qed
  show ?case
  proof (cases "run_key bundle run \<in> set seen \<or> \<not> plans c bundle mapping run")
    case True
    then obtain seen' rep1 where "plan_loop env c bundle mapping runs seen' taken n rep1 = Some (planned, rep')"
      "set seen' = insert (run_key bundle run) (set seen)"
      using Cons.prems(1) by (metis plan_loop_skips)
    moreover have "run_key bundle run \<in> set seen2 \<or> \<not> plans c2 bundle mapping run"
      using True Cons.prems(3) plans_mono [OF c2] by blast
    ultimately show ?thesis using go by blast
  next
    case False
    with Cons.prems(1) obtain item rest taken' n' rep1 where r: "planned = item # rest" "legacy_id item = run_ID run"
      "plan_loop env c bundle mapping runs (run_key bundle run # seen) taken' n' rep1 = Some (rest, rep')"
      by (metis plan_loop_plans)
    then have "HasImportedOrigin (c_store c2) (bun_Machine bundle) (run_ID run)" using Cons.prems(2) by (metis list.set_intros(1))
    then have "\<not> plans c2 bundle mapping run" by (simp add: plans_def)
    with go [OF _ r(3)] r(1) show ?thesis by auto
  qed
qed simp

section \<open>The transaction\<close>

lemma prune_roomy:
  assumes "int (length (filter (\<lambda>e. isExecutionTerminal (ex_Status e)) (sd_Executions d))) \<le> normalizeMaxHistory n"
  shows "sd_Executions (committed d n) = sd_Executions d" "sd_ImportedOrigins (committed d n) = sd_ImportedOrigins d"
  using assms by (simp_all add: committed_def pruneExecutions_def Let_def)

lemma ledger_key: "ImportedOrigin_key (import_ledger_entry now m (pln_Execution item)) = (m, legacy_id item)"
  by (simp add: ImportedOrigin_key_def import_ledger_entry_def)

lemma ledger_has:
  assumes "sd_ImportedOrigins (st_data s) = old @ map (import_ledger_entry now m \<circ> pln_Execution) planned" "item \<in> set planned"
  shows "HasImportedOrigin s m (legacy_id item)"
proof -
  have "import_ledger_entry now m (pln_Execution item) \<in> set (sd_ImportedOrigins (st_data s))" unfolding assms(1) using assms(2) by simp
  with ledger_key [of now m item] show ?thesis unfolding HasImportedOrigin_def hasOrigin_def list_ex_iff by blast
qed

lemma applyImports_outcome:
  assumes "applyImports env c bundle planned rep = ((err, rep'), c')"
    and "normalizeMaxHistory (st_maxHistory (c_store c)) = normalizeMaxHistory (rt_MaxHistory (c_runtime c))"
  shows "if err = None
    then sd_Executions (st_data (c_store c')) = sd_Executions (st_data (c_store c)) @ map pln_Execution planned
      \<and> sd_ImportedOrigins (st_data (c_store c')) = sd_ImportedOrigins (st_data (c_store c))
          @ map (import_ledger_entry (apply_env.ae_now env) (bun_Machine bundle) \<circ> pln_Execution) planned
      \<and> rep' = rep
    else st_data (c_store c') = st_data (c_store c)"
proof -
  let ?txn = "applyImports_txn (apply_env.ae_now env) (bun_Machine bundle)
       (normalizeMaxHistory (rt_MaxHistory (c_runtime c))) (map pln_Execution planned)"
  obtain failed logs created where cp: "copy_logs (ae_read env) (ae_copyIO env) (rt_LogDir (c_runtime c)) planned (st_logs (c_store c)) []
      = (failed, logs, created)" by (metis surj_pair)
  let ?s = "c_store c\<lparr>st_logs := logs\<rparr>"
  obtain r e s' where m: "mutate (ae_io env) ?txn ?s = (r, e, s')" by (metis surj_pair)
  show ?thesis
  proof (cases "ae_mkdirFails env \<or> failed \<noteq> None")
    case True
    with assms(1) cp show ?thesis by (auto simp: applyImports_def Let_def split: if_splits)
  next
    case False
    with assms(1) cp m have out: "err = e" "st_data (c_store c') = st_data s'" "e = None \<Longrightarrow> rep' = rep"
      by (auto simp: applyImports_def Let_def split: option.splits)
    from m show ?thesis
    proof (cases rule: mutate_cases)
      case (commit d)
      then have l: "commit_loop (apply_env.ae_now env) (bun_Machine bundle) (map pln_Execution planned) (st_data (c_store c)) = Inr d"
        and cap: "int (length (filter (\<lambda>e. isExecutionTerminal (ex_Status e)) (sd_Executions d))) \<le> normalizeMaxHistory (rt_MaxHistory (c_runtime c))"
        by (auto simp: applyImports_txn_def split: sum.splits if_splits)
      from prune_roomy [of d "st_maxHistory (c_store c)"] cap assms(2) commit(3) have
        "sd_Executions (st_data s') = sd_Executions d" "sd_ImportedOrigins (st_data s') = sd_ImportedOrigins d" by simp_all
      with commit_loop_executions [OF l] out commit(2) show ?thesis by simp
    qed (use out in auto)
  qed
qed

lemma importBundle_outcome:
  assumes "importBundle env aenv c bundle mapping apply = Some ((err, rep), c')"
    and "normalizeMaxHistory (st_maxHistory (c_store c)) = normalizeMaxHistory (rt_MaxHistory (c_runtime c))"
  obtains planned rep0 where "planImports env c bundle mapping empty_report = Some (planned, rep0)" "rep_Imported rep0 = length planned"
    "err = None \<Longrightarrow> rep_Imported rep = length planned" "c_cfg c' = c_cfg c"
    "if err = None \<and> apply
     then sd_Executions (st_data (c_store c')) = sd_Executions (st_data (c_store c)) @ map pln_Execution planned
       \<and> sd_ImportedOrigins (st_data (c_store c')) = sd_ImportedOrigins (st_data (c_store c))
           @ map (import_ledger_entry (apply_env.ae_now aenv) (bun_Machine bundle) \<circ> pln_Execution) planned
     else st_data (c_store c') = st_data (c_store c)"
proof -
  from assms(1) obtain planned rep0 where p: "planImports env c bundle mapping empty_report = Some (planned, rep0)"
    by (auto simp: importBundle_def split: option.splits)
  have n: "rep_Imported rep0 = length planned"
    using plan_loop_imported p by (fastforce simp: planImports_def empty_report_def)
  obtain e1 rep1 where h: "checkHistoryHeadroom c (length planned) rep0 = (e1, rep1)" by fastforce
  have n1: "rep_Imported rep1 = rep_Imported rep0"
    using h by (auto simp: checkHistoryHeadroom_def Let_def split: if_splits)
  obtain e2 rep2 c2 where a: "applyImports aenv c bundle planned rep1 = ((e2, rep2), c2)" by (metis surj_pair)
  have cfg: "c_cfg c2 = c_cfg c"
    using a by (auto simp: applyImports_def Let_def split: if_splits prod.splits option.splits)
  note ap = applyImports_outcome [OF a assms(2)]
  show thesis
  proof (cases "planned = [] \<or> e1 \<noteq> None \<or> \<not> apply")
    case True
    with assms(1) p h have "c' = c" "err = None \<Longrightarrow> rep_Imported rep = rep_Imported rep0" "err = None \<and> apply \<Longrightarrow> planned = []"
      using n1 by (auto simp: importBundle_def Let_def split: if_splits option.splits)
    with p n show thesis by (intro that [of planned rep0]) auto
  next
    case False
    with assms(1) p h a have "err = e2" "rep = rep2" "c' = c2" "apply" by (auto simp: importBundle_def Let_def)
    with p n n1 cfg ap show thesis by (intro that [of planned rep0]) (auto split: if_splits)
  qed
qed

text \<open>C20. An import is all or nothing and never costs history: when it succeeds, every planned run
  is appended to the executions, none that was recorded before is pruned or changed, and every
  imported run is in the ledger; when it fails, for whatever reason, or is a dry run, executions and
  ledger are as before.\<close>

theorem import_all_or_nothing:
  assumes "importBundle env aenv c bundle mapping apply = Some ((err, rep), c')"
    and "normalizeMaxHistory (st_maxHistory (c_store c)) = normalizeMaxHistory (rt_MaxHistory (c_runtime c))"
  shows "\<exists>planned rep0. planImports env c bundle mapping empty_report = Some (planned, rep0)
    \<and> (if err = None \<and> apply
       then sd_Executions (st_data (c_store c')) = sd_Executions (st_data (c_store c)) @ map pln_Execution planned
         \<and> (\<forall>item \<in> set planned. HasImportedOrigin (c_store c') (bun_Machine bundle) (legacy_id item))
         \<and> rep_Imported rep = length planned
       else st_data (c_store c') = st_data (c_store c))"
proof -
  obtain planned rep0 where p: "planImports env c bundle mapping empty_report = Some (planned, rep0)"
    "err = None \<Longrightarrow> rep_Imported rep = length planned"
    "if err = None \<and> apply
     then sd_Executions (st_data (c_store c')) = sd_Executions (st_data (c_store c)) @ map pln_Execution planned
       \<and> sd_ImportedOrigins (st_data (c_store c')) = sd_ImportedOrigins (st_data (c_store c))
           @ map (import_ledger_entry (apply_env.ae_now aenv) (bun_Machine bundle) \<circ> pln_Execution) planned
     else st_data (c_store c') = st_data (c_store c)"
    by (rule importBundle_outcome [OF assms]) blast
  moreover have "\<forall>item \<in> set planned. HasImportedOrigin (c_store c') (bun_Machine bundle) (legacy_id item)" if "err = None \<and> apply"
    using p(3) that ledger_has by (metis (no_types, lifting))
  ultimately show ?thesis by (intro exI [of _ planned] exI [of _ rep0]) (simp split: if_splits)
qed

text \<open>C21. Importing a bundle again adds nothing, however long after and with whatever identifiers,
  clock and files: once an import of it was applied, an import of the same bundle under the same
  configuration and mapping changes nothing and counts no imported run, even when the runs of the
  first import have been pruned or deleted since.\<close>

theorem import_idempotent:
  assumes "importBundle env aenv c bundle mapping True = Some ((None, rep), c')"
    and "normalizeMaxHistory (st_maxHistory (c_store c)) = normalizeMaxHistory (rt_MaxHistory (c_runtime c))"
    and "c_cfg c2 = c_cfg c'" "set (sd_ImportedOrigins (st_data (c_store c'))) \<subseteq> set (sd_ImportedOrigins (st_data (c_store c2)))"
  shows "\<exists>rep2. importBundle env2 aenv2 c2 bundle mapping apply = Some ((None, rep2), c2) \<and> rep_Imported rep2 = 0"
proof -
  obtain planned rep0 where p: "planImports env c bundle mapping empty_report = Some (planned, rep0)" "c_cfg c' = c_cfg c"
    "sd_ImportedOrigins (st_data (c_store c')) = sd_ImportedOrigins (st_data (c_store c))
           @ map (import_ledger_entry (apply_env.ae_now aenv) (bun_Machine bundle) \<circ> pln_Execution) planned"
    by (rule importBundle_outcome [OF assms(1,2)]) auto
  have mono: "HasImportedOrigin (c_store c2) m i"
    if "x \<in> set (sd_ImportedOrigins (st_data (c_store c')))" "ImportedOrigin_key x = (m, i)" for x m i
    using that assms(4) by (auto simp: HasImportedOrigin_def hasOrigin_def list_ex_iff)
  have old: "HasImportedOrigin (c_store c2) (bun_Machine bundle) i" if "HasImportedOrigin (c_store c) (bun_Machine bundle) i" for i
    using that mono p(3) by (auto simp: HasImportedOrigin_def hasOrigin_def list_ex_iff)
  have new: "\<forall>item \<in> set planned. HasImportedOrigin (c_store c2) (bun_Machine bundle) (legacy_id item)"
  proof
    fix item assume "item \<in> set planned"
    then have "import_ledger_entry (apply_env.ae_now aenv) (bun_Machine bundle) (pln_Execution item)
        \<in> set (sd_ImportedOrigins (st_data (c_store c')))" unfolding p(3) by simp
    from mono [OF this ledger_key] show "HasImportedOrigin (c_store c2) (bun_Machine bundle) (legacy_id item)" .
  qed
  have cfg: "c_cfg c2 = c_cfg c" using assms(3) p(2) by simp
  from plan_again [OF p(1) [unfolded planImports_def] cfg old new] obtain rep2 where
    "planImports env2 c2 bundle mapping empty_report = Some ([], rep2)" "rep_Imported rep2 = 0"
    unfolding planImports_def by (metis (no_types, lifting) empty_report_def importReport.select_convs(1))
  then show ?thesis by (auto simp: importBundle_def Let_def)
qed

section \<open>A sample import\<close>

definition sample_run :: "string \<Rightarrow> string \<Rightarrow> LegacyRun" where
  "sample_run i status = \<lparr>run_ID = i, run_TaskID = ''t'', run_TaskName = ''Task'', run_Script = ''make'', run_Inputs = [],
     run_TimeoutText = '''', run_Status = status, run_RequestedAt = 1, run_StartedAt = 2, run_FinishedAt = 3,
     run_CanceledAt = 0, run_ExitCode = 0, run_Error = '''', run_LogFile = ''''\<rparr>"

definition sample_bundle :: MigrationBundle where
  "sample_bundle = \<lparr>bun_Machine = ''m1'', bun_ScriptHeader = '''', bun_Tasks = [],
     bun_Runs = [sample_run ''old1'' StatusSuccess, sample_run ''old2'' StatusRunning]\<rparr>"

definition sample_mapping :: MigrationMapping where
  "sample_mapping = \<lparr>map_Machine = ''m1'', map_AgentID = ''a1'', map_ProjectParam = '''',
     map_Tasks = [(''t'', \<lparr>mpt_Job = ''build'', mpt_Project = '''', mpt_ProjectPath = '''', mpt_Labels = [],
                           mpt_Parameters = [], mpt_InputMap = [], mpt_InputValues = []\<rparr>)]\<rparr>"

definition sample_import_env :: import_env where
  "sample_import_env = \<lparr>ie_now = 50, ie_gen = (\<lambda>n. ''i'' @ replicate n CHR ''0''), ie_stat = (\<lambda>_. NoFile), ie_bundleDir = ''/b''\<rparr>"

definition sample_apply_env :: apply_env where
  "sample_apply_env = \<lparr>ae_mkdirFails = False, ae_read = (\<lambda>_. None), ae_copyIO = (\<lambda>_. io_ok), ae_now = 51, ae_io = io_ok\<rparr>"

definition sample_import where
  "sample_import apply c = the (importBundle sample_import_env sample_apply_env c sample_bundle sample_mapping apply)"

lemma sample_import_ok:
  "importBundle sample_import_env sample_apply_env sample_running sample_bundle sample_mapping True
     = Some ((None, snd (fst (sample_import True sample_running))), snd (sample_import True sample_running))"
proof -
  have "importBundle sample_import_env sample_apply_env sample_running sample_bundle sample_mapping True \<noteq> None" by code_simp
  moreover have "fst (fst (sample_import True sample_running)) = None" by code_simp
  ultimately show ?thesis by (auto simp: sample_import_def)
qed

lemma sample_import_cap:
  "normalizeMaxHistory (st_maxHistory (c_store sample_running)) = normalizeMaxHistory (rt_MaxHistory (c_runtime sample_running))"
  by code_simp

theorem import_all_or_nothing_witness:
  "\<exists>planned rep0. planImports sample_import_env sample_running sample_bundle sample_mapping empty_report = Some (planned, rep0)
     \<and> sd_Executions (st_data (c_store (snd (sample_import True sample_running))))
       = sd_Executions (st_data (c_store sample_running)) @ map pln_Execution planned"
  using import_all_or_nothing [OF sample_import_ok sample_import_cap] by auto

theorem import_idempotent_witness:
  "\<exists>rep2. importBundle sample_import_env sample_apply_env (snd (sample_import True sample_running)) sample_bundle sample_mapping True
     = Some ((None, rep2), snd (sample_import True sample_running)) \<and> rep_Imported rep2 = 0"
  using import_idempotent [OF sample_import_ok sample_import_cap refl] by blast

end
