(* ===== verification/Bound_Props.thy ===== *)
theory Bound_Props
  imports Fleet_Props Log_Props
begin

text \<open>
  What the controller keeps in bounds at the agents' interface: how much of a log it stores, and whose
  requests it answers.
\<close>

section \<open>The log cap\<close>

lemma cap_payload_bound:
  assumes "0 \<le> cap" "cap < 2 ^ 63" "sz \<le> cap" "0 \<le> sz" "cap_payload cap sz payload = (stored, trunc)"
    "sz + int (length payload) < 2 ^ 63"
  shows "sz + int (length stored) \<le> cap"
proof -
  have w: "wrap64 (sz + int (length payload)) = sz + int (length payload)" "wrap64 (cap - sz) = cap - sz"
    using assms by (auto intro!: wrap64_id simp: int64_def)
  from assms(5) show ?thesis unfolding cap_payload_def w using assms(3) by (auto split: if_splits)
qed

lemma append_bytes_length:
  "append_bytes fault bytes file = (file', ok) \<Longrightarrow> length file' \<le> length file + length bytes"
  by (auto simp: append_bytes_def split: option.splits)

lemma mutate_logs:
  "mutate io fn s = (r, e, s') \<Longrightarrow>
     st_logs s' = st_logs s \<or> (\<exists>pruned. st_logs s' = fold (removeExecutionLog io (st_logDir s)) pruned (st_logs s))"
  by (auto simp: mutate_def split: prod.splits sum.splits bool.splits)

lemma log_of_truncated_mark:
  assumes "markLogTruncated io i (c_store (put_log path bytes c)) = (err, s')"
    and "path = executionLogPath (rt_LogDir (c_runtime c)) i"
  shows "length (log_of (c\<lparr>c_store := s'\<rparr>) i) \<le> length bytes"
proof -
  obtain r e where "mutate io (markLogTruncated_txn i) (c_store (put_log path bytes c)) = (r, e, s')"
    using assms(1) by (auto simp: markLogTruncated_def split: prod.splits)
  note logs = mutate_logs [OF this]
  have "map_of (fold (removeExecutionLog io dir) ids logs) p \<in> {None, map_of logs p}" for dir ids logs p
  proof (induction ids arbitrary: logs)
    case (Cons a ids)
    have "map_of (removeExecutionLog io dir a logs) p \<in> {None, map_of logs p}"
      by (auto simp: removeExecutionLog_def delete_conv' Let_def)
    with Cons [of "removeExecutionLog io dir a logs"] show ?case by auto
  qed simp
  note removed = this
  have "map_of (st_logs (c_store (put_log path bytes c))) path = Some bytes" by (simp add: put_log_def update_conv')
  with logs have "map_of (st_logs s') path \<in> {None, Some bytes}" by (metis insertI1 insert_commute removed)
  with assms(2) show ?thesis by (auto simp: log_of_def)
qed

lemma store_chunk_bound:
  assumes s: "store_chunk lio io i path bytes payload c = (res, c')" and path: "path = executionLogPath (rt_LogDir (c_runtime c)) i"
    and cap: "0 \<le> rt_MaxLogBytes (c_runtime c)" "rt_MaxLogBytes (c_runtime c) < 2 ^ 63"
    and sz: "int (length bytes) \<le> rt_MaxLogBytes (c_runtime c)" "int (length bytes) + int (length payload) < 2 ^ 63"
  shows "int (length (log_of c' i)) \<le> rt_MaxLogBytes (c_runtime c) + int (length (truncation_notice (rt_MaxLogBytes (c_runtime c))))"
proof -
  let ?max = "rt_MaxLogBytes (c_runtime c)"
  obtain stored trunc where cp: "cap_payload ?max (int (length bytes)) payload = (stored, trunc)" by fastforce
  note b = cap_payload_bound [OF cap sz(1) _ cp sz(2)]
  obtain file1 ok1 where f1: "(if stored = '''' then (bytes, True) else append_bytes (li_payload lio) stored bytes) = (file1, ok1)" by fastforce
  have l1: "int (length file1) \<le> ?max"
    using f1 b append_bytes_length [of "li_payload lio" stored bytes file1 ok1] by (auto split: if_splits)
  obtain file2 ok2 where f2: "(if trunc then append_bytes (li_notice lio) (truncation_notice ?max) file1 else (file1, True)) = (file2, ok2)"
    by fastforce
  have l2: "int (length file2) \<le> ?max + int (length (truncation_notice ?max))"
    using f2 l1 append_bytes_length [of "li_notice lio" "truncation_notice ?max" file1 file2 ok2] by (auto split: if_splits)
  obtain err s' where m: "(if trunc then markLogTruncated io i (c_store (put_log path file2 c)) else (None, c_store (put_log path file2 c))) = (err, s')"
    by fastforce
  have l3: "length (log_of (c\<lparr>c_store := s'\<rparr>) i) \<le> length file2"
    using m log_of_truncated_mark [OF _ path] path by (auto simp: put_log_def log_of_def update_conv split: if_splits)
  have off: "log_of (c\<lparr>c_store := SetLogOffset i n s'\<rparr>) i = log_of (c\<lparr>c_store := s'\<rparr>) i" for n
    by (simp add: log_of_def SetLogOffset_def)
  consider "c' = put_log path file1 c" | "c' = put_log path file2 c" | n where "c' = c\<lparr>c_store := s'\<rparr> \<or> c' = c\<lparr>c_store := SetLogOffset i n s'\<rparr>"
    using s unfolding store_chunk_def Let_def cp prod.case f1 f2 m
    by (cases ok1; cases ok2) (auto split: if_splits option.splits)
  then show ?thesis
  proof cases
    case 1
    with l1 path show ?thesis by simp
  next
    case 2
    with l2 path show ?thesis by simp
  next
    case 3
    with l2 l3 off show ?thesis by auto
  qed
qed



section \<open>Whose requests are answered\<close>

text \<open>A request that names another agent than the one its token belongs to, or that comes from an
  agent the configuration does not name, is refused with status 403 by every handler of the agent
  protocol, and changes nothing at the controller.\<close>

theorem foreign_agent_refused:
  assumes "(named \<noteq> '''' \<and> named \<noteq> who) \<or> findAgentDefinition (c_cfg c) who = None"
  shows "\<exists>m. handleAgentPoll pe who (Some (poll\<lparr>plq_AgentID := named\<rparr>)) events c = (Refused 403 m, c)
    \<and> handleAgentPermit oe who (Some (permit\<lparr>prq_AgentID := named\<rparr>)) c = (Refused 403 m, c)
    \<and> handleAgentHeartbeat now who (Some (beat\<lparr>hbq_AgentID := named\<rparr>)) c = (Refused 403 m, c)
    \<and> handleAgentLog lio oe who (Some (chunk\<lparr>lrq_AgentID := named\<rparr>)) c = (Refused 403 m, c)
    \<and> handleAgentResult sf oe who (Some (result\<lparr>rrq_AgentID := named\<rparr>)) c = (Refused 403 m, c)
    \<and> handleAgentAttention oe who (Some (attention\<lparr>atq_AgentID := named\<rparr>)) c = (Refused 403 m, c)"
proof -
  from assms have "\<exists>m. bindAgent c who named = Some (403, m)" by (auto simp: bindAgent_def)
  then obtain m where "bindAgent c who named = Some (403, m)" by blast
  then show ?thesis
    by (intro exI [of _ m])
       (simp add: handleAgentPoll_def poll_begin_def handleAgentPermit_def handleAgentHeartbeat_def handleAgentLog_def
          handleAgentResult_def handleAgentAttention_def with_bound_agent_def)
qed

theorem foreign_agent_refused_witness:
  "\<exists>m. handleAgentPermit (sample_env 12) ''a2'' (Some \<lparr>prq_AgentID = ''a1'', prq_ExecutionID = ''r''\<rparr>) sample_assigned
     = (Refused 403 m, sample_assigned)"
proof -
  have a: "(''a1'' \<noteq> '''' \<and> ''a1'' \<noteq> ''a2'') \<or> findAgentDefinition (c_cfg sample_assigned) ''a2'' = None" by simp
  have "\<lparr>prq_AgentID = '''', prq_ExecutionID = ''r''\<rparr>\<lparr>prq_AgentID := ''a1''\<rparr> = \<lparr>prq_AgentID = ''a1'', prq_ExecutionID = ''r''\<rparr>" by simp
  with foreign_agent_refused [OF a, of _ _ _ "sample_env 12" "\<lparr>prq_AgentID = '''', prq_ExecutionID = ''r''\<rparr>"] show ?thesis
    by metis
qed

end
