(* ===== verification/Ctrl_Auth.thy ===== *)
theory Ctrl_Auth
  imports Ctrl_Core
begin

text \<open>
  The credential store, \<^verbatim>\<open>ctrlauth.go\<close>: the admin password, the automation tokens and the agent
  tokens.  The file is the authority and other processes (the command line) write it too, so the
  file with its stamp is part of the state, and what other processes do to it in the middle of an
  operation is an argument (\<open>cred_env\<close>).  The hash functions of \<^verbatim>\<open>crypto/sha256\<close> and
  \<^verbatim>\<open>crypto/pbkdf2\<close> are arguments (\<open>crypto\<close>), as are the random bytes drawn; hexadecimal and base64
  notation are written out.  \<^verbatim>\<open>subtle.ConstantTimeCompare\<close> is equality.
\<close>

section \<open>Encodings\<close>

definition hex_digit :: "int \<Rightarrow> char" where
  "hex_digit n = char_of (if n < 10 then 48 + n else 87 + n)"

definition hex_encode :: "string \<Rightarrow> string" where
  "hex_encode bytes =
     concat (map (\<lambda>c. let n = of_char c :: int in [hex_digit (n div 16), hex_digit (n mod 16)]) bytes)"

definition hex_value :: "char \<Rightarrow> int option" where
  "hex_value c =
     (let n = of_char c :: int in
      if 48 \<le> n \<and> n \<le> 57 then Some (n - 48)
      else if 97 \<le> n \<and> n \<le> 102 then Some (n - 87)
      else if 65 \<le> n \<and> n \<le> 70 then Some (n - 55)
      else None)"

fun hex_decode :: "string \<Rightarrow> string option" where
  "hex_decode [] = Some []"
| "hex_decode [c] = None"
| "hex_decode (a # b # rest) =
     (case (hex_value a, hex_value b, hex_decode rest) of
        (Some x, Some y, Some bytes) \<Rightarrow> Some (char_of (16 * x + y) # bytes)
      | _ \<Rightarrow> None)"

text \<open>\<^verbatim>\<open>base64.RawURLEncoding\<close>: six bits per character, no padding.\<close>

definition b64_char :: "int \<Rightarrow> char" where
  "b64_char n =
     (if n < 26 then char_of (65 + n)
      else if n < 52 then char_of (71 + n)
      else if n < 62 then char_of (n - 4)
      else if n = 62 then CHR ''-''
      else CHR ''_'')"

fun b64_encode :: "string \<Rightarrow> string" where
  "b64_encode (a # b # c # rest) =
     (let n = of_char a * 65536 + of_char b * 256 + of_char c :: int
      in [b64_char (n div 262144), b64_char (n div 4096 mod 64), b64_char (n div 64 mod 64), b64_char (n mod 64)]
         @ b64_encode rest)"
| "b64_encode [a, b] =
     (let n = of_char a * 65536 + of_char b * 256 :: int
      in [b64_char (n div 262144), b64_char (n div 4096 mod 64), b64_char (n div 64 mod 64)])"
| "b64_encode [a] =
     (let n = of_char a * 65536 :: int in [b64_char (n div 262144), b64_char (n div 4096 mod 64)])"
| "b64_encode [] = []"

section \<open>Records\<close>

definition passwordIterations :: int where "passwordIterations = 210000"
definition passwordKeyLength :: nat where "passwordKeyLength = 32"
definition adminUserName :: string where "adminUserName = ''admin''"
definition maxCredentialFileBytes :: int where "maxCredentialFileBytes = 4194304"

datatype auth_error =
    ErrNoAdminCredential | ErrInvalidCredentials | ErrTokenNotFound
  | ErrCredentialIO | ErrCredentialTooLarge int | ErrCredentialParse
  | ErrPasswordTooShort | ErrRandom | ErrDerive | ErrInvalidAgentID string

record PasswordRecord =
  pw_Username :: string
  pw_Salt :: string
  pw_Hash :: string
  pw_Iterations :: int
  pw_UpdatedAt :: time

record TokenRecord =
  tk_ID :: string
  tk_Name :: string
  tk_AgentID :: string
  tk_Hash :: string
  tk_CreatedAt :: time
  tk_LastUsed :: time

record credentialFile =
  cf_Version :: int
  cf_Admin :: "PasswordRecord option"
  cf_APITokens :: "TokenRecord list"
  cf_AgentTokens :: "TokenRecord list"

definition empty_credentials :: credentialFile where
  "empty_credentials = \<lparr>cf_Version = 1, cf_Admin = None, cf_APITokens = [], cf_AgentTokens = []\<rparr>"

text \<open>The file on disk: the document it decodes to, or bytes that do not decode, with its stamp.\<close>

datatype cred_document = Document credentialFile | Malformed

type_synonym cred_file = "(cred_document \<times> fileStamp) option"

definition zero_stamp :: fileStamp where
  "zero_stamp = \<lparr>fs_modTime = 0, fs_size = 0\<rparr>"

record AuthStore =
  au_file :: cred_file
  au_data :: credentialFile
  au_stamp :: fileStamp

record crypto =
  cry_sha256 :: "string \<Rightarrow> string"
  cry_pbkdf2 :: "string \<Rightarrow> string \<Rightarrow> int \<Rightarrow> nat \<Rightarrow> string option"

text \<open>What an operation meets outside: failing calls, the stamp a written file gets, and what other
  processes do to the file between \<^verbatim>\<open>stat\<close> and reading, between reading and writing, and between
  writing and the last \<^verbatim>\<open>stat\<close>.\<close>

record cred_env =
  ce_stat_fails :: bool
  ce_read_fails :: bool
  ce_during_read :: "cred_file \<Rightarrow> cred_file"
  ce_before_write :: "cred_file \<Rightarrow> cred_file"
  ce_io :: io_env
  ce_stamp :: fileStamp
  ce_before_stat :: "cred_file \<Rightarrow> cred_file"
  ce_restat_fails :: bool

section \<open>The store\<close>

definition parsed_credentials :: "credentialFile \<Rightarrow> credentialFile" where
  "parsed_credentials parsed = (if cf_Version parsed = 0 then parsed\<lparr>cf_Version := 1\<rparr> else parsed)"

definition reloadLocked :: "cred_env \<Rightarrow> AuthStore \<Rightarrow> auth_error option \<times> AuthStore" where
  "reloadLocked env a =
     (if ce_stat_fails env then (Some ErrCredentialIO, a)
      else case au_file a of
        None \<Rightarrow> (None, a\<lparr>au_data := empty_credentials, au_stamp := zero_stamp\<rparr>)
      | Some (_, stamp) \<Rightarrow>
          if stamp = au_stamp a \<and> au_stamp a \<noteq> zero_stamp then (None, a)
          else if fs_size stamp > maxCredentialFileBytes then (Some (ErrCredentialTooLarge (fs_size stamp)), a)
          else
            let a = a\<lparr>au_file := ce_during_read env (au_file a)\<rparr> in
            if ce_read_fails env then (Some ErrCredentialIO, a)
            else case au_file a of
              None \<Rightarrow> (None, a\<lparr>au_data := empty_credentials, au_stamp := zero_stamp\<rparr>)
            | Some (Malformed, _) \<Rightarrow> (Some ErrCredentialParse, a)
            | Some (Document parsed, _) \<Rightarrow>
                (None, a\<lparr>au_data := parsed_credentials parsed, au_stamp := stamp\<rparr>))"

definition newAuthStore :: "cred_env \<Rightarrow> cred_file \<Rightarrow> auth_error + AuthStore" where
  "newAuthStore env file0 =
     (case reloadLocked env \<lparr>au_file = file0, au_data = empty_credentials, au_stamp = zero_stamp\<rparr> of
        (Some err, _) \<Rightarrow> Inl err
      | (None, store) \<Rightarrow> Inr store)"

definition AuthStore_mutate ::
    "cred_env \<Rightarrow> (credentialFile \<Rightarrow> auth_error + credentialFile) \<Rightarrow> AuthStore \<Rightarrow> auth_error option \<times> AuthStore" where
  "AuthStore_mutate env fn a0 =
     (case reloadLocked env a0 of
        (Some err, a) \<Rightarrow> (Some err, a)
      | (None, a) \<Rightarrow>
          (case fn (au_data a) of
             Inl err \<Rightarrow> (Some err, a)
           | Inr next \<Rightarrow>
               (case writeFileAtomicSync (ce_io env) (Document next, ce_stamp env)
                       (ce_before_write env (au_file a)) of
                  (False, disk) \<Rightarrow> (Some ErrCredentialIO, a\<lparr>au_file := disk\<rparr>)
                | (True, disk) \<Rightarrow>
                    let disk = ce_before_stat env disk;
                        stamp = (if ce_restat_fails env then zero_stamp
                                 else case disk of None \<Rightarrow> zero_stamp | Some (_, st) \<Rightarrow> st)
                    in (None, a\<lparr>au_file := disk, au_data := next, au_stamp := stamp\<rparr>))))"

text \<open>\<^verbatim>\<open>read\<close> hands the callback the current document; its result is the result of the callback.\<close>

definition AuthStore_read ::
    "cred_env \<Rightarrow> (credentialFile \<Rightarrow> 'r) \<Rightarrow> AuthStore \<Rightarrow> (auth_error + 'r) \<times> AuthStore" where
  "AuthStore_read env fn a0 =
     (case reloadLocked env a0 of
        (Some err, a) \<Rightarrow> (Inl err, a)
      | (None, a) \<Rightarrow> (Inr (fn (au_data a)), a))"

definition HasAdmin :: "cred_env \<Rightarrow> AuthStore \<Rightarrow> bool \<times> AuthStore" where
  "HasAdmin env a =
     (case AuthStore_read env (\<lambda>data. cf_Admin data \<noteq> None) a of
        (Inl _, a') \<Rightarrow> (False, a')
      | (Inr present, a') \<Rightarrow> (present, a'))"

definition AdminUpdatedAt :: "cred_env \<Rightarrow> AuthStore \<Rightarrow> time \<times> AuthStore" where
  "AdminUpdatedAt env a =
     (case AuthStore_read env (\<lambda>data. case cf_Admin data of Some admin \<Rightarrow> pw_UpdatedAt admin | None \<Rightarrow> 0) a of
        (Inl _, a') \<Rightarrow> (0, a')
      | (Inr updated, a') \<Rightarrow> (updated, a'))"

section \<open>Passwords\<close>

definition derivePassword :: "crypto \<Rightarrow> string \<Rightarrow> string \<Rightarrow> int \<Rightarrow> string option" where
  "derivePassword cry password salt iterations =
     cry_pbkdf2 cry password salt (if iterations \<le> 0 then passwordIterations else iterations) passwordKeyLength"

text \<open>\<open>salt\<close> is the outcome of \<^verbatim>\<open>rand.Read\<close>, \<open>now\<close> the clock when the change is applied.\<close>

definition SetAdminPassword ::
    "crypto \<Rightarrow> cred_env \<Rightarrow> string option \<Rightarrow> time \<Rightarrow> string \<Rightarrow> string \<Rightarrow> AuthStore \<Rightarrow> auth_error option \<times> AuthStore" where
  "SetAdminPassword cry env salt now username password a =
     (let username = trim_space username;
          username = (if username = '''' then adminUserName else username)
      in if length password < 8 then (Some ErrPasswordTooShort, a)
         else case salt of
           None \<Rightarrow> (Some ErrRandom, a)
         | Some salt \<Rightarrow>
             (case derivePassword cry password salt passwordIterations of
                None \<Rightarrow> (Some ErrDerive, a)
              | Some hash \<Rightarrow>
                  AuthStore_mutate env (\<lambda>data. Inr (data\<lparr>cf_Admin :=
                    Some \<lparr>pw_Username = username, pw_Salt = hex_encode salt, pw_Hash = hex_encode hash,
                          pw_Iterations = passwordIterations, pw_UpdatedAt = now\<rparr>\<rparr>)) a))"

definition check_password :: "crypto \<Rightarrow> string \<Rightarrow> string \<Rightarrow> PasswordRecord option \<Rightarrow> auth_error option" where
  "check_password cry username password admin =
     (case admin of
        None \<Rightarrow> Some ErrNoAdminCredential
      | Some record \<Rightarrow>
          (case hex_decode (pw_Salt record) of
             None \<Rightarrow> Some ErrInvalidCredentials
           | Some salt \<Rightarrow>
               (case derivePassword cry password salt (pw_Iterations record) of
                  None \<Rightarrow> Some ErrInvalidCredentials
                | Some hash \<Rightarrow>
                    (case hex_decode (pw_Hash record) of
                       None \<Rightarrow> Some ErrInvalidCredentials
                     | Some expected \<Rightarrow>
                         if trim_space username \<noteq> pw_Username record \<or> hash \<noteq> expected
                         then Some ErrInvalidCredentials else None))))"

definition VerifyPassword ::
    "crypto \<Rightarrow> cred_env \<Rightarrow> string \<Rightarrow> string \<Rightarrow> AuthStore \<Rightarrow> auth_error option \<times> AuthStore" where
  "VerifyPassword cry env username password a =
     (case AuthStore_read env cf_Admin a of
        (Inl err, a') \<Rightarrow> (Some err, a')
      | (Inr admin, a') \<Rightarrow> (check_password cry username password admin, a'))"

section \<open>Tokens\<close>

definition hashToken :: "crypto \<Rightarrow> string \<Rightarrow> string" where
  "hashToken cry secret = hex_encode (cry_sha256 cry secret)"

text \<open>The random draws of a new token: the bytes of the secret and the identifier.\<close>

record token_draw =
  td_raw :: "string option"
  td_id :: string
  td_now :: time

definition add_token :: "TokenRecord \<Rightarrow> string \<Rightarrow> credentialFile \<Rightarrow> credentialFile" where
  "add_token record agentID data =
     (if agentID \<noteq> ''''
      then data\<lparr>cf_AgentTokens := filter (\<lambda>existing. tk_AgentID existing \<noteq> agentID) (cf_AgentTokens data) @ [record]\<rparr>
      else data\<lparr>cf_APITokens := cf_APITokens data @ [record]\<rparr>)"

definition issueToken ::
    "crypto \<Rightarrow> cred_env \<Rightarrow> token_draw \<Rightarrow> string \<Rightarrow> string \<Rightarrow> AuthStore
      \<Rightarrow> (auth_error + string \<times> TokenRecord) \<times> AuthStore" where
  "issueToken cry env draw name agentID a =
     (case td_raw draw of
        None \<Rightarrow> (Inl ErrRandom, a)
      | Some raw \<Rightarrow>
          let secret = b64_encode raw;
              record = \<lparr>tk_ID = td_id draw, tk_Name = trim_space name, tk_AgentID = agentID,
                        tk_Hash = hashToken cry secret, tk_CreatedAt = td_now draw, tk_LastUsed = 0\<rparr>
          in case AuthStore_mutate env (\<lambda>data. Inr (add_token record agentID data)) a of
               (Some err, a') \<Rightarrow> (Inl err, a')
             | (None, a') \<Rightarrow> (Inr (secret, record), a'))"

definition IssueAPIToken ::
    "crypto \<Rightarrow> cred_env \<Rightarrow> token_draw \<Rightarrow> string \<Rightarrow> AuthStore \<Rightarrow> (auth_error + string \<times> TokenRecord) \<times> AuthStore" where
  "IssueAPIToken cry env draw name a = issueToken cry env draw name '''' a"

definition IssueAgentToken ::
    "crypto \<Rightarrow> cred_env \<Rightarrow> token_draw \<Rightarrow> string \<Rightarrow> AuthStore \<Rightarrow> (auth_error + string \<times> TokenRecord) \<times> AuthStore" where
  "IssueAgentToken cry env draw agentID a =
     (if \<not> validIdentifier agentID then (Inl (ErrInvalidAgentID agentID), a)
      else issueToken cry env draw '''' agentID a)"

text \<open>The loops of the two revocations: what is kept, refused when nothing matches.\<close>

definition RevokeAPIToken :: "cred_env \<Rightarrow> string \<Rightarrow> AuthStore \<Rightarrow> auth_error option \<times> AuthStore" where
  "RevokeAPIToken env i a =
     AuthStore_mutate env (\<lambda>data.
       if \<not> list_ex (\<lambda>token. tk_ID token = i) (cf_APITokens data) then Inl ErrTokenNotFound
       else Inr (data\<lparr>cf_APITokens := filter (\<lambda>token. tk_ID token \<noteq> i) (cf_APITokens data)\<rparr>)) a"

definition RevokeAgentToken :: "cred_env \<Rightarrow> string \<Rightarrow> AuthStore \<Rightarrow> auth_error option \<times> AuthStore" where
  "RevokeAgentToken env agentID a =
     AuthStore_mutate env (\<lambda>data.
       if \<not> list_ex (\<lambda>token. tk_AgentID token = agentID) (cf_AgentTokens data) then Inl ErrTokenNotFound
       else Inr (data\<lparr>cf_AgentTokens := filter (\<lambda>token. tk_AgentID token \<noteq> agentID) (cf_AgentTokens data)\<rparr>)) a"

definition VerifyAPIToken :: "crypto \<Rightarrow> cred_env \<Rightarrow> string \<Rightarrow> AuthStore \<Rightarrow> TokenRecord option \<times> AuthStore" where
  "VerifyAPIToken cry env secret a =
     (case AuthStore_read env (\<lambda>data. find (\<lambda>token. tk_Hash token = hashToken cry secret) (cf_APITokens data)) a of
        (Inl _, a') \<Rightarrow> (None, a')
      | (Inr found, a') \<Rightarrow> (found, a'))"

definition VerifyAgentToken :: "crypto \<Rightarrow> cred_env \<Rightarrow> string \<Rightarrow> AuthStore \<Rightarrow> TokenRecord option \<times> AuthStore" where
  "VerifyAgentToken cry env secret a =
     (case AuthStore_read env (\<lambda>data. find (\<lambda>token. tk_Hash token = hashToken cry secret) (cf_AgentTokens data)) a of
        (Inl _, a') \<Rightarrow> (None, a')
      | (Inr found, a') \<Rightarrow> (found, a'))"

definition redactTokens :: "TokenRecord list \<Rightarrow> TokenRecord list" where
  "redactTokens tokens = map (\<lambda>token. token\<lparr>tk_Hash := ''''\<rparr>) tokens"

definition APITokens :: "cred_env \<Rightarrow> AuthStore \<Rightarrow> TokenRecord list \<times> AuthStore" where
  "APITokens env a =
     (case AuthStore_read env (\<lambda>data. redactTokens (cf_APITokens data)) a of
        (Inl _, a') \<Rightarrow> ([], a')
      | (Inr tokens, a') \<Rightarrow> (tokens, a'))"

definition AgentTokens :: "cred_env \<Rightarrow> AuthStore \<Rightarrow> TokenRecord list \<times> AuthStore" where
  "AgentTokens env a =
     (case AuthStore_read env (\<lambda>data. redactTokens (cf_AgentTokens data)) a of
        (Inl _, a') \<Rightarrow> ([], a')
      | (Inr tokens, a') \<Rightarrow> (tokens, a'))"

definition HasAgentToken :: "cred_env \<Rightarrow> string \<Rightarrow> AuthStore \<Rightarrow> bool \<times> AuthStore" where
  "HasAgentToken env agentID a =
     (case AuthStore_read env (\<lambda>data. list_ex (\<lambda>token. tk_AgentID token = agentID) (cf_AgentTokens data)) a of
        (Inl _, a') \<Rightarrow> (False, a')
      | (Inr enrolled, a') \<Rightarrow> (enrolled, a'))"

section \<open>The cache agrees with the file\<close>

text \<open>The document the file holds, and the invariant of the cache: when the file has the stamp that was
  remembered, the remembered document is the one in the file.\<close>

definition file_document :: "AuthStore \<Rightarrow> credentialFile option" where
  "file_document a =
     (case au_file a of
        None \<Rightarrow> Some empty_credentials
      | Some (Document d, _) \<Rightarrow> Some (parsed_credentials d)
      | Some (Malformed, _) \<Rightarrow> None)"

definition coherent :: "AuthStore \<Rightarrow> bool" where
  "coherent a \<longleftrightarrow>
     (case au_file a of
        None \<Rightarrow> True
      | Some (_, stamp) \<Rightarrow> stamp = au_stamp a \<and> au_stamp a \<noteq> zero_stamp \<longrightarrow> file_document a = Some (au_data a))
     \<and> cf_Version (au_data a) \<noteq> 0"

text \<open>No other process touches the file in the middle of the operation.\<close>

definition undisturbed :: "cred_env \<Rightarrow> bool" where
  "undisturbed env \<longleftrightarrow>
     (\<forall>f. ce_during_read env f = f) \<and> (\<forall>f. ce_before_write env f = f) \<and> (\<forall>f. ce_before_stat env f = f)"

lemma parsed_version [simp]: "cf_Version (parsed_credentials d) \<noteq> 0"
  by (simp add: parsed_credentials_def)

lemma parsed_id [simp]: "cf_Version d \<noteq> 0 \<Longrightarrow> parsed_credentials d = d"
  by (simp add: parsed_credentials_def)

lemma empty_version [simp]: "cf_Version empty_credentials = 1"
  by (simp add: empty_credentials_def)

lemma reloadLocked_file:
  assumes "undisturbed env" "reloadLocked env a = (r, a')"
  shows "au_file a' = au_file a"
  using assms by (auto simp: reloadLocked_def undisturbed_def Let_def split: if_splits option.splits prod.splits cred_document.splits)

text \<open>A successful reload has the document of the file, a failed one leaves the store as it was.\<close>

lemma reloadLocked_current:
  assumes "coherent a" "undisturbed env" "reloadLocked env a = (None, a')"
  shows "file_document a = Some (au_data a') \<and> au_file a' = au_file a \<and> coherent a'"
proof (cases "au_file a")
  case None
  with assms(3) show ?thesis
    by (auto simp: reloadLocked_def file_document_def coherent_def split: if_splits)
next
  case (Some fs)
  obtain doc stamp where fs: "fs = (doc, stamp)" by (cases fs)
  show ?thesis
  proof (cases "stamp = au_stamp a \<and> au_stamp a \<noteq> zero_stamp")
    case True
    with assms Some fs show ?thesis
      by (auto simp: reloadLocked_def coherent_def split: if_splits)
  next
    case False
    with assms Some fs show ?thesis
      by (auto simp: reloadLocked_def file_document_def coherent_def undisturbed_def Let_def
          split: if_splits cred_document.splits)
  qed
qed

lemma reloadLocked_failed:
  assumes "undisturbed env" "reloadLocked env a = (Some err, a')"
  shows "a' = a"
  using assms by (auto simp: reloadLocked_def undisturbed_def Let_def split: if_splits option.splits prod.splits cred_document.splits)

lemma reloadLocked_coherent:
  assumes "coherent a" "undisturbed env" "reloadLocked env a = (r, a')"
  shows "coherent a' \<and> file_document a' = file_document a"
proof (cases r)
  case None
  with reloadLocked_current [OF assms(1,2)] assms(3) show ?thesis by (simp add: file_document_def)
next
  case (Some err)
  then have "a' = a" using reloadLocked_failed [OF assms(2)] assms(3) by blast
  with assms(1) show ?thesis by simp
qed

lemma newAuthStore_coherent:
  assumes "undisturbed env" "newAuthStore env f = Inr a"
  shows "coherent a \<and> au_file a = f \<and> file_document a = Some (au_data a)"
proof -
  let ?a = "\<lparr>au_file = f, au_data = empty_credentials, au_stamp = zero_stamp\<rparr>"
  have c: "coherent ?a" by (auto simp: coherent_def split: option.splits)
  from assms(2) have r: "reloadLocked env ?a = (None, a)"
    by (auto simp: newAuthStore_def split: prod.splits option.splits)
  from reloadLocked_current [OF c assms(1) r] show ?thesis by (simp add: file_document_def)
qed

text \<open>Reading: the callback sees the document of the file, or the answer is an error.\<close>

lemma AuthStore_read_cases:
  assumes "coherent a" "undisturbed env" "AuthStore_read env fn a = (r, a')"
  obtains (current) d where "file_document a = Some d" "r = Inr (fn d)" "coherent a'" "au_file a' = au_file a"
    | (failed) err where "r = Inl err" "a' = a"
proof (cases "reloadLocked env a")
  case (Pair e a1)
  show thesis
  proof (cases e)
    case None
    with Pair assms(3) have "r = Inr (fn (au_data a1))" "a' = a1" by (auto simp: AuthStore_read_def)
    moreover have "reloadLocked env a = (None, a1)" using Pair None by simp
    note reloadLocked_current [OF assms(1,2) this]
    ultimately show thesis by (intro current [of "au_data a1"]) simp_all
  next
    case (Some err)
    with Pair assms(3) have "r = Inl err" "a' = a1" by (simp_all add: AuthStore_read_def)
    moreover have "a1 = a" using reloadLocked_failed [OF assms(2)] Pair Some by blast
    ultimately show thesis by (intro failed) simp_all
  qed
qed

lemma AuthStore_read_keeps:
  assumes "coherent a" "undisturbed env" "AuthStore_read env fn a = (r, a')"
  shows "coherent a' \<and> au_file a' = au_file a \<and> file_document a' = file_document a"
  using AuthStore_read_cases [OF assms] assms(1) by (cases, auto simp: file_document_def)

text \<open>A written file gets a stamp that is neither the one it had nor the one remembered.\<close>

definition fresh_stamp :: "cred_env \<Rightarrow> AuthStore \<Rightarrow> bool" where
  "fresh_stamp env a \<longleftrightarrow> ce_stamp env \<noteq> au_stamp a \<and> ce_stamp env \<notin> snd ` set_option (au_file a)"

lemma reloadLocked_stamp:
  assumes "reloadLocked env a = (None, a')"
  shows "au_stamp a' = au_stamp a \<or> au_stamp a' = zero_stamp \<or> au_stamp a' \<in> snd ` set_option (au_file a)"
  using assms by (auto simp: reloadLocked_def Let_def split: if_splits option.splits prod.splits cred_document.splits)

text \<open>Writing: committed and acknowledged, or refused without effect, or an error after which the file
  holds the old or the new document.\<close>

lemma AuthStore_mutate_cases:
  assumes "coherent a" "undisturbed env" "AuthStore_mutate env fn a = (r, a')"
    and "\<And>d d'. fn d = Inr d' \<Longrightarrow> cf_Version d \<noteq> 0 \<Longrightarrow> cf_Version d' \<noteq> 0"
  obtains (committed) d d' where "r = None" "file_document a = Some d" "fn d = Inr d'" "file_document a' = Some d'"
      "au_data a' = d'" "coherent a'"
    | (refused) err where "r = Some err" "file_document a' = file_document a" "coherent a'"
    | (unreported) d d' where "r = Some ErrCredentialIO" "file_document a = Some d" "fn d = Inr d'"
      "file_document a' = Some d'" "fresh_stamp env a \<Longrightarrow> coherent a'"
proof (cases "reloadLocked env a")
  case (Pair e a1)
  show thesis
  proof (cases e)
    case (Some err)
    with Pair assms(3) have "r = Some err" "a' = a1" by (simp_all add: AuthStore_mutate_def)
    moreover have "a1 = a" using reloadLocked_failed [OF assms(2)] Pair Some by blast
    ultimately show thesis using assms(1) by (intro refused) simp_all
  next
    case None
    with Pair have r: "reloadLocked env a = (None, a1)" by simp
    note cur = reloadLocked_current [OF assms(1,2) r]
    from cur have v: "cf_Version (au_data a1) \<noteq> 0" by (simp add: coherent_def)
    show thesis
    proof (cases "fn (au_data a1)")
      case (Inl err)
      with r assms(3) cur show thesis
        by (intro refused) (auto simp: AuthStore_mutate_def file_document_def)
    next
      case (Inr d')
      have v': "cf_Version d' \<noteq> 0" using assms(4) Inr v by blast
      obtain ok disk where w: "writeFileAtomicSync (ce_io env) (Document d', ce_stamp env) (au_file a1) = (ok, disk)"
        by (cases "writeFileAtomicSync (ce_io env) (Document d', ce_stamp env) (au_file a1)")
      then have disk: "disk = au_file a1 \<and> \<not> ok \<or> disk = Some (Document d', ce_stamp env)"
        by (auto simp: writeFileAtomicSync_def split: if_splits)
      show thesis
      proof (cases ok)
        case True
        with disk have "disk = Some (Document d', ce_stamp env)" by simp
        with r Inr w True assms(2,3) v' cur show thesis
          by (intro committed [of "au_data a1" d'])
             (auto simp: AuthStore_mutate_def undisturbed_def Let_def file_document_def coherent_def)
      next
        case False
        with r Inr w assms(2,3) have a': "r = Some ErrCredentialIO" "a' = a1\<lparr>au_file := disk\<rparr>"
          by (auto simp: AuthStore_mutate_def undisturbed_def)
        show thesis
        proof (cases "disk = au_file a1")
          case True
          then have "a' = a1" using a'(2) by simp
          with a'(1) cur show thesis by (intro refused) (auto simp: file_document_def)
        next
          case False
          with disk have "disk = Some (Document d', ce_stamp env)" by simp
          moreover have "fresh_stamp env a \<Longrightarrow> coherent (a1\<lparr>au_file := Some (Document d', ce_stamp env)\<rparr>)"
            using v reloadLocked_stamp [OF r] by (auto simp: coherent_def fresh_stamp_def)
          ultimately show thesis using a' cur Inr v'
            by (intro unreported [of "au_data a1" d']) (simp_all add: file_document_def)
        qed
      qed
    qed
  qed
qed

section \<open>Encodings are read back\<close>

lemma of_char_int: "0 \<le> (of_char c :: int)" "(of_char c :: int) < 256"
  using of_nat_of_char [of c, where ?'a = int, symmetric] by simp_all

lemma hex_value_digit [simp]: "0 \<le> n \<Longrightarrow> n < 16 \<Longrightarrow> hex_value (hex_digit n) = Some n"
  by (auto simp: hex_value_def hex_digit_def Let_def)

lemma hex_decode_encode [simp]: "hex_decode (hex_encode s) = Some s"
proof (induction s)
  case (Cons c s)
  note of_char_int [of c]
  then have "hex_value (hex_digit (of_char c div 16)) = Some (of_char c div 16 :: int)"
    "hex_value (hex_digit (of_char c mod 16)) = Some (of_char c mod 16 :: int)"
    by (intro hex_value_digit; linarith)+
  moreover have "char_of (16 * (of_char c div 16) + of_char c mod 16 :: int) = c"
    using char_of_char [of c, where ?'a = int] by simp
  ultimately show ?case using Cons by (simp add: hex_encode_def Let_def)
qed (simp add: hex_encode_def)

lemma hex_encode_inj [simp]: "hex_encode s = hex_encode t \<longleftrightarrow> s = t"
  by (metis hex_decode_encode option.inject)

lemma hashToken_eq: "hashToken cry s = hashToken cry t \<longleftrightarrow> cry_sha256 cry s = cry_sha256 cry t"
  by (simp add: hashToken_def)

section \<open>What the operations do to the document\<close>

lemma add_token_version [simp]: "cf_Version (add_token t i d) = cf_Version d"
  by (simp add: add_token_def)

lemma SetAdminPassword_None:
  assumes "coherent a" "undisturbed env" "SetAdminPassword cry env salt now username password a = (None, a')"
  obtains d s h where "file_document a = Some d" "salt = Some s" "8 \<le> length password"
    "derivePassword cry password s passwordIterations = Some h" "coherent a'"
    "file_document a' = Some (d\<lparr>cf_Admin :=
       Some \<lparr>pw_Username = (if trim_space username = '''' then adminUserName else trim_space username),
             pw_Salt = hex_encode s, pw_Hash = hex_encode h, pw_Iterations = passwordIterations,
             pw_UpdatedAt = now\<rparr>\<rparr>)"
proof -
  from assms(3) obtain s h where s: "salt = Some s" "\<not> length password < 8"
      "derivePassword cry password s passwordIterations = Some h"
    and m: "AuthStore_mutate env (\<lambda>data. Inr (data\<lparr>cf_Admin :=
       Some \<lparr>pw_Username = (if trim_space username = '''' then adminUserName else trim_space username),
             pw_Salt = hex_encode s, pw_Hash = hex_encode h, pw_Iterations = passwordIterations,
             pw_UpdatedAt = now\<rparr>\<rparr>)) a = (None, a')"
    by (auto simp: SetAdminPassword_def Let_def split: if_splits option.splits)
  from m show thesis
    by (rule AuthStore_mutate_cases [OF assms(1,2)]) (use s that in auto)
qed

lemma issueToken_Inr:
  assumes "coherent a" "undisturbed env" "issueToken cry env draw name agentID a = (Inr (secret, record), a')"
  obtains d raw where "file_document a = Some d" "td_raw draw = Some raw" "secret = b64_encode raw"
    "record = \<lparr>tk_ID = td_id draw, tk_Name = trim_space name, tk_AgentID = agentID,
               tk_Hash = hashToken cry secret, tk_CreatedAt = td_now draw, tk_LastUsed = 0\<rparr>"
    "file_document a' = Some (add_token record agentID d)" "coherent a'"
proof -
  from assms(3) obtain raw where raw: "td_raw draw = Some raw" "secret = b64_encode raw"
      "record = \<lparr>tk_ID = td_id draw, tk_Name = trim_space name, tk_AgentID = agentID,
               tk_Hash = hashToken cry secret, tk_CreatedAt = td_now draw, tk_LastUsed = 0\<rparr>"
    and m: "AuthStore_mutate env (\<lambda>data. Inr (add_token record agentID data)) a = (None, a')"
    by (auto simp: issueToken_def Let_def split: option.splits prod.splits)
  from m show thesis
    by (rule AuthStore_mutate_cases [OF assms(1,2)]) (use raw that in auto)
qed

lemma RevokeAgentToken_None:
  assumes "coherent a" "undisturbed env" "RevokeAgentToken env i a = (None, a')"
  obtains d where "file_document a = Some d" "coherent a'"
    "file_document a' = Some (d\<lparr>cf_AgentTokens := filter (\<lambda>t. tk_AgentID t \<noteq> i) (cf_AgentTokens d)\<rparr>)"
  using assms(3) unfolding RevokeAgentToken_def
  by (rule AuthStore_mutate_cases [OF assms(1,2)]) (use that in \<open>auto split: if_splits\<close>)

lemma RevokeAPIToken_None:
  assumes "coherent a" "undisturbed env" "RevokeAPIToken env i a = (None, a')"
  obtains d where "file_document a = Some d" "coherent a'"
    "file_document a' = Some (d\<lparr>cf_APITokens := filter (\<lambda>t. tk_ID t \<noteq> i) (cf_APITokens d)\<rparr>)"
  using assms(3) unfolding RevokeAPIToken_def
  by (rule AuthStore_mutate_cases [OF assms(1,2)]) (use that in \<open>auto split: if_splits\<close>)

lemma VerifyAgentToken_Some:
  assumes "coherent a" "undisturbed env" "VerifyAgentToken cry env secret a = (Some t, a')"
  obtains d where "file_document a = Some d" "t \<in> set (cf_AgentTokens d)" "tk_Hash t = hashToken cry secret"
proof -
  let ?f = "\<lambda>data. find (\<lambda>token. tk_Hash token = hashToken cry secret) (cf_AgentTokens data)"
  from assms(3) have "AuthStore_read env ?f a = (Inr (Some t), a')"
    by (auto simp: VerifyAgentToken_def split: prod.splits sum.splits)
  then show thesis
    by (rule AuthStore_read_cases [OF assms(1,2)]) (use that in \<open>auto dest: find_Some_mem [OF sym]\<close>)
qed

lemma VerifyAPIToken_Some:
  assumes "coherent a" "undisturbed env" "VerifyAPIToken cry env secret a = (Some t, a')"
  obtains d where "file_document a = Some d" "t \<in> set (cf_APITokens d)" "tk_Hash t = hashToken cry secret"
proof -
  let ?f = "\<lambda>data. find (\<lambda>token. tk_Hash token = hashToken cry secret) (cf_APITokens data)"
  from assms(3) have "AuthStore_read env ?f a = (Inr (Some t), a')"
    by (auto simp: VerifyAPIToken_def split: prod.splits sum.splits)
  then show thesis
    by (rule AuthStore_read_cases [OF assms(1,2)]) (use that in \<open>auto dest: find_Some_mem [OF sym]\<close>)
qed

text \<open>When no call fails and the file is one the reader takes, a read sees the document.\<close>

definition readable :: "cred_env \<Rightarrow> AuthStore \<Rightarrow> bool" where
  "readable env a \<longleftrightarrow> \<not> ce_stat_fails env \<and> \<not> ce_read_fails env
     \<and> (case au_file a of Some (_, st) \<Rightarrow> fs_size st \<le> maxCredentialFileBytes | None \<Rightarrow> True)"

lemma AuthStore_read_readable:
  assumes "coherent a" "undisturbed env" "readable env a" "file_document a = Some d"
  shows "\<exists>a'. AuthStore_read env fn a = (Inr (fn d), a')"
proof -
  have "\<exists>a'. reloadLocked env a = (None, a')"
    using assms(2-4) by (auto simp: reloadLocked_def readable_def file_document_def undisturbed_def Let_def
        split: option.splits prod.splits cred_document.splits)
  then obtain a' where r: "reloadLocked env a = (None, a')" by blast
  with reloadLocked_current [OF assms(1,2) r] assms(4) show ?thesis by (simp add: AuthStore_read_def)
qed

end
