(* ===== verification/Ctrl_Session.thy ===== *)
theory Ctrl_Session
  imports Ctrl_Auth Ctrl_Validate
begin

text \<open>
  Browser sessions and the login limiter, \<^verbatim>\<open>ctrlsession.go\<close>.  Both live in memory only.  Every call of
  \<^verbatim>\<open>time.Now\<close> and \<^verbatim>\<open>rand.Read\<close> is an argument.  Deleting from a map while ranging over it is the
  filter on its entries.  Lemmas: which sessions \<open>Get\<close> can return, and how many failures are on record.
\<close>

section \<open>Sessions\<close>

definition sessionTTL :: int where "sessionTTL = 12 * 3600 * second"
definition loginFailureWindow :: int where "loginFailureWindow = 5 * 60 * second"
definition loginFailureLimit :: int where "loginFailureLimit = 5"

record Session =
  se_ID :: string
  se_User :: string
  se_CSRF :: string
  se_Created :: time
  se_Expires :: time

record SessionStore =
  ss_sessions :: "Session gomap"
  ss_ttl :: int

definition newSessionStore :: "int \<Rightarrow> SessionStore" where
  "newSessionStore ttl = \<lparr>ss_sessions = [], ss_ttl = (if ttl \<le> 0 then sessionTTL else ttl)\<rparr>"

definition randomToken :: "string option \<Rightarrow> string option" where
  "randomToken raw = map_option b64_encode raw"

definition sweepLocked :: "time \<Rightarrow> SessionStore \<Rightarrow> SessionStore" where
  "sweepLocked now s = s\<lparr>ss_sessions := filter (\<lambda>(_, session). \<not> now > se_Expires session) (ss_sessions s)\<rparr>"

text \<open>The draws of a new session: identifier, CSRF token, the clock, and the clock of the sweep.\<close>

record session_draw =
  sd_id :: "string option"
  sd_csrf :: "string option"
  sd_now :: time
  sd_sweep :: time

definition Session_Create :: "session_draw \<Rightarrow> string \<Rightarrow> SessionStore \<Rightarrow> Session option \<times> SessionStore" where
  "Session_Create draw user s =
     (case randomToken (sd_id draw) of
        None \<Rightarrow> (None, s)
      | Some i \<Rightarrow>
          (case randomToken (sd_csrf draw) of
             None \<Rightarrow> (None, s)
           | Some csrf \<Rightarrow>
               let session = \<lparr>se_ID = i, se_User = user, se_CSRF = csrf, se_Created = sd_now draw,
                              se_Expires = sd_now draw + ss_ttl s\<rparr>;
                   s = sweepLocked (sd_sweep draw) s
               in (Some session, s\<lparr>ss_sessions := AList.update i session (ss_sessions s)\<rparr>)))"

definition Session_Get :: "time \<Rightarrow> string \<Rightarrow> SessionStore \<Rightarrow> Session option \<times> SessionStore" where
  "Session_Get now i s =
     (if i = '''' then (None, s)
      else case map_of (ss_sessions s) i of
        None \<Rightarrow> (None, s)
      | Some session \<Rightarrow>
          if now > se_Expires session then (None, s\<lparr>ss_sessions := AList.delete i (ss_sessions s)\<rparr>)
          else (Some session, s))"

definition Session_Delete :: "string \<Rightarrow> SessionStore \<Rightarrow> SessionStore" where
  "Session_Delete i s = s\<lparr>ss_sessions := AList.delete i (ss_sessions s)\<rparr>"

definition DeleteBefore :: "time \<Rightarrow> SessionStore \<Rightarrow> SessionStore" where
  "DeleteBefore cutoff s =
     s\<lparr>ss_sessions := filter (\<lambda>(_, session). \<not> se_Created session < cutoff) (ss_sessions s)\<rparr>"

section \<open>Login limiter\<close>

record loginLimiter =
  ll_failures :: "time list gomap"
  ll_window :: int
  ll_limit :: int

definition newLoginLimiter :: "int \<Rightarrow> int \<Rightarrow> loginLimiter" where
  "newLoginLimiter window limit =
     \<lparr>ll_failures = [], ll_window = (if window \<le> 0 then loginFailureWindow else window),
      ll_limit = (if limit \<le> 0 then loginFailureLimit else limit)\<rparr>"

definition failures_of :: "loginLimiter \<Rightarrow> string \<Rightarrow> time list" where
  "failures_of l key = (case map_of (ll_failures l) key of None \<Rightarrow> [] | Some ats \<Rightarrow> ats)"

definition recentLocked :: "time \<Rightarrow> string \<Rightarrow> loginLimiter \<Rightarrow> time list \<times> loginLimiter" where
  "recentLocked now key l =
     (let cutoff = now - ll_window l;
          kept = filter (\<lambda>at. at > cutoff) (failures_of l key)
      in if kept = [] then (kept, l\<lparr>ll_failures := AList.delete key (ll_failures l)\<rparr>)
         else (kept, l\<lparr>ll_failures := AList.update key kept (ll_failures l)\<rparr>))"

definition Allowed :: "time \<Rightarrow> string \<Rightarrow> loginLimiter \<Rightarrow> bool \<times> loginLimiter" where
  "Allowed now key l = (case recentLocked now key l of (recent, l') \<Rightarrow> (int (length recent) < ll_limit l', l'))"

text \<open>\<open>now\<close> is the clock of \<^verbatim>\<open>recentLocked\<close>, \<open>at\<close> the recorded time of the failure.\<close>

definition Fail :: "time \<Rightarrow> time \<Rightarrow> string \<Rightarrow> loginLimiter \<Rightarrow> bool \<times> loginLimiter" where
  "Fail now at key l =
     (case recentLocked now key l of
        (kept, l') \<Rightarrow>
          let recent = kept @ [at]
          in (int (length recent) \<ge> ll_limit l', l'\<lparr>ll_failures := AList.update key recent (ll_failures l')\<rparr>))"

definition Reset :: "string \<Rightarrow> loginLimiter \<Rightarrow> loginLimiter" where
  "Reset key l = l\<lparr>ll_failures := AList.delete key (ll_failures l)\<rparr>"

section \<open>Which sessions are live\<close>

lemma Session_Get_Some:
  assumes "Session_Get now i s = (Some se, s')"
  shows "map_of (ss_sessions s) i = Some se \<and> now \<le> se_Expires se \<and> i \<noteq> '''' \<and> s' = s"
  using assms by (auto simp: Session_Get_def split: if_splits option.splits)

lemma Session_Get_set: "set (ss_sessions (snd (Session_Get now i s))) \<subseteq> set (ss_sessions s)"
  by (auto simp: Session_Get_def AList.delete_eq split: option.splits)

lemma Session_Create_Some:
  assumes "Session_Create draw user s = (Some se, s')"
  shows "se_User se = user \<and> se_Created se = sd_now draw \<and> se_Expires se = sd_now draw + ss_ttl s
    \<and> map_of (ss_sessions s') (se_ID se) = Some se \<and> ss_ttl s' = ss_ttl s
    \<and> set (ss_sessions s') \<subseteq> insert (se_ID se, se) (set (ss_sessions s))"
proof -
  have sub: "set (AList.update i v xs) \<subseteq> insert (i, v) (set xs)" for i and v :: Session and xs
    by (induction xs) auto
  from assms show ?thesis
    by (auto simp: Session_Create_def Let_def sweepLocked_def update_conv split: option.splits dest!: subsetD [OF sub])
qed

lemma ttl_simps [simp]:
  "ss_ttl (snd (Session_Get now i s)) = ss_ttl s" "ss_ttl (Session_Delete i s) = ss_ttl s"
  "ss_ttl (DeleteBefore cutoff s) = ss_ttl s" "ss_ttl (sweepLocked now s) = ss_ttl s"
  by (simp_all add: Session_Get_def Session_Delete_def DeleteBefore_def sweepLocked_def split: option.splits)

lemma Session_Create_None: "Session_Create draw user s = (None, s') \<Longrightarrow> s' = s"
  by (auto simp: Session_Create_def Let_def split: option.splits)

lemma Session_Delete_set: "set (ss_sessions (Session_Delete i s)) = {(j, se) \<in> set (ss_sessions s). j \<noteq> i}"
  by (auto simp: Session_Delete_def AList.delete_eq)

lemma DeleteBefore_set: "set (ss_sessions (DeleteBefore cutoff s)) = {(j, se) \<in> set (ss_sessions s). cutoff \<le> se_Created se}"
  by (auto simp: DeleteBefore_def)

section \<open>How many failures are on record\<close>

lemma failures_of_update [simp]:
  "failures_of (l\<lparr>ll_failures := AList.update key v (ll_failures l)\<rparr>) key' = (if key' = key then v else failures_of l key')"
  by (simp add: failures_of_def update_conv)

lemma failures_of_delete [simp]:
  "failures_of (l\<lparr>ll_failures := AList.delete key (ll_failures l)\<rparr>) key' = (if key' = key then [] else failures_of l key')"
  by (simp add: failures_of_def delete_conv')

lemma recentLocked_result:
  "recentLocked now key l = (r, l') \<Longrightarrow>
     r = filter (\<lambda>at. at > now - ll_window l) (failures_of l key)
     \<and> failures_of l' key' = (if key' = key then r else failures_of l key')
     \<and> ll_window l' = ll_window l \<and> ll_limit l' = ll_limit l"
  by (auto simp: recentLocked_def Let_def split: if_splits)

lemma Allowed_result:
  "Allowed now key l = (ok, l') \<Longrightarrow>
     (ok \<longleftrightarrow> int (length (filter (\<lambda>at. at > now - ll_window l) (failures_of l key))) < ll_limit l)
     \<and> failures_of l' key' = (if key' = key then filter (\<lambda>at. at > now - ll_window l) (failures_of l key)
                              else failures_of l key')
     \<and> ll_window l' = ll_window l \<and> ll_limit l' = ll_limit l"
  using recentLocked_result [of now key l _ _ key'] by (fastforce simp: Allowed_def split: prod.splits)

lemma Fail_result:
  assumes "Fail now at key l = (blocked, l')"
  shows "failures_of l' key' = (if key' = key then filter (\<lambda>t. t > now - ll_window l) (failures_of l key) @ [at]
                                else failures_of l key')
    \<and> ll_window l' = ll_window l \<and> ll_limit l' = ll_limit l
    \<and> (blocked \<longleftrightarrow> ll_limit l \<le> int (length (failures_of l' key)))"
proof -
  obtain r l1 where r: "recentLocked now key l = (r, l1)" by (cases "recentLocked now key l")
  with assms recentLocked_result [OF r, of key] recentLocked_result [OF r, of key'] show ?thesis by (auto simp: Fail_def Let_def)
qed

lemma Reset_failures [simp]: "failures_of (Reset key l) key' = (if key' = key then [] else failures_of l key')"
  by (simp add: Reset_def)

lemma Reset_simps [simp]: "ll_window (Reset key l) = ll_window l" "ll_limit (Reset key l) = ll_limit l"
  by (simp_all add: Reset_def)

end
