(* ===== verification/Ctrl_Config.thy ===== *)
theory Ctrl_Config
  imports Ctrl_Session Ctrl_Ops
begin

text \<open>
  Loading, reloading and editing the controller's configuration file: \<^verbatim>\<open>loadControllerConfig\<close> and its
  helpers of \<^verbatim>\<open>ctrlconfig.go\<close> and \<^verbatim>\<open>rolecfg.go\<close>, and \<^verbatim>\<open>openController\<close>, \<^verbatim>\<open>applyConfig\<close>,
  \<^verbatim>\<open>reloadConfigIfChanged\<close>, \<^verbatim>\<open>replaceConfig\<close> and \<^verbatim>\<open>editConfig\<close> of \<^verbatim>\<open>controller.go\<close>.  The package
  \<^verbatim>\<open>yaml.v3\<close> is not part of the repository: its two directions are arguments (\<open>yaml\<close>) over a type of
  documents.  The file with its stamp is passed along with the controller.  Failing calls and what other
  processes do to the file between the calls of one operation are arguments (\<open>cfg_env\<close>).
\<close>

section \<open>Documents\<close>

definition RoleController :: string where "RoleController = ''controller''"
definition RoleAgent :: string where "RoleAgent = ''agent''"
definition RoleStandalone :: string where "RoleStandalone = ''standalone''"

datatype config_error =
    ErrConfigChanged | ErrConfigNotExist | ErrConfigIO | ErrConfigYaml
  | ErrUnknownRole string | ErrWrongRole string | ErrConfigInvalid val_error | ErrConfigStore ctrl_error
  | ErrConfigAuth auth_error | ErrJobUnknown | ErrCatalogUnknown | ErrAgentUnknown
  | ErrAlreadyExists string | ErrCatalogInUse string string string

text \<open>What the sources use of \<^verbatim>\<open>yaml.v3\<close>: the \<^verbatim>\<open>role\<close> field of a document, decoding and encoding a
  configuration; \<open>None\<close> is an error.\<close>

record 'd yaml =
  ya_role :: "'d \<Rightarrow> string option"
  ya_unmarshal :: "'d \<Rightarrow> ControllerConfig option"
  ya_marshal :: "ControllerConfig \<Rightarrow> 'd option"

definition detectConfigRole :: "'d yaml \<Rightarrow> 'd \<Rightarrow> config_error + string" where
  "detectConfigRole y data =
     (case ya_role y data of
        None \<Rightarrow> Inl ErrConfigYaml
      | Some header \<Rightarrow>
          let role = to_lower (trim_space header) in
          if role = RoleController \<or> role = RoleAgent then Inr role
          else if role = '''' then Inr RoleStandalone
          else Inl (ErrUnknownRole role))"

definition requireConfigRole :: "'d yaml \<Rightarrow> 'd \<Rightarrow> string \<Rightarrow> config_error option" where
  "requireConfigRole y data want =
     (case detectConfigRole y data of
        Inl err \<Rightarrow> Some err
      | Inr role \<Rightarrow> if role \<noteq> want then Some (ErrWrongRole role) else None)"

definition parseControllerConfig ::
    "(string \<Rightarrow> int option) \<Rightarrow> 'd yaml \<Rightarrow> 'd \<Rightarrow> config_error + ControllerConfig" where
  "parseControllerConfig parse y data =
     (case ya_unmarshal y data of
        None \<Rightarrow> Inl ErrConfigYaml
      | Some cfg \<Rightarrow>
          (case validateControllerConfig parse (cfg\<lparr>cfg_Role := RoleController\<rparr>) of
             Inl err \<Rightarrow> Inl (ErrConfigInvalid err)
           | Inr cfg \<Rightarrow> Inr cfg))"

definition marshalControllerConfig :: "'d yaml \<Rightarrow> ControllerConfig \<Rightarrow> 'd option" where
  "marshalControllerConfig y cfg = ya_marshal y (cfg\<lparr>cfg_Role := RoleController\<rparr>)"

type_synonym 'd cfg_file = "('d \<times> fileStamp) option"

definition loadControllerConfig ::
    "(string \<Rightarrow> int option) \<Rightarrow> 'd yaml \<Rightarrow> bool \<Rightarrow> 'd cfg_file \<Rightarrow> config_error + ControllerConfig" where
  "loadControllerConfig parse y read_fails f =
     (if read_fails then Inl ErrConfigIO
      else case f of
        None \<Rightarrow> Inl ErrConfigNotExist
      | Some (data, _) \<Rightarrow>
          (case requireConfigRole y data RoleController of
             Some err \<Rightarrow> Inl err
           | None \<Rightarrow> parseControllerConfig parse y data))"

section \<open>Opening a controller\<close>

definition defaultListenAddress :: string where "defaultListenAddress = '':28088''"

definition normalizeListenAddresses :: "string list \<Rightarrow> string list" where
  "normalizeListenAddresses addresses =
     (let addrs = address_loop [] addresses in if addrs = [] then [defaultListenAddress] else addrs)"

record open_env =
  oe_mkdir_fails :: bool
  oe_logdir_fails :: bool
  oe_disk :: "controllerStateData option"
  oe_state :: "controllerStateData read_result"
  oe_logs :: "string gomap"
  oe_cred :: cred_env
  oe_cred_file :: cred_file
  oe_stat_fails :: bool

definition openController ::
    "(string \<Rightarrow> int option) \<Rightarrow> open_env \<Rightarrow> string \<Rightarrow> ControllerConfig \<Rightarrow> string list \<Rightarrow> bool \<Rightarrow> 'd cfg_file
      \<Rightarrow> config_error + Controller \<times> AuthStore" where
  "openController parse env configPath cfg listenOverride create f =
     (case controllerRuntime parse configPath cfg of
        Inl err \<Rightarrow> Inl (ErrConfigInvalid err)
      | Inr runtime0 \<Rightarrow>
          let runtime = (if listenOverride \<noteq> []
                         then runtime0\<lparr>rt_ListenAddresses := normalizeListenAddresses listenOverride\<rparr> else runtime0)
          in if create \<and> oe_mkdir_fails env then Inl ErrConfigIO
             else case openControllerStore (oe_logdir_fails env) (rt_LogDir runtime) (rt_MaxHistory runtime) create
                         (oe_disk env) (oe_state env) (oe_logs env) of
               Inl err \<Rightarrow> Inl (ErrConfigStore err)
             | Inr store \<Rightarrow>
                 (case newAuthStore (oe_cred env) (oe_cred_file env) of
                    Inl err \<Rightarrow> Inl (ErrConfigAuth err)
                  | Inr auth \<Rightarrow>
                      Inr (\<lparr>c_cfg = cfg, c_runtime = runtime,
                            c_configStamp = (if oe_stat_fails env then zero_stamp
                                             else case f of None \<Rightarrow> zero_stamp | Some (_, stamp) \<Rightarrow> stamp),
                            c_store = store, c_live = []\<rparr>, auth)))"

definition newController ::
    "(string \<Rightarrow> int option) \<Rightarrow> open_env \<Rightarrow> string \<Rightarrow> ControllerConfig \<Rightarrow> string list \<Rightarrow> 'd cfg_file
      \<Rightarrow> config_error + Controller \<times> AuthStore" where
  "newController parse env configPath cfg listenOverride f =
     openController parse env configPath cfg listenOverride True f"

definition newReadOnlyController ::
    "(string \<Rightarrow> int option) \<Rightarrow> open_env \<Rightarrow> string \<Rightarrow> ControllerConfig \<Rightarrow> 'd cfg_file
      \<Rightarrow> config_error + Controller \<times> AuthStore" where
  "newReadOnlyController parse env configPath cfg f = openController parse env configPath cfg [] False f"

section \<open>Reloading\<close>

record 'd cfg_env =
  cg_parse :: "string \<Rightarrow> int option"
  cg_yaml :: "'d yaml"
  cg_stat_fails :: bool
  cg_during_read :: "'d cfg_file \<Rightarrow> 'd cfg_file"
  cg_read_fails :: bool
  cg_reload_io :: io_env
  cg_state_missing :: bool
  cg_before_guard :: "'d cfg_file \<Rightarrow> 'd cfg_file"
  cg_guard_fails :: bool
  cg_before_write :: "'d cfg_file \<Rightarrow> 'd cfg_file"
  cg_io :: io_env
  cg_stamp :: fileStamp
  cg_before_stat :: "'d cfg_file \<Rightarrow> 'd cfg_file"
  cg_restat_fails :: bool
  cg_apply_io :: io_env

definition applyConfig ::
    "(string \<Rightarrow> int option) \<Rightarrow> io_env \<Rightarrow> ControllerConfig \<Rightarrow> fileStamp \<Rightarrow> Controller
      \<Rightarrow> config_error option \<times> Controller" where
  "applyConfig parse io cfg stamp c =
     (case controllerRuntime parse (rt_ConfigPath (c_runtime c)) cfg of
        Inl err \<Rightarrow> (Some (ErrConfigInvalid err), c)
      | Inr runtime \<Rightarrow>
          let runtime = runtime\<lparr>rt_ListenAddresses := rt_ListenAddresses (c_runtime c)\<rparr>;
              c = c\<lparr>c_cfg := cfg, c_runtime := runtime, c_configStamp := stamp\<rparr>
          in case SetMaxHistory io (rt_MaxHistory runtime) (c_store c) of
               (err, s) \<Rightarrow> (map_option ErrConfigStore err, c\<lparr>c_store := s\<rparr>))"

definition reloadConfigIfChanged ::
    "'d cfg_env \<Rightarrow> Controller \<Rightarrow> 'd cfg_file \<Rightarrow> config_error option \<times> Controller \<times> 'd cfg_file" where
  "reloadConfigIfChanged env c f =
     (if trim_space (rt_ConfigPath (c_runtime c)) = '''' then (None, c, f)
      else if cg_stat_fails env then (Some ErrConfigIO, c, f)
      else case f of
        None \<Rightarrow> (Some ErrConfigNotExist, c, f)
      | Some (_, stamp) \<Rightarrow>
          if stamp = c_configStamp c then (None, c, f)
          else
            let f = cg_during_read env f in
            case loadControllerConfig (cg_parse env) (cg_yaml env) (cg_read_fails env) f of
              Inl err \<Rightarrow> (Some err, c, f)
            | Inr cfg \<Rightarrow>
                (case applyConfig (cg_parse env) (cg_reload_io env) cfg stamp c of
                   (err, c') \<Rightarrow> (err, c', f)))"

section \<open>Editing\<close>

definition replaceConfig ::
    "'d cfg_env \<Rightarrow> ControllerConfig \<Rightarrow> fileStamp \<Rightarrow> bool \<Rightarrow> Controller \<Rightarrow> 'd cfg_file
      \<Rightarrow> config_error option \<times> Controller \<times> 'd cfg_file" where
  "replaceConfig env cfg guard enforceGuard c f =
     (let f = cg_before_guard env f;
          changed = (case f of
                       None \<Rightarrow> False
                     | Some (_, onDisk) \<Rightarrow> onDisk \<noteq> c_configStamp c \<or> onDisk \<noteq> guard)
      in if enforceGuard \<and> cg_guard_fails env then (Some ErrConfigIO, c, f)
         else if enforceGuard \<and> changed then (Some ErrConfigChanged, c, f)
         else case marshalControllerConfig (cg_yaml env) cfg of
           None \<Rightarrow> (Some ErrConfigYaml, c, f)
         | Some data \<Rightarrow>
             (case parseControllerConfig (cg_parse env) (cg_yaml env) data of
                Inl err \<Rightarrow> (Some err, c, f)
              | Inr normalized \<Rightarrow>
                  (case marshalControllerConfig (cg_yaml env) normalized of
                     None \<Rightarrow> (Some ErrConfigYaml, c, f)
                   | Some data \<Rightarrow>
                       (case writeFileAtomicSync (cg_io env) (data, cg_stamp env) (cg_before_write env f) of
                          (False, f) \<Rightarrow> (Some ErrConfigIO, c, f)
                        | (True, f) \<Rightarrow>
                            let f = cg_before_stat env f;
                                stamp = (if cg_restat_fails env then zero_stamp
                                         else case f of None \<Rightarrow> zero_stamp | Some (_, st) \<Rightarrow> st)
                            in case applyConfig (cg_parse env) (cg_apply_io env) normalized stamp c of
                                 (err, c') \<Rightarrow> (err, c', f)))))"

text \<open>Whether \<^verbatim>\<open>errors.Is(err, os.ErrNotExist)\<close> holds of the error of a reload: the configuration file
  does not exist, or the store could not write because its directory does not exist
  (\<open>cg_state_missing\<close>).\<close>

definition is_not_exist :: "'d cfg_env \<Rightarrow> config_error \<Rightarrow> bool" where
  "is_not_exist env err \<longleftrightarrow>
     err = ErrConfigNotExist \<or> err = ErrConfigStore ErrPersist \<and> cg_state_missing env"

text \<open>\<^verbatim>\<open>cloneControllerConfig\<close> copies every field and sets the role.\<close>

definition cloneControllerConfig :: "ControllerConfig \<Rightarrow> ControllerConfig" where
  "cloneControllerConfig cfg = cfg\<lparr>cfg_Role := RoleController\<rparr>"

definition editConfig ::
    "'d cfg_env \<Rightarrow> (ControllerConfig \<Rightarrow> config_error + ControllerConfig) \<Rightarrow> Controller \<Rightarrow> 'd cfg_file
      \<Rightarrow> config_error option \<times> Controller \<times> 'd cfg_file" where
  "editConfig env fn c0 f0 =
     (case reloadConfigIfChanged env c0 f0 of
        (err, c, f) \<Rightarrow>
          if err \<noteq> None \<and> \<not> is_not_exist env (the err) then (err, c, f)
          else case fn (cloneControllerConfig (c_cfg c)) of
            Inl err \<Rightarrow> (Some err, c, f)
          | Inr next \<Rightarrow> replaceConfig env next (c_configStamp c) True c f)"

end
