(* ===== verification/Ctrl_Views.thy ===== *)
theory Ctrl_Views
  imports Ctrl_Config
begin

text \<open>
  What the controller shows and how it reads a request: the views of jobs, catalogs, agents and the queue
  (\<^verbatim>\<open>api_jobs.go\<close>, \<^verbatim>\<open>api_catalogs.go\<close>, \<^verbatim>\<open>api_agents.go\<close>, \<^verbatim>\<open>api_queue.go\<close>), the filter and the pages of
  the run history, and the bounded window of a log (\<^verbatim>\<open>api_runs.go\<close>).  All of it is pure; the query of a
  request is its decoded parameters.
\<close>

section \<open>Numbers and letter case\<close>

text \<open>\<^verbatim>\<open>strconv.ParseInt(s, 10, 64)\<close>, and \<^verbatim>\<open>strconv.Atoi\<close> on a 64-bit machine: an optional sign and
  decimal digits, within the range of \<^verbatim>\<open>int64\<close>.\<close>

definition digit_value :: "char \<Rightarrow> nat option" where
  "digit_value c = (let n = of_char c :: nat in if 48 \<le> n \<and> n \<le> 57 then Some (n - 48) else None)"

fun digits_value :: "nat \<Rightarrow> string \<Rightarrow> nat option" where
  "digits_value acc [] = Some acc"
| "digits_value acc (c # cs) =
     (case digit_value c of None \<Rightarrow> None | Some d \<Rightarrow> digits_value (10 * acc + d) cs)"

definition parse_int64 :: "string \<Rightarrow> int option" where
  "parse_int64 s =
     (let negative = has_prefix s ''-'';
          digits = (if negative \<or> has_prefix s ''+'' then tl s else s)
      in if digits = '''' then None
         else case digits_value 0 digits of
           None \<Rightarrow> None
         | Some n \<Rightarrow> let i = (if negative then - int n else int n) in if int64 i then Some i else None)"

text \<open>\<^verbatim>\<open>strings.ToUpper\<close>: the ASCII letters, and the two letters outside ASCII whose upper case is an
  ASCII letter (U+0131 and U+017F).  The result is compared with ASCII words only.\<close>

definition upper_char :: "char \<Rightarrow> char" where
  "upper_char c = (if CHR ''a'' \<le> c \<and> c \<le> CHR ''z'' then char_of (of_char c - 32 :: nat) else c)"

fun to_upper :: "string \<Rightarrow> string" where
  "to_upper (a # b # s) =
     (if [a, b] = [CHR 0xC4, CHR 0xB1] then CHR ''I'' # to_upper s
      else if [a, b] = [CHR 0xC5, CHR 0xBF] then CHR ''S'' # to_upper s
      else upper_char a # to_upper (b # s))"
| "to_upper [a] = [upper_char a]"
| "to_upper [] = []"

section \<open>Agents\<close>

record agentSummary =
  sum_ID :: string
  sum_Name :: string
  sum_Description :: string
  sum_Labels :: "string list"
  sum_Enabled :: bool
  sum_Paused :: bool
  sum_Online :: bool
  sum_Busy :: bool
  sum_Blocked :: bool
  sum_BlockedReason :: string
  sum_CurrentExecutionID :: string
  sum_CurrentStatus :: string
  sum_LastSeen :: time
  sum_LastAssignedAt :: time
  sum_Version :: string
  sum_Enrolled :: bool

definition newAgentSummary :: "agentView \<Rightarrow> agentSummary" where
  "newAgentSummary view =
     \<lparr>sum_ID = agd_ID (av_Definition view), sum_Name = agd_Name (av_Definition view),
      sum_Description = agd_Description (av_Definition view), sum_Labels = agd_Labels (av_Definition view),
      sum_Enabled = AgentDefinition_IsEnabled (av_Definition view), sum_Paused = agd_Paused (av_Definition view),
      sum_Online = av_Online view, sum_Busy = av_Busy view, sum_Blocked = av_Blocked view,
      sum_BlockedReason = av_BlockedReason view, sum_CurrentExecutionID = av_CurrentExecutionID view,
      sum_CurrentStatus = av_CurrentStatus view, sum_LastSeen = av_LastSeen view,
      sum_LastAssignedAt = av_LastAssignedAt view, sum_Version = av_Version view, sum_Enrolled = False\<rparr>"

text \<open>The loop of \<^verbatim>\<open>agentSummaries\<close>; each summary asks the credential store whether the agent is
  enrolled, with its own circumstances.\<close>

fun summary_loop :: "(nat \<Rightarrow> cred_env) \<Rightarrow> nat \<Rightarrow> agentView list \<Rightarrow> AuthStore \<Rightarrow> agentSummary list \<times> AuthStore" where
  "summary_loop envs i [] a = ([], a)"
| "summary_loop envs i (view # views) a =
     (let summary = newAgentSummary view in
      case HasAgentToken (envs i) (sum_ID summary) a of
        (enrolled, a) \<Rightarrow>
          (case summary_loop envs (Suc i) views a of
             (rest, a) \<Rightarrow> (summary\<lparr>sum_Enrolled := enrolled\<rparr> # rest, a)))"

definition agentSummaries :: "(nat \<Rightarrow> cred_env) \<Rightarrow> time \<Rightarrow> Controller \<Rightarrow> AuthStore \<Rightarrow> agentSummary list \<times> AuthStore" where
  "agentSummaries envs now c a = summary_loop envs 0 (AgentViews now c) a"

section \<open>Jobs and catalogs\<close>

record parameterView =
  pv_Parameter :: ParameterConfig
  pv_Options :: "OptionConfig list"

record jobView =
  jv_Job :: JobConfig
  jv_Enabled :: bool
  jv_Parameters :: "parameterView list"
  jv_EligibleAgents :: "agentSummary list"
  jv_Runnable :: bool

definition buildJobView :: "ControllerConfig \<Rightarrow> JobConfig \<Rightarrow> agentView list \<Rightarrow> jobView" where
  "buildJobView cfg job views =
     (let eligible = EligibleAgents views (job_Labels job)
      in \<lparr>jv_Job = job\<lparr>job_Parameters := []\<rparr>, jv_Enabled = JobConfig_IsEnabled job,
          jv_Parameters = map (\<lambda>param. \<lparr>pv_Parameter = param, pv_Options = parameterOptions cfg param\<rparr>) (job_Parameters job),
          jv_EligibleAgents = map newAgentSummary eligible, jv_Runnable = list_ex schedulable eligible\<rparr>)"

definition jobViews :: "ControllerConfig \<Rightarrow> agentView list \<Rightarrow> jobView list" where
  "jobViews cfg views = map (\<lambda>job. buildJobView cfg job views) (cfg_Jobs cfg)"

record catalogUsage =
  cu_JobID :: string
  cu_JobName :: string
  cu_Parameter :: string
  cu_Labels :: "string list"
  cu_Matches :: nat

record catalogView =
  cv_Catalog :: CatalogConfig
  cv_UsedBy :: "catalogUsage list"

definition buildCatalogView :: "ControllerConfig \<Rightarrow> CatalogConfig \<Rightarrow> catalogView" where
  "buildCatalogView cfg catalog =
     \<lparr>cv_Catalog = catalog,
      cv_UsedBy = concat (map (\<lambda>job.
        map (\<lambda>param. \<lparr>cu_JobID = job_ID job, cu_JobName = job_Name job, cu_Parameter = par_ID param,
                      cu_Labels = par_CatalogLabels param,
                      cu_Matches = length (filterCatalogOptions (cat_Options catalog) (par_CatalogLabels param))\<rparr>)
            (filter (\<lambda>param. par_Catalog param = cat_ID catalog) (job_Parameters job))) (cfg_Jobs cfg))\<rparr>"

section \<open>Queue\<close>

record queueEntry =
  qe_Position :: nat
  qe_Run :: Execution
  qe_Reason :: string
  qe_EligibleAgents :: "string list"
  qe_Parameters :: "string gomap"

definition queue_entry :: "agentView list \<Rightarrow> nat \<Rightarrow> Execution \<Rightarrow> queueEntry" where
  "queue_entry views index execution =
     \<lparr>qe_Position = index + 1, qe_Run = execution, qe_Reason = queueReason views (ex_Labels execution),
      qe_EligibleAgents = map (\<lambda>view. agd_ID (av_Definition view)) (EligibleAgents views (ex_Labels execution)),
      qe_Parameters = ex_Parameters execution\<rparr>"

definition queue_entries :: "agentView list \<Rightarrow> ControllerStore \<Rightarrow> queueEntry list" where
  "queue_entries views s =
     (let queued = QueuedExecutions s in map2 (queue_entry views) [0..<length queued] queued)"

definition active_executions :: "ControllerStore \<Rightarrow> Execution list" where
  "active_executions s = filter (\<lambda>execution. isExecutionActive (ex_Status execution)) (Executions s)"

section \<open>History\<close>

definition defaultRunPageSize :: int where "defaultRunPageSize = 100"
definition maxRunPageSize :: int where "maxRunPageSize = 1000"
definition defaultLogLimit :: int where "defaultLogLimit = 2097152"
definition maxLogLimit :: int where "maxLogLimit = 8388608"

record runFilter =
  rf_JobID :: string
  rf_Project :: string
  rf_AgentID :: string
  rf_Status :: string
  rf_Limit :: int
  rf_Offset :: int

definition status_filters :: "string list" where
  "status_filters = ['''', StatusQueued, StatusAssigned, StatusRunning, StatusCanceling, StatusSuccess,
     StatusFailed, StatusCanceled, StatusAborted, ''ACTIVE'', ''TERMINAL'']"

text \<open>\<^verbatim>\<open>parseRunFilter\<close>: the message of the error, or the filter.\<close>

definition parseRunFilter :: "url_values \<Rightarrow> string + runFilter" where
  "parseRunFilter query =
     (let rawLimit = trim_space (values_Get query ''limit'');
          rawOffset = trim_space (values_Get query ''offset'');
          status = to_upper (trim_space (values_Get query ''status''));
          limit = (if rawLimit = '''' then Some defaultRunPageSize
                   else case parse_int64 rawLimit of
                     None \<Rightarrow> None
                   | Some n \<Rightarrow> if n \<le> 0 then None else Some (if n > maxRunPageSize then maxRunPageSize else n));
          offset = (if rawOffset = '''' then Some 0
                    else case parse_int64 rawOffset of None \<Rightarrow> None | Some n \<Rightarrow> if n < 0 then None else Some n)
      in case limit of
           None \<Rightarrow> Inl ''limit must be a positive integer''
         | Some limit \<Rightarrow>
             (case offset of
                None \<Rightarrow> Inl ''offset must be zero or greater''
              | Some offset \<Rightarrow>
                  if status \<notin> set status_filters then Inl (''unknown status filter '' @ status)
                  else Inr \<lparr>rf_JobID = trim_space (values_Get query ''job''),
                            rf_Project = trim_space (values_Get query ''project''),
                            rf_AgentID = trim_space (values_Get query ''agent''), rf_Status = status,
                            rf_Limit = limit, rf_Offset = offset\<rparr>))"

definition runFilter_matches :: "runFilter \<Rightarrow> Execution \<Rightarrow> bool" where
  "runFilter_matches f execution \<longleftrightarrow>
     \<not> (rf_JobID f \<noteq> '''' \<and> ex_JobID execution \<noteq> rf_JobID f)
     \<and> \<not> (rf_AgentID f \<noteq> '''' \<and> ex_AgentID execution \<noteq> rf_AgentID f)
     \<and> \<not> (rf_Project f \<noteq> '''' \<and>
           (case map_of (ex_Parameters execution) ''project'' of Some p \<Rightarrow> p | None \<Rightarrow> '''') \<noteq> rf_Project f)
     \<and> (if rf_Status f = '''' then True
        else if rf_Status f = ''ACTIVE'' then \<not> isExecutionTerminal (ex_Status execution)
        else if rf_Status f = ''TERMINAL'' then isExecutionTerminal (ex_Status execution)
        else ex_Status execution = rf_Status f)"

text \<open>The page of \<^verbatim>\<open>handleListRuns\<close>: the runs from the offset on, at most a page of them, and the total.\<close>

definition run_page :: "runFilter \<Rightarrow> Execution list \<Rightarrow> Execution list \<times> int" where
  "run_page f all =
     (let matched = filter (runFilter_matches f) all;
          total = int (length matched);
          start = (if rf_Offset f > total then total else rf_Offset f);
          stop = start + rf_Limit f;
          stop = (if stop > total then total else stop)
      in (take (nat stop - nat start) (drop (nat start) matched), total))"

section \<open>Log windows\<close>

definition logRange :: "url_values \<Rightarrow> string + int \<times> int" where
  "logRange query =
     (let rawOffset = trim_space (values_Get query ''offset'');
          rawLimit = trim_space (values_Get query ''limit'');
          offset = (if rawOffset = '''' then Some 0
                    else case parse_int64 rawOffset of None \<Rightarrow> None | Some n \<Rightarrow> if n < 0 then None else Some n);
          limit = (if rawLimit = '''' then Some defaultLogLimit
                   else case parse_int64 rawLimit of
                     None \<Rightarrow> None
                   | Some n \<Rightarrow> if n \<le> 0 then None else Some (if n > maxLogLimit then maxLogLimit else n))
      in case offset of
           None \<Rightarrow> Inl ''offset must be zero or greater''
         | Some offset \<Rightarrow>
             (case limit of
                None \<Rightarrow> Inl ''limit must be a positive integer''
              | Some limit \<Rightarrow> Inr (offset, limit)))"

text \<open>How the system calls of a log read end; \<open>lr_short\<close> is a \<^verbatim>\<open>ReadAt\<close> that fails after that many
  bytes.\<close>

record log_read =
  lr_open_fails :: bool
  lr_stat_fails :: bool
  lr_short :: "nat option"

definition readExecutionLogRange ::
    "log_read \<Rightarrow> string gomap \<Rightarrow> string \<Rightarrow> string \<Rightarrow> int \<Rightarrow> int \<Rightarrow> string \<times> int \<times> bool" where
  "readExecutionLogRange io logs logDir i offset limit =
     (case map_of logs (executionLogPath logDir i) of
        None \<Rightarrow> ('''', 0, \<not> lr_open_fails io)
      | Some bytes \<Rightarrow>
          if lr_open_fails io \<or> lr_stat_fails io then ('''', 0, False)
          else if offset \<ge> int (length bytes) then ('''', int (length bytes), True)
          else
            let size = int (length bytes) - offset;
                size = (if size > limit then limit else size);
                buf = take (nat size) (drop (nat offset) bytes);
                got = (case lr_short io of None \<Rightarrow> buf | Some n \<Rightarrow> take n buf)
            in if lr_short io \<noteq> None \<and> got = '''' then ('''', offset, False)
               else (got, offset + int (length got), True))"

definition readExecutionLog ::
    "log_read \<Rightarrow> string gomap \<Rightarrow> string \<Rightarrow> string \<Rightarrow> int \<Rightarrow> int \<Rightarrow> string \<times> bool" where
  "readExecutionLog io logs logDir i offset limit =
     (case readExecutionLogRange io logs logDir i offset limit of (data, _, ok) \<Rightarrow> (data, ok))"

section \<open>Run requests\<close>

text \<open>\<open>None\<close> is the error of \<^verbatim>\<open>waitRequested\<close>.\<close>

definition waitRequested :: "url_values \<Rightarrow> bool option" where
  "waitRequested values =
     (let word = to_lower (trim_space (values_Get values runWaitParam)) in
      if word = '''' then Some False
      else if word \<in> {''1'', ''true'', ''yes'', ''on''} then Some True
      else if word \<in> {''0'', ''false'', ''no'', ''off''} then Some False
      else None)"

datatype run_request_error = InvalidParameterBody | ParameterTwice string | WaitNotBoolean

fun add_body :: "url_values \<Rightarrow> string gomap \<Rightarrow> run_request_error + url_values" where
  "add_body values [] = Inr values"
| "add_body values ((key, v) # rest) =
     (if map_of values key \<noteq> None then Inl (ParameterTwice key)
      else add_body (AList.update key [v] values) rest)"

text \<open>\<open>body\<close> is the decoded JSON object, \<open>None\<close> when it does not decode; it is read only when the
  request declares a positive length.\<close>

definition runRequestValues ::
    "url_values \<Rightarrow> int \<Rightarrow> (string gomap) option \<Rightarrow> run_request_error + url_values \<times> bool" where
  "runRequestValues query contentLength body =
     (let values = filter (\<lambda>(_, vs). vs \<noteq> []) query;
          merged = (if contentLength > 0
                    then (case body of None \<Rightarrow> Inl InvalidParameterBody | Some b \<Rightarrow> add_body values b)
                    else Inr values)
      in case merged of
           Inl err \<Rightarrow> Inl err
         | Inr values \<Rightarrow>
             (case waitRequested values of
                None \<Rightarrow> Inl WaitNotBoolean
              | Some wait \<Rightarrow> Inr (AList.delete runWaitParam values, wait)))"

section \<open>Pages and windows cover everything\<close>

lemma run_page_result:
  assumes "0 \<le> rf_Offset f" "0 \<le> rf_Limit f"
  shows "fst (run_page f all) = take (nat (rf_Limit f)) (drop (nat (rf_Offset f)) (filter (runFilter_matches f) all))"
proof -
  let ?m = "filter (runFilter_matches f) all"
  show ?thesis
  proof (cases "rf_Offset f > int (length ?m)")
    case True
    then show ?thesis using assms by (simp add: run_page_def Let_def)
  next
    case False
    then show ?thesis using assms by (auto simp: run_page_def Let_def nat_add_distrib not_less)
  qed
qed

lemma pages_concat:
  "0 < k \<Longrightarrow> length xs \<le> n * k \<Longrightarrow> concat (map (\<lambda>i. take k (drop (i * k) xs)) [0..<n]) = xs"
proof (induction n arbitrary: xs)
  case (Suc n)
  have "[0..<Suc n] = 0 # map Suc [0..<n]" by (simp add: map_Suc_upt upt_conv_Cons)
  then have "concat (map (\<lambda>i. take k (drop (i * k) xs)) [0..<Suc n])
      = take k xs @ concat (map (\<lambda>i. take k (drop (i * k) (drop k xs))) [0..<n])"
    by (simp add: comp_def add.commute)
  also have "\<dots> = take k xs @ drop k xs" using Suc.prems by (subst Suc.IH) auto
  finally show ?case by simp
qed simp

end
