(* ===== verification/Ctrl_Http.thy ===== *)
theory Ctrl_Http
  imports Ctrl_Views Ctrl_AgentApi
begin

text \<open>
  Authentication of HTTP requests, \<^verbatim>\<open>ctrlhttp.go\<close>, and signing in and out, \<^verbatim>\<open>api_session.go\<close>.  A
  request is the parts of \<^verbatim>\<open>http.Request\<close> that the sources read; an absent header is the empty string.
  Its path comes decoded and split into segments as \<^verbatim>\<open>http.ServeMux\<close> matches it; a path that is not clean
  has no segments, and the multiplexer redirects it.
  \<^verbatim>\<open>url.Parse\<close> and \<^verbatim>\<open>net.SplitHostPort\<close> of the standard library enter as the host they give for a
  string (\<open>net_env\<close>).  A response is the value passed to \<^verbatim>\<open>respondJSON\<close> or the status and message
  passed to \<^verbatim>\<open>respondError\<close>; \<open>Aborted\<close> is a handler that panics,
  \<open>Pending\<close> one that has not answered yet.  Texts of internal errors are left
  out.  \<open>ControllerAPI\<close> holds the controller together with its credential store and its configuration
  file, the sessions and the login limiter.
\<close>

section \<open>Requests, responses, state\<close>

record http_request =
  rq_Method :: string
  rq_Path :: string
  rq_Segments :: "(string list) option"
  rq_Query :: url_values
  rq_Host :: string
  rq_RemoteAddr :: string
  rq_TLS :: bool
  rq_Authorization :: string
  rq_Origin :: string
  rq_Referer :: string
  rq_CSRF :: string
  rq_ForwardedProto :: string
  rq_Cookie :: "string option"
  rq_ContentLength :: int

record net_env =
  ne_url_host :: "string \<Rightarrow> string option"
  ne_split_host :: "string \<Rightarrow> string option"
  ne_web_file :: "string \<Rightarrow> bool"

record http_cookie =
  ck_Value :: string
  ck_HttpOnly :: bool
  ck_Secure :: bool
  ck_Expires :: time
  ck_MaxAge :: int

datatype 'p response =
    Reply 'p
  | ReplyCookie http_cookie 'p
  | Failed nat string
  | ServeFile string
  | RedirectTo string
  | PageNotFound
  | MethodNotAllowed
  | Aborted
  | Pending

datatype 'd payload =
    P_OK
  | P_Login string string
  | P_Session string string "(string \<times> time) option"
  | P_Meta ControllerRuntime string
  | P_Id string
  | P_Jobs "jobView list"
  | P_Job jobView
  | P_Catalogs "catalogView list"
  | P_Catalog catalogView
  | P_Agents "agentSummary list"
  | P_Agent agentSummary
  | P_AgentToken string string string time
  | P_Execution "Execution option"
  | P_Run "Execution option"
  | P_RunLog Execution string
  | P_Runs "Execution list" int int int
  | P_LogBytes string int
  | P_Queue "queueEntry list" "Execution list" "agentSummary list"
  | P_CancelResults "cancel_result gomap"
  | P_Document string 'd
  | P_Tokens "TokenRecord list" "TokenRecord list"
  | P_Token string string string
  | P_AgentPoll poll_outcome
  | P_AgentPermit AgentPermitResponse
  | P_AgentHeartbeat AgentHeartbeatResponse
  | P_AgentLog int
  | P_AgentResult AgentResultResponse

record 'd ControllerAPI =
  api_controller :: Controller
  api_auth :: AuthStore
  api_config :: "'d cfg_file"
  api_sessions :: SessionStore
  api_limiter :: loginLimiter

definition newControllerAPI :: "Controller \<Rightarrow> AuthStore \<Rightarrow> 'd cfg_file \<Rightarrow> 'd ControllerAPI" where
  "newControllerAPI controller auth f =
     \<lparr>api_controller = controller, api_auth = auth, api_config = f, api_sessions = newSessionStore sessionTTL,
      api_limiter = newLoginLimiter loginFailureWindow loginFailureLimit\<rparr>"

section \<open>Authentication\<close>

definition principalSession :: string where "principalSession = ''session''"
definition principalAPI :: string where "principalAPI = ''api''"
definition principalAgent :: string where "principalAgent = ''agent''"

record principal =
  pr_Kind :: string
  pr_User :: string
  pr_AgentID :: string
  pr_Session :: "Session option"

definition isAdmin :: "principal \<Rightarrow> bool" where
  "isAdmin p \<longleftrightarrow> pr_Kind p = principalSession \<or> pr_Kind p = principalAPI"

definition bearerToken :: "http_request \<Rightarrow> string" where
  "bearerToken r =
     (let header = trim_space (rq_Authorization r) in
      if header = '''' then ''''
      else case cut_at (CHR '' '') header of
        (scheme, v, ok) \<Rightarrow> if \<not> ok \<or> \<not> equal_fold scheme ''Bearer'' then '''' else trim_space v)"

text \<open>The circumstances of one authentication: the hash functions, those of the three calls of the
  credential store, and the clock.\<close>

record auth_calls =
  ac_crypto :: crypto
  ac_agent :: cred_env
  ac_api :: cred_env
  ac_admin :: cred_env
  ac_now :: time

definition authenticate ::
    "auth_calls \<Rightarrow> http_request \<Rightarrow> 'd ControllerAPI \<Rightarrow> principal option \<times> 'd ControllerAPI" where
  "authenticate env r s =
     (let secret = bearerToken r in
      if secret \<noteq> '''' then
        (case VerifyAgentToken (ac_crypto env) (ac_agent env) secret (api_auth s) of
           (Some record, a) \<Rightarrow>
             (Some \<lparr>pr_Kind = principalAgent, pr_User = '''', pr_AgentID = tk_AgentID record, pr_Session = None\<rparr>,
              s\<lparr>api_auth := a\<rparr>)
         | (None, a) \<Rightarrow>
             (case VerifyAPIToken (ac_crypto env) (ac_api env) secret a of
                (Some record, a) \<Rightarrow>
                  (Some \<lparr>pr_Kind = principalAPI,
                         pr_User = (if tk_Name record = '''' then ''api-token'' else tk_Name record),
                         pr_AgentID = '''', pr_Session = None\<rparr>, s\<lparr>api_auth := a\<rparr>)
              | (None, a) \<Rightarrow> (None, s\<lparr>api_auth := a\<rparr>)))
      else case rq_Cookie r of
        None \<Rightarrow> (None, s)
      | Some cookie \<Rightarrow>
          (case AdminUpdatedAt (ac_admin env) (api_auth s) of
             (rotated, a) \<Rightarrow>
               let sessions = (if rotated \<noteq> 0 then DeleteBefore rotated (api_sessions s) else api_sessions s)
               in case Session_Get (ac_now env) cookie sessions of
                    (None, ss) \<Rightarrow> (None, s\<lparr>api_auth := a, api_sessions := ss\<rparr>)
                  | (Some session, ss) \<Rightarrow>
                      (Some \<lparr>pr_Kind = principalSession, pr_User = se_User session, pr_AgentID = '''',
                             pr_Session = Some session\<rparr>, s\<lparr>api_auth := a, api_sessions := ss\<rparr>)))"

text \<open>\<open>None\<close> is acceptance, otherwise the message of the error.\<close>

definition checkSameOrigin :: "net_env \<Rightarrow> http_request \<Rightarrow> string option" where
  "checkSameOrigin ne r =
     (let origin = trim_space (rq_Origin r);
          origin = (if origin = '''' \<or> origin = ''null'' then trim_space (rq_Referer r) else origin)
      in if origin = '''' then None
         else case ne_url_host ne origin of
           None \<Rightarrow> Some ''invalid Origin header''
         | Some host \<Rightarrow> if \<not> equal_fold host (rq_Host r) then Some ''cross-origin request rejected'' else None)"

definition checkCSRF :: "net_env \<Rightarrow> http_request \<Rightarrow> principal \<Rightarrow> string option" where
  "checkCSRF ne r who =
     (case pr_Session who of
        None \<Rightarrow> Some ''session is missing''
      | Some session \<Rightarrow>
          if rq_CSRF r = '''' \<or> rq_CSRF r \<noteq> se_CSRF session then Some ''CSRF token did not match''
          else checkSameOrigin ne r)"

definition isStateChangingMethod :: "string \<Rightarrow> bool" where
  "isStateChangingMethod m \<longleftrightarrow> m \<notin> {''GET'', ''HEAD'', ''OPTIONS''}"

type_synonym ('p, 's) handler = "principal \<Rightarrow> 's \<Rightarrow> 'p response \<times> 's"

definition requireAdmin ::
    "auth_calls \<Rightarrow> net_env \<Rightarrow> http_request \<Rightarrow> ('p, 'd ControllerAPI) handler \<Rightarrow> 'd ControllerAPI
      \<Rightarrow> 'p response \<times> 'd ControllerAPI" where
  "requireAdmin env ne r nxt s =
     (case authenticate env r s of
        (None, s) \<Rightarrow> (Failed 401 ''authentication required'', s)
      | (Some who, s) \<Rightarrow>
          if \<not> isAdmin who then (Failed 401 ''authentication required'', s)
          else if pr_Kind who = principalSession \<and> isStateChangingMethod (rq_Method r) \<and> checkCSRF ne r who \<noteq> None
          then (Failed 403 (the (checkCSRF ne r who)), s)
          else nxt who s)"

definition requireAgent ::
    "auth_calls \<Rightarrow> http_request \<Rightarrow> ('p, 'd ControllerAPI) handler \<Rightarrow> 'd ControllerAPI
      \<Rightarrow> 'p response \<times> 'd ControllerAPI" where
  "requireAgent env r nxt s =
     (case authenticate env r s of
        (None, s) \<Rightarrow> (Failed 401 ''agent token required'', s)
      | (Some who, s) \<Rightarrow>
          if pr_Kind who \<noteq> principalAgent then (Failed 401 ''agent token required'', s) else nxt who s)"

section \<open>Pages\<close>

definition trim_prefix :: "string \<Rightarrow> string \<Rightarrow> string" where
  "trim_prefix p s = (if has_prefix s p then drop (length p) s else s)"

definition serveWebFile :: "net_env \<Rightarrow> http_request \<Rightarrow> string \<Rightarrow> 'p response" where
  "serveWebFile ne r name =
     (if rq_Method r \<noteq> ''GET'' \<and> rq_Method r \<noteq> ''HEAD'' then MethodNotAllowed
      else let name = trim_prefix ''/'' (clean (''/'' @ name)) in
        if name = ''.'' \<or> has_prefix name ''..'' then PageNotFound
        else if \<not> ne_web_file ne name then PageNotFound
        else ServeFile name)"

definition controllerPageFile :: "string \<Rightarrow> string option" where
  "controllerPageFile path =
     (let trimmed = trim_set ''/'' path in
      if trimmed \<in> {'''', ''jobs''} then Some ''index.html''
      else if trimmed \<in> {''catalogs'', ''agents'', ''queue'', ''runs'', ''settings''}
      then Some (trimmed @ ''/index.html'')
      else if has_prefix trimmed ''runs/'' \<and> drop 5 trimmed \<noteq> '''' \<and> CHR ''/'' \<notin> set (drop 5 trimmed)
      then Some ''run/index.html''
      else None)"

definition isPublicAsset :: "string \<Rightarrow> bool" where
  "isPublicAsset requested =
     (let cleaned = trim_prefix ''/'' (clean (''/'' @ requested)) in
      if cleaned \<noteq> requested then False
      else has_prefix cleaned ''_astro/'' \<or> cleaned = ''favicon.svg'')"

definition handlePage ::
    "auth_calls \<Rightarrow> net_env \<Rightarrow> http_request \<Rightarrow> 'd ControllerAPI \<Rightarrow> 'p response \<times> 'd ControllerAPI" where
  "handlePage env ne r s =
     (let path = trim_prefix ''/'' (rq_Path r) in
      if isPublicAsset path then (serveWebFile ne r path, s)
      else case authenticate env r s of
        (who, s) \<Rightarrow>
          if (case who of None \<Rightarrow> True | Some p \<Rightarrow> pr_Kind p \<noteq> principalSession)
          then (if has_prefix (rq_Path r) ''/api/'' then (Failed 401 ''authentication required'', s)
                else (RedirectTo ''/login'', s))
          else case controllerPageFile (rq_Path r) of
            None \<Rightarrow> (PageNotFound, s)
          | Some page \<Rightarrow> (serveWebFile ne r page, s))"

section \<open>Signing in and out\<close>

definition clientKey :: "net_env \<Rightarrow> http_request \<Rightarrow> string" where
  "clientKey ne r = (case ne_split_host ne (rq_RemoteAddr r) of None \<Rightarrow> rq_RemoteAddr r | Some host \<Rightarrow> host)"

definition requestIsSecure :: "http_request \<Rightarrow> bool" where
  "requestIsSecure r \<longleftrightarrow> rq_TLS r \<or> equal_fold (trim_space (rq_ForwardedProto r)) ''https''"

record login_env =
  le_crypto :: crypto
  le_allowed :: time
  le_body :: "(string \<times> string) option"
  le_cred :: cred_env
  le_failNow :: time
  le_failAt :: time
  le_draw :: session_draw

text \<open>\<^verbatim>\<open>handleLogin\<close> takes the limiter's lock twice, before and after the password is derived, so requests
  of other clients, and other logins, can come between \<open>login_begin\<close> and \<open>login_finish\<close>.\<close>

definition login_begin ::
    "login_env \<Rightarrow> net_env \<Rightarrow> http_request \<Rightarrow> 'd ControllerAPI \<Rightarrow> 'd payload response option \<times> 'd ControllerAPI" where
  "login_begin env ne r s =
     (case checkSameOrigin ne r of
        Some message \<Rightarrow> (Some (Failed 403 message), s)
      | None \<Rightarrow>
          (case Allowed (le_allowed env) (clientKey ne r) (api_limiter s) of
             (False, l) \<Rightarrow> (Some (Failed 429 ''too many failed login attempts; try again later''), s\<lparr>api_limiter := l\<rparr>)
           | (True, l) \<Rightarrow> (None, s\<lparr>api_limiter := l\<rparr>)))"

definition login_finish ::
    "login_env \<Rightarrow> net_env \<Rightarrow> http_request \<Rightarrow> 'd ControllerAPI \<Rightarrow> 'd payload response \<times> 'd ControllerAPI" where
  "login_finish env ne r s =
     (case le_body env of
        None \<Rightarrow> (Failed 400 ''invalid login request'', s)
      | Some (username, password) \<Rightarrow>
          (case VerifyPassword (le_crypto env) (le_cred env) username password (api_auth s) of
             (Some err, a) \<Rightarrow>
               let s = s\<lparr>api_auth := a\<rparr> in
               if err = ErrNoAdminCredential then (Failed 503 ''no admin credential is configured'', s)
               else (case Fail (le_failNow env) (le_failAt env) (clientKey ne r) (api_limiter s) of
                       (blocked, l) \<Rightarrow>
                         (if blocked then Failed 429 ''too many failed login attempts; try again later''
                          else Failed 401 ''invalid credentials'', s\<lparr>api_limiter := l\<rparr>))
           | (None, a) \<Rightarrow>
               let s = s\<lparr>api_auth := a, api_limiter := Reset (clientKey ne r) (api_limiter s)\<rparr> in
               (case Session_Create (le_draw env) (trim_space username) (api_sessions s) of
                  (None, ss) \<Rightarrow> (Failed 500 '''', s\<lparr>api_sessions := ss\<rparr>)
                | (Some session, ss) \<Rightarrow>
                    (ReplyCookie \<lparr>ck_Value = se_ID session, ck_HttpOnly = True, ck_Secure = requestIsSecure r,
                                  ck_Expires = se_Expires session, ck_MaxAge = 0\<rparr>
                       (P_Login (se_User session) (se_CSRF session)), s\<lparr>api_sessions := ss\<rparr>))))"

definition handleLogin ::
    "login_env \<Rightarrow> net_env \<Rightarrow> http_request \<Rightarrow> 'd ControllerAPI \<Rightarrow> 'd payload response \<times> 'd ControllerAPI" where
  "handleLogin env ne r s =
     (case login_begin env ne r s of
        (Some refusal, s) \<Rightarrow> (refusal, s)
      | (None, s) \<Rightarrow> login_finish env ne r s)"

definition handleLogout :: "http_request \<Rightarrow> ('d payload, 'd ControllerAPI) handler" where
  "handleLogout r who s =
     (ReplyCookie \<lparr>ck_Value = '''', ck_HttpOnly = True, ck_Secure = requestIsSecure r, ck_Expires = 0, ck_MaxAge = -1\<rparr> P_OK,
      case pr_Session who of
        None \<Rightarrow> s
      | Some session \<Rightarrow> s\<lparr>api_sessions := Session_Delete (se_ID session) (api_sessions s)\<rparr>)"

definition handleSession :: "('d payload, 'd ControllerAPI) handler" where
  "handleSession who s =
     (Reply (P_Session (pr_Kind who) (pr_User who) (map_option (\<lambda>se. (se_CSRF se, se_Expires se)) (pr_Session who))), s)"

text \<open>\<^verbatim>\<open>handleMeta\<close> shows the runtime values and the user; the build information it adds is left out.\<close>

definition handleMeta :: "('d payload, 'd ControllerAPI) handler" where
  "handleMeta who s = (Reply (P_Meta (c_runtime (api_controller s)) (pr_User who)), s)"

section \<open>Tokens\<close>

definition handleListTokens :: "cred_env \<Rightarrow> cred_env \<Rightarrow> ('d payload, 'd ControllerAPI) handler" where
  "handleListTokens env1 env2 who s =
     (case APITokens env1 (api_auth s) of
        (api, a) \<Rightarrow>
          (case AgentTokens env2 a of (agents, a) \<Rightarrow> (Reply (P_Tokens api agents), s\<lparr>api_auth := a\<rparr>)))"

definition handleCreateToken ::
    "crypto \<Rightarrow> cred_env \<Rightarrow> token_draw \<Rightarrow> string option \<Rightarrow> ('d payload, 'd ControllerAPI) handler" where
  "handleCreateToken cry env draw body who s =
     (case body of
        None \<Rightarrow> (Failed 400 ''invalid token request'', s)
      | Some requested \<Rightarrow>
          let name = trim_space requested in
          if name = '''' then (Failed 400 ''token name is required'', s)
          else case IssueAPIToken cry env draw name (api_auth s) of
            (Inl _, a) \<Rightarrow> (Failed 500 '''', s\<lparr>api_auth := a\<rparr>)
          | (Inr (secret, record), a) \<Rightarrow> (Reply (P_Token (tk_ID record) (tk_Name record) secret), s\<lparr>api_auth := a\<rparr>))"

definition handleRevokeToken :: "cred_env \<Rightarrow> string \<Rightarrow> ('d payload, 'd ControllerAPI) handler" where
  "handleRevokeToken env i who s =
     (case RevokeAPIToken env i (api_auth s) of
        (None, a) \<Rightarrow> (Reply P_OK, s\<lparr>api_auth := a\<rparr>)
      | (Some err, a) \<Rightarrow>
          (if err = ErrTokenNotFound then Failed 404 ''token not found'' else Failed 500 '''', s\<lparr>api_auth := a\<rparr>))"

end
