(* ===== verification/Ctrl_Api.thy ===== *)
theory Ctrl_Api
  imports Ctrl_Http
begin

text \<open>
  The handlers of the controller's HTTP interface for users: jobs (\<^verbatim>\<open>api_jobs.go\<close>), catalogs
  (\<^verbatim>\<open>api_catalogs.go\<close>), agents (\<^verbatim>\<open>api_agents.go\<close>), the configuration document (\<^verbatim>\<open>api_config.go\<close>), runs
  (\<^verbatim>\<open>api_runs.go\<close>) and the queue (\<^verbatim>\<open>api_queue.go\<close>); then the routing table of \<^verbatim>\<open>ctrlhttp.go\<close> with its guards.
  The body of a request is given decoded, for the type its handler decodes it to (\<open>bodies\<close>); \<open>None\<close> is a
  body that does not decode.
\<close>

section \<open>Editing the configuration\<close>

definition respondConfigError :: "config_error \<Rightarrow> 'p response" where
  "respondConfigError err =
     (if err = ErrConfigChanged then Failed 409 ''controller config changed since it was read''
      else if err \<in> {ErrJobUnknown, ErrCatalogUnknown, ErrAgentUnknown} then Failed 404 ''not found''
      else Failed 400 '''')"

definition with_edit ::
    "'d cfg_env \<Rightarrow> (ControllerConfig \<Rightarrow> config_error + ControllerConfig) \<Rightarrow> 'd payload \<Rightarrow> 'd ControllerAPI
      \<Rightarrow> 'd payload response \<times> 'd ControllerAPI" where
  "with_edit env fn answer s =
     (case editConfig env fn (api_controller s) (api_config s) of
        (err, c, f) \<Rightarrow>
          (case err of None \<Rightarrow> Reply answer | Some e \<Rightarrow> respondConfigError e,
           s\<lparr>api_controller := c, api_config := f\<rparr>))"

section \<open>Jobs\<close>

definition handleListJobs :: "time \<Rightarrow> ('d payload, 'd ControllerAPI) handler" where
  "handleListJobs now who s =
     (let c = api_controller s in (Reply (P_Jobs (jobViews (c_cfg c) (AgentViews now c))), s))"

definition handleGetJob :: "time \<Rightarrow> string \<Rightarrow> ('d payload, 'd ControllerAPI) handler" where
  "handleGetJob now i who s =
     (let c = api_controller s in
      case findJob (c_cfg c) i of
        None \<Rightarrow> (Failed 404 ''job not found'', s)
      | Some job \<Rightarrow> (Reply (P_Job (buildJobView (c_cfg c) job (AgentViews now c))), s))"

definition create_job :: "JobConfig \<Rightarrow> ControllerConfig \<Rightarrow> config_error + ControllerConfig" where
  "create_job job cfg =
     (if findJob cfg (trim_space (job_ID job)) \<noteq> None then Inl (ErrAlreadyExists (job_ID job))
      else Inr (cfg\<lparr>cfg_Jobs := cfg_Jobs cfg @ [job]\<rparr>))"

definition update_job :: "string \<Rightarrow> JobConfig \<Rightarrow> ControllerConfig \<Rightarrow> config_error + ControllerConfig" where
  "update_job i job cfg =
     (if findJob cfg i = None then Inl ErrJobUnknown
      else Inr (cfg\<lparr>cfg_Jobs := upd_first (\<lambda>j. job_ID j = i) (\<lambda>_. job) (cfg_Jobs cfg)\<rparr>))"

definition delete_job :: "string \<Rightarrow> ControllerConfig \<Rightarrow> config_error + ControllerConfig" where
  "delete_job i cfg =
     (if findJob cfg i = None then Inl ErrJobUnknown
      else Inr (cfg\<lparr>cfg_Jobs := del_first (\<lambda>j. job_ID j = i) (cfg_Jobs cfg)\<rparr>))"

definition handleCreateJob :: "'d cfg_env \<Rightarrow> JobConfig option \<Rightarrow> ('d payload, 'd ControllerAPI) handler" where
  "handleCreateJob env body who s =
     (case body of
        None \<Rightarrow> (Failed 400 ''invalid job document'', s)
      | Some job \<Rightarrow> with_edit env (create_job job) (P_Id (job_ID job)) s)"

definition handleUpdateJob :: "'d cfg_env \<Rightarrow> string \<Rightarrow> JobConfig option \<Rightarrow> ('d payload, 'd ControllerAPI) handler" where
  "handleUpdateJob env i body who s =
     (case body of
        None \<Rightarrow> (Failed 400 ''invalid job document'', s)
      | Some job \<Rightarrow>
          let job = (if trim_space (job_ID job) = '''' then job\<lparr>job_ID := i\<rparr> else job) in
          if job_ID job \<noteq> i then (Failed 400 ''job id cannot be changed'', s)
          else with_edit env (update_job i job) (P_Id i) s)"

definition handleDeleteJob :: "'d cfg_env \<Rightarrow> string \<Rightarrow> ('d payload, 'd ControllerAPI) handler" where
  "handleDeleteJob env i who s = with_edit env (delete_job i) P_OK s"

text \<open>What a handler that waits meets: what wakes it, whether the client went away, the controller as it
  is when the handler goes on, and how reading the log ends.\<close>

record wait_env =
  we_wakes :: "wake list"
  we_gone :: bool
  we_later :: Controller
  we_log :: log_read

definition respondAfterWait :: "wait_env \<Rightarrow> string \<Rightarrow> Controller \<Rightarrow> 'd payload response" where
  "respondAfterWait env i c =
     (case Wait (c_store c) i (we_wakes env) of
        None \<Rightarrow> Pending
      | Some False \<Rightarrow>
          if we_gone env then Failed 408 ''client disconnected while waiting; the execution keeps running''
          else Failed 404 ''execution not found''
      | Some True \<Rightarrow>
          (case Find (c_store (we_later env)) i of
             None \<Rightarrow> Failed 404 ''execution not found''
           | Some execution \<Rightarrow>
               Reply (P_RunLog execution
                 (fst (readExecutionLog (we_log env) (st_logs (c_store (we_later env)))
                        (rt_LogDir (c_runtime (we_later env))) i 0 defaultLogLimit)))))"

definition handleRunJob ::
    "op_env \<Rightarrow> (nat \<Rightarrow> string) \<Rightarrow> wait_env \<Rightarrow> http_request \<Rightarrow> (string gomap) option \<Rightarrow> string
      \<Rightarrow> ('d payload, 'd ControllerAPI) handler" where
  "handleRunJob env gen we r body i who s =
     (case runRequestValues (rq_Query r) (rq_ContentLength r) body of
        Inl _ \<Rightarrow> (Failed 400 '''', s)
      | Inr (values, wait) \<Rightarrow>
          (case Enqueue env gen i values (pr_User who) (api_controller s) of
             None \<Rightarrow> (Pending, s)
           | Some (Inl err, c) \<Rightarrow>
               (if err = ErrJobNotFound then Failed 404 ''job not found''
                else if err = ErrJobDisabled then Failed 409 ''job is disabled''
                else Failed 400 '''', s\<lparr>api_controller := c\<rparr>)
           | Some (Inr execution, c) \<Rightarrow>
               (if \<not> wait then Reply (P_Execution execution)
                else case execution of
                  None \<Rightarrow> Aborted
                | Some e \<Rightarrow> respondAfterWait we (ex_ID e) c, s\<lparr>api_controller := c\<rparr>)))"

section \<open>Catalogs\<close>

definition handleListCatalogs :: "('d payload, 'd ControllerAPI) handler" where
  "handleListCatalogs who s =
     (let cfg = c_cfg (api_controller s) in (Reply (P_Catalogs (map (buildCatalogView cfg) (cfg_Catalogs cfg))), s))"

definition handleGetCatalog :: "string \<Rightarrow> ('d payload, 'd ControllerAPI) handler" where
  "handleGetCatalog i who s =
     (let cfg = c_cfg (api_controller s) in
      case findCatalog cfg i of
        None \<Rightarrow> (Failed 404 ''catalog not found'', s)
      | Some catalog \<Rightarrow> (Reply (P_Catalog (buildCatalogView cfg catalog)), s))"

definition create_catalog :: "CatalogConfig \<Rightarrow> ControllerConfig \<Rightarrow> config_error + ControllerConfig" where
  "create_catalog catalog cfg =
     (if findCatalog cfg (trim_space (cat_ID catalog)) \<noteq> None then Inl (ErrAlreadyExists (cat_ID catalog))
      else Inr (cfg\<lparr>cfg_Catalogs := cfg_Catalogs cfg @ [catalog]\<rparr>))"

definition update_catalog :: "string \<Rightarrow> CatalogConfig \<Rightarrow> ControllerConfig \<Rightarrow> config_error + ControllerConfig" where
  "update_catalog i catalog cfg =
     (if findCatalog cfg i = None then Inl ErrCatalogUnknown
      else Inr (cfg\<lparr>cfg_Catalogs := upd_first (\<lambda>k. cat_ID k = i) (\<lambda>_. catalog) (cfg_Catalogs cfg)\<rparr>))"

definition delete_catalog :: "string \<Rightarrow> ControllerConfig \<Rightarrow> config_error + ControllerConfig" where
  "delete_catalog i cfg =
     (case find (\<lambda>(job, param). par_Catalog param = i)
             (concat (map (\<lambda>job. map (Pair job) (job_Parameters job)) (cfg_Jobs cfg))) of
        Some (job, param) \<Rightarrow> Inl (ErrCatalogInUse i (job_ID job) (par_ID param))
      | None \<Rightarrow>
          if findCatalog cfg i = None then Inl ErrCatalogUnknown
          else Inr (cfg\<lparr>cfg_Catalogs := del_first (\<lambda>k. cat_ID k = i) (cfg_Catalogs cfg)\<rparr>))"

definition handleCreateCatalog :: "'d cfg_env \<Rightarrow> CatalogConfig option \<Rightarrow> ('d payload, 'd ControllerAPI) handler" where
  "handleCreateCatalog env body who s =
     (case body of
        None \<Rightarrow> (Failed 400 ''invalid catalog document'', s)
      | Some catalog \<Rightarrow> with_edit env (create_catalog catalog) (P_Id (cat_ID catalog)) s)"

definition handleUpdateCatalog ::
    "'d cfg_env \<Rightarrow> string \<Rightarrow> CatalogConfig option \<Rightarrow> ('d payload, 'd ControllerAPI) handler" where
  "handleUpdateCatalog env i body who s =
     (case body of
        None \<Rightarrow> (Failed 400 ''invalid catalog document'', s)
      | Some catalog \<Rightarrow>
          let catalog = (if trim_space (cat_ID catalog) = '''' then catalog\<lparr>cat_ID := i\<rparr> else catalog) in
          if cat_ID catalog \<noteq> i then (Failed 400 ''catalog id cannot be changed'', s)
          else with_edit env (update_catalog i catalog) (P_Id i) s)"

definition handleDeleteCatalog :: "'d cfg_env \<Rightarrow> string \<Rightarrow> ('d payload, 'd ControllerAPI) handler" where
  "handleDeleteCatalog env i who s = with_edit env (delete_catalog i) P_OK s"

section \<open>Agents\<close>

definition handleListAgents :: "(nat \<Rightarrow> cred_env) \<Rightarrow> time \<Rightarrow> ('d payload, 'd ControllerAPI) handler" where
  "handleListAgents envs now who s =
     (case agentSummaries envs now (api_controller s) (api_auth s) of
        (summaries, a) \<Rightarrow> (Reply (P_Agents summaries), s\<lparr>api_auth := a\<rparr>))"

definition handleGetAgent :: "(nat \<Rightarrow> cred_env) \<Rightarrow> time \<Rightarrow> string \<Rightarrow> ('d payload, 'd ControllerAPI) handler" where
  "handleGetAgent envs now i who s =
     (case agentSummaries envs now (api_controller s) (api_auth s) of
        (summaries, a) \<Rightarrow>
          (case find (\<lambda>summary. sum_ID summary = i) summaries of
             Some summary \<Rightarrow> Reply (P_Agent summary)
           | None \<Rightarrow> Failed 404 ''agent not found'', s\<lparr>api_auth := a\<rparr>))"

definition create_agent :: "AgentDefinition \<Rightarrow> ControllerConfig \<Rightarrow> config_error + ControllerConfig" where
  "create_agent agent cfg =
     (if findAgentDefinition cfg (trim_space (agd_ID agent)) \<noteq> None then Inl (ErrAlreadyExists (agd_ID agent))
      else Inr (cfg\<lparr>cfg_Agents := cfg_Agents cfg @ [agent]\<rparr>))"

definition edit_agent :: "string \<Rightarrow> AgentDefinition \<Rightarrow> ControllerConfig \<Rightarrow> config_error + ControllerConfig" where
  "edit_agent i agent cfg =
     (if findAgentDefinition cfg i = None then Inl ErrAgentUnknown
      else Inr (cfg\<lparr>cfg_Agents := upd_first (\<lambda>a. agd_ID a = i) (\<lambda>_. agent) (cfg_Agents cfg)\<rparr>))"

definition delete_agent :: "string \<Rightarrow> ControllerConfig \<Rightarrow> config_error + ControllerConfig" where
  "delete_agent i cfg =
     (if findAgentDefinition cfg i = None then Inl ErrAgentUnknown
      else Inr (cfg\<lparr>cfg_Agents := del_first (\<lambda>a. agd_ID a = i) (cfg_Agents cfg)\<rparr>))"

definition handleCreateAgent :: "'d cfg_env \<Rightarrow> AgentDefinition option \<Rightarrow> ('d payload, 'd ControllerAPI) handler" where
  "handleCreateAgent env body who s =
     (case body of
        None \<Rightarrow> (Failed 400 ''invalid agent document'', s)
      | Some agent \<Rightarrow> with_edit env (create_agent agent) (P_Id (agd_ID agent)) s)"

definition handleUpdateAgent ::
    "'d cfg_env \<Rightarrow> string \<Rightarrow> AgentDefinition option \<Rightarrow> ('d payload, 'd ControllerAPI) handler" where
  "handleUpdateAgent env i body who s =
     (case body of
        None \<Rightarrow> (Failed 400 ''invalid agent document'', s)
      | Some agent \<Rightarrow>
          let agent = (if trim_space (agd_ID agent) = '''' then agent\<lparr>agd_ID := i\<rparr> else agent) in
          if agd_ID agent \<noteq> i then (Failed 400 ''agent id cannot be changed'', s)
          else with_edit env (edit_agent i agent) (P_Id i) s)"

definition handleDeleteAgent ::
    "'d cfg_env \<Rightarrow> cred_env \<Rightarrow> time \<Rightarrow> string \<Rightarrow> ('d payload, 'd ControllerAPI) handler" where
  "handleDeleteAgent env cred now i who s =
     (if list_ex (\<lambda>view. agd_ID (av_Definition view) = i \<and> (av_Busy view \<or> av_Blocked view))
           (AgentViews now (api_controller s))
      then (Failed 409 ''agent has an active execution; cancel or resolve it first'', s)
      else case with_edit env (delete_agent i) P_OK s of
        (Reply answer, s) \<Rightarrow>
          (case RevokeAgentToken cred i (api_auth s) of
             (err, a) \<Rightarrow>
               (if err \<noteq> None \<and> err \<noteq> Some ErrTokenNotFound then Failed 500 '''' else Reply answer,
                s\<lparr>api_auth := a\<rparr>))
      | (failed, s) \<Rightarrow> (failed, s))"

definition handleRotateAgentToken ::
    "crypto \<Rightarrow> cred_env \<Rightarrow> token_draw \<Rightarrow> string \<Rightarrow> ('d payload, 'd ControllerAPI) handler" where
  "handleRotateAgentToken cry env draw i who s =
     (case findAgentDefinition (c_cfg (api_controller s)) i of
        None \<Rightarrow> (Failed 404 ''agent not found'', s)
      | Some _ \<Rightarrow>
          (case IssueAgentToken cry env draw i (api_auth s) of
             (Inl _, a) \<Rightarrow> (Failed 500 '''', s\<lparr>api_auth := a\<rparr>)
           | (Inr (secret, record), a) \<Rightarrow>
               (Reply (P_AgentToken i (tk_ID record) secret (tk_CreatedAt record)), s\<lparr>api_auth := a\<rparr>)))"

definition handleRevokeAgentToken :: "cred_env \<Rightarrow> string \<Rightarrow> ('d payload, 'd ControllerAPI) handler" where
  "handleRevokeAgentToken env i who s =
     (case RevokeAgentToken env i (api_auth s) of
        (None, a) \<Rightarrow> (Reply P_OK, s\<lparr>api_auth := a\<rparr>)
      | (Some err, a) \<Rightarrow>
          (if err = ErrTokenNotFound then Failed 404 ''agent is not enrolled'' else Failed 500 '''', s\<lparr>api_auth := a\<rparr>))"

section \<open>The configuration document\<close>

definition maxConfigDocumentBytes :: int where "maxConfigDocumentBytes = 2097152"

text \<open>A request body as \<^verbatim>\<open>configDocumentFromBody\<close> looks at it: whether reading it fails, its length, the
  \<^verbatim>\<open>content\<close> field when it is a JSON object that has one, the body itself as a document, and the test
  for white space.\<close>

datatype 'd envelope = NoContentField | ContentNotString | ContentString 'd

record 'd document_body =
  db_read_fails :: bool
  db_length :: int
  db_envelope :: "'d envelope"
  db_raw :: 'd
  db_blank :: "'d \<Rightarrow> bool"

definition configDocumentFromBody :: "'d document_body \<Rightarrow> string + 'd" where
  "configDocumentFromBody body =
     (case db_envelope body of
        ContentNotString \<Rightarrow> Inl ''config document content must be a string''
      | ContentString content \<Rightarrow>
          if db_blank body content then Inl ''config document is empty'' else Inr content
      | NoContentField \<Rightarrow>
          if db_blank body (db_raw body) then Inl ''config document is empty'' else Inr (db_raw body))"

definition handleGetConfigDocument :: "bool \<Rightarrow> ('d payload, 'd ControllerAPI) handler" where
  "handleGetConfigDocument read_fails who s =
     (case api_config s of
        None \<Rightarrow> (Failed 500 '''', s)
      | Some (data, _) \<Rightarrow>
          (if read_fails then Failed 500 ''''
           else Reply (P_Document (rt_ConfigPath (c_runtime (api_controller s))) data), s))"

definition handleSaveConfigDocument :: "'d cfg_env \<Rightarrow> 'd document_body \<Rightarrow> ('d payload, 'd ControllerAPI) handler" where
  "handleSaveConfigDocument env body who s =
     (if db_read_fails body then (Failed 400 ''config document could not be read'', s)
      else if db_length body > maxConfigDocumentBytes then (Failed 413 ''config document is too large'', s)
      else if db_length body = 0 then (Failed 400 ''config document is empty'', s)
      else case configDocumentFromBody body of
        Inl message \<Rightarrow> (Failed 400 message, s)
      | Inr content \<Rightarrow>
          (case parseControllerConfig (cg_parse env) (cg_yaml env) content of
             Inl _ \<Rightarrow> (Failed 400 '''', s)
           | Inr cfg \<Rightarrow> with_edit env (\<lambda>_. Inr cfg) P_OK s))"

section \<open>Runs\<close>

definition handleListRuns :: "http_request \<Rightarrow> ('d payload, 'd ControllerAPI) handler" where
  "handleListRuns r who s =
     (case parseRunFilter (rq_Query r) of
        Inl message \<Rightarrow> (Failed 400 message, s)
      | Inr f \<Rightarrow>
          (case run_page f (Executions (c_store (api_controller s))) of
             (page, n) \<Rightarrow> (Reply (P_Runs page n (rf_Limit f) (rf_Offset f)), s)))"

definition handleGetRun :: "wait_env \<Rightarrow> http_request \<Rightarrow> string \<Rightarrow> ('d payload, 'd ControllerAPI) handler" where
  "handleGetRun we r i who s =
     (case Find (c_store (api_controller s)) i of
        None \<Rightarrow> (Failed 404 ''run not found'', s)
      | Some execution \<Rightarrow>
          (case waitRequested (rq_Query r) of
             None \<Rightarrow> (Failed 400 ''wait must be 1 or 0'', s)
           | Some True \<Rightarrow> (respondAfterWait we i (api_controller s), s)
           | Some False \<Rightarrow> (Reply (P_Execution (Some execution)), s)))"

definition handleRunLog :: "log_read \<Rightarrow> http_request \<Rightarrow> string \<Rightarrow> ('d payload, 'd ControllerAPI) handler" where
  "handleRunLog io r i who s =
     (let c = api_controller s in
      case Find (c_store c) i of
        None \<Rightarrow> (Failed 404 ''run not found'', s)
      | Some _ \<Rightarrow>
          (case logRange (rq_Query r) of
             Inl message \<Rightarrow> (Failed 400 message, s)
           | Inr (offset, limit) \<Rightarrow>
               (case readExecutionLogRange io (st_logs (c_store c)) (rt_LogDir (c_runtime c)) i offset limit of
                  (_, _, False) \<Rightarrow> (Failed 500 '''', s)
                | (data, nxt, True) \<Rightarrow> (Reply (P_LogBytes data nxt), s))))"

definition respondCancelError :: "ctrl_error \<Rightarrow> 'p response" where
  "respondCancelError err =
     (if err = ErrExecutionNotFound then Failed 404 ''run not found''
      else if err = ErrExecutionDone then Failed 409 ''run already finished''
      else Failed 500 '''')"

definition handleCancelRun :: "op_env \<Rightarrow> string \<Rightarrow> ('d payload, 'd ControllerAPI) handler" where
  "handleCancelRun env i who s =
     (case Cancel env i (api_controller s) of
        (Inl err, c) \<Rightarrow> (respondCancelError err, s\<lparr>api_controller := c\<rparr>)
      | (Inr execution, c) \<Rightarrow> (Reply (P_Run execution), s\<lparr>api_controller := c\<rparr>))"

definition handleRerunRun ::
    "op_env \<Rightarrow> (nat \<Rightarrow> string) \<Rightarrow> string \<Rightarrow> ('d payload, 'd ControllerAPI) handler" where
  "handleRerunRun env gen i who s =
     (case Rerun env gen i (pr_User who) (api_controller s) of
        None \<Rightarrow> (Pending, s)
      | Some (Inl err, c) \<Rightarrow>
          (if err = ErrExecutionNotFound then Failed 404 ''run not found'' else Failed 400 '''', s\<lparr>api_controller := c\<rparr>)
      | Some (Inr execution, c) \<Rightarrow> (Reply (P_Run execution), s\<lparr>api_controller := c\<rparr>))"

definition handleResolveRun :: "op_env \<Rightarrow> http_request \<Rightarrow> string \<Rightarrow> ('d payload, 'd ControllerAPI) handler" where
  "handleResolveRun env r i who s =
     (case ResolveAttention env i (trim_space (values_Get (rq_Query r) ''note'')) (api_controller s) of
        (Inl err, c) \<Rightarrow>
          (if err = ErrExecutionNotFound then Failed 404 ''run not found'' else Failed 409 '''', s\<lparr>api_controller := c\<rparr>)
      | (Inr execution, c) \<Rightarrow> (Reply (P_Run execution), s\<lparr>api_controller := c\<rparr>))"

definition handleDeleteRun :: "io_env \<Rightarrow> string \<Rightarrow> ('d payload, 'd ControllerAPI) handler" where
  "handleDeleteRun io i who s =
     (let c = api_controller s in
      case DeleteExecution io i (c_store c) of
        (err, st) \<Rightarrow>
          (case err of
             None \<Rightarrow> Reply P_OK
           | Some e \<Rightarrow>
               if e = ErrExecutionNotFound then Failed 404 ''run not found''
               else if e = ErrExecutionActive then Failed 409 ''cannot delete a run that has not finished''
               else Failed 500 '''', s\<lparr>api_controller := c\<lparr>c_store := st\<rparr>\<rparr>))"

section \<open>Queue\<close>

definition handleQueue :: "(nat \<Rightarrow> cred_env) \<Rightarrow> time \<Rightarrow> time \<Rightarrow> ('d payload, 'd ControllerAPI) handler" where
  "handleQueue envs now1 now2 who s =
     (let c = api_controller s in
      case agentSummaries envs now2 c (api_auth s) of
        (summaries, a) \<Rightarrow>
          (Reply (P_Queue (queue_entries (AgentViews now1 c) (c_store c)) (active_executions (c_store c)) summaries),
           s\<lparr>api_auth := a\<rparr>))"

definition handleQueueCancel ::
    "(nat \<Rightarrow> op_env) \<Rightarrow> (string list) option \<Rightarrow> ('d payload, 'd ControllerAPI) handler" where
  "handleQueueCancel envs body who s =
     (case body of
        None \<Rightarrow> (Failed 400 ''invalid cancel request'', s)
      | Some ids \<Rightarrow>
          if ids = [] then (Failed 400 ''no execution ids were provided'', s)
          else if int (length ids) > maxRunPageSize then (Failed 400 ''too many execution ids in one request'', s)
          else case CancelMany (zip ids (map envs [0..<length ids])) [] (api_controller s) of
            (Inl _, c) \<Rightarrow> (Aborted, s\<lparr>api_controller := c\<rparr>)
          | (Inr results, c) \<Rightarrow> (Reply (P_CancelResults results), s\<lparr>api_controller := c\<rparr>))"

end
