(* ===== verification/Ctrl_Routes.thy ===== *)
theory Ctrl_Routes
  imports Ctrl_Api
begin

text \<open>
  The routing table of \<^verbatim>\<open>routes\<close> in \<^verbatim>\<open>ctrlhttp.go\<close>: every endpoint with its method, its path pattern
  and the guard in front of its handler.  A pattern \<^verbatim>\<open>{id}\<close> matches one non-empty segment; a pattern for
  \<^verbatim>\<open>GET\<close> also matches \<^verbatim>\<open>HEAD\<close>; no two patterns of the table match the same request, and what none
  matches goes to \<^verbatim>\<open>handlePage\<close>.  \<open>serve\<close> is the handler \<^verbatim>\<open>routes\<close> returns, as one step of the whole
  interface: a request in, a response and the new state out.
\<close>

section \<open>Endpoints\<close>

datatype admin_endpoint =
    GetMeta | GetSession | PostLogout
  | GetJobs | PostJob | GetJob | PutJob | DeleteJob | PostJobRun
  | GetCatalogs | PostCatalog | GetCatalog | PutCatalog | DeleteCatalog
  | GetAgents | PostAgent | GetAgent | PutAgent | DeleteAgent | PostAgentToken | DeleteAgentToken
  | GetQueue | PostQueueCancel
  | GetRuns | GetRun | GetRunLog | PostRunCancel | PostRunRerun | PostRunResolve | DeleteRun
  | GetConfig | PostConfig
  | GetTokens | PostToken | DeleteToken

datatype agent_endpoint = AgentPoll | AgentPermit | AgentHeartbeat | AgentLog | AgentResult | AgentAttention

datatype endpoint = PostLogin | GetLoginPage | Admin admin_endpoint | Agent agent_endpoint

datatype segment = Lit string | Wild

definition routes :: "(string \<times> segment list \<times> endpoint) list" where
  "routes =
    [(''POST'', [Lit ''api'', Lit ''login''], PostLogin),
     (''GET'', [Lit ''login''], GetLoginPage),
     (''GET'', [Lit ''api'', Lit ''meta''], Admin GetMeta),
     (''GET'', [Lit ''api'', Lit ''session''], Admin GetSession),
     (''POST'', [Lit ''api'', Lit ''logout''], Admin PostLogout),
     (''GET'', [Lit ''api'', Lit ''jobs''], Admin GetJobs),
     (''POST'', [Lit ''api'', Lit ''jobs''], Admin PostJob),
     (''GET'', [Lit ''api'', Lit ''jobs'', Wild], Admin GetJob),
     (''PUT'', [Lit ''api'', Lit ''jobs'', Wild], Admin PutJob),
     (''DELETE'', [Lit ''api'', Lit ''jobs'', Wild], Admin DeleteJob),
     (''POST'', [Lit ''api'', Lit ''jobs'', Wild, Lit ''runs''], Admin PostJobRun),
     (''GET'', [Lit ''api'', Lit ''catalogs''], Admin GetCatalogs),
     (''POST'', [Lit ''api'', Lit ''catalogs''], Admin PostCatalog),
     (''GET'', [Lit ''api'', Lit ''catalogs'', Wild], Admin GetCatalog),
     (''PUT'', [Lit ''api'', Lit ''catalogs'', Wild], Admin PutCatalog),
     (''DELETE'', [Lit ''api'', Lit ''catalogs'', Wild], Admin DeleteCatalog),
     (''GET'', [Lit ''api'', Lit ''agents''], Admin GetAgents),
     (''POST'', [Lit ''api'', Lit ''agents''], Admin PostAgent),
     (''GET'', [Lit ''api'', Lit ''agents'', Wild], Admin GetAgent),
     (''PUT'', [Lit ''api'', Lit ''agents'', Wild], Admin PutAgent),
     (''DELETE'', [Lit ''api'', Lit ''agents'', Wild], Admin DeleteAgent),
     (''POST'', [Lit ''api'', Lit ''agents'', Wild, Lit ''token''], Admin PostAgentToken),
     (''DELETE'', [Lit ''api'', Lit ''agents'', Wild, Lit ''token''], Admin DeleteAgentToken),
     (''GET'', [Lit ''api'', Lit ''queue''], Admin GetQueue),
     (''POST'', [Lit ''api'', Lit ''queue'', Lit ''cancel''], Admin PostQueueCancel),
     (''GET'', [Lit ''api'', Lit ''runs''], Admin GetRuns),
     (''GET'', [Lit ''api'', Lit ''runs'', Wild], Admin GetRun),
     (''GET'', [Lit ''api'', Lit ''runs'', Wild, Lit ''log''], Admin GetRunLog),
     (''POST'', [Lit ''api'', Lit ''runs'', Wild, Lit ''cancel''], Admin PostRunCancel),
     (''POST'', [Lit ''api'', Lit ''runs'', Wild, Lit ''rerun''], Admin PostRunRerun),
     (''POST'', [Lit ''api'', Lit ''runs'', Wild, Lit ''resolve''], Admin PostRunResolve),
     (''DELETE'', [Lit ''api'', Lit ''runs'', Wild], Admin DeleteRun),
     (''GET'', [Lit ''api'', Lit ''config''], Admin GetConfig),
     (''POST'', [Lit ''api'', Lit ''config''], Admin PostConfig),
     (''GET'', [Lit ''api'', Lit ''tokens''], Admin GetTokens),
     (''POST'', [Lit ''api'', Lit ''tokens''], Admin PostToken),
     (''DELETE'', [Lit ''api'', Lit ''tokens'', Wild], Admin DeleteToken),
     (''POST'', [Lit ''api'', Lit ''agent'', Lit ''v1'', Lit ''poll''], Agent AgentPoll),
     (''POST'', [Lit ''api'', Lit ''agent'', Lit ''v1'', Lit ''permit''], Agent AgentPermit),
     (''POST'', [Lit ''api'', Lit ''agent'', Lit ''v1'', Lit ''heartbeat''], Agent AgentHeartbeat),
     (''POST'', [Lit ''api'', Lit ''agent'', Lit ''v1'', Lit ''log''], Agent AgentLog),
     (''POST'', [Lit ''api'', Lit ''agent'', Lit ''v1'', Lit ''result''], Agent AgentResult),
     (''POST'', [Lit ''api'', Lit ''agent'', Lit ''v1'', Lit ''attention''], Agent AgentAttention)]"

fun match_path :: "segment list \<Rightarrow> string list \<Rightarrow> string \<Rightarrow> string option" where
  "match_path [] [] i = Some i"
| "match_path (Lit l # ps) (seg # segs) i = (if seg = l then match_path ps segs i else None)"
| "match_path (Wild # ps) (seg # segs) i = (if seg \<noteq> '''' then match_path ps segs seg else None)"
| "match_path _ _ i = None"

definition match_method :: "string \<Rightarrow> string \<Rightarrow> bool" where
  "match_method pat m \<longleftrightarrow> m = pat \<or> pat = ''GET'' \<and> m = ''HEAD''"

fun route_in :: "(string \<times> segment list \<times> endpoint) list \<Rightarrow> string \<Rightarrow> string list \<Rightarrow> (endpoint \<times> string) option" where
  "route_in [] m segs = None"
| "route_in ((pm, pattern, e) # rest) m segs =
     (if match_method pm m then
        (case match_path pattern segs '''' of Some i \<Rightarrow> Some (e, i) | None \<Rightarrow> route_in rest m segs)
      else route_in rest m segs)"

definition route :: "http_request \<Rightarrow> string list \<Rightarrow> (endpoint \<times> string) option" where
  "route r segs = route_in routes (rq_Method r) segs"

section \<open>Serving\<close>

record 'd bodies =
  bd_job :: "JobConfig option"
  bd_catalog :: "CatalogConfig option"
  bd_agent :: "AgentDefinition option"
  bd_params :: "(string gomap) option"
  bd_ids :: "(string list) option"
  bd_name :: "string option"
  bd_document :: "'d document_body"
  bd_poll :: "AgentPollRequest option"
  bd_permit :: "AgentPermitRequest option"
  bd_heartbeat :: "AgentHeartbeatRequest option"
  bd_log :: "AgentLogRequest option"
  bd_result :: "AgentResultRequest option"
  bd_attention :: "AgentAttentionRequest option"

text \<open>Everything a request meets outside: clocks, random draws, failing calls, interference of other
  processes with the files, what wakes a waiting handler, and the decoded body.\<close>

record 'd call_env =
  ca_net :: net_env
  ca_auth :: auth_calls
  ca_login :: login_env
  ca_cfg :: "'d cfg_env"
  ca_now :: time
  ca_now2 :: time
  ca_op :: op_env
  ca_ops :: "nat \<Rightarrow> op_env"
  ca_gen :: "nat \<Rightarrow> string"
  ca_cred :: cred_env
  ca_cred2 :: cred_env
  ca_creds :: "nat \<Rightarrow> cred_env"
  ca_draw :: token_draw
  ca_wait :: wait_env
  ca_logread :: log_read
  ca_read_fails :: bool
  ca_poll :: poll_env
  ca_events :: "poll_event list"
  ca_logio :: log_io
  ca_body :: "'d bodies"

fun admin_handler ::
    "'d call_env \<Rightarrow> http_request \<Rightarrow> admin_endpoint \<Rightarrow> string \<Rightarrow> ('d payload, 'd ControllerAPI) handler" where
  "admin_handler env r GetMeta i = handleMeta"
| "admin_handler env r GetSession i = handleSession"
| "admin_handler env r PostLogout i = handleLogout r"
| "admin_handler env r GetJobs i = handleListJobs (ca_now env)"
| "admin_handler env r PostJob i = handleCreateJob (ca_cfg env) (bd_job (ca_body env))"
| "admin_handler env r GetJob i = handleGetJob (ca_now env) i"
| "admin_handler env r PutJob i = handleUpdateJob (ca_cfg env) i (bd_job (ca_body env))"
| "admin_handler env r DeleteJob i = handleDeleteJob (ca_cfg env) i"
| "admin_handler env r PostJobRun i =
     handleRunJob (ca_op env) (ca_gen env) (ca_wait env) r (bd_params (ca_body env)) i"
| "admin_handler env r GetCatalogs i = handleListCatalogs"
| "admin_handler env r PostCatalog i = handleCreateCatalog (ca_cfg env) (bd_catalog (ca_body env))"
| "admin_handler env r GetCatalog i = handleGetCatalog i"
| "admin_handler env r PutCatalog i = handleUpdateCatalog (ca_cfg env) i (bd_catalog (ca_body env))"
| "admin_handler env r DeleteCatalog i = handleDeleteCatalog (ca_cfg env) i"
| "admin_handler env r GetAgents i = handleListAgents (ca_creds env) (ca_now env)"
| "admin_handler env r PostAgent i = handleCreateAgent (ca_cfg env) (bd_agent (ca_body env))"
| "admin_handler env r GetAgent i = handleGetAgent (ca_creds env) (ca_now env) i"
| "admin_handler env r PutAgent i = handleUpdateAgent (ca_cfg env) i (bd_agent (ca_body env))"
| "admin_handler env r DeleteAgent i = handleDeleteAgent (ca_cfg env) (ca_cred env) (ca_now env) i"
| "admin_handler env r PostAgentToken i =
     handleRotateAgentToken (ac_crypto (ca_auth env)) (ca_cred env) (ca_draw env) i"
| "admin_handler env r DeleteAgentToken i = handleRevokeAgentToken (ca_cred env) i"
| "admin_handler env r GetQueue i = handleQueue (ca_creds env) (ca_now env) (ca_now2 env)"
| "admin_handler env r PostQueueCancel i = handleQueueCancel (ca_ops env) (bd_ids (ca_body env))"
| "admin_handler env r GetRuns i = handleListRuns r"
| "admin_handler env r GetRun i = handleGetRun (ca_wait env) r i"
| "admin_handler env r GetRunLog i = handleRunLog (ca_logread env) r i"
| "admin_handler env r PostRunCancel i = handleCancelRun (ca_op env) i"
| "admin_handler env r PostRunRerun i = handleRerunRun (ca_op env) (ca_gen env) i"
| "admin_handler env r PostRunResolve i = handleResolveRun (ca_op env) r i"
| "admin_handler env r DeleteRun i = handleDeleteRun (op_io (ca_op env)) i"
| "admin_handler env r GetConfig i = handleGetConfigDocument (ca_read_fails env)"
| "admin_handler env r PostConfig i = handleSaveConfigDocument (ca_cfg env) (bd_document (ca_body env))"
| "admin_handler env r GetTokens i = handleListTokens (ca_cred env) (ca_cred2 env)"
| "admin_handler env r PostToken i =
     handleCreateToken (ac_crypto (ca_auth env)) (ca_cred env) (ca_draw env) (bd_name (ca_body env))"
| "admin_handler env r DeleteToken i = handleRevokeToken (ca_cred env) i"

text \<open>The replies of the agent protocol as responses.\<close>

definition agent_reply ::
    "('a \<Rightarrow> 'd payload) \<Rightarrow> 'a reply \<times> Controller \<Rightarrow> 'd ControllerAPI \<Rightarrow> 'd payload response \<times> 'd ControllerAPI" where
  "agent_reply wrap result s =
     (case result of
        (rep, c) \<Rightarrow>
          (case rep of
             Answer x \<Rightarrow> Reply (wrap x)
           | Refused status message \<Rightarrow> Failed status message
           | Dropped \<Rightarrow> Aborted, s\<lparr>api_controller := c\<rparr>))"

fun agent_handler :: "'d call_env \<Rightarrow> agent_endpoint \<Rightarrow> ('d payload, 'd ControllerAPI) handler" where
  "agent_handler env AgentPoll who s =
     agent_reply P_AgentPoll
       (handleAgentPoll (ca_poll env) (pr_AgentID who) (bd_poll (ca_body env)) (ca_events env) (api_controller s)) s"
| "agent_handler env AgentPermit who s =
     agent_reply P_AgentPermit
       (handleAgentPermit (ca_op env) (pr_AgentID who) (bd_permit (ca_body env)) (api_controller s)) s"
| "agent_handler env AgentHeartbeat who s =
     agent_reply P_AgentHeartbeat
       (handleAgentHeartbeat (ca_now env) (pr_AgentID who) (bd_heartbeat (ca_body env)) (api_controller s)) s"
| "agent_handler env AgentLog who s =
     agent_reply P_AgentLog
       (handleAgentLog (ca_logio env) (ca_op env) (pr_AgentID who) (bd_log (ca_body env)) (api_controller s)) s"
| "agent_handler env AgentResult who s =
     agent_reply P_AgentResult
       (handleAgentResult (ca_read_fails env) (ca_op env) (pr_AgentID who) (bd_result (ca_body env)) (api_controller s)) s"
| "agent_handler env AgentAttention who s =
     agent_reply (\<lambda>_. P_OK)
       (handleAgentAttention (ca_op env) (pr_AgentID who) (bd_attention (ca_body env)) (api_controller s)) s"

fun handle_endpoint ::
    "'d call_env \<Rightarrow> http_request \<Rightarrow> endpoint \<Rightarrow> string \<Rightarrow> 'd ControllerAPI \<Rightarrow> 'd payload response \<times> 'd ControllerAPI" where
  "handle_endpoint env r PostLogin i s = handleLogin (ca_login env) (ca_net env) r s"
| "handle_endpoint env r GetLoginPage i s = (serveWebFile (ca_net env) r ''login/index.html'', s)"
| "handle_endpoint env r (Admin e) i s = requireAdmin (ca_auth env) (ca_net env) r (admin_handler env r e i) s"
| "handle_endpoint env r (Agent e) i s = requireAgent (ca_auth env) r (agent_handler env e) s"

definition serve ::
    "'d call_env \<Rightarrow> http_request \<Rightarrow> 'd ControllerAPI \<Rightarrow> 'd payload response \<times> 'd ControllerAPI" where
  "serve env r s =
     (case rq_Segments r of
        None \<Rightarrow> (RedirectTo (clean (rq_Path r)), s)
      | Some segs \<Rightarrow>
          (case route r segs of
             None \<Rightarrow> handlePage (ca_auth env) (ca_net env) r s
           | Some (e, i) \<Rightarrow> handle_endpoint env r e i s))"

end
