(* ===== verification/Auth_Props.thy ===== *)
theory Auth_Props
  imports Ctrl_Http Validate_Props
begin

text \<open>
  The life of an agent's token: issued, presented, rotated, revoked, while other operations and other
  processes change the credential file.
\<close>

section \<open>Steps that do not enrol an agent\<close>

definition tokens_for :: "string \<Rightarrow> AuthStore \<Rightarrow> TokenRecord set" where
  "tokens_for i a =
     (case file_document a of None \<Rightarrow> {} | Some d \<Rightarrow> {t \<in> set (cf_AgentTokens d). tk_AgentID t = i})"

text \<open>Everything that can happen to the credentials short of issuing a token for the agent \<open>i\<close>: the other
  operations of the store (a lookup is a reload), each with any failing calls, and edits of the file by other processes.\<close>

inductive cred_step :: "crypto \<Rightarrow> string \<Rightarrow> AuthStore \<Rightarrow> AuthStore \<Rightarrow> bool" for cry i where
  looked_up: "undisturbed env \<Longrightarrow> reloadLocked env a = (r, a') \<Longrightarrow> cred_step cry i a a'"
| password: "undisturbed env \<Longrightarrow> fresh_stamp env a \<Longrightarrow>
     SetAdminPassword cry env salt now username password a = (r, a') \<Longrightarrow> cred_step cry i a a'"
| api_issued: "undisturbed env \<Longrightarrow> fresh_stamp env a \<Longrightarrow>
     IssueAPIToken cry env draw name a = (rt, a') \<Longrightarrow> cred_step cry i a a'"
| other_issued: "undisturbed env \<Longrightarrow> fresh_stamp env a \<Longrightarrow> j \<noteq> i \<Longrightarrow>
     IssueAgentToken cry env draw j a = (rt, a') \<Longrightarrow> cred_step cry i a a'"
| api_revoked: "undisturbed env \<Longrightarrow> fresh_stamp env a \<Longrightarrow> RevokeAPIToken env t a = (r, a') \<Longrightarrow> cred_step cry i a a'"
| revoked: "undisturbed env \<Longrightarrow> fresh_stamp env a \<Longrightarrow> RevokeAgentToken env j a = (r, a') \<Longrightarrow> cred_step cry i a a'"
| edited: "\<forall>st \<in> snd ` set_option f. st \<noteq> au_stamp a \<Longrightarrow> tokens_for i (a\<lparr>au_file := f\<rparr>) \<subseteq> tokens_for i a \<Longrightarrow>
     cred_step cry i a (a\<lparr>au_file := f\<rparr>)"

abbreviation cred_run :: "crypto \<Rightarrow> string \<Rightarrow> AuthStore \<Rightarrow> AuthStore \<Rightarrow> bool" where
  "cred_run cry i \<equiv> (cred_step cry i)\<^sup>*\<^sup>*"

lemma mutate_tokens:
  assumes "coherent a" "undisturbed env" "fresh_stamp env a" "AuthStore_mutate env fn a = (r, a')"
    and "\<And>d d'. fn d = Inr d' \<Longrightarrow> cf_Version d' = cf_Version d
           \<and> {t \<in> set (cf_AgentTokens d'). tk_AgentID t = i} \<subseteq> {t \<in> set (cf_AgentTokens d). tk_AgentID t = i}"
  shows "coherent a' \<and> tokens_for i a' \<subseteq> tokens_for i a"
proof (rule AuthStore_mutate_cases [OF assms(1,2,4)], goal_cases)
  case (1 d d')
  then show ?case using assms(5) by simp
next
  case (2 d d')
  with assms(5) [of d d'] show ?case by (auto simp: tokens_for_def)
next
  case (3 err)
  then show ?case by (simp add: tokens_for_def)
next
  case (4 d d')
  with assms(3) assms(5) [of d d'] show ?case by (auto simp: tokens_for_def)
qed

lemma cred_step_keeps:
  assumes "cred_step cry i a a'" "coherent a"
  shows "coherent a' \<and> tokens_for i a' \<subseteq> tokens_for i a"
  using assms(1)
proof cases
  case (looked_up env r)
  with reloadLocked_coherent [OF assms(2)] show ?thesis by (simp add: tokens_for_def)
next
  case (password env salt now username pw r)
  show ?thesis
  proof (cases "a' = a")
    case False
    with password(3) obtain fn where "AuthStore_mutate env (\<lambda>d. Inr (d\<lparr>cf_Admin := fn\<rparr>)) a = (r, a')"
      by (auto simp: SetAdminPassword_def Let_def split: if_splits option.splits)
    then show ?thesis by (rule mutate_tokens [OF assms(2) password(1,2)]) auto
  qed (simp add: assms(2))
next
  case (api_issued env draw name rt)
  show ?thesis
  proof (cases "a' = a")
    case False
    with api_issued(3) obtain t r where "AuthStore_mutate env (\<lambda>d. Inr (add_token t '''' d)) a = (r, a')"
      by (auto simp: IssueAPIToken_def issueToken_def Let_def split: option.splits prod.splits)
    then show ?thesis by (rule mutate_tokens [OF assms(2) api_issued(1,2)]) (auto simp: add_token_def)
  qed (simp add: assms(2))
next
  case (other_issued env j draw rt)
  show ?thesis
  proof (cases "a' = a")
    case False
    with other_issued(4) obtain t r where "AuthStore_mutate env (\<lambda>d. Inr (add_token t j d)) a = (r, a')" "tk_AgentID t = j"
      by (force simp: IssueAgentToken_def issueToken_def Let_def split: option.splits prod.splits if_splits)
    then show ?thesis using other_issued(3)
      by (intro mutate_tokens [OF assms(2) other_issued(1,2)]) (auto simp: add_token_def split: if_splits)
  qed (simp add: assms(2))
next
  case (api_revoked env t r)
  then show ?thesis unfolding RevokeAPIToken_def
    by (intro mutate_tokens [OF assms(2) api_revoked(1,2)]) (auto split: if_splits)
next
  case (revoked env j r)
  then show ?thesis unfolding RevokeAgentToken_def
    by (intro mutate_tokens [OF assms(2) revoked(1,2)]) (auto split: if_splits)
next
  case (edited f)
  with assms(2) show ?thesis by (auto simp: coherent_def split: option.splits)
qed

lemma cred_run_keeps:
  assumes "cred_run cry i a a'" "coherent a"
  shows "coherent a' \<and> tokens_for i a' \<subseteq> tokens_for i a"
  using assms by (induction rule: rtranclp_induct) (use cred_step_keeps in blast)+

section \<open>Presenting a token\<close>

lemma of_char_char_of_int: "(of_char (char_of (k :: int)) :: nat) = nat (k mod 256)"
  by (metis nat_of_char of_char_of)

lemma b64_char_ident [simp]: "0 \<le> n \<Longrightarrow> ident_char (b64_char n)"
  by (auto simp: b64_char_def ident_char_def less_eq_char_def of_char_char_of_int)

lemma b64_ident: "list_all ident_char (b64_encode raw)"
  by (induction raw rule: b64_encode.induct) (simp_all add: Let_def of_char_int pos_imp_zdiv_nonneg_iff)

lemma b64_nonempty: "raw \<noteq> '''' \<Longrightarrow> b64_encode raw \<noteq> ''''"
  by (cases raw rule: b64_encode.cases) (simp_all add: Let_def)

lemma bearerToken_secret:
  assumes "raw \<noteq> ''''" "rq_Authorization r = ''Bearer '' @ b64_encode raw"
  shows "bearerToken r = b64_encode raw"
proof -
  let ?s = "b64_encode raw"
  have s: "?s \<noteq> ''''" "ident_char (last ?s)"
    using b64_nonempty [OF assms(1)] b64_ident [of raw] by (auto simp: list_all_iff)
  have "trim_space (''Bearer '' @ ?s) = ''Bearer '' @ ?s"
    by (rule trim_ends) (use s in \<open>simp_all add: ident_char_def less_eq_char_def\<close>)
  moreover have "equal_fold ''Bearer'' ''Bearer''" by (simp add: equal_fold_def)
  ultimately show ?thesis
    using assms(2) trim_ident [OF b64_ident] by (simp add: bearerToken_def)
qed

section \<open>The property\<close>

lemma issued_tokens:
  assumes "coherent a" "undisturbed env" "IssueAgentToken cry env draw i a = (Inr (secret, record), a1)"
  obtains d where "file_document a = Some d" "file_document a1 = Some (add_token record i d)" "coherent a1"
    "tk_AgentID record = i" "tk_Hash record = hashToken cry secret" "i \<noteq> ''''"
    "\<exists>raw. td_raw draw = Some raw \<and> secret = b64_encode raw"
proof -
  from assms(3) have v: "validIdentifier i" "issueToken cry env draw '''' i a = (Inr (secret, record), a1)"
    by (auto simp: IssueAgentToken_def split: if_splits)
  from issueToken_Inr [OF assms(1,2) v(2)] v(1) that show thesis by (force simp: validIdentifier_def)
qed

lemma verify_in_tokens:
  assumes "coherent a" "undisturbed env" "VerifyAgentToken cry env s a = (Some t, a')" "tk_AgentID t = i"
  shows "t \<in> tokens_for i a \<and> tk_Hash t = hashToken cry s"
proof -
  obtain d where "file_document a = Some d" "t \<in> set (cf_AgentTokens d)" "tk_Hash t = hashToken cry s"
    by (rule VerifyAgentToken_Some [OF assms(1-3)])
  with assms(4) show ?thesis by (simp add: tokens_for_def)
qed


text \<open>The agent \<^verbatim>\<open>a1\<close> is enrolled and then its token is rotated; afterwards an automation token is issued.\<close>

definition sample_crypto :: crypto where
  "sample_crypto = \<lparr>cry_sha256 = (\<lambda>s. ''#'' @ s), cry_pbkdf2 = (\<lambda>p salt n len. Some (take len (p @ salt)))\<rparr>"

definition sample_cred :: "int \<Rightarrow> cred_env" where
  "sample_cred n = \<lparr>ce_stat_fails = False, ce_read_fails = False, ce_during_read = id, ce_before_write = id,
     ce_io = io_ok, ce_stamp = \<lparr>fs_modTime = n, fs_size = 300\<rparr>, ce_before_stat = id, ce_restat_fails = False\<rparr>"

definition sample_draw :: "string \<Rightarrow> token_draw" where
  "sample_draw raw = \<lparr>td_raw = Some raw, td_id = ''t'' @ raw, td_now = 40\<rparr>"

definition sample_auth0 :: AuthStore where
  "sample_auth0 = \<lparr>au_file = None, au_data = empty_credentials, au_stamp = zero_stamp\<rparr>"

definition sample_auth1 :: AuthStore where
  "sample_auth1 = snd (IssueAgentToken sample_crypto (sample_cred 1) (sample_draw ''old'') ''a1'' sample_auth0)"

definition sample_auth2 :: AuthStore where
  "sample_auth2 = snd (IssueAgentToken sample_crypto (sample_cred 2) (sample_draw ''new'') ''a1'' sample_auth1)"

definition sample_auth3 :: AuthStore where
  "sample_auth3 = snd (IssueAPIToken sample_crypto (sample_cred 3) (sample_draw ''ci'') ''ci'' sample_auth2)"

lemma sample_cred_undisturbed [simp]: "undisturbed (sample_cred n)"
  by (simp add: undisturbed_def sample_cred_def)

lemma sample_auth1_coherent: "coherent sample_auth1"
  by code_simp


end
