(* ===== verification/Config_Props.thy ===== *)
theory Config_Props
  imports Ctrl_Config Validate_Props
begin

text \<open>
  Editing the controller's configuration: whatever happens, the configuration in memory is a validated
  one and agrees with the file whenever the file has the remembered stamp; an edit is applied on top of
  the very document it replaces.  The law assumed of the YAML package is that it reads back what it wrote.
\<close>

section \<open>Documents and memory\<close>

definition yaml_reads_back :: "'d yaml \<Rightarrow> bool" where
  "yaml_reads_back y \<longleftrightarrow>
     (\<forall>cfg d. ya_marshal y cfg = Some d \<longrightarrow> ya_unmarshal y d = Some cfg \<and> ya_role y d = Some (cfg_Role cfg))"

definition document_config :: "'d cfg_env \<Rightarrow> 'd \<Rightarrow> config_error + ControllerConfig" where
  "document_config env d =
     (case requireConfigRole (cg_yaml env) d RoleController of
        Some err \<Rightarrow> Inl err
      | None \<Rightarrow> parseControllerConfig (cg_parse env) (cg_yaml env) d)"

definition valid_config :: "(string \<Rightarrow> int option) \<Rightarrow> ControllerConfig \<Rightarrow> bool" where
  "valid_config parse cfg \<longleftrightarrow> validateControllerConfig parse cfg = Inr cfg \<and> cfg_Role cfg = RoleController"

definition in_step :: "'d cfg_env \<Rightarrow> Controller \<Rightarrow> 'd cfg_file \<Rightarrow> bool" where
  "in_step env c f \<longleftrightarrow>
     (case f of None \<Rightarrow> True | Some (d, st) \<Rightarrow> st = c_configStamp c \<longrightarrow> document_config env d = Inr (c_cfg c))"

text \<open>Edits of other processes give the file a stamp that it did not have and that is not remembered;
  so does the write of this process.\<close>

definition new_stamp :: "Controller \<Rightarrow> 'd cfg_file \<Rightarrow> fileStamp \<Rightarrow> bool" where
  "new_stamp c f st \<longleftrightarrow> st \<noteq> c_configStamp c \<and> st \<notin> snd ` set_option f"

definition edits_stamped :: "'d cfg_env \<Rightarrow> Controller \<Rightarrow> 'd cfg_file \<Rightarrow> bool" where
  "edits_stamped env c f \<longleftrightarrow>
     (\<forall>x. cg_during_read env x = x \<or> (\<forall>st \<in> snd ` set_option (cg_during_read env x). new_stamp c f st))
     \<and> (\<forall>x. cg_before_guard env x = x \<or> (\<forall>st \<in> snd ` set_option (cg_before_guard env x). new_stamp c f st))
     \<and> new_stamp c f (cg_stamp env)"

definition undisturbed_write :: "'d cfg_env \<Rightarrow> bool" where
  "undisturbed_write env \<longleftrightarrow> (\<forall>f. cg_before_write env f = f) \<and> (\<forall>f. cg_before_stat env f = f)"

lemma validate_role: "validateControllerConfig parse cfg = Inr cfg' \<Longrightarrow> cfg_Role cfg' = cfg_Role cfg"
  unfolding validate_cases by auto

lemma parse_valid:
  assumes "parseControllerConfig parse y d = Inr cfg"
  shows "valid_config parse cfg"
  using assms validate_role validateControllerConfig_fixed
  by (fastforce simp: parseControllerConfig_def valid_config_def split: option.splits sum.splits)

lemma valid_role_update: "valid_config parse cfg \<Longrightarrow> cfg\<lparr>cfg_Role := RoleController\<rparr> = cfg"
  by (simp add: valid_config_def)

lemma document_config_valid: "document_config env d = Inr cfg \<Longrightarrow> valid_config (cg_parse env) cfg"
  by (auto simp: document_config_def split: option.splits intro: parse_valid)

lemma role_accepted: "to_lower (trim_space RoleController) = RoleController"
  by code_simp

lemma document_of_marshal:
  assumes "yaml_reads_back (cg_yaml env)" "valid_config (cg_parse env) cfg"
    "marshalControllerConfig (cg_yaml env) cfg = Some d"
  shows "document_config env d = Inr cfg"
proof -
  from assms have "ya_unmarshal (cg_yaml env) d = Some cfg" "ya_role (cg_yaml env) d = Some RoleController"
    by (auto simp: yaml_reads_back_def marshalControllerConfig_def valid_config_def)
  with assms(2) valid_role_update [OF assms(2)] show ?thesis
    by (simp add: document_config_def requireConfigRole_def detectConfigRole_def parseControllerConfig_def
        role_accepted Let_def) (simp add: valid_config_def)
qed

lemma loadControllerConfig_Inr:
  "loadControllerConfig (cg_parse env) (cg_yaml env) fails f = Inr cfg \<Longrightarrow>
     \<exists>d st. f = Some (d, st) \<and> document_config env d = Inr cfg"
  by (auto simp: loadControllerConfig_def document_config_def split: if_splits option.splits)

section \<open>Applying, reloading, replacing\<close>

text \<open>A reconfiguration: the configuration, the values derived from it, the stamp, and the history cap
  of the store.\<close>

definition reconfigures :: "ControllerConfig \<Rightarrow> fileStamp \<Rightarrow> Controller \<Rightarrow> Controller \<Rightarrow> bool" where
  "reconfigures cfg stamp c c' \<longleftrightarrow>
     (\<exists>rt io n err s. SetMaxHistory io n (c_store c) = (err, s)
        \<and> c' = c\<lparr>c_cfg := cfg, c_runtime := rt, c_configStamp := stamp, c_store := s\<rparr>)"

lemma reconfigures_simps:
  "reconfigures cfg stamp c c' \<Longrightarrow> c_cfg c' = cfg \<and> c_configStamp c' = stamp \<and> c_live c' = c_live c"
  by (auto simp: reconfigures_def)

lemma applyConfig_valid:
  assumes "valid_config parse cfg" "applyConfig parse io cfg stamp c = (r, c')"
  shows "reconfigures cfg stamp c c' \<and> (r = None \<or> (\<exists>err. r = Some (ErrConfigStore err)))"
proof -
  have "durations_ok parse (cfg_Server cfg)"
    using assms(1) validated_parts by (auto simp: valid_config_def)
  from runtime_exists [OF this] obtain rt where "controllerRuntime parse (rt_ConfigPath (c_runtime c)) cfg = Inr rt"
    by blast
  with assms(2) obtain rt' err s where s: "SetMaxHistory io (rt_MaxHistory rt) (c_store c) = (err, s)"
      "r = map_option ErrConfigStore err"
      "c' = c\<lparr>c_cfg := cfg, c_runtime := rt', c_configStamp := stamp, c_store := s\<rparr>"
    by (auto simp: applyConfig_def Let_def split: prod.splits)
  then have "reconfigures cfg stamp c c'" unfolding reconfigures_def by blast
  with s(2) show ?thesis by (cases err) auto
qed

lemma reload_cases:
  assumes "reloadConfigIfChanged env c f = (r, c1, f1)"
  obtains (kept) "c1 = c" "f1 = f \<or> f1 = cg_during_read env f"
      "r = None \<longrightarrow> f1 = f \<and> (trim_space (rt_ConfigPath (c_runtime c)) = '''' \<or> (\<exists>d. f = Some (d, c_configStamp c)))"
    | (reloaded) d st d' st' where "f = Some (d, st)" "st \<noteq> c_configStamp c" "f1 = cg_during_read env f"
      "f1 = Some (d', st')" "document_config env d' = Inr (c_cfg c1)" "reconfigures (c_cfg c1) st c c1"
proof (cases "\<exists>d st. f = Some (d, st) \<and> st \<noteq> c_configStamp c \<and> trim_space (rt_ConfigPath (c_runtime c)) \<noteq> ''''
    \<and> \<not> cg_stat_fails env \<and> \<not> isl (loadControllerConfig (cg_parse env) (cg_yaml env) (cg_read_fails env) (cg_during_read env f))")
  case True
  then obtain d st cfg where f: "f = Some (d, st)" "st \<noteq> c_configStamp c"
      "trim_space (rt_ConfigPath (c_runtime c)) \<noteq> ''''" "\<not> cg_stat_fails env"
    and l: "loadControllerConfig (cg_parse env) (cg_yaml env) (cg_read_fails env) (cg_during_read env f) = Inr cfg"
    by (auto simp: isl_def) (metis sum.exhaust)
  from loadControllerConfig_Inr [OF l] obtain d' st'
    where d': "cg_during_read env f = Some (d', st')" "document_config env d' = Inr cfg" by blast
  obtain e c2 where ap: "applyConfig (cg_parse env) (cg_reload_io env) cfg st c = (e, c2)"
    by (cases "applyConfig (cg_parse env) (cg_reload_io env) cfg st c")
  have "reconfigures cfg st c c2" using applyConfig_valid [OF document_config_valid [OF d'(2)] ap] by blast
  moreover have "c1 = c2" "f1 = cg_during_read env f"
    using assms f l ap by (auto simp: reloadConfigIfChanged_def Let_def)
  ultimately show thesis using f d' reconfigures_simps [of cfg st c c2] by (intro reloaded) auto
next
  case False
  with assms show thesis
    by (intro kept) (auto simp: reloadConfigIfChanged_def Let_def isl_def split: if_splits option.splits sum.splits)
qed

lemma in_step_edit:
  assumes "in_step env c f" "x = f \<or> c_configStamp c \<notin> snd ` set_option x"
  shows "in_step env c x"
  using assms by (auto simp: in_step_def split: option.splits)

lemma reload_keeps:
  assumes "reloadConfigIfChanged env c f = (r, c1, f1)" "valid_config (cg_parse env) (c_cfg c)" "in_step env c f"
    "edits_stamped env c f"
  shows "valid_config (cg_parse env) (c_cfg c1) \<and> in_step env c1 f1
    \<and> (c_configStamp c1 = c_configStamp c \<or> c_configStamp c1 \<in> snd ` set_option f)
    \<and> (f1 = f \<or> f1 = cg_during_read env f)"
  using assms(1)
proof (cases rule: reload_cases)
  case kept
  have "in_step env c (cg_during_read env f)"
    by (rule in_step_edit [OF assms(3)]) (use assms(4) in \<open>auto simp: edits_stamped_def new_stamp_def\<close>)
  with kept assms(2,3) show ?thesis by auto
next
  case (reloaded d st d' st')
  have "in_step env c1 f1" using reloaded(4,5) by (simp add: in_step_def)
  with reloaded(1,3) reconfigures_simps [OF reloaded(6)] document_config_valid [OF reloaded(5)] show ?thesis
    by simp
qed

lemma replaceConfig_cases:
  assumes "replaceConfig env cfg guard True c f = (r, c', f')" "yaml_reads_back (cg_yaml env)" "undisturbed_write env"
  obtains (rejected) "c' = c" "f' = cg_before_guard env f" "r \<noteq> None"
    | (unreported) d where "r = Some ErrConfigIO" "c' = c" "f' = Some (d, cg_stamp env)"
    | (replaced) normalized d st where
        "case cg_before_guard env f of None \<Rightarrow> True | Some (_, onDisk) \<Rightarrow> onDisk = c_configStamp c \<and> onDisk = guard"
        "validateControllerConfig (cg_parse env) (cfg\<lparr>cfg_Role := RoleController\<rparr>) = Inr normalized"
        "f' = Some (d, cg_stamp env)" "document_config env d = Inr normalized"
        "reconfigures normalized st c c'" "st = cg_stamp env \<or> st = zero_stamp"
        "r = None \<or> (\<exists>err. r = Some (ErrConfigStore err))"
proof (cases "\<exists>data normalized data'. marshalControllerConfig (cg_yaml env) cfg = Some data
    \<and> parseControllerConfig (cg_parse env) (cg_yaml env) data = Inr normalized
    \<and> marshalControllerConfig (cg_yaml env) normalized = Some data' \<and> \<not> cg_guard_fails env
    \<and> (case cg_before_guard env f of None \<Rightarrow> True | Some (_, onDisk) \<Rightarrow> onDisk = c_configStamp c \<and> onDisk = guard)")
  case False
  with assms(1) show thesis
    by (intro rejected) (auto simp: replaceConfig_def Let_def split: if_splits option.splits sum.splits prod.splits)
next
  case True
  then obtain data normalized data' where m: "marshalControllerConfig (cg_yaml env) cfg = Some data"
      "parseControllerConfig (cg_parse env) (cg_yaml env) data = Inr normalized"
      "marshalControllerConfig (cg_yaml env) normalized = Some data'" "\<not> cg_guard_fails env"
    and guard: "case cg_before_guard env f of None \<Rightarrow> True | Some (_, onDisk) \<Rightarrow> onDisk = c_configStamp c \<and> onDisk = guard"
    by blast
  have valid: "valid_config (cg_parse env) normalized" by (rule parse_valid [OF m(2)])
  have doc: "document_config env data' = Inr normalized" by (rule document_of_marshal [OF assms(2) valid m(3)])
  have "ya_unmarshal (cg_yaml env) data = Some (cfg\<lparr>cfg_Role := RoleController\<rparr>)"
    using assms(2) m(1) by (auto simp: yaml_reads_back_def marshalControllerConfig_def)
  with m(2) have val: "validateControllerConfig (cg_parse env) (cfg\<lparr>cfg_Role := RoleController\<rparr>) = Inr normalized"
    by (auto simp: parseControllerConfig_def split: sum.splits)
  obtain ok f1 where w: "writeFileAtomicSync (cg_io env) (data', cg_stamp env) (cg_before_guard env f) = (ok, f1)"
    by (cases "writeFileAtomicSync (cg_io env) (data', cg_stamp env) (cg_before_guard env f)")
  then have f1: "f1 = Some (data', cg_stamp env) \<or> f1 = cg_before_guard env f \<and> \<not> ok"
    by (auto simp: writeFileAtomicSync_def split: if_splits)
  have nochange: "\<not> (case cg_before_guard env f of None \<Rightarrow> False
      | Some (_, onDisk) \<Rightarrow> onDisk \<noteq> c_configStamp c \<or> onDisk \<noteq> guard)"
    using guard by (auto split: option.splits)
  have bw: "cg_before_write env x = x" "cg_before_stat env x = x" for x
    using assms(3) by (simp_all add: undisturbed_write_def)
  show thesis
  proof (cases ok)
    case False
    with assms(1) m w nochange bw have "r = Some ErrConfigIO" "c' = c" "f' = f1"
      by (simp_all add: replaceConfig_def)
    with f1 rejected unreported show thesis by blast
  next
    case True
    with f1 have f1: "f1 = Some (data', cg_stamp env)" by blast
    define st where "st = (if cg_restat_fails env then zero_stamp else cg_stamp env)"
    obtain e c2 where ap: "applyConfig (cg_parse env) (cg_apply_io env) normalized st c = (e, c2)"
      by (cases "applyConfig (cg_parse env) (cg_apply_io env) normalized st c")
    have "r = e" "c' = c2" "f' = f1"
      using assms(1) m w nochange bw True f1 ap by (auto simp: replaceConfig_def st_def Let_def split: if_splits)
    with applyConfig_valid [OF valid ap] f1 guard val doc show thesis
      by (intro replaced [of normalized data' st]) (auto simp: st_def)
  qed
qed

section \<open>An edit\<close>

text \<open>The file as it is when the edit is about to replace it: after the reload, and after what other
  processes did until the stamp was compared.\<close>

definition replaced_file :: "'d cfg_env \<Rightarrow> Controller \<Rightarrow> 'd cfg_file \<Rightarrow> 'd cfg_file" where
  "replaced_file env c f = cg_before_guard env (snd (snd (reloadConfigIfChanged env c f)))"

lemma editConfig_cases:
  assumes "editConfig env fn c f = (r, c', f')" "reloadConfigIfChanged env c f = (e, c1, f1)"
  obtains (refused) "c' = c1" "f' = f1" "r \<noteq> None"
    | (edited) nxt where "fn (cloneControllerConfig (c_cfg c1)) = Inr nxt"
        "replaceConfig env nxt (c_configStamp c1) True c1 f1 = (r, c', f')"
  using assms by (auto simp: editConfig_def split: if_splits sum.splits)

lemma editConfig_keeps:
  assumes yaml: "yaml_reads_back (cg_yaml env)" and valid: "valid_config (cg_parse env) (c_cfg c)"
    and step: "in_step env c f" and edits: "edits_stamped env c f" and quiet: "undisturbed_write env"
    and nz: "cg_stamp env \<noteq> zero_stamp"
    and ed: "editConfig env fn c f = (r, c', f')"
  shows "valid_config (cg_parse env) (c_cfg c') \<and> in_step env c' f'
    \<and> (r = None \<longrightarrow>
        (\<exists>base next d. (case replaced_file env c f of None \<Rightarrow> True | Some (d0, _) \<Rightarrow> document_config env d0 = Inr base)
           \<and> fn base = Inr next
           \<and> validateControllerConfig (cg_parse env) (next\<lparr>cfg_Role := RoleController\<rparr>) = Inr (c_cfg c')
           \<and> f' = Some (d, cg_stamp env) \<and> document_config env d = Inr (c_cfg c')))
    \<and> (r \<noteq> None \<longrightarrow> f' \<in> {f, cg_during_read env f, replaced_file env c f}
        \<or> r = Some ErrConfigIO \<or> (\<exists>err. r = Some (ErrConfigStore err)))"
proof -
  obtain e c1 f1 where re: "reloadConfigIfChanged env c f = (e, c1, f1)" by (metis prod_cases3)
  note k = reload_keeps [OF re valid step edits]
  have rf: "replaced_file env c f = cg_before_guard env f1" by (simp add: replaced_file_def re)
  have guard: "in_step env c1 (cg_before_guard env f1)"
    by (rule in_step_edit [of _ _ f1]) (use k edits in \<open>auto simp: edits_stamped_def new_stamp_def\<close>)
  from ed re show ?thesis
  proof (cases rule: editConfig_cases)
    case refused
    with k show ?thesis by auto
  next
    case (edited nxt)
    from edited(2) yaml quiet show ?thesis
    proof (cases rule: replaceConfig_cases)
      case rejected
      with k guard rf show ?thesis by auto
    next
      case (unreported d)
      with k edits show ?thesis by (auto simp: in_step_def edits_stamped_def new_stamp_def)
    next
      case (replaced normalized d st)
      note rc = reconfigures_simps [OF replaced(5)]
      have base: "case replaced_file env c f of None \<Rightarrow> True | Some (d0, _) \<Rightarrow> document_config env d0 = Inr (c_cfg c1)"
        using guard replaced(1) by (auto simp: rf in_step_def split: option.splits)
      have "cloneControllerConfig (c_cfg c1) = c_cfg c1" using k valid_role_update by (auto simp: cloneControllerConfig_def)
      with replaced edited base rc document_config_valid [OF replaced(4)] nz show ?thesis
        by (auto simp: in_step_def)
    qed
  qed
qed

text \<open>Every edit is a sequence of reconfigurations of the controller's state machine.\<close>

lemma valid_named: "valid_config parse (c_cfg c) \<Longrightarrow> named_agents c"
  using validated_well_formed by (fastforce simp: valid_config_def config_ok_def named_agents_def agents_ok_def validIdentifier_def)

lemma reconfigures_reachable:
  assumes "reconfigures cfg stamp c c'" "valid_config parse cfg" "reachable_controller c"
  shows "reachable_controller c'"
proof -
  have n: "named_agents (c\<lparr>c_cfg := cfg\<rparr>)" using assms(2) by (intro valid_named) simp
  from assms(1) obtain rt io n err s where "SetMaxHistory io n (c_store c) = (err, s)"
    "c' = c\<lparr>c_cfg := cfg, c_runtime := rt, c_configStamp := stamp, c_store := s\<rparr>"
    by (auto simp: reconfigures_def)
  with reachable_controller.reconfigured [OF assms(3) n] show ?thesis by blast
qed

lemma reload_reachable:
  assumes "reloadConfigIfChanged env c f = (r, c1, f1)" "reachable_controller c"
  shows "reachable_controller c1"
  using assms(1)
proof (cases rule: reload_cases)
  case (reloaded d st d' st')
  show ?thesis by (rule reconfigures_reachable [OF reloaded(6) document_config_valid [OF reloaded(5)] assms(2)])
qed (use assms(2) in simp)

lemma editConfig_reachable:
  assumes "editConfig env fn c f = (r, c', f')" "yaml_reads_back (cg_yaml env)" "undisturbed_write env"
    "reachable_controller c"
  shows "reachable_controller c'"
proof -
  obtain e c1 f1 where re: "reloadConfigIfChanged env c f = (e, c1, f1)" by (metis prod_cases3)
  have r1: "reachable_controller c1" by (rule reload_reachable [OF re assms(4)])
  from assms(1) re show ?thesis
  proof (cases rule: editConfig_cases)
    case (edited nxt)
    from edited(2) assms(2,3) show ?thesis
    proof (cases rule: replaceConfig_cases)
      case (replaced normalized d st)
      show ?thesis by (rule reconfigures_reachable [OF replaced(5) document_config_valid [OF replaced(4)] r1])
    qed (use r1 in simp_all)
  qed (use r1 in simp)
qed

section \<open>The property\<close>


text \<open>An administrator adds a second agent to the sample configuration.  Documents are configurations,
  encoded as themselves.\<close>

definition sample_yaml :: "ControllerConfig yaml" where
  "sample_yaml = \<lparr>ya_role = Some \<circ> cfg_Role, ya_unmarshal = Some, ya_marshal = Some\<rparr>"

definition sample_cfg_env :: "ControllerConfig cfg_env" where
  "sample_cfg_env = \<lparr>cg_parse = sample_parse, cg_yaml = sample_yaml, cg_stat_fails = False, cg_during_read = id,
     cg_read_fails = False, cg_reload_io = io_ok, cg_state_missing = False, cg_before_guard = id, cg_guard_fails = False,
     cg_before_write = id, cg_io = io_ok, cg_stamp = \<lparr>fs_modTime = 7, fs_size = 420\<rparr>, cg_before_stat = id,
     cg_restat_fails = False, cg_apply_io = io_ok\<rparr>"

definition sample_cfg_file :: "ControllerConfig cfg_file" where
  "sample_cfg_file = Some (sample_normalized, \<lparr>fs_modTime = 5, fs_size = 400\<rparr>)"

definition sample_edit :: "ControllerConfig \<Rightarrow> config_error + ControllerConfig" where
  "sample_edit cfg = Inr (cfg\<lparr>cfg_Agents := cfg_Agents cfg
     @ [\<lparr>agd_ID = '' a2'', agd_Name = '''', agd_Description = '''', agd_Labels = [], agd_Enabled = None, agd_Paused = True\<rparr>]\<rparr>)"

definition sample_cfg_controller :: Controller where
  "sample_cfg_controller = \<lparr>c_cfg = sample_normalized,
     c_runtime = projr (controllerRuntime sample_parse ''/etc/builda/controller.yaml'' sample_normalized),
     c_configStamp = \<lparr>fs_modTime = 5, fs_size = 400\<rparr>,
     c_store = \<lparr>st_logDir = ''/var/lib/builda/logs'', st_maxHistory = 5000, st_data = empty_state, st_changed = 0,
                st_disk = None, st_logs = []\<rparr>, c_live = []\<rparr>"

lemma sample_valid: "valid_config sample_parse sample_normalized"
proof -
  have "cfg_Role sample_normalized = RoleController" by code_simp
  with validateControllerConfig_fixed [OF sample_validates] show ?thesis by (simp add: valid_config_def)
qed

lemma sample_reads_back: "yaml_reads_back (cg_yaml sample_cfg_env)"
  by (simp add: yaml_reads_back_def sample_yaml_def sample_cfg_env_def)

lemma sample_in_step: "in_step sample_cfg_env sample_cfg_controller sample_cfg_file"
proof -
  have "document_config sample_cfg_env sample_normalized = Inr sample_normalized"
  proof (rule document_of_marshal [OF sample_reads_back])
    show "valid_config (cg_parse sample_cfg_env) sample_normalized" using sample_valid by (simp add: sample_cfg_env_def)
    then show "marshalControllerConfig (cg_yaml sample_cfg_env) sample_normalized = Some sample_normalized"
      using valid_role_update by (auto simp: marshalControllerConfig_def sample_cfg_env_def sample_yaml_def)
  qed
  then show ?thesis by (simp add: in_step_def sample_cfg_file_def sample_cfg_controller_def)
qed

lemma sample_cfg_reachable: "reachable_controller sample_cfg_controller"
proof (rule reachable_controller.opened)
  show "named_agents sample_cfg_controller"
    by (rule valid_named [of sample_parse]) (simp add: sample_cfg_controller_def sample_valid)
  show "initial_store (c_store sample_cfg_controller)" by (simp add: initial_store_def sample_cfg_controller_def)
qed


end
