(* ===== verification/Access_Props.thy ===== *)
theory Access_Props
  imports Ctrl_Routes Auth_Props Config_Props Sample_States
begin

text \<open>
  Who may do what over HTTP: what an authentication stands for, and that no request reaches the
  controller's state, its files or its data without credentials.
\<close>

section \<open>What an authentication stands for\<close>

definition auth_env_ok :: "auth_calls \<Rightarrow> bool" where
  "auth_env_ok env \<longleftrightarrow> undisturbed (ac_agent env) \<and> undisturbed (ac_api env) \<and> undisturbed (ac_admin env)"

text \<open>The bearer token is that of the agent, or an automation token, on file at the time of the
  request.\<close>

definition agent_credentials :: "auth_calls \<Rightarrow> http_request \<Rightarrow> AuthStore \<Rightarrow> string \<Rightarrow> bool" where
  "agent_credentials env r a i \<longleftrightarrow>
     bearerToken r \<noteq> '''' \<and> (\<exists>d t. file_document a = Some d \<and> t \<in> set (cf_AgentTokens d)
       \<and> tk_Hash t = hashToken (ac_crypto env) (bearerToken r) \<and> tk_AgentID t = i)"

definition api_credentials :: "auth_calls \<Rightarrow> http_request \<Rightarrow> AuthStore \<Rightarrow> bool" where
  "api_credentials env r a \<longleftrightarrow>
     bearerToken r \<noteq> '''' \<and> (\<exists>d t. file_document a = Some d \<and> t \<in> set (cf_APITokens d)
       \<and> tk_Hash t = hashToken (ac_crypto env) (bearerToken r))"

text \<open>The session cookie names a session that has not expired and is not older than the admin password,
  when that can be read.\<close>

definition session_credentials :: "auth_calls \<Rightarrow> http_request \<Rightarrow> 'd ControllerAPI \<Rightarrow> Session \<Rightarrow> bool" where
  "session_credentials env r s se \<longleftrightarrow>
     bearerToken r = ''''
     \<and> (\<exists>cookie. rq_Cookie r = Some cookie \<and> cookie \<noteq> '''' \<and> (cookie, se) \<in> set (ss_sessions (api_sessions s)))
     \<and> ac_now env \<le> se_Expires se
     \<and> (\<forall>d admin. file_document (api_auth s) = Some d \<longrightarrow> cf_Admin d = Some admin
          \<longrightarrow> readable (ac_admin env) (api_auth s) \<longrightarrow> pw_UpdatedAt admin \<noteq> 0 \<longrightarrow> pw_UpdatedAt admin \<le> se_Created se)"

text \<open>What a lookup may do to the store: refresh the remembered document and stamp.\<close>

definition known_stamps :: "AuthStore \<Rightarrow> fileStamp set" where
  "known_stamps a = {au_stamp a, zero_stamp} \<union> snd ` set_option (au_file a)"

definition reads_only :: "AuthStore \<Rightarrow> AuthStore \<Rightarrow> bool" where
  "reads_only a a' \<longleftrightarrow> coherent a' \<and> au_file a' = au_file a \<and> au_stamp a' \<in> known_stamps a"

lemma reads_only_refl: "coherent a \<Longrightarrow> reads_only a a"
  by (simp add: reads_only_def known_stamps_def)

lemma reads_only_trans: "reads_only a b \<Longrightarrow> reads_only b c \<Longrightarrow> reads_only a c"
  by (auto simp: reads_only_def known_stamps_def)

lemma reads_only_document: "reads_only a a' \<Longrightarrow> file_document a' = file_document a"
  by (simp add: reads_only_def file_document_def)

lemma reloadLocked_reads:
  assumes "coherent a" "undisturbed env" "reloadLocked env a = (r, a')"
  shows "reads_only a a'"
proof (cases r)
  case None
  with assms(3) have r: "reloadLocked env a = (None, a')" by simp
  from reloadLocked_current [OF assms(1,2) r] reloadLocked_stamp [OF r] show ?thesis
    by (auto simp: reads_only_def known_stamps_def)
next
  case (Some err)
  then have "a' = a" using reloadLocked_failed [OF assms(2)] assms(3) by blast
  with assms(1) show ?thesis by (simp add: reads_only_refl)
qed

lemma AuthStore_read_reads:
  assumes "coherent a" "undisturbed env" "AuthStore_read env fn a = (r, a')"
  shows "reads_only a a'"
  using reloadLocked_reads [OF assms(1,2)] assms(3) by (auto simp: AuthStore_read_def split: prod.splits option.splits)

lemma token_lookups_keep:
  assumes "coherent a" "undisturbed env"
  shows "VerifyAgentToken cry env s a = (r, a') \<Longrightarrow> reads_only a a'"
    and "VerifyAPIToken cry env s a = (r, a') \<Longrightarrow> reads_only a a'"
    and "AdminUpdatedAt env a = (t, a') \<Longrightarrow> reads_only a a'"
    and "HasAgentToken env i a = (b, a') \<Longrightarrow> reads_only a a'"
    and "APITokens env a = (ts, a') \<Longrightarrow> reads_only a a'"
    and "AgentTokens env a = (ts, a') \<Longrightarrow> reads_only a a'"
    and "VerifyPassword cry env u p a = (e, a') \<Longrightarrow> reads_only a a'"
  using AuthStore_read_reads [OF assms]
  by (auto simp: VerifyAgentToken_def VerifyAPIToken_def AdminUpdatedAt_def HasAgentToken_def APITokens_def
      AgentTokens_def VerifyPassword_def split: prod.splits sum.splits)

lemma VerifyPassword_None:
  assumes "coherent a" "undisturbed env" "VerifyPassword cry env user password a = (None, a')"
  shows "\<exists>d. file_document a = Some d \<and> check_password cry user password (cf_Admin d) = None"
proof -
  from assms(3) have "AuthStore_read env cf_Admin a = (Inr (cf_Admin (au_data a')), a')
      \<and> check_password cry user password (cf_Admin (au_data a')) = None"
    by (auto simp: VerifyPassword_def AuthStore_read_def split: prod.splits option.splits)
  with AuthStore_read_cases [OF assms(1,2)] show ?thesis by (metis Inl_Inr_False sum.inject(2))
qed

lemma AdminUpdatedAt_current:
  assumes "coherent a" "undisturbed env" "AdminUpdatedAt env a = (t, a')" "file_document a = Some d"
    "cf_Admin d = Some admin" "readable env a"
  shows "t = pw_UpdatedAt admin"
proof -
  let ?f = "\<lambda>data. case cf_Admin data of Some admin \<Rightarrow> pw_UpdatedAt admin | None \<Rightarrow> 0"
  obtain a'' where "AuthStore_read env ?f a = (Inr (?f d), a'')"
    using AuthStore_read_readable [OF assms(1,2,6,4)] by blast
  with assms(3,5) show ?thesis by (simp add: AdminUpdatedAt_def)
qed

text \<open>What authenticating leaves alone, whoever asks.\<close>

definition same_service :: "'d ControllerAPI \<Rightarrow> 'd ControllerAPI \<Rightarrow> bool" where
  "same_service s s' \<longleftrightarrow>
     api_controller s' = api_controller s \<and> api_config s' = api_config s \<and> reads_only (api_auth s) (api_auth s')"

lemma same_service_refl [simp]:
  assumes "coherent (api_auth s)"
  shows "same_service s s" "same_service s (s\<lparr>api_sessions := ss\<rparr>)" "same_service s (s\<lparr>api_limiter := l\<rparr>)"
  using assms by (simp_all add: same_service_def reads_only_refl)

text \<open>Authenticating may only drop sessions.\<close>

definition admitted :: "'d ControllerAPI \<Rightarrow> 'd ControllerAPI \<Rightarrow> bool" where
  "admitted s s' \<longleftrightarrow>
     same_service s s' \<and> api_limiter s' = api_limiter s
     \<and> set (ss_sessions (api_sessions s')) \<subseteq> set (ss_sessions (api_sessions s))
     \<and> ss_ttl (api_sessions s') = ss_ttl (api_sessions s)"

lemma admitted_service: "admitted s s' \<Longrightarrow> same_service s s'"
  by (simp add: admitted_def)

lemma admitted_refl [simp]: "coherent (api_auth s) \<Longrightarrow> admitted s s"
  by (simp add: admitted_def)

lemma authenticate_keeps:
  assumes "coherent (api_auth s)" "auth_env_ok env" "authenticate env r s = (who, s')"
  shows "admitted s s'"
proof (cases "bearerToken r = ''''")
  case False
  obtain t1 a1 where v1: "VerifyAgentToken (ac_crypto env) (ac_agent env) (bearerToken r) (api_auth s) = (t1, a1)"
    by (cases "VerifyAgentToken (ac_crypto env) (ac_agent env) (bearerToken r) (api_auth s)")
  have k1: "reads_only (api_auth s) a1"
    using token_lookups_keep(1) [OF assms(1) _ v1] assms(2) by (simp add: auth_env_ok_def)
  obtain t2 a2 where v2: "VerifyAPIToken (ac_crypto env) (ac_api env) (bearerToken r) a1 = (t2, a2)"
    by (cases "VerifyAPIToken (ac_crypto env) (ac_api env) (bearerToken r) a1")
  have "reads_only a1 a2"
    using token_lookups_keep(2) [OF _ _ v2] k1 assms(2) by (simp add: auth_env_ok_def reads_only_def)
  then have k2: "reads_only (api_auth s) a2" by (rule reads_only_trans [OF k1])
  from assms(3) False v1 v2 have "s' = s\<lparr>api_auth := a1\<rparr> \<or> s' = s\<lparr>api_auth := a2\<rparr>"
    by (auto simp: authenticate_def split: option.splits)
  with k1 k2 show ?thesis by (auto simp: admitted_def same_service_def)
next
  case True
  show ?thesis
  proof (cases "rq_Cookie r")
    case None
    with True assms show ?thesis by (simp add: authenticate_def)
  next
    case (Some cookie)
    obtain t a where v: "AdminUpdatedAt (ac_admin env) (api_auth s) = (t, a)"
      by (cases "AdminUpdatedAt (ac_admin env) (api_auth s)")
    have k: "reads_only (api_auth s) a"
      using token_lookups_keep(3) [OF assms(1) _ v] assms(2) by (simp add: auth_env_ok_def)
    define ss where "ss = (if t \<noteq> 0 then DeleteBefore t (api_sessions s) else api_sessions s)"
    have "set (ss_sessions ss) \<subseteq> set (ss_sessions (api_sessions s)) \<and> ss_ttl ss = ss_ttl (api_sessions s)"
      by (auto simp: ss_def DeleteBefore_set)
    moreover from assms(3) True Some v
    have "s' = s\<lparr>api_auth := a, api_sessions := snd (Session_Get (ac_now env) cookie ss)\<rparr>"
      by (auto simp: authenticate_def ss_def Let_def split: option.splits prod.splits)
    ultimately show ?thesis using k Session_Get_set [of "ac_now env" cookie ss]
      by (auto simp: admitted_def same_service_def)
  qed
qed

lemma authenticate_Some:
  assumes "coherent (api_auth s)" "auth_env_ok env" "authenticate env r s = (Some who, s')"
  obtains (agent) "who = \<lparr>pr_Kind = principalAgent, pr_User = '''', pr_AgentID = pr_AgentID who, pr_Session = None\<rparr>"
      "agent_credentials env r (api_auth s) (pr_AgentID who)"
    | (api) "pr_Kind who = principalAPI" "pr_Session who = None" "api_credentials env r (api_auth s)"
    | (session) se where "pr_Kind who = principalSession" "pr_Session who = Some se" "pr_User who = se_User se"
      "session_credentials env r s se"
proof (cases "bearerToken r = ''''")
  case False
  have u: "undisturbed (ac_agent env)" "undisturbed (ac_api env)" using assms(2) by (simp_all add: auth_env_ok_def)
  obtain t1 a1 where v1: "VerifyAgentToken (ac_crypto env) (ac_agent env) (bearerToken r) (api_auth s) = (t1, a1)"
    by (cases "VerifyAgentToken (ac_crypto env) (ac_agent env) (bearerToken r) (api_auth s)")
  show thesis
  proof (cases t1)
    case (Some t)
    with v1 have v1: "VerifyAgentToken (ac_crypto env) (ac_agent env) (bearerToken r) (api_auth s) = (Some t, a1)" by simp
    obtain d where "file_document (api_auth s) = Some d" "t \<in> set (cf_AgentTokens d)"
        "tk_Hash t = hashToken (ac_crypto env) (bearerToken r)"
      by (rule VerifyAgentToken_Some [OF assms(1) u(1) v1])
    with assms(3) False v1 show thesis
      by (intro agent) (auto simp: authenticate_def agent_credentials_def)
  next
    case None
    have k1: "coherent a1" "file_document a1 = file_document (api_auth s)"
      using token_lookups_keep(1) [OF assms(1) u(1) v1] reads_only_document by (auto simp: reads_only_def)
    from assms(3) False v1 None obtain t a2
      where v2: "VerifyAPIToken (ac_crypto env) (ac_api env) (bearerToken r) a1 = (Some t, a2)"
        and who: "pr_Kind who = principalAPI" "pr_Session who = None"
      by (auto simp: authenticate_def split: option.splits prod.splits)
    obtain d where d: "file_document a1 = Some d" "t \<in> set (cf_APITokens d)"
        "tk_Hash t = hashToken (ac_crypto env) (bearerToken r)"
      by (rule VerifyAPIToken_Some [OF k1(1) u(2) v2])
    have "file_document (api_auth s) = Some d" using d(1) k1(2) by simp
    with who d False show thesis by (intro api) (auto simp: api_credentials_def)
  qed
next
  case True
  have u: "undisturbed (ac_admin env)" using assms(2) by (simp add: auth_env_ok_def)
  from assms(3) True obtain cookie where c: "rq_Cookie r = Some cookie"
    by (auto simp: authenticate_def split: option.splits)
  obtain t a where v: "AdminUpdatedAt (ac_admin env) (api_auth s) = (t, a)"
    by (cases "AdminUpdatedAt (ac_admin env) (api_auth s)")
  define ss where "ss = (if t \<noteq> 0 then DeleteBefore t (api_sessions s) else api_sessions s)"
  from assms(3) True c v obtain se ss'
    where g: "Session_Get (ac_now env) cookie ss = (Some se, ss')"
      and who: "pr_Kind who = principalSession" "pr_Session who = Some se" "pr_User who = se_User se"
    by (auto simp: authenticate_def ss_def Let_def split: option.splits prod.splits)
  have m: "(cookie, se) \<in> set (ss_sessions ss)" "ac_now env \<le> se_Expires se" "cookie \<noteq> ''''"
    using Session_Get_Some [OF g] map_of_SomeD by fastforce+
  have "t \<noteq> 0 \<longrightarrow> t \<le> se_Created se" "(cookie, se) \<in> set (ss_sessions (api_sessions s))"
    using m(1) by (auto simp: ss_def DeleteBefore_set split: if_splits)
  with m c True AdminUpdatedAt_current [OF assms(1) u v] have "session_credentials env r s se"
    by (auto simp: session_credentials_def)
  with who show thesis by (intro session) auto
qed

section \<open>Nothing without credentials\<close>

text \<open>What an administrator's request must carry.  A browser session also proves that the request comes
  from a page of the controller when it changes state.\<close>

definition admin_credentials :: "'d call_env \<Rightarrow> http_request \<Rightarrow> 'd ControllerAPI \<Rightarrow> bool" where
  "admin_credentials env r s \<longleftrightarrow>
     api_credentials (ca_auth env) r (api_auth s)
     \<or> (\<exists>se. session_credentials (ca_auth env) r s se
          \<and> (isStateChangingMethod (rq_Method r) \<longrightarrow>
               rq_CSRF r \<noteq> '''' \<and> rq_CSRF r = se_CSRF se \<and> checkSameOrigin (ca_net env) r = None))"

text \<open>The responses anyone may get: refusals, redirections, the login page and its assets, pages for a
  session, and the reply to a login with the right password.\<close>

definition public_response :: "'d call_env \<Rightarrow> http_request \<Rightarrow> 'd ControllerAPI \<Rightarrow> 'd payload response \<Rightarrow> bool" where
  "public_response env r s resp \<longleftrightarrow>
     (case resp of
        Reply _ \<Rightarrow> False
      | ReplyCookie _ _ \<Rightarrow>
          \<exists>d user password. le_body (ca_login env) = Some (user, password) \<and> file_document (api_auth s) = Some d
            \<and> check_password (le_crypto (ca_login env)) user password (cf_Admin d) = None
      | ServeFile f \<Rightarrow> f = ''login/index.html'' \<or> isPublicAsset f \<or> (\<exists>se. session_credentials (ca_auth env) r s se)
      | _ \<Rightarrow> True)"

definition request_env_ok :: "'d call_env \<Rightarrow> bool" where
  "request_env_ok env \<longleftrightarrow> auth_env_ok (ca_auth env) \<and> undisturbed (le_cred (ca_login env))"

lemma requireAdmin_cases:
  assumes "coherent (api_auth s)" "request_env_ok env" "requireAdmin (ca_auth env) (ca_net env) r h s = (resp, s')"
  obtains (refused) status m where "resp = Failed status m" "admitted s s'"
    | (handled) who s1 where "admin_credentials env r s" "h who s1 = (resp, s')" "admitted s s1"
      "authenticate (ca_auth env) r s = (Some who, s1)"
proof -
  have e: "auth_env_ok (ca_auth env)" using assms(2) by (simp add: request_env_ok_def)
  obtain who s1 where au: "authenticate (ca_auth env) r s = (who, s1)" by (cases "authenticate (ca_auth env) r s")
  note k = authenticate_keeps [OF assms(1) e au]
  show thesis
  proof (cases "\<exists>p. who = Some p \<and> isAdmin p
      \<and> \<not> (pr_Kind p = principalSession \<and> isStateChangingMethod (rq_Method r) \<and> checkCSRF (ca_net env) r p \<noteq> None)")
    case False
    with assms(3) au have "s' = s1" "\<exists>status m. resp = Failed status m"
      by (auto simp: requireAdmin_def split: option.splits if_splits)
    with k refused show thesis by blast
  next
    case True
    then obtain p where p: "who = Some p" "isAdmin p"
      "\<not> (pr_Kind p = principalSession \<and> isStateChangingMethod (rq_Method r) \<and> checkCSRF (ca_net env) r p \<noteq> None)"
      by blast
    have h: "h p s1 = (resp, s')" using assms(3) au p by (auto simp: requireAdmin_def split: if_splits)
    have "authenticate (ca_auth env) r s = (Some p, s1)" using au p(1) by simp
    from assms(1) e this have "admin_credentials env r s"
    proof (cases rule: authenticate_Some)
      case agent
      then have "pr_Kind p = principalAgent" by (metis principal.select_convs(1))
      with p(2) show ?thesis by (simp add: isAdmin_def principalAgent_def principalSession_def principalAPI_def)
    next
      case api
      then show ?thesis by (simp add: admin_credentials_def)
    next
      case (session se)
      with p(3) show ?thesis by (auto simp: admin_credentials_def checkCSRF_def split: if_splits)
    qed
    with h k au p(1) handled show thesis by blast
  qed
qed

lemma requireAgent_cases:
  assumes "coherent (api_auth s)" "request_env_ok env" "requireAgent (ca_auth env) r h s = (resp, s')"
  obtains (refused) status m where "resp = Failed status m" "admitted s s'"
    | (handled) i s1 where "agent_credentials (ca_auth env) r (api_auth s) i" "admitted s s1"
      "h \<lparr>pr_Kind = principalAgent, pr_User = '''', pr_AgentID = i, pr_Session = None\<rparr> s1 = (resp, s')"
proof -
  have e: "auth_env_ok (ca_auth env)" using assms(2) by (simp add: request_env_ok_def)
  obtain who s1 where au: "authenticate (ca_auth env) r s = (who, s1)" by (cases "authenticate (ca_auth env) r s")
  note k = authenticate_keeps [OF assms(1) e au]
  show thesis
  proof (cases "\<exists>p. who = Some p \<and> pr_Kind p = principalAgent")
    case False
    with assms(3) au have "s' = s1" "\<exists>status m. resp = Failed status m"
      by (auto simp: requireAgent_def split: option.splits if_splits)
    with k refused show thesis by blast
  next
    case True
    then obtain p where p: "who = Some p" "pr_Kind p = principalAgent" by blast
    have h: "h p s1 = (resp, s')" using assms(3) au p by (auto simp: requireAgent_def split: if_splits)
    have "authenticate (ca_auth env) r s = (Some p, s1)" using au p(1) by simp
    from assms(1) e this show thesis
    proof (cases rule: authenticate_Some)
      case agent
      with h k handled show thesis by metis
    qed (use p(2) in \<open>simp_all add: principalAgent_def principalSession_def principalAPI_def\<close>)
  qed
qed

lemma serveWebFile_result:
  "resp = serveWebFile ne r f \<Longrightarrow>
     resp = ServeFile (trim_prefix ''/'' (clean (''/'' @ f))) \<or> resp = PageNotFound \<or> resp = MethodNotAllowed"
  by (simp add: serveWebFile_def Let_def)

lemma login_file: "trim_prefix ''/'' (clean (''/'' @ ''login/index.html'')) = ''login/index.html''"
  by code_simp

lemma handlePage_public:
  assumes "coherent (api_auth s)" "request_env_ok env" "handlePage (ca_auth env) (ca_net env) r s = (resp, s')"
  shows "admitted s s' \<and> public_response env r s resp \<and> (\<forall>ck p. resp \<noteq> ReplyCookie ck p)"
proof (cases "isPublicAsset (trim_prefix ''/'' (rq_Path r))")
  case True
  let ?p = "trim_prefix ''/'' (rq_Path r)"
  have "trim_prefix ''/'' (clean (''/'' @ ?p)) = ?p" using True by (auto simp: isPublicAsset_def Let_def split: if_splits)
  moreover have "s' = s" "resp = serveWebFile (ca_net env) r ?p" using assms(3) True by (auto simp: handlePage_def)
  ultimately have "s' = s" "resp = ServeFile ?p \<or> resp = PageNotFound \<or> resp = MethodNotAllowed"
    using serveWebFile_result [of resp "ca_net env" r ?p] by simp_all
  with assms(1) True show ?thesis by (auto simp: public_response_def)
next
  case False
  obtain who s1 where au: "authenticate (ca_auth env) r s = (who, s1)" by (cases "authenticate (ca_auth env) r s")
  have e: "auth_env_ok (ca_auth env)" using assms(2) by (simp add: request_env_ok_def)
  note k = authenticate_keeps [OF assms(1) e au]
  have s': "s' = s1" using assms(3) False au by (auto simp: handlePage_def split: if_splits option.splits)
  have "public_response env r s resp \<and> (\<forall>ck p. resp \<noteq> ReplyCookie ck p)"
  proof (cases "\<exists>p. who = Some p \<and> pr_Kind p = principalSession")
    case True
    then obtain p where p: "who = Some p" "pr_Kind p = principalSession" by blast
    have "authenticate (ca_auth env) r s = (Some p, s1)" using au p(1) by simp
    from assms(1) e this have "\<exists>se. session_credentials (ca_auth env) r s se"
    proof (cases rule: authenticate_Some)
      case agent
      then have "pr_Kind p = principalAgent" by (metis principal.select_convs(1))
      with p(2) show ?thesis by (simp add: principalAgent_def principalSession_def)
    qed (use p(2) in \<open>auto simp: principalAPI_def principalSession_def\<close>)
    moreover have "resp = PageNotFound \<or> (\<exists>f. resp = serveWebFile (ca_net env) r f)"
      using assms(3) False au p by (auto simp: handlePage_def split: option.splits if_splits)
    then have "resp = PageNotFound \<or> resp = MethodNotAllowed \<or> (\<exists>f. resp = ServeFile f)"
      using serveWebFile_result by blast
    ultimately show ?thesis by (auto simp: public_response_def)
  next
    case False
    with assms(3) \<open>\<not> isPublicAsset (trim_prefix ''/'' (rq_Path r))\<close> au
    have "(\<exists>m. resp = Failed 401 m) \<or> resp = RedirectTo ''/login''"
      by (cases who) (auto simp: handlePage_def split: if_splits)
    then show ?thesis by (auto simp: public_response_def)
  qed
  with k s' show ?thesis by simp
qed

lemma login_begin_keeps:
  assumes "login_begin env ne r s = (x, s')"
  shows "\<exists>l. s' = s\<lparr>api_limiter := l\<rparr> \<and> (\<forall>resp. x = Some resp \<longrightarrow> (\<exists>status m. resp = Failed status m))"
proof (cases "checkSameOrigin ne r")
  case None
  obtain ok l where "Allowed (le_allowed env) (clientKey ne r) (api_limiter s) = (ok, l)"
    by (cases "Allowed (le_allowed env) (clientKey ne r) (api_limiter s)")
  with assms None show ?thesis by (cases ok) (auto simp: login_begin_def)
next
  case (Some m)
  with assms show ?thesis by (auto simp: login_begin_def intro: exI [of _ "api_limiter s"])
qed

lemma login_finish_cases:
  assumes "login_finish env ne r s = (resp, s')"
  obtains (undecoded) "le_body env = None" "resp = Failed 400 ''invalid login request''" "s' = s"
    | (no_admin) user password a where "le_body env = Some (user, password)"
        "VerifyPassword (le_crypto env) (le_cred env) user password (api_auth s) = (Some ErrNoAdminCredential, a)"
        "resp = Failed 503 ''no admin credential is configured''" "s' = s\<lparr>api_auth := a\<rparr>"
    | (wrong) user password err a blocked l where "le_body env = Some (user, password)"
        "VerifyPassword (le_crypto env) (le_cred env) user password (api_auth s) = (Some err, a)"
        "err \<noteq> ErrNoAdminCredential" "Fail (le_failNow env) (le_failAt env) (clientKey ne r) (api_limiter s) = (blocked, l)"
        "resp = (if blocked then Failed 429 ''too many failed login attempts; try again later''
                 else Failed 401 ''invalid credentials'')" "s' = s\<lparr>api_auth := a, api_limiter := l\<rparr>"
    | (right) user password a se ss where "le_body env = Some (user, password)"
        "VerifyPassword (le_crypto env) (le_cred env) user password (api_auth s) = (None, a)"
        "Session_Create (le_draw env) (trim_space user) (api_sessions s) = (se, ss)"
        "s' = s\<lparr>api_auth := a, api_limiter := Reset (clientKey ne r) (api_limiter s), api_sessions := ss\<rparr>"
        "resp = (case se of None \<Rightarrow> Failed 500 '''' | Some session \<Rightarrow>
           ReplyCookie \<lparr>ck_Value = se_ID session, ck_HttpOnly = True, ck_Secure = requestIsSecure r,
                        ck_Expires = se_Expires session, ck_MaxAge = 0\<rparr> (P_Login (se_User session) (se_CSRF session)))"
proof (cases "le_body env")
  case None
  with assms undecoded show thesis by (simp add: login_finish_def)
next
  case (Some up)
  obtain user password where up: "up = (user, password)" by (cases up)
  obtain e a where v: "VerifyPassword (le_crypto env) (le_cred env) user password (api_auth s) = (e, a)"
    by (cases "VerifyPassword (le_crypto env) (le_cred env) user password (api_auth s)")
  obtain blocked l where f: "Fail (le_failNow env) (le_failAt env) (clientKey ne r) (api_limiter s) = (blocked, l)"
    by (cases "Fail (le_failNow env) (le_failAt env) (clientKey ne r) (api_limiter s)")
  obtain se ss where c: "Session_Create (le_draw env) (trim_space user) (api_sessions s) = (se, ss)"
    by (cases "Session_Create (le_draw env) (trim_space user) (api_sessions s)")
  show thesis
  proof (cases e)
    case None
    with assms Some up v c show thesis
      by (intro right [of user password a se ss]) (auto simp: login_finish_def Let_def split: option.splits)
  next
    case (Some err)
    show thesis
    proof (cases "err = ErrNoAdminCredential")
      case True
      with assms \<open>le_body env = Some up\<close> Some up v show thesis
        by (intro no_admin [of user password a]) (simp_all add: login_finish_def Let_def)
    next
      case False
      with assms \<open>le_body env = Some up\<close> Some up v f show thesis
        by (intro wrong [of user password err a blocked l]) (simp_all add: login_finish_def Let_def)
    qed
  qed
qed

lemma limiter_irrelevant [simp]:
  "public_response env r (s\<lparr>api_limiter := l\<rparr>) resp = public_response env r s resp"
  "same_service (s\<lparr>api_limiter := l\<rparr>) s' = same_service s s'"
  by (simp_all add: public_response_def session_credentials_def same_service_def cong: response.case_cong)

lemma login_finish_public:
  assumes "coherent (api_auth s)" "request_env_ok env" "login_finish (ca_login env) (ca_net env) r s = (resp, s')"
  shows "same_service s s' \<and> public_response env r s resp"
proof -
  have u: "undisturbed (le_cred (ca_login env))" using assms(2) by (simp add: request_env_ok_def)
  note k = token_lookups_keep(7) [OF assms(1) u]
  from assms(3) show ?thesis
  proof (cases rule: login_finish_cases)
    case undecoded
    with assms(1) show ?thesis by (simp add: public_response_def)
  next
    case (no_admin user password a)
    with k show ?thesis by (auto simp: public_response_def same_service_def)
  next
    case (wrong user password err a blocked l)
    with k show ?thesis by (auto simp: public_response_def same_service_def)
  next
    case (right user password a se ss)
    with VerifyPassword_None [OF assms(1) u right(2)] k show ?thesis by (auto simp: public_response_def same_service_def split: option.splits)
  qed
qed

lemma handleLogin_public:
  assumes "coherent (api_auth s)" "request_env_ok env" "handleLogin (ca_login env) (ca_net env) r s = (resp, s')"
  shows "same_service s s' \<and> public_response env r s resp"
proof -
  obtain x s1 where b: "login_begin (ca_login env) (ca_net env) r s = (x, s1)"
    by (cases "login_begin (ca_login env) (ca_net env) r s")
  from login_begin_keeps [OF b] obtain l where s1: "s1 = s\<lparr>api_limiter := l\<rparr>"
    and refusal: "\<forall>resp. x = Some resp \<longrightarrow> (\<exists>status m. resp = Failed status m)" by blast
  show ?thesis
  proof (cases x)
    case None
    with assms(3) b have "login_finish (ca_login env) (ca_net env) r s1 = (resp, s')" by (simp add: handleLogin_def)
    from login_finish_public [OF _ assms(2) this] assms(1) s1 show ?thesis by simp
  next
    case (Some refused)
    with assms(1,3) b s1 refusal show ?thesis by (auto simp: handleLogin_def public_response_def)
  qed
qed

section \<open>The property\<close>

text \<open>C28. Access control.  Whatever request arrives, in whatever state: either it is for an administrator's
  endpoint and carries an automation token on file, or a live session and, if it may change state, that
  session's CSRF token from the same origin; or it is for an endpoint of the agent protocol and carries
  the token on file of one agent, and the handler acts as that agent; or it changes neither the
  controller, nor the configuration file, nor the credential file, and is answered with a refusal, a
  redirection, a page, or, given the right password, a new session.\<close>

theorem access_control:
  assumes "coherent (api_auth s)" "request_env_ok env" "serve env r s = (resp, s')"
  shows "(\<exists>segs e i. rq_Segments r = Some segs \<and> route r segs = Some (Admin e, i) \<and> admin_credentials env r s)
    \<or> (\<exists>segs e i agent s1. rq_Segments r = Some segs \<and> route r segs = Some (Agent e, i)
         \<and> agent_credentials (ca_auth env) r (api_auth s) agent \<and> same_service s s1
         \<and> agent_handler env e \<lparr>pr_Kind = principalAgent, pr_User = '''', pr_AgentID = agent, pr_Session = None\<rparr> s1 = (resp, s'))
    \<or> (same_service s s' \<and> public_response env r s resp)"
proof (cases "rq_Segments r")
  case None
  with assms show ?thesis by (auto simp: serve_def public_response_def)
next
  case (Some segs)
  show ?thesis
  proof (cases "route r segs")
    case None
    with Some assms(3) have "handlePage (ca_auth env) (ca_net env) r s = (resp, s')" by (simp add: serve_def)
    from handlePage_public [OF assms(1,2) this] admitted_service show ?thesis by blast
  next
    case (Some ei)
    obtain ep i where ei: "ei = (ep, i)" by (cases ei)
    with Some \<open>rq_Segments r = Some segs\<close> assms(3) have h: "handle_endpoint env r ep i s = (resp, s')"
      by (simp add: serve_def)
    show ?thesis
    proof (cases ep)
      case PostLogin
      with h handleLogin_public [OF assms(1,2)] show ?thesis by simp
    next
      case GetLoginPage
      with h have "resp = serveWebFile (ca_net env) r ''login/index.html''" "s' = s" by auto
      with serveWebFile_result [OF this(1), unfolded login_file] assms(1) have "same_service s s' \<and> public_response env r s resp"
        by (auto simp: public_response_def)
      then show ?thesis by blast
    next
      case (Admin e)
      with h have "requireAdmin (ca_auth env) (ca_net env) r (admin_handler env r e i) s = (resp, s')" by simp
      with assms(1,2) show ?thesis
      proof (cases rule: requireAdmin_cases)
        case (refused status m)
        then show ?thesis by (auto simp: public_response_def dest: admitted_service)
      next
        case (handled who s1)
        with Some ei Admin \<open>rq_Segments r = Some segs\<close> show ?thesis by blast
      qed
    next
      case (Agent e)
      with h have "requireAgent (ca_auth env) r (agent_handler env e) s = (resp, s')" by simp
      with assms(1,2) show ?thesis
      proof (cases rule: requireAgent_cases)
        case (refused status m)
        then show ?thesis by (auto simp: public_response_def dest: admitted_service)
      next
        case (handled a s1)
        with Some ei Agent \<open>rq_Segments r = Some segs\<close> admitted_service show ?thesis by blast
      qed
    qed
  qed
qed

text \<open>A stranger guesses a token and tries to delete a job of the sample controller.\<close>

definition sample_net :: net_env where
  "sample_net = \<lparr>ne_url_host = Some, ne_split_host = Some, ne_web_file = (\<lambda>_. True)\<rparr>"

definition sample_auth_calls :: auth_calls where
  "sample_auth_calls = \<lparr>ac_crypto = sample_crypto, ac_agent = sample_cred 0, ac_api = sample_cred 0, ac_admin = sample_cred 0, ac_now = 50\<rparr>"

definition sample_login_env :: login_env where
  "sample_login_env = \<lparr>le_crypto = sample_crypto, le_allowed = 50, le_body = Some (''admin'', ''correct horse''), le_cred = sample_cred 0,
     le_failNow = 51, le_failAt = 52,
     le_draw = \<lparr>sd_id = Some ''id'', sd_csrf = Some ''cs'', sd_now = 53, sd_sweep = 54\<rparr>\<rparr>"

definition sample_bodies :: "'d \<Rightarrow> 'd bodies" where
  "sample_bodies d = \<lparr>bd_job = None, bd_catalog = None, bd_agent = None, bd_params = None, bd_ids = None, bd_name = None,
     bd_document = \<lparr>db_read_fails = False, db_length = 0, db_envelope = NoContentField, db_raw = d, db_blank = (\<lambda>_. True)\<rparr>,
     bd_poll = None, bd_permit = None, bd_heartbeat = None, bd_log = None, bd_result = None, bd_attention = None\<rparr>"

definition sample_call :: "ControllerConfig call_env" where
  "sample_call = \<lparr>ca_net = sample_net, ca_auth = sample_auth_calls, ca_login = sample_login_env, ca_cfg = sample_cfg_env,
     ca_now = 50, ca_now2 = 50, ca_op = sample_env 50, ca_ops = (\<lambda>_. sample_env 50), ca_gen = sample_ids,
     ca_cred = sample_cred 9, ca_cred2 = sample_cred 9, ca_creds = (\<lambda>_. sample_cred 0), ca_draw = sample_draw ''ab'',
     ca_wait = \<lparr>we_wakes = [], we_gone = False, we_later = sample_controller,
                we_log = \<lparr>lr_open_fails = False, lr_stat_fails = False, lr_short = None\<rparr>\<rparr>,
     ca_logread = \<lparr>lr_open_fails = False, lr_stat_fails = False, lr_short = None\<rparr>, ca_read_fails = False,
     ca_poll = \<lparr>pe_now = 50, pe_io = io_ok, pe_sched = op_sched (sample_env 50)\<rparr>, ca_events = [],
     ca_logio = log_io_ok, ca_body = sample_bodies sample_normalized\<rparr>"

definition sample_request :: "string \<Rightarrow> string \<Rightarrow> string list \<Rightarrow> http_request" where
  "sample_request m path segs = \<lparr>rq_Method = m, rq_Path = path, rq_Segments = Some segs, rq_Query = [], rq_Host = ''ci:28080'',
     rq_RemoteAddr = ''10.0.0.7'', rq_TLS = False, rq_Authorization = '''', rq_Origin = '''', rq_Referer = '''', rq_CSRF = '''',
     rq_ForwardedProto = '''', rq_Cookie = None, rq_ContentLength = 0\<rparr>"

definition sample_api :: "ControllerConfig ControllerAPI" where
  "sample_api = newControllerAPI sample_cfg_controller sample_auth3 sample_cfg_file"

definition sample_guess :: http_request where
  "sample_guess = (sample_request ''DELETE'' ''/api/jobs/build'' [''api'', ''jobs'', ''build''])\<lparr>rq_Authorization := '' bearer guess''\<rparr>"

lemma sample_auth3_coherent: "coherent sample_auth3"
  by code_simp

lemma sample_call_ok: "request_env_ok sample_call"
  by (simp add: request_env_ok_def auth_env_ok_def sample_call_def sample_auth_calls_def sample_login_env_def)

theorem access_control_witness:
  "api_controller (snd (serve sample_call sample_guess sample_api)) = sample_cfg_controller
   \<and> au_file (api_auth (snd (serve sample_call sample_guess sample_api))) = au_file sample_auth3"
proof -
  have b: "bearerToken sample_guess = ''guess''" by code_simp
  have "case file_document sample_auth3 of None \<Rightarrow> False
      | Some d \<Rightarrow> list_all (\<lambda>t. tk_Hash t \<noteq> hashToken sample_crypto ''guess'') (cf_APITokens d)" by code_simp
  then have "\<not> api_credentials (ca_auth sample_call) sample_guess sample_auth3"
    using b by (auto simp: api_credentials_def sample_call_def sample_auth_calls_def list_all_iff split: option.splits)
  moreover have "\<not> session_credentials (ca_auth sample_call) sample_guess sample_api se" for se
    using b by (simp add: session_credentials_def)
  ultimately have "\<not> admin_credentials sample_call sample_guess sample_api"
    by (simp add: admin_credentials_def sample_api_def newControllerAPI_def)
  moreover have "route sample_guess [''api'', ''jobs'', ''build''] = Some (Admin DeleteJob, ''build'')" by code_simp
  moreover have "rq_Segments sample_guess = Some [''api'', ''jobs'', ''build'']"
    by (simp add: sample_guess_def sample_request_def)
  moreover have "coherent (api_auth sample_api)"
    by (simp add: sample_api_def newControllerAPI_def sample_auth3_coherent)
  ultimately have "same_service sample_api (snd (serve sample_call sample_guess sample_api))"
    using access_control [OF _ sample_call_ok, of sample_api sample_guess
        "fst (serve sample_call sample_guess sample_api)" "snd (serve sample_call sample_guess sample_api)"] by auto
  then show ?thesis by (simp add: same_service_def reads_only_def sample_api_def newControllerAPI_def)
qed

end
