(* ===== verification/Api_Frame.thy ===== *)
theory Api_Frame
  imports Access_Props
begin

text \<open>
  What the handlers of the HTTP interface can do: every handler is a sequence of controller operations, or
  an edit of the configuration, or an operation on the credentials; only logging in and out touches
  sessions, and only logging in touches the login limiter.
\<close>

section \<open>Operations leave the configuration alone\<close>

lemma scheduleOnce_setup: "scheduleOnce se c = (e, c') \<Longrightarrow> \<exists>s. c' = c\<lparr>c_store := s\<rparr>"
  by (auto simp: scheduleOnce_def Let_def split: if_splits prod.splits intro: exI [of _ "c_store c"])

definition only_store :: "Controller \<Rightarrow> Controller \<Rightarrow> bool" where
  "only_store c c' \<longleftrightarrow> c_cfg c' = c_cfg c \<and> c_configStamp c' = c_configStamp c"

lemma only_store_simps [simp]: "only_store c c" "only_store c (c\<lparr>c_store := s\<rparr>)" "only_store c (c\<lparr>c_live := l\<rparr>)"
  by (simp_all add: only_store_def)

lemma only_store_trans: "only_store a b \<Longrightarrow> only_store b c \<Longrightarrow> only_store a c"
  by (simp add: only_store_def)

lemma scheduleOnce_only: "only_store c (snd (scheduleOnce se c))"
  using scheduleOnce_setup [of se c] by (cases "scheduleOnce se c") (auto simp: only_store_def)

lemma schedule_and_find_only: "schedule_and_find se i (c\<lparr>c_store := s\<rparr>) = (r, c') \<Longrightarrow> only_store c c'"
  using scheduleOnce_only [of "c\<lparr>c_store := s\<rparr>" se]
  by (cases "scheduleOnce se (c\<lparr>c_store := s\<rparr>)") (auto simp: schedule_and_find_def Let_def only_store_def)

lemma committed_only:
  "(case m of (_, Some err, s') \<Rightarrow> (Inl err, c\<lparr>c_store := s'\<rparr>)
    | (_, None, s') \<Rightarrow> apfst Inr (schedule_and_find se i (c\<lparr>c_store := s'\<rparr>))) = (r, c') \<Longrightarrow> only_store c c'"
proof -
  assume a: "(case m of (_, Some err, s') \<Rightarrow> (Inl err, c\<lparr>c_store := s'\<rparr>)
    | (_, None, s') \<Rightarrow> apfst Inr (schedule_and_find se i (c\<lparr>c_store := s'\<rparr>))) = (r, c')"
  obtain u e s' where m: "m = (u, e, s')" by (metis surj_pair)
  obtain x c1 where c1: "schedule_and_find se i (c\<lparr>c_store := s'\<rparr>) = (x, c1)" by fastforce
  from a m c1 schedule_and_find_only [OF c1] show "only_store c c'" by (cases e) auto
qed

lemma Enqueue_only: "Enqueue env gen jobID values user c = Some (r, c') \<Longrightarrow> only_store c c'"
  by (auto simp: Enqueue_def split: option.splits if_splits sum.splits dest: committed_only)

lemma Cancel_only: "Cancel env i c = (r, c') \<Longrightarrow> only_store c c'"
  unfolding Cancel_def by (rule committed_only)

lemma CancelMany_only: "CancelMany is results c = (r, c') \<Longrightarrow> only_store c c'"
proof (induction "is" results c rule: CancelMany.induct)
  case (2 i env rest results c)
  obtain res c1 where c1: "Cancel env i c = (res, c1)" by fastforce
  with "2.prems" "2.IH" [OF c1 [symmetric]] Cancel_only [OF c1] show ?case
    by (auto split: sum.splits intro: only_store_trans)
qed simp

lemma SubmitResult_only: "SubmitResult sf env agent rq c = (r, c') \<Longrightarrow> only_store c c'"
proof -
  have "only_store c (snd (scheduleOnce (op_sched env) (c\<lparr>c_store := s\<rparr>)))" for s
    using scheduleOnce_only only_store_simps(2) only_store_trans by blast
  moreover assume "SubmitResult sf env agent rq c = (r, c')"
  ultimately show ?thesis
    by (auto simp: SubmitResult_def Let_def split: option.splits if_splits sum.splits prod.splits)
qed

lemma AppendLog_only: "AppendLog lio io agent rq c = (r, c') \<Longrightarrow> only_store c c'"
proof -
  have st: "only_store c c'" if "store_chunk lio io i path stored payload c = (r, c')" for i path stored payload r c'
    using that by (cases rule: store_chunk_cases) (auto simp: put_log_def only_store_def)
  assume "AppendLog lio io agent rq c = (r, c')"
  then show ?thesis by (rule AppendLog_cases) (auto simp: put_log_def only_store_def st [unfolded only_store_def])
qed

lemma Heartbeat_only: "Heartbeat now agent version i c = (r, c') \<Longrightarrow> c' = markAgentSeen now agent version c"
  by (auto simp: Heartbeat_def Let_def split: if_splits)

lemma markAgentSeen_only [simp]: "only_store c (markAgentSeen now agent version c)"
  by (simp add: markAgentSeen_def Let_def)

lemma importBundle_only: "importBundle ie ae c bundle mapping apply = Some (r, c') \<Longrightarrow> only_store c c'"
  by (auto simp: importBundle_def applyImports_def Let_def split: option.splits if_splits prod.splits)

lemma controller_op_only:
  assumes "controller_op c c'"
  shows "only_store c c'"
  using assms
proof cases
  case (scheduleOnce se err)
  with scheduleOnce_only [of c se] show ?thesis by simp
next
  case (Rerun env gen i user r)
  then show ?thesis by (auto simp: Rerun_def split: option.splits dest: Enqueue_only)
next
  case (ResolveAttention env i msg r)
  then show ?thesis unfolding ResolveAttention_def by (rule committed_only)
next
  case (Reconcile io agent known rr)
  then show ?thesis by (auto simp: Reconcile_def split: prod.splits)
next
  case (GrantPermit env agent i rg)
  then show ?thesis by (auto simp: GrantPermit_def split: prod.splits)
next
  case (ReportAttention io agent i msg err)
  then show ?thesis by (auto simp: ReportAttention_def split: prod.splits)
next
  case (Heartbeat now agent version i rh)
  from Heartbeat_only [OF this] show ?thesis by simp
qed (auto dest: Enqueue_only Cancel_only CancelMany_only SubmitResult_only AppendLog_only importBundle_only)

lemma controller_ops_only: "controller_op\<^sup>*\<^sup>* c c' \<Longrightarrow> only_store c c'"
  by (induction rule: rtranclp_induct) (auto intro: only_store_trans controller_op_only)

lemma controller_ops_reachable: "controller_op\<^sup>*\<^sup>* c c' \<Longrightarrow> reachable_controller c \<Longrightarrow> reachable_controller c'"
  by (induction rule: rtranclp_induct) (auto intro: reachable_controller.operated)

section \<open>What an agent's request can do\<close>

definition no_cookie :: "'p response \<Rightarrow> bool" where
  "no_cookie resp \<longleftrightarrow> (\<forall>ck p. resp \<noteq> ReplyCookie ck p)"

lemma no_cookie_simps [simp]:
  "no_cookie (Reply p)" "no_cookie (Failed status m)" "no_cookie Pending" "no_cookie Aborted" "no_cookie PageNotFound"
  "no_cookie MethodNotAllowed" "no_cookie (ServeFile f)" "no_cookie (RedirectTo l)" "\<not> no_cookie (ReplyCookie ck p)"
  by (simp_all add: no_cookie_def)

lemma seen_op: "controller_op c (markAgentSeen now agent version c)"
proof -
  obtain r c' where "Heartbeat now agent version '''' c = (r, c')" by fastforce
  with Heartbeat_only [OF this] controller_op.Heartbeat [OF this] show ?thesis by simp
qed

lemma seen_then_op: "controller_op (markAgentSeen now agent version c) c' \<Longrightarrow> controller_op\<^sup>*\<^sup>* c c'"
  by (meson seen_op converse_rtranclp_into_rtranclp r_into_rtranclp)

lemma poll_begin_ops:
  assumes "poll_begin env who body c = (rep, c')"
  shows "controller_op\<^sup>*\<^sup>* c c'"
  using assms unfolding poll_begin_def
proof (cases rule: with_bound_agent_cases)
  case (handled request agd)
  let ?c1 = "markAgentSeen (pe_now env) who (plq_Version request) c"
  obtain u c2 where u: "Reconcile (pe_io env) who (plq_KnownExecutions request) ?c1 = (u, c2)" by fastforce
  obtain e c3 where e: "scheduleOnce (pe_sched env) c2 = (e, c3)" by fastforce
  have "controller_op\<^sup>*\<^sup>* c c2" by (rule seen_then_op [OF controller_op.Reconcile [OF u]])
  moreover from this have "controller_op\<^sup>*\<^sup>* c c3"
    by (rule rtranclp.rtrancl_into_rtrancl) (rule controller_op.scheduleOnce [OF e])
  moreover have "c' = c2 \<or> c' = c3" using handled(4) u e by (auto simp: Let_def split: sum.splits option.splits)
  ultimately show ?thesis by blast
qed simp

lemma bound_agent_ops:
  assumes "with_bound_agent invalid c who body agent_of k = (rep, c')"
    "\<And>request rep c'. k request = (rep, c') \<Longrightarrow> controller_op\<^sup>*\<^sup>* c c'"
  shows "controller_op\<^sup>*\<^sup>* c c'"
  using assms(1) by (cases rule: with_bound_agent_cases) (auto dest: assms(2))

lemma agent_protocol_ops:
  shows "handleAgentPoll pe who b1 events c = (r1, c') \<Longrightarrow> controller_op\<^sup>*\<^sup>* c c'"
    and "handleAgentPermit env who b2 c = (r2, c') \<Longrightarrow> controller_op\<^sup>*\<^sup>* c c'"
    and "handleAgentHeartbeat now who b3 c = (r3, c') \<Longrightarrow> controller_op\<^sup>*\<^sup>* c c'"
    and "handleAgentLog lio env who b4 c = (r4, c') \<Longrightarrow> controller_op\<^sup>*\<^sup>* c c'"
    and "handleAgentResult sf env who b5 c = (r5, c') \<Longrightarrow> controller_op\<^sup>*\<^sup>* c c'"
    and "handleAgentAttention env who b6 c = (r6, c') \<Longrightarrow> controller_op\<^sup>*\<^sup>* c c'"
proof -
  assume "handleAgentPoll pe who b1 events c = (r1, c')"
  moreover obtain u c1 where u: "poll_begin pe who b1 c = (u, c1)" by fastforce
  ultimately have "c' = c1" by (auto simp: handleAgentPoll_def split: reply.splits)
  with poll_begin_ops [OF u] show "controller_op\<^sup>*\<^sup>* c c'" by simp
next
  assume "handleAgentPermit env who b2 c = (r2, c')"
  then show "controller_op\<^sup>*\<^sup>* c c'" unfolding handleAgentPermit_def
    by (rule bound_agent_ops) (auto split: prod.splits sum.splits intro: seen_then_op controller_op.GrantPermit)
next
  assume "handleAgentHeartbeat now who b3 c = (r3, c')"
  then show "controller_op\<^sup>*\<^sup>* c c'" unfolding handleAgentHeartbeat_def
    by (rule bound_agent_ops) (metis apfst_conv controller_op.Heartbeat prod.inject r_into_rtranclp surj_pair)
next
  assume "handleAgentLog lio env who b4 c = (r4, c')"
  then show "controller_op\<^sup>*\<^sup>* c c'" unfolding handleAgentLog_def
    by (rule bound_agent_ops) (auto split: prod.splits sum.splits intro: seen_then_op controller_op.AppendLog)
next
  assume "handleAgentResult sf env who b5 c = (r5, c')"
  then show "controller_op\<^sup>*\<^sup>* c c'" unfolding handleAgentResult_def
    by (rule bound_agent_ops) (auto split: prod.splits sum.splits intro: seen_then_op controller_op.SubmitResult)
next
  assume "handleAgentAttention env who b6 c = (r6, c')"
  then show "controller_op\<^sup>*\<^sup>* c c'" unfolding handleAgentAttention_def
    by (rule bound_agent_ops)
       (auto split: prod.splits option.splits if_splits intro: seen_then_op controller_op.ReportAttention)
qed

lemma agent_reply_ops:
  assumes "agent_reply wrap result s = (resp, s')"
    "\<And>rep c'. result = (rep, c') \<Longrightarrow> controller_op\<^sup>*\<^sup>* (api_controller s) c'"
  shows "no_cookie resp \<and> (\<exists>c'. controller_op\<^sup>*\<^sup>* (api_controller s) c' \<and> s' = s\<lparr>api_controller := c'\<rparr>)"
proof -
  obtain rep c' where "result = (rep, c')" by fastforce
  with assms(1) assms(2) [OF this] show ?thesis by (auto simp: agent_reply_def split: reply.splits)
qed

lemma agent_handler_ops:
  assumes "agent_handler env e who s = (resp, s')"
  shows "no_cookie resp \<and> (\<exists>c'. controller_op\<^sup>*\<^sup>* (api_controller s) c' \<and> s' = s\<lparr>api_controller := c'\<rparr>)"
  using assms by (cases e) (simp_all, (erule agent_reply_ops, erule agent_protocol_ops)+)

section \<open>What an administrator's request can do\<close>

lemma with_edit_result:
  assumes "with_edit env fn answer s = (resp, s')"
  obtains r c f where "editConfig env fn (api_controller s) (api_config s) = (r, c, f)"
    "s' = s\<lparr>api_controller := c, api_config := f\<rparr>" "no_cookie resp"
  using assms by (auto simp: with_edit_def respondConfigError_def split: prod.splits option.splits if_splits)

lemma agentSummaries_reads:
  assumes "coherent a" "\<forall>n. undisturbed (envs n)" "agentSummaries envs now c a = (summaries, a')"
  shows "reads_only a a'"
proof -
  have "reads_only a a'" if "summary_loop envs n views a = (ss, a')" "coherent a" for n views a ss a'
    using that
  proof (induction views arbitrary: n a ss a')
    case (Cons v views)
    obtain b a1 where h: "HasAgentToken (envs n) (sum_ID (newAgentSummary v)) a = (b, a1)"
      by fastforce
    have k: "reads_only a a1" by (rule token_lookups_keep(4) [OF Cons.prems(2) _ h]) (use assms(2) in simp)
    obtain ss' a2 where l: "summary_loop envs (Suc n) views a1 = (ss', a2)" by fastforce
    have "reads_only a1 a2" using Cons.IH [OF l] k by (simp add: reads_only_def)
    with Cons.prems(1) h l k show ?case by (auto simp: Let_def intro: reads_only_trans)
  qed (simp add: reads_only_refl)
  with assms show ?thesis by (simp add: agentSummaries_def)
qed

lemma credentials_keep:
  assumes "coherent a" "undisturbed env" "fresh_stamp env a"
  shows "IssueAPIToken cry env draw name a = (rt, a') \<Longrightarrow> coherent a'"
    and "IssueAgentToken cry env draw j a = (rt, a') \<Longrightarrow> coherent a'"
    and "RevokeAPIToken env t a = (r, a') \<Longrightarrow> coherent a'"
    and "RevokeAgentToken env j a = (r, a') \<Longrightarrow> coherent a'"
  using cred_step_keeps [OF cred_step.api_issued [OF assms(2,3)] assms(1)]
    cred_step_keeps [OF cred_step.other_issued [OF assms(2,3), of j "j @ ''x''"] assms(1)]
    cred_step_keeps [OF cred_step.api_revoked [OF assms(2,3)] assms(1)]
    cred_step_keeps [OF cred_step.revoked [OF assms(2,3)] assms(1)]
  by auto

text \<open>The credential calls of a request are not disturbed, and what it writes gets a new stamp.\<close>

definition calls_ok :: "'d call_env \<Rightarrow> AuthStore \<Rightarrow> bool" where
  "calls_ok env a \<longleftrightarrow>
     undisturbed (ca_cred env) \<and> undisturbed (ca_cred2 env) \<and> (\<forall>n. undisturbed (ca_creds env n)) \<and> fresh_stamp (ca_cred env) a"

text \<open>What a handler does to the service: operations of the controller, or one edit of the configuration;
  the credentials stay coherent.\<close>

definition works :: "'d call_env \<Rightarrow> 'd ControllerAPI \<Rightarrow> 'd ControllerAPI \<Rightarrow> bool" where
  "works env s s' \<longleftrightarrow>
     (controller_op\<^sup>*\<^sup>* (api_controller s) (api_controller s') \<and> api_config s' = api_config s
      \<or> (\<exists>fn r. editConfig (ca_cfg env) fn (api_controller s) (api_config s) = (r, api_controller s', api_config s')))
     \<and> coherent (api_auth s') \<and> api_sessions s' = api_sessions s \<and> api_limiter s' = api_limiter s"

lemma works_refl: "coherent (api_auth s) \<Longrightarrow> works env s s"
  by (simp add: works_def)

lemma works_op: "coherent (api_auth s) \<Longrightarrow> controller_op\<^sup>*\<^sup>* (api_controller s) c' \<Longrightarrow> works env s (s\<lparr>api_controller := c'\<rparr>)"
  by (simp add: works_def)

lemma works_auth: "coherent a \<Longrightarrow> works env s (s\<lparr>api_auth := a\<rparr>)"
  by (simp add: works_def)

lemma works_edit:
  assumes "coherent (api_auth s)" "with_edit (ca_cfg env) fn answer s = (resp, s')"
  shows "no_cookie resp \<and> works env s s'"
  using assms(2) by (rule with_edit_result) (use assms(1) in \<open>auto simp: works_def\<close>)

lemma job_handlers_work:
  assumes "coherent (api_auth s)"
  shows "handleCreateJob (ca_cfg env) b who s = (resp, s') \<Longrightarrow> no_cookie resp \<and> works env s s'"
    and "handleUpdateJob (ca_cfg env) i b who s = (resp, s') \<Longrightarrow> no_cookie resp \<and> works env s s'"
    and "handleDeleteJob (ca_cfg env) i who s = (resp, s') \<Longrightarrow> no_cookie resp \<and> works env s s'"
    and "handleCreateCatalog (ca_cfg env) b' who s = (resp, s') \<Longrightarrow> no_cookie resp \<and> works env s s'"
    and "handleUpdateCatalog (ca_cfg env) i b' who s = (resp, s') \<Longrightarrow> no_cookie resp \<and> works env s s'"
    and "handleDeleteCatalog (ca_cfg env) i who s = (resp, s') \<Longrightarrow> no_cookie resp \<and> works env s s'"
    and "handleCreateAgent (ca_cfg env) b'' who s = (resp, s') \<Longrightarrow> no_cookie resp \<and> works env s s'"
    and "handleUpdateAgent (ca_cfg env) i b'' who s = (resp, s') \<Longrightarrow> no_cookie resp \<and> works env s s'"
    and "handleSaveConfigDocument (ca_cfg env) d who s = (resp, s') \<Longrightarrow> no_cookie resp \<and> works env s s'"
  using works_edit [OF assms] works_refl [OF assms]
  by (auto simp: handleCreateJob_def handleUpdateJob_def handleDeleteJob_def handleCreateCatalog_def
      handleUpdateCatalog_def handleDeleteCatalog_def handleCreateAgent_def handleUpdateAgent_def
      handleSaveConfigDocument_def Let_def split: option.splits if_splits sum.splits)

lemma view_handlers_work:
  assumes "coherent (api_auth s)"
  shows "handleMeta who s = (resp, s') \<Longrightarrow> no_cookie resp \<and> works env s s'"
    and "handleSession who s = (resp, s') \<Longrightarrow> no_cookie resp \<and> works env s s'"
    and "handleListJobs now who s = (resp, s') \<Longrightarrow> no_cookie resp \<and> works env s s'"
    and "handleGetJob now i who s = (resp, s') \<Longrightarrow> no_cookie resp \<and> works env s s'"
    and "handleListCatalogs who s = (resp, s') \<Longrightarrow> no_cookie resp \<and> works env s s'"
    and "handleGetCatalog i who s = (resp, s') \<Longrightarrow> no_cookie resp \<and> works env s s'"
    and "handleListRuns r who s = (resp, s') \<Longrightarrow> no_cookie resp \<and> works env s s'"
    and "handleRunLog lr r i who s = (resp, s') \<Longrightarrow> no_cookie resp \<and> works env s s'"
    and "handleGetConfigDocument b who s = (resp, s') \<Longrightarrow> no_cookie resp \<and> works env s s'"
  using works_refl [OF assms]
  by (auto simp: handleMeta_def handleSession_def handleListJobs_def handleGetJob_def handleListCatalogs_def
      handleGetCatalog_def handleListRuns_def handleRunLog_def handleGetConfigDocument_def Let_def
      split: option.splits if_splits sum.splits prod.splits bool.splits)

lemma respondAfterWait_cookie [simp]: "no_cookie (respondAfterWait we i c)"
  by (simp add: respondAfterWait_def split: option.splits bool.splits)

lemma respondCancelError_cookie [simp]: "no_cookie (respondCancelError err)"
  by (simp add: respondCancelError_def)

lemma run_handlers_work:
  assumes "coherent (api_auth s)"
  shows "handleRunJob oe gen we r b i who s = (resp, s') \<Longrightarrow> no_cookie resp \<and> works env s s'"
    and "handleGetRun we r i who s = (resp, s') \<Longrightarrow> no_cookie resp \<and> works env s s'"
    and "handleCancelRun oe i who s = (resp, s') \<Longrightarrow> no_cookie resp \<and> works env s s'"
    and "handleRerunRun oe gen i who s = (resp, s') \<Longrightarrow> no_cookie resp \<and> works env s s'"
    and "handleResolveRun oe r i who s = (resp, s') \<Longrightarrow> no_cookie resp \<and> works env s s'"
    and "handleDeleteRun io i who s = (resp, s') \<Longrightarrow> no_cookie resp \<and> works env s s'"
    and "handleQueueCancel envs ids who s = (resp, s') \<Longrightarrow> no_cookie resp \<and> works env s s'"
proof -
  note op = works_op [OF assms r_into_rtranclp]
  show "no_cookie resp \<and> works env s s'" if "handleRunJob oe gen we r b i who s = (resp, s')"
    using that works_refl [OF assms] op [OF controller_op.Enqueue]
    by (fastforce simp: handleRunJob_def split: sum.splits option.splits prod.splits if_splits)
  show "no_cookie resp \<and> works env s s'" if "handleGetRun we r i who s = (resp, s')"
    using that works_refl [OF assms] by (auto simp: handleGetRun_def split: option.splits bool.splits)
  show "no_cookie resp \<and> works env s s'" if "handleCancelRun oe i who s = (resp, s')"
    using that op [OF controller_op.Cancel] by (auto simp: handleCancelRun_def split: sum.splits prod.splits)
  show "no_cookie resp \<and> works env s s'" if "handleRerunRun oe gen i who s = (resp, s')"
    using that works_refl [OF assms] op [OF controller_op.Rerun]
    by (fastforce simp: handleRerunRun_def split: sum.splits option.splits prod.splits if_splits)
  show "no_cookie resp \<and> works env s s'" if "handleResolveRun oe r i who s = (resp, s')"
    using that op [OF controller_op.ResolveAttention]
    by (auto simp: handleResolveRun_def split: sum.splits prod.splits if_splits)
  show "no_cookie resp \<and> works env s s'" if "handleDeleteRun io i who s = (resp, s')"
    using that op [OF controller_op.DeleteExecution]
    by (auto simp: handleDeleteRun_def Let_def split: option.splits prod.splits if_splits)
  show "no_cookie resp \<and> works env s s'" if "handleQueueCancel envs ids who s = (resp, s')"
    using that works_refl [OF assms] op [OF controller_op.CancelMany]
    by (auto simp: handleQueueCancel_def split: option.splits prod.splits if_splits sum.splits)
qed

lemma credential_handlers_work:
  assumes "coherent (api_auth s)" "calls_ok env (api_auth s)"
  shows "handleListAgents (ca_creds env) now who s = (resp, s') \<Longrightarrow> no_cookie resp \<and> works env s s'"
    and "handleGetAgent (ca_creds env) now i who s = (resp, s') \<Longrightarrow> no_cookie resp \<and> works env s s'"
    and "handleQueue (ca_creds env) now now2 who s = (resp, s') \<Longrightarrow> no_cookie resp \<and> works env s s'"
    and "handleRotateAgentToken cry (ca_cred env) draw i who s = (resp, s') \<Longrightarrow> no_cookie resp \<and> works env s s'"
    and "handleRevokeAgentToken (ca_cred env) i who s = (resp, s') \<Longrightarrow> no_cookie resp \<and> works env s s'"
    and "handleCreateToken cry (ca_cred env) draw b who s = (resp, s') \<Longrightarrow> no_cookie resp \<and> works env s s'"
    and "handleRevokeToken (ca_cred env) i who s = (resp, s') \<Longrightarrow> no_cookie resp \<and> works env s s'"
    and "handleListTokens (ca_cred env) (ca_cred2 env) who s = (resp, s') \<Longrightarrow> no_cookie resp \<and> works env s s'"
proof -
  have u: "undisturbed (ca_cred env)" "undisturbed (ca_cred2 env)" "\<forall>n. undisturbed (ca_creds env n)"
      "fresh_stamp (ca_cred env) (api_auth s)" using assms(2) by (simp_all add: calls_ok_def)
  note keep = credentials_keep [OF assms(1) u(1,4)]
  have summaries: "coherent a" if "agentSummaries (ca_creds env) now c (api_auth s) = (ss, a)" for now c ss a
    using agentSummaries_reads [OF assms(1) u(3) that] by (simp add: reads_only_def)
  show "no_cookie resp \<and> works env s s'" if "handleListAgents (ca_creds env) now who s = (resp, s')"
    using that summaries by (auto simp: handleListAgents_def works_auth split: prod.splits)
  show "no_cookie resp \<and> works env s s'" if "handleGetAgent (ca_creds env) now i who s = (resp, s')"
    using that summaries by (auto simp: handleGetAgent_def works_auth split: prod.splits option.splits)
  show "no_cookie resp \<and> works env s s'" if "handleQueue (ca_creds env) now now2 who s = (resp, s')"
    using that summaries by (auto simp: handleQueue_def works_auth Let_def split: prod.splits)
  show "no_cookie resp \<and> works env s s'" if "handleRotateAgentToken cry (ca_cred env) draw i who s = (resp, s')"
    using that works_refl [OF assms(1)] keep(2)
    by (fastforce simp: handleRotateAgentToken_def works_auth split: prod.splits option.splits sum.splits)
  show "no_cookie resp \<and> works env s s'" if "handleRevokeAgentToken (ca_cred env) i who s = (resp, s')"
    using that keep(4) by (auto simp: handleRevokeAgentToken_def works_auth split: prod.splits option.splits if_splits)
  show "no_cookie resp \<and> works env s s'" if "handleCreateToken cry (ca_cred env) draw b who s = (resp, s')"
    using that works_refl [OF assms(1)] keep(1)
    by (fastforce simp: handleCreateToken_def works_auth Let_def split: prod.splits option.splits sum.splits if_splits)
  show "no_cookie resp \<and> works env s s'" if "handleRevokeToken (ca_cred env) i who s = (resp, s')"
    using that keep(3) by (auto simp: handleRevokeToken_def works_auth split: prod.splits option.splits if_splits)
  show "no_cookie resp \<and> works env s s'" if h: "handleListTokens (ca_cred env) (ca_cred2 env) who s = (resp, s')"
  proof -
    obtain ts a ts' a' where a: "APITokens (ca_cred env) (api_auth s) = (ts, a)" "AgentTokens (ca_cred2 env) a = (ts', a')"
      by (metis surj_pair)
    have "coherent a" using token_lookups_keep(5) [OF assms(1) u(1) a(1)] by (simp add: reads_only_def)
    then have "coherent a'" using token_lookups_keep(6) [OF _ u(2) a(2)] by (simp add: reads_only_def)
    with h a show ?thesis by (auto simp: handleListTokens_def works_auth)
  qed
qed

lemma handleDeleteAgent_works:
  assumes "coherent (api_auth s)" "calls_ok env (api_auth s)"
    "handleDeleteAgent (ca_cfg env) (ca_cred env) now i who s = (resp, s')"
  shows "no_cookie resp \<and> works env s s'"
proof -
  obtain resp1 s1 where e: "with_edit (ca_cfg env) (delete_agent i) P_OK s = (resp1, s1)" by fastforce
  note w = works_edit [OF assms(1) e]
  have auth: "api_auth s1 = api_auth s" using e by (rule with_edit_result) simp
  obtain err a where v: "RevokeAgentToken (ca_cred env) i (api_auth s1) = (err, a)" by fastforce
  have "coherent a" using credentials_keep(4) [OF assms(1)] assms(2) v auth by (auto simp: calls_ok_def)
  with w have "works env s (s1\<lparr>api_auth := a\<rparr>)" by (simp add: works_def)
  with assms(3) w v works_refl [OF assms(1)] show ?thesis
    by (cases resp1) (auto simp: handleDeleteAgent_def e split: if_splits)
qed

lemma admin_handler_works:
  assumes "coherent (api_auth s)" "calls_ok env (api_auth s)" "admin_handler env r e i who s = (resp, s')" "e \<noteq> PostLogout"
  shows "no_cookie resp \<and> works env s s'"
  using assms(3,4)
  by (cases e)
     (auto dest: job_handlers_work [OF assms(1)] view_handlers_work [OF assms(1)] run_handlers_work [OF assms(1)]
       credential_handlers_work [OF assms(1,2)] handleDeleteAgent_works [OF assms(1,2)])

end
