(* ===== verification/Api_Props.thy ===== *)
theory Api_Props
  imports Api_Frame
begin

text \<open>
  The service as a whole: requests of users and agents, operations and reloads in the background, edits of
  the configuration and credential files by other programs, and restarts, in any order (\<open>api_run\<close>).
\<close>

section \<open>What a request does\<close>

text \<open>The credential file gets a stamp it never had when this request writes it.\<close>

definition credential_calls_ok :: "'d call_env \<Rightarrow> AuthStore \<Rightarrow> bool" where
  "credential_calls_ok env a \<longleftrightarrow>
     undisturbed (ca_cred env) \<and> undisturbed (ca_cred2 env) \<and> (\<forall>n. undisturbed (ca_creds env n))
     \<and> ce_stamp (ca_cred env) \<notin> known_stamps a"

lemma calls_ok_later:
  assumes "credential_calls_ok env (api_auth s)" "admitted s s1"
  shows "calls_ok env (api_auth s1)"
  using assms
  by (auto simp: credential_calls_ok_def calls_ok_def fresh_stamp_def admitted_def same_service_def reads_only_def known_stamps_def)

lemma admitted_coherent: "admitted s s1 \<Longrightarrow> coherent (api_auth s1)"
  by (simp add: admitted_def same_service_def reads_only_def)

lemma serve_cases:
  assumes "coherent (api_auth s)" "request_env_ok env" "credential_calls_ok env (api_auth s)" "serve env r s = (resp, s')"
  obtains (worked) s1 where "admitted s s1" "works env s1 s'" "no_cookie resp"
    | (login) "handleLogin (ca_login env) (ca_net env) r s = (resp, s')"
    | (logout) who s1 where "authenticate (ca_auth env) r s = (Some who, s1)" "admitted s s1"
        "handleLogout r who s1 = (resp, s')"
proof (cases "rq_Segments r")
  case None
  with assms(1,4) worked [of s] show thesis by (auto simp: serve_def works_refl)
next
  case (Some segs)
  show thesis
  proof (cases "route r segs")
    case None
    with Some assms(4) have "handlePage (ca_auth env) (ca_net env) r s = (resp, s')" by (simp add: serve_def)
    from handlePage_public [OF assms(1,2) this] worked [of s'] works_refl admitted_coherent show thesis
      by (auto simp: no_cookie_def)
  next
    case (Some ei)
    obtain ep i where ei: "ei = (ep, i)" by (cases ei)
    with Some \<open>rq_Segments r = Some segs\<close> assms(4) have h: "handle_endpoint env r ep i s = (resp, s')"
      by (simp add: serve_def)
    show thesis
    proof (cases ep)
      case PostLogin
      with h login show thesis by simp
    next
      case GetLoginPage
      with h serveWebFile_result [of resp "ca_net env" r "''login/index.html''"] worked [of s] assms(1) show thesis
        by (auto simp: works_refl)
    next
      case (Admin e)
      with h have "requireAdmin (ca_auth env) (ca_net env) r (admin_handler env r e i) s = (resp, s')" by simp
      with assms(1,2) show thesis
      proof (cases rule: requireAdmin_cases)
        case (refused status m)
        with worked [of s'] works_refl admitted_coherent show thesis by auto
      next
        case (handled who s1)
        show thesis
        proof (cases "e = PostLogout")
          case True
          with handled logout show thesis by simp
        next
          case False
          from admin_handler_works [OF admitted_coherent [OF handled(3)] calls_ok_later [OF assms(3) handled(3)] handled(2) this]
            handled(3) worked show thesis by blast
        qed
      qed
    next
      case (Agent e)
      with h have "requireAgent (ca_auth env) r (agent_handler env e) s = (resp, s')" by simp
      with assms(1,2) show thesis
      proof (cases rule: requireAgent_cases)
        case (refused status m)
        with worked [of s'] works_refl admitted_coherent show thesis by auto
      next
        case (handled a s1)
        from agent_handler_ops [OF handled(3)] works_op [OF admitted_coherent [OF handled(2)]] handled(2) worked show thesis
          by blast
      qed
    qed
  qed
qed

section \<open>Runs of the service\<close>

text \<open>An event of the history: a request with the state it met and its reply, or a restart.\<close>

datatype 'd api_event = Served "'d ControllerAPI" "'d call_env" http_request "'d payload response" | Restarted

text \<open>Other programs may edit the two files at any time between the steps, and the configuration file also
  while a request is reading it; every edit gives the file a new stamp.\<close>

definition call_ok :: "(string \<Rightarrow> int option) \<Rightarrow> 'd yaml \<Rightarrow> 'd call_env \<Rightarrow> 'd ControllerAPI \<Rightarrow> bool" where
  "call_ok parse y env s \<longleftrightarrow>
     request_env_ok env \<and> credential_calls_ok env (api_auth s)
     \<and> cg_parse (ca_cfg env) = parse \<and> cg_yaml (ca_cfg env) = y
     \<and> edits_stamped (ca_cfg env) (api_controller s) (api_config s) \<and> undisturbed_write (ca_cfg env)
     \<and> cg_stamp (ca_cfg env) \<noteq> zero_stamp"

inductive api_run :: "(string \<Rightarrow> int option) \<Rightarrow> 'd yaml \<Rightarrow> 'd ControllerAPI \<Rightarrow> 'd api_event list \<Rightarrow> bool" for parse y where
  started: "loadControllerConfig parse y False f = Inr cfg \<Longrightarrow> newController parse oe path cfg listen f = Inr (c, a) \<Longrightarrow>
     undisturbed (oe_cred oe) \<Longrightarrow> oe_disk oe = None \<Longrightarrow> oe_state oe = NotExist \<Longrightarrow>
     api_run parse y (newControllerAPI c a f) []"
| served: "api_run parse y s h \<Longrightarrow> call_ok parse y env s \<Longrightarrow> serve env r s = (resp, s') \<Longrightarrow>
     api_run parse y s' (Served s env r resp # h)"
| login_begun: "api_run parse y s h \<Longrightarrow> login_begin le ne r s = (None, s') \<Longrightarrow> api_run parse y s' h"
| login_finished: "api_run parse y s h \<Longrightarrow> call_ok parse y env s \<Longrightarrow>
     login_finish (ca_login env) (ca_net env) r s = (resp, s') \<Longrightarrow> api_run parse y s' (Served s env r resp # h)"
| operated: "api_run parse y s h \<Longrightarrow> controller_op (api_controller s) c \<Longrightarrow> api_run parse y (s\<lparr>api_controller := c\<rparr>) h"
| reloaded: "api_run parse y s h \<Longrightarrow> reloadConfigIfChanged ce (api_controller s) (api_config s) = (err, c, f) \<Longrightarrow>
     cg_parse ce = parse \<Longrightarrow> cg_yaml ce = y \<Longrightarrow> edits_stamped ce (api_controller s) (api_config s) \<Longrightarrow>
     api_run parse y (s\<lparr>api_controller := c, api_config := f\<rparr>) h"
| config_edited: "api_run parse y s h \<Longrightarrow> c_configStamp (api_controller s) \<notin> snd ` set_option f \<Longrightarrow>
     api_run parse y (s\<lparr>api_config := f\<rparr>) h"
| credentials_edited: "api_run parse y s h \<Longrightarrow> au_stamp (api_auth s) \<notin> snd ` set_option g \<Longrightarrow>
     api_run parse y (s\<lparr>api_auth := (api_auth s)\<lparr>au_file := g\<rparr>\<rparr>) h"
| restarted: "api_run parse y s h \<Longrightarrow> loadControllerConfig parse y False (api_config s) = Inr cfg \<Longrightarrow>
     newController parse oe path cfg listen (api_config s) = Inr (c, a) \<Longrightarrow> undisturbed (oe_cred oe) \<Longrightarrow>
     \<not> oe_logdir_fails oe \<Longrightarrow> oe_disk oe = st_disk (c_store (api_controller s)) \<Longrightarrow>
     oe_state oe = (case oe_disk oe of None \<Rightarrow> NotExist | Some d \<Rightarrow> Loaded d) \<Longrightarrow>
     oe_logs oe = st_logs (c_store (api_controller s)) \<Longrightarrow> oe_cred_file oe = au_file (api_auth s) \<Longrightarrow>
     api_run parse y (newControllerAPI c a (api_config s)) (Restarted # h)"

text \<open>Loading the file would give the configuration in memory, if the file has the remembered stamp.\<close>

definition agrees :: "(string \<Rightarrow> int option) \<Rightarrow> 'd yaml \<Rightarrow> Controller \<Rightarrow> 'd cfg_file \<Rightarrow> bool" where
  "agrees parse y c f \<longleftrightarrow>
     (\<forall>st \<in> snd ` set_option f. st = c_configStamp c \<longrightarrow> loadControllerConfig parse y False f = Inr (c_cfg c))"

definition service_ok :: "(string \<Rightarrow> int option) \<Rightarrow> 'd yaml \<Rightarrow> 'd ControllerAPI \<Rightarrow> bool" where
  "service_ok parse y s \<longleftrightarrow>
     reachable_controller (api_controller s) \<and> valid_config parse (c_cfg (api_controller s))
     \<and> agrees parse y (api_controller s) (api_config s) \<and> coherent (api_auth s)"

lemma in_step_agrees:
  assumes "cg_parse env = parse" "cg_yaml env = y"
  shows "in_step env c f \<longleftrightarrow> agrees parse y c f"
  using assms by (auto simp: in_step_def agrees_def document_config_def loadControllerConfig_def split: option.splits)

lemma load_valid:
  assumes "loadControllerConfig parse y False f = Inr cfg"
  shows "valid_config parse cfg"
  using assms by (auto simp: loadControllerConfig_def split: option.splits intro: parse_valid)

lemma newController_Inr:
  assumes "newController parse oe path cfg listen f = Inr (c, a)"
  obtains store where "c_cfg c = cfg" "c_live c = []" "c_store c = store"
    "openControllerStore (oe_logdir_fails oe) (rt_LogDir (c_runtime c)) (rt_MaxHistory (c_runtime c)) True (oe_disk oe) (oe_state oe) (oe_logs oe)
       = Inr store" "newAuthStore (oe_cred oe) (oe_cred_file oe) = Inr a"
  using assms by (auto simp: newController_def openController_def Let_def split: sum.splits if_splits)

lemma SetMaxHistory_unwritten:
  assumes "SetMaxHistory \<lparr>io_fails = (\<lambda>_. True), io_rmfails = (\<lambda>_. True)\<rparr> n s = (err, s')"
  shows "st_disk s' = st_disk s \<and> st_logs s' = st_logs s"
  using assms by (auto simp: SetMaxHistory_def mutate_def writeFileAtomicSync_def Let_def split: if_splits prod.splits)

text \<open>A restarted process goes on from the snapshot on disk.\<close>

lemma restart_reachable:
  assumes "reachable_controller c0" "newController parse oe path cfg listen f = Inr (c, a)" "valid_config parse cfg"
    "\<not> oe_logdir_fails oe" "oe_disk oe = st_disk (c_store c0)" "oe_logs oe = st_logs (c_store c0)"
    "oe_state oe = (case oe_disk oe of None \<Rightarrow> NotExist | Some d \<Rightarrow> Loaded d)"
  shows "reachable_controller c"
  using assms(2)
proof (rule newController_Inr)
  fix store
  assume c: "c_cfg c = cfg" "c_live c = []" "c_store c = store"
    and o: "openControllerStore (oe_logdir_fails oe) (rt_LogDir (c_runtime c)) (rt_MaxHistory (c_runtime c)) True (oe_disk oe)
      (oe_state oe) (oe_logs oe) = Inr store"
  obtain err s1 where sm: "SetMaxHistory \<lparr>io_fails = (\<lambda>_. True), io_rmfails = (\<lambda>_. True)\<rparr> 1 (c_store c0) = (err, s1)" by fastforce
  let ?c1 = "c0\<lparr>c_cfg := cfg, c_runtime := c_runtime c, c_configStamp := c_configStamp c, c_store := s1\<rparr>"
  have "named_agents (c0\<lparr>c_cfg := cfg\<rparr>)" by (rule valid_named [of parse]) (simp add: assms(3))
  then have r1: "reachable_controller ?c1" by (rule reachable_controller.reconfigured [OF assms(1) _ sm])
  have "reachable_controller (?c1\<lparr>c_store := store, c_live := []\<rparr>)"
    by (rule reachable_controller.restarted [OF r1, of "rt_LogDir (c_runtime c)" "rt_MaxHistory (c_runtime c)" True])
       (use o assms SetMaxHistory_unwritten [OF sm] in \<open>auto split: option.splits\<close>)
  moreover have "?c1\<lparr>c_store := store, c_live := []\<rparr> = c" using c by simp
  ultimately show ?thesis by simp
qed

section \<open>Invariants of the service\<close>

lemma new_service_ok:
  assumes "loadControllerConfig parse y False f = Inr cfg" "newController parse oe path cfg listen f = Inr (c, a)"
    "undisturbed (oe_cred oe)" "reachable_controller c"
  shows "service_ok parse y (newControllerAPI c a f)"
  using assms(2)
proof (rule newController_Inr)
  assume "c_cfg c = cfg" "newAuthStore (oe_cred oe) (oe_cred_file oe) = Inr a"
  with assms newAuthStore_coherent load_valid show ?thesis by (simp add: service_ok_def newControllerAPI_def agrees_def)
qed

lemma start_reachable:
  assumes "newController parse oe path cfg listen f = Inr (c, a)" "valid_config parse cfg" "oe_disk oe = None" "oe_state oe = NotExist"
  shows "reachable_controller c"
  using assms(1)
proof (rule newController_Inr)
  fix store
  assume c: "c_cfg c = cfg" "c_store c = store"
    and o: "openControllerStore (oe_logdir_fails oe) (rt_LogDir (c_runtime c)) (rt_MaxHistory (c_runtime c)) True (oe_disk oe)
      (oe_state oe) (oe_logs oe) = Inr store"
  from o assms(3,4) have "initial_store store"
    by (auto simp: openControllerStore_def load_def initial_store_def split: if_splits)
  with c assms(2) valid_named [of parse c] show ?thesis by (intro reachable_controller.opened) auto
qed

lemma service_ok_same:
  assumes "service_ok parse y s" "same_service s s'"
  shows "service_ok parse y s'"
  using assms by (simp add: service_ok_def same_service_def reads_only_def)

lemma service_ok_works:
  assumes "service_ok parse y s" "call_ok parse y env s" "yaml_reads_back y" "admitted s s1" "works env s1 s'"
  shows "service_ok parse y s'"
proof -
  have ok: "service_ok parse y s1" by (rule service_ok_same [OF assms(1) admitted_service [OF assms(4)]])
  have same: "api_controller s1 = api_controller s" "api_config s1 = api_config s"
    using assms(4) by (simp_all add: admitted_def same_service_def)
  have a: "coherent (api_auth s')" using assms(5) by (simp add: works_def)
  from assms(5) consider (op) "controller_op\<^sup>*\<^sup>* (api_controller s1) (api_controller s')" "api_config s' = api_config s1"
    | (edit) fn r where "editConfig (ca_cfg env) fn (api_controller s1) (api_config s1) = (r, api_controller s', api_config s')"
    by (auto simp: works_def)
  then show ?thesis
  proof cases
    case op
    with ok a controller_ops_only [OF op(1)] controller_ops_reachable [OF op(1)] show ?thesis
      by (simp add: service_ok_def agrees_def only_store_def)
  next
    case edit
    note e = assms(2) [unfolded call_ok_def]
    have "valid_config parse (c_cfg (api_controller s')) \<and> in_step (ca_cfg env) (api_controller s') (api_config s')"
      using editConfig_keeps [OF _ _ _ _ _ _ edit] ok e assms(3) same
      by (auto simp: service_ok_def in_step_agrees)
    moreover have "reachable_controller (api_controller s')"
      using editConfig_reachable [OF edit] ok e assms(3) by (auto simp: service_ok_def)
    ultimately show ?thesis using a e by (auto simp: service_ok_def in_step_agrees)
  qed
qed

lemma served_ok:
  assumes "service_ok parse y s" "call_ok parse y env s" "yaml_reads_back y" "serve env r s = (resp, s')"
  shows "service_ok parse y s'"
proof -
  have e: "coherent (api_auth s)" "request_env_ok env" "credential_calls_ok env (api_auth s)"
    using assms(1,2) by (auto simp: service_ok_def call_ok_def)
  from e assms(4) show ?thesis
  proof (cases rule: serve_cases)
    case (worked s1)
    with service_ok_works [OF assms(1-3)] show ?thesis by blast
  next
    case login
    with handleLogin_public [OF e(1,2)] service_ok_same [OF assms(1)] show ?thesis by blast
  next
    case (logout who s1)
    have "service_ok parse y s1" by (rule service_ok_same [OF assms(1) admitted_service [OF logout(2)]])
    with logout(3) show ?thesis by (auto simp: handleLogout_def service_ok_def split: option.splits)
  qed
qed

lemma api_run_ok:
  assumes "api_run parse y s h" "yaml_reads_back y"
  shows "service_ok parse y s"
  using assms(1)
proof (induction rule: api_run.induct)
  case (started f cfg oe path listen c a)
  show ?case by (rule new_service_ok [OF started(1,2,3) start_reachable [OF started(2) load_valid [OF started(1)] started(4,5)]])
next
  case (served s h env r resp s')
  show ?case by (rule served_ok [OF served(4,2) assms(2) served(3)])
next
  case (login_begun s h le ne r s')
  from login_begin_keeps [OF login_begun(2)] login_begun(3) show ?case by (auto simp: service_ok_def)
next
  case (login_finished s h env r resp s')
  then have "same_service s s'" using login_finish_public by (fastforce simp: service_ok_def call_ok_def)
  with login_finished show ?case by (blast intro: service_ok_same)
next
  case (operated s h c)
  with controller_op_only [OF operated(2)] show ?case
    by (auto simp: service_ok_def agrees_def only_store_def intro: reachable_controller.operated)
next
  case (reloaded s h ce err c f)
  have k: "valid_config (cg_parse ce) (c_cfg (api_controller s))" "in_step ce (api_controller s) (api_config s)"
    using reloaded by (auto simp: service_ok_def in_step_agrees)
  from reload_keeps [OF reloaded(2) k reloaded(5)] reload_reachable [OF reloaded(2)] reloaded show ?case
    by (auto simp: service_ok_def in_step_agrees)
next
  case (config_edited s h f)
  then show ?case by (auto simp: service_ok_def agrees_def)
next
  case (credentials_edited s h g)
  then show ?case by (auto simp: service_ok_def coherent_def split: option.splits)
next
  case (restarted s h cfg oe path listen c a)
  have "reachable_controller c"
    by (rule restart_reachable [OF _ restarted(3) load_valid [OF restarted(2)] restarted(5,6,8,7)])
       (use restarted in \<open>simp add: service_ok_def\<close>)
  with new_service_ok [OF restarted(2,3,4)] show ?case by blast
qed

text \<open>C30. The service as a whole.  After any sequence of requests of users and agents, interleaved logins,
  operations and configuration reloads in the background, edits of the configuration and credential files by
  other programs, and restarts of the process: the controller is in a state that its operations can reach,
  so that all its invariants hold; its configuration is a validated one; loading the configuration file
  would give that configuration, unless the file was edited since and not yet reloaded; and the credentials
  in memory are those of the credential file, unless that was edited since.\<close>

theorem service_invariants:
  assumes "api_run parse y s h" "yaml_reads_back y"
  shows "reachable_controller (api_controller s)
    \<and> validateControllerConfig parse (c_cfg (api_controller s)) = Inr (c_cfg (api_controller s))
    \<and> (\<forall>d st. api_config s = Some (d, st) \<and> st = c_configStamp (api_controller s)
         \<longrightarrow> loadControllerConfig parse y False (api_config s) = Inr (c_cfg (api_controller s)))
    \<and> (\<forall>d st. au_file (api_auth s) = Some (d, st) \<and> st = au_stamp (api_auth s) \<and> st \<noteq> zero_stamp
         \<longrightarrow> file_document (api_auth s) = Some (au_data (api_auth s)))"
  using api_run_ok [OF assms] by (auto simp: service_ok_def valid_config_def agrees_def coherent_def)

section \<open>Sessions stem from logins\<close>

text \<open>The event is a login with the right password, as the credential file had it then, that was answered
  with the cookie \<open>i\<close> of the session.\<close>

definition logs_in :: "string \<Rightarrow> Session \<Rightarrow> 'd api_event \<Rightarrow> bool" where
  "logs_in i se ev \<longleftrightarrow>
     (\<exists>s env r ck user password d. ev = Served s env r (ReplyCookie ck (P_Login (se_User se) (se_CSRF se)))
        \<and> ck_Value ck = i \<and> se_Created se = sd_now (le_draw (ca_login env))
        \<and> le_body (ca_login env) = Some (user, password) \<and> se_User se = trim_space user
        \<and> file_document (api_auth s) = Some d \<and> check_password (le_crypto (ca_login env)) user password (cf_Admin d) = None)"

text \<open>The event is an accepted request to log out with the cookie.\<close>

definition logs_out :: "string \<Rightarrow> 'd api_event \<Rightarrow> bool" where
  "logs_out i ev \<longleftrightarrow> (\<exists>s env r ck. ev = Served s env r (ReplyCookie ck P_OK) \<and> bearerToken r = '''' \<and> rq_Cookie r = Some i)"

definition from_login :: "'d api_event list \<Rightarrow> string \<Rightarrow> Session \<Rightarrow> bool" where
  "from_login h i se \<longleftrightarrow>
     (\<exists>later ev earlier. h = later @ ev # earlier \<and> logs_in i se ev \<and> (\<forall>e \<in> set later. \<not> logs_out i e \<and> e \<noteq> Restarted))"

lemma from_login_now: "logs_in i se ev \<Longrightarrow> from_login (ev # h) i se"
  unfolding from_login_def by (rule exI [of _ "[]"]) auto

lemma from_login_later:
  assumes "from_login h i se" "\<not> logs_out i ev" "ev \<noteq> Restarted"
  shows "from_login (ev # h) i se"
proof -
  obtain later e earlier where "h = later @ e # earlier" "logs_in i se e" "\<forall>x \<in> set later. \<not> logs_out i x \<and> x \<noteq> Restarted"
    using assms(1) by (auto simp: from_login_def)
  with assms(2,3) show ?thesis
    unfolding from_login_def by (intro exI [of _ "ev # later"] exI [of _ e] exI [of _ earlier]) auto
qed

lemma no_cookie_logs_out: "no_cookie resp \<Longrightarrow> \<not> logs_out i (Served s env r resp)"
  by (auto simp: logs_out_def)

definition sessions_ok :: "SessionStore \<Rightarrow> 'd api_event list \<Rightarrow> bool" where
  "sessions_ok ss h \<longleftrightarrow>
     ss_ttl ss = sessionTTL
     \<and> (\<forall>(i, se) \<in> set (ss_sessions ss). se_ID se = i \<and> se_Expires se = se_Created se + sessionTTL \<and> from_login h i se)"

lemma sessions_ok_fewer:
  assumes "sessions_ok ss h" "set (ss_sessions ss') \<subseteq> set (ss_sessions ss)" "ss_ttl ss' = ss_ttl ss"
  shows "sessions_ok ss' h"
  using assms by (auto simp: sessions_ok_def)

lemma sessions_ok_event:
  assumes "sessions_ok ss h" "\<forall>(i, se) \<in> set (ss_sessions ss). \<not> logs_out i ev" "ev \<noteq> Restarted"
  shows "sessions_ok ss (ev # h)"
  using assms by (fastforce simp: sessions_ok_def intro: from_login_later)

lemma sessions_ok_admitted: "sessions_ok (api_sessions s) h \<Longrightarrow> admitted s s1 \<Longrightarrow> sessions_ok (api_sessions s1) h"
  by (auto simp: admitted_def intro: sessions_ok_fewer)

text \<open>A login adds the session it answers with.\<close>

lemma login_finish_sessions:
  assumes "sessions_ok (api_sessions s) h" "coherent (api_auth s)" "undisturbed (le_cred (ca_login env))"
    "login_finish (ca_login env) ne r s = (resp, s')" "file_document (api_auth s0) = file_document (api_auth s)"
  shows "sessions_ok (api_sessions s') (Served s0 env r resp # h)"
  using assms(4)
proof (cases rule: login_finish_cases)
  case (right user password a se ss)
  show ?thesis
  proof (cases se)
    case None
    with right Session_Create_None assms(1) show ?thesis by (auto intro!: sessions_ok_event no_cookie_logs_out)
  next
    case (Some session)
    with right have c: "Session_Create (le_draw (ca_login env)) (trim_space user) (api_sessions s) = (Some session, ss)" by simp
    note new = Session_Create_Some [OF c]
    obtain d where "file_document (api_auth s) = Some d" "check_password (le_crypto (ca_login env)) user password (cf_Admin d) = None"
      using right(2) VerifyPassword_None [OF assms(2,3)] by blast
    with right Some new assms(5) have "logs_in (se_ID session) session (Served s0 env r resp)"
      by (auto simp: logs_in_def)
    moreover have "sessions_ok (api_sessions s) (Served s0 env r resp # h)"
      using right Some by (intro sessions_ok_event [OF assms(1)]) (auto simp: logs_out_def)
    ultimately show ?thesis using new right(4)
      by (auto simp: sessions_ok_def dest: from_login_now)
  qed
qed (use assms(1) in \<open>auto intro!: sessions_ok_event no_cookie_logs_out\<close>)

lemma handleLogin_sessions:
  assumes "sessions_ok (api_sessions s) h" "coherent (api_auth s)" "undisturbed (le_cred (ca_login env))"
    "handleLogin (ca_login env) ne r s = (resp, s')"
  shows "sessions_ok (api_sessions s') (Served s env r resp # h)"
proof -
  obtain x s1 where b: "login_begin (ca_login env) ne r s = (x, s1)" by fastforce
  from login_begin_keeps [OF b] obtain l where s1: "s1 = s\<lparr>api_limiter := l\<rparr>"
    and refusal: "\<forall>resp. x = Some resp \<longrightarrow> (\<exists>status m. resp = Failed status m)" by blast
  show ?thesis
  proof (cases x)
    case None
    with assms(4) b have "login_finish (ca_login env) ne r s1 = (resp, s')" by (simp add: handleLogin_def)
    from login_finish_sessions [OF _ _ assms(3) this] assms(1,2) s1 show ?thesis by simp
  next
    case (Some refused)
    with assms(1,4) b s1 refusal show ?thesis
      by (auto simp: handleLogin_def intro!: sessions_ok_event no_cookie_logs_out)
  qed
qed

text \<open>A logout removes the session of its cookie.\<close>

lemma handleLogout_sessions:
  assumes "sessions_ok (api_sessions s) h" "coherent (api_auth s)" "auth_env_ok (ca_auth env)"
    "authenticate (ca_auth env) r s = (Some who, s1)" "handleLogout r who s1 = (resp, s')"
  shows "sessions_ok (api_sessions s') (Served s env r resp # h)"
proof -
  have ok1: "sessions_ok (api_sessions s1) h"
    by (rule sessions_ok_admitted [OF assms(1) authenticate_keeps [OF assms(2-4)]])
  from assms(2-4) show ?thesis
  proof (cases rule: authenticate_Some)
    case agent
    then have "pr_Session who = None" by (metis principal.select_convs(4))
    with agent(2) assms(5) ok1 show ?thesis
      by (auto simp: handleLogout_def agent_credentials_def logs_out_def intro!: sessions_ok_event)
  next
    case api
    with assms(5) ok1 show ?thesis
      by (auto simp: handleLogout_def api_credentials_def logs_out_def intro!: sessions_ok_event)
  next
    case (session se)
    from session(4) obtain cookie where c: "rq_Cookie r = Some cookie" "(cookie, se) \<in> set (ss_sessions (api_sessions s))"
      by (auto simp: session_credentials_def)
    with assms(1) have i: "se_ID se = cookie" by (auto simp: sessions_ok_def)
    have s': "api_sessions s' = Session_Delete cookie (api_sessions s1)"
      using assms(5) session(2) i by (auto simp: handleLogout_def)
    have "sessions_ok (api_sessions s') h" using ok1 by (rule sessions_ok_fewer) (auto simp: s' Session_Delete_set)
    then show ?thesis using c(1) by (intro sessions_ok_event) (auto simp: s' Session_Delete_set logs_out_def)
  qed
qed

lemma served_sessions:
  assumes "sessions_ok (api_sessions s) h" "coherent (api_auth s)" "call_ok parse y env s" "serve env r s = (resp, s')"
  shows "sessions_ok (api_sessions s') (Served s env r resp # h)"
proof -
  have e: "request_env_ok env" "credential_calls_ok env (api_auth s)" "auth_env_ok (ca_auth env)" "undisturbed (le_cred (ca_login env))"
    using assms(3) by (auto simp: call_ok_def request_env_ok_def)
  from assms(2) e(1,2) assms(4) show ?thesis
  proof (cases rule: serve_cases)
    case (worked s1)
    then have "api_sessions s' = api_sessions s1" by (simp add: works_def)
    with sessions_ok_admitted [OF assms(1) worked(1)] worked(3) show ?thesis
      by (auto intro!: sessions_ok_event no_cookie_logs_out)
  next
    case login
    then show ?thesis by (rule handleLogin_sessions [OF assms(1,2) e(4)])
  next
    case (logout who s1)
    show ?thesis by (rule handleLogout_sessions [OF assms(1,2) e(3) logout(1,3)])
  qed
qed

lemma new_sessions_ok: "sessions_ok (api_sessions (newControllerAPI c a f)) h"
  by (simp add: sessions_ok_def newControllerAPI_def newSessionStore_def sessionTTL_def)

lemma api_run_sessions:
  assumes "api_run parse y s h" "yaml_reads_back y"
  shows "sessions_ok (api_sessions s) h"
  using assms(1)
proof (induction rule: api_run.induct)
  case (served s h env r resp s')
  have "coherent (api_auth s)" using api_run_ok [OF served(1) assms(2)] by (simp add: service_ok_def)
  from served_sessions [OF served(4) this served(2,3)] show ?case .
next
  case (login_begun s h le ne r s')
  from login_begin_keeps [OF login_begun(2)] login_begun(3) show ?case by auto
next
  case (login_finished s h env r resp s')
  have "coherent (api_auth s)" using api_run_ok [OF login_finished(1) assms(2)] by (simp add: service_ok_def)
  moreover have "undisturbed (le_cred (ca_login env))" using login_finished(2) by (simp add: call_ok_def request_env_ok_def)
  ultimately show ?case using login_finish_sessions [OF login_finished(4) _ _ login_finished(3)] by blast
qed (simp_all add: new_sessions_ok)

text \<open>C31. What a session proves.  Whenever, in any run of the service, a request is authenticated by a
  session cookie: an earlier login of this process with the right password, in the credential file of that
  moment, was answered with that cookie, for the user the request is authenticated as; no request logged
  the cookie out since; the login is at most twelve hours old; and it is not older than the admin password
  now on file, if that can be read.\<close>

theorem session_lifetime:
  assumes "api_run parse y s h" "yaml_reads_back y" "auth_env_ok env" "authenticate env r s = (Some who, s')"
    "pr_Kind who = principalSession"
  shows "\<exists>cookie se later ev earlier. rq_Cookie r = Some cookie \<and> bearerToken r = '''' \<and> pr_User who = se_User se
    \<and> h = later @ ev # earlier \<and> logs_in cookie se ev \<and> (\<forall>e \<in> set later. \<not> logs_out cookie e \<and> e \<noteq> Restarted)
    \<and> ac_now env \<le> se_Created se + 12 * 3600 * second
    \<and> (\<forall>d admin. file_document (api_auth s) = Some d \<longrightarrow> cf_Admin d = Some admin
          \<longrightarrow> readable (ac_admin env) (api_auth s) \<longrightarrow> pw_UpdatedAt admin \<noteq> 0 \<longrightarrow> pw_UpdatedAt admin \<le> se_Created se)"
proof -
  have c: "coherent (api_auth s)" using api_run_ok [OF assms(1,2)] by (simp add: service_ok_def)
  from c assms(3,4) show ?thesis
  proof (cases rule: authenticate_Some)
    case agent
    then have "pr_Kind who = principalAgent" by (metis principal.select_convs(1))
    with assms(5) show ?thesis by (simp add: principalAgent_def principalSession_def)
  next
    case api
    with assms(5) show ?thesis by (simp add: principalAPI_def principalSession_def)
  next
    case (session se)
    from session(4) obtain cookie where i: "rq_Cookie r = Some cookie" "(cookie, se) \<in> set (ss_sessions (api_sessions s))"
      by (auto simp: session_credentials_def)
    with api_run_sessions [OF assms(1,2)] have "se_Expires se = se_Created se + sessionTTL" "from_login h cookie se"
      by (auto simp: sessions_ok_def)
    with i session(3,4) show ?thesis
      unfolding session_credentials_def from_login_def sessionTTL_def by auto
  qed
qed

section \<open>A sample run\<close>

text \<open>The admin password is set, the controller starts, the administrator logs in and asks for the jobs.\<close>

definition sample_auth4 :: AuthStore where
  "sample_auth4 = snd (SetAdminPassword sample_crypto (sample_cred 4) (Some ''salt'') 45 ''admin'' ''correct horse'' sample_auth3)"

definition sample_open :: open_env where
  "sample_open = \<lparr>oe_mkdir_fails = False, oe_logdir_fails = False, oe_disk = None, oe_state = NotExist, oe_logs = [],
     oe_cred = sample_cred 0, oe_cred_file = au_file sample_auth4, oe_stat_fails = False\<rparr>"

definition sample_auth5 :: AuthStore where
  "sample_auth5 = projr (newAuthStore (sample_cred 0) (au_file sample_auth4))"

definition sample_service :: "Controller \<Rightarrow> ControllerConfig ControllerAPI" where
  "sample_service c = newControllerAPI c sample_auth5 sample_cfg_file"

definition sample_login :: http_request where
  "sample_login = sample_request ''POST'' ''/api/login'' [''api'', ''login'']"

definition sample_jobs_request :: http_request where
  "sample_jobs_request = (sample_request ''GET'' ''/api/jobs'' [''api'', ''jobs''])\<lparr>rq_Cookie := Some (b64_encode ''id'')\<rparr>"

lemma sample_loads: "loadControllerConfig sample_parse sample_yaml False sample_cfg_file = Inr sample_normalized"
proof -
  have "agrees sample_parse sample_yaml sample_cfg_controller sample_cfg_file"
    using sample_in_step in_step_agrees [of sample_cfg_env sample_parse sample_yaml] by (simp add: sample_cfg_env_def)
  then show ?thesis by (simp add: agrees_def sample_cfg_file_def sample_cfg_controller_def)
qed

lemma sample_opens:
  obtains c where "newController sample_parse sample_open ''/etc/builda/controller.yaml'' sample_normalized [] sample_cfg_file = Inr (c, sample_auth5)"
    "c_configStamp c = \<lparr>fs_modTime = 5, fs_size = 400\<rparr>"
proof -
  have "(case controllerRuntime sample_parse ''/etc/builda/controller.yaml'' sample_normalized of Inl _ \<Rightarrow> False | Inr _ \<Rightarrow> True)"
    by code_simp
  moreover have "(case newAuthStore (sample_cred 0) (au_file sample_auth4) of Inl _ \<Rightarrow> False | Inr _ \<Rightarrow> True)" by code_simp
  ultimately show thesis
    by (auto simp: newController_def openController_def sample_open_def openControllerStore_def load_def sample_auth5_def
        sample_cfg_file_def Let_def split: sum.splits intro!: that)
qed

lemma sample_run0:
  assumes "newController sample_parse sample_open ''/etc/builda/controller.yaml'' sample_normalized [] sample_cfg_file = Inr (c, sample_auth5)"
  shows "api_run sample_parse sample_yaml (sample_service c) []"
  unfolding sample_service_def
  by (rule api_run.started [OF sample_loads assms]) (simp_all add: sample_open_def)

lemma sample_call_service:
  assumes "c_configStamp c = \<lparr>fs_modTime = 5, fs_size = 400\<rparr>"
  shows "call_ok sample_parse sample_yaml sample_call (sample_service c)"
proof -
  have "\<lparr>fs_modTime = 9, fs_size = 300\<rparr> \<notin> known_stamps sample_auth5" by code_simp
  with assms sample_call_ok show ?thesis
    by (simp add: call_ok_def credential_calls_ok_def edits_stamped_def undisturbed_write_def)
       (simp add: sample_call_def sample_cfg_env_def zero_stamp_def sample_service_def newControllerAPI_def new_stamp_def
         sample_cfg_file_def sample_cred_def undisturbed_def)
qed

lemma sample_login_serve: "serve sample_call sample_login s = handleLogin sample_login_env sample_net sample_login s"
proof -
  have "route sample_login [''api'', ''login''] = Some (PostLogin, '''')" by code_simp
  then show ?thesis by (simp add: serve_def sample_login_def sample_request_def sample_call_def)
qed

lemma sample_session:
  "(case authenticate sample_auth_calls sample_jobs_request (snd (handleLogin sample_login_env sample_net sample_login (sample_service c))) of
      (None, _) \<Rightarrow> False
    | (Some who, _) \<Rightarrow> pr_Kind who = principalSession \<and> pr_User who = ''admin'')"
  by code_simp

lemma sample_session_run:
  obtains c where "api_run sample_parse sample_yaml (snd (handleLogin sample_login_env sample_net sample_login (sample_service c)))
      [Served (sample_service c) sample_call sample_login (fst (handleLogin sample_login_env sample_net sample_login (sample_service c)))]"
    "c_configStamp c = \<lparr>fs_modTime = 5, fs_size = 400\<rparr>"
proof (rule sample_opens)
  fix c
  assume c: "newController sample_parse sample_open ''/etc/builda/controller.yaml'' sample_normalized [] sample_cfg_file = Inr (c, sample_auth5)"
    "c_configStamp c = \<lparr>fs_modTime = 5, fs_size = 400\<rparr>"
  show thesis
    by (rule that [OF api_run.served [OF sample_run0 [OF c(1)] sample_call_service [OF c(2)]] c(2)])
       (simp add: sample_login_serve)
qed

lemma sample_yaml_ok: "yaml_reads_back sample_yaml"
  using sample_reads_back by (simp add: sample_cfg_env_def)

theorem service_invariants_witness:
  "\<exists>c. reachable_controller (api_controller (snd (handleLogin sample_login_env sample_net sample_login (sample_service c))))
     \<and> c_configStamp c = \<lparr>fs_modTime = 5, fs_size = 400\<rparr>"
proof (rule sample_session_run)
  fix c
  assume c: "api_run sample_parse sample_yaml (snd (handleLogin sample_login_env sample_net sample_login (sample_service c)))
      [Served (sample_service c) sample_call sample_login (fst (handleLogin sample_login_env sample_net sample_login (sample_service c)))]"
    "c_configStamp c = \<lparr>fs_modTime = 5, fs_size = 400\<rparr>"
  from service_invariants [OF c(1) sample_yaml_ok] c(2) show ?thesis by blast
qed

theorem session_lifetime_witness:
  "\<exists>c se. logs_in (b64_encode ''id'') se
      (Served (sample_service c) sample_call sample_login (fst (handleLogin sample_login_env sample_net sample_login (sample_service c))))
     \<and> se_User se = ''admin'' \<and> 50 \<le> se_Created se + 12 * 3600 * second"
proof (rule sample_session_run)
  fix c
  let ?s = "snd (handleLogin sample_login_env sample_net sample_login (sample_service c))"
  assume c: "api_run sample_parse sample_yaml ?s
      [Served (sample_service c) sample_call sample_login (fst (handleLogin sample_login_env sample_net sample_login (sample_service c)))]"
  from sample_session [of c] obtain p s' where p: "authenticate sample_auth_calls sample_jobs_request ?s = (Some p, s')"
      "pr_Kind p = principalSession" "pr_User p = ''admin''" by (auto split: prod.splits option.splits)
  have "auth_env_ok sample_auth_calls" by (simp add: auth_env_ok_def sample_auth_calls_def)
  from session_lifetime [OF c sample_yaml_ok this p(1,2)] p(3) show ?thesis
    by (intro exI [of _ c]) (auto simp: sample_jobs_request_def sample_auth_calls_def Cons_eq_append_conv)
qed

end
