(* ===== verification/Login_Props.thy ===== *)
theory Login_Props
  imports Api_Props
begin

text \<open>
  Guessing the admin password: how many wrong passwords of one client address get looked at.  The limiter
  is asked before the password is derived and told afterwards, so logins of the same client that are in
  flight at the same time count on top of the limit.
\<close>

section \<open>Logins of one client\<close>

text \<open>What a finished login adds to the failures of the client since its last success.\<close>

definition failures_after :: "string \<Rightarrow> login_env \<Rightarrow> net_env \<Rightarrow> http_request \<Rightarrow> 'd ControllerAPI \<Rightarrow> time list \<Rightarrow> time list" where
  "failures_after key env ne r s fs =
     (if clientKey ne r \<noteq> key then fs
      else case le_body env of
        None \<Rightarrow> fs
      | Some (user, password) \<Rightarrow>
          (case fst (VerifyPassword (le_crypto env) (le_cred env) user password (api_auth s)) of
             None \<Rightarrow> []
           | Some err \<Rightarrow> if err = ErrNoAdminCredential then fs else fs @ [le_failAt env]))"

text \<open>Runs of the service as the login limiter sees them, with the clock, the failures of one client since
  its last success, and the number of its logins in flight, at most \<open>m\<close> at a time.  Steps that leave the
  limiter alone may do anything else.\<close>

inductive login_run :: "string \<Rightarrow> nat \<Rightarrow> 'd ControllerAPI \<Rightarrow> time \<Rightarrow> time list \<Rightarrow> nat \<Rightarrow> bool" for key m where
  opened: "login_run key m (newControllerAPI c a f) t [] 0"
| begun: "login_run key m s t fs p \<Longrightarrow> t \<le> le_allowed env \<Longrightarrow> login_begin env ne r s = (x, s') \<Longrightarrow>
     p' = (if x = None \<and> clientKey ne r = key then Suc p else p) \<Longrightarrow> p' \<le> m \<Longrightarrow>
     login_run key m s' (le_allowed env) fs p'"
| finished: "login_run key m s t fs p \<Longrightarrow> t \<le> le_failNow env \<Longrightarrow> le_failNow env \<le> le_failAt env \<Longrightarrow>
     (clientKey ne r = key \<Longrightarrow> 0 < p) \<Longrightarrow> login_finish env ne r s = (resp, s') \<Longrightarrow>
     login_run key m s' (le_failAt env) (failures_after key env ne r s fs) (if clientKey ne r = key then p - 1 else p)"
| other: "login_run key m s t fs p \<Longrightarrow> t \<le> t' \<Longrightarrow> api_limiter s' = api_limiter s \<Longrightarrow> login_run key m s' t' fs p"

text \<open>Every request that is not a login is such a step.\<close>

lemma served_limiter:
  assumes "coherent (api_auth s)" "request_env_ok env" "credential_calls_ok env (api_auth s)" "serve env r s = (resp, s')"
  shows "api_limiter s' = api_limiter s \<or> handleLogin (ca_login env) (ca_net env) r s = (resp, s')"
  using assms
proof (cases rule: serve_cases)
  case (logout who s1)
  then show ?thesis by (auto simp: handleLogout_def admitted_def split: option.splits)
qed (auto simp: works_def admitted_def)

section \<open>Failures on record\<close>

definition recent :: "time \<Rightarrow> time list \<Rightarrow> nat" where
  "recent t fs = length (filter (\<lambda>at. at > t - loginFailureWindow) fs)"

lemma recent_later: "t \<le> t' \<Longrightarrow> recent t' fs \<le> recent t fs"
  unfolding recent_def by (induction fs) auto

lemma recent_snoc: "recent t (fs @ [at]) \<le> Suc (recent t fs)"
  by (simp add: recent_def)

definition limiter_ok :: "string \<Rightarrow> nat \<Rightarrow> loginLimiter \<Rightarrow> time \<Rightarrow> time list \<Rightarrow> nat \<Rightarrow> bool" where
  "limiter_ok key m l t fs p \<longleftrightarrow>
     ll_window l = loginFailureWindow \<and> ll_limit l = loginFailureLimit
     \<and> (\<exists>since. since \<le> t - loginFailureWindow \<and> failures_of l key = filter (\<lambda>at. since < at) fs)
     \<and> int (recent t fs + p) < loginFailureLimit + int m"

lemma limiter_ok_later:
  assumes "limiter_ok key m l t fs p" "t \<le> t'"
  shows "limiter_ok key m l t' fs p"
proof -
  from assms(1) obtain since where "since \<le> t - loginFailureWindow" "failures_of l key = filter (\<lambda>at. since < at) fs"
    by (auto simp: limiter_ok_def)
  with assms(2) have "\<exists>since. since \<le> t' - loginFailureWindow \<and> failures_of l key = filter (\<lambda>at. since < at) fs"
    by (intro exI [of _ since]) simp
  with assms(1) recent_later [OF assms(2), of fs] show ?thesis by (simp add: limiter_ok_def)
qed

lemma filter_cuts: "(since :: time) \<le> t \<Longrightarrow> filter (\<lambda>at. at > t) (filter (\<lambda>at. since < at) fs) = filter (\<lambda>at. at > t) fs"
  by (induction fs) auto

text \<open>The limiter counts exactly the recent failures.\<close>

lemma Allowed_recent:
  assumes "limiter_ok key m l t fs p" "t \<le> now" "Allowed now key l = (ok, l')"
  shows "ok \<longleftrightarrow> int (recent now fs) < loginFailureLimit"
proof -
  from assms(1) obtain since where "since \<le> t - loginFailureWindow" "failures_of l key = filter (\<lambda>at. since < at) fs"
    "ll_window l = loginFailureWindow" "ll_limit l = loginFailureLimit" by (auto simp: limiter_ok_def)
  with Allowed_result [OF assms(3), of key] filter_cuts [of since "now - loginFailureWindow" fs] assms(2) show ?thesis
    by (simp add: recent_def)
qed

lemma Allowed_limiter:
  assumes "limiter_ok key m l t fs p" "t \<le> now" "Allowed now k l = (ok, l')"
    "p' = (if ok \<and> k = key then Suc p else p)" "p' \<le> m"
  shows "limiter_ok key m l' now fs p'"
proof -
  note later = limiter_ok_later [OF assms(1,2)]
  from assms(1) obtain since where early: "since \<le> t - loginFailureWindow" "failures_of l key = filter (\<lambda>at. since < at) fs"
    by (auto simp: limiter_ok_def)
  have "\<exists>since. since \<le> now - loginFailureWindow \<and> failures_of l' key = filter (\<lambda>at. since < at) fs"
  proof (cases "k = key")
    case True
    with Allowed_result [OF assms(3), of key] early filter_cuts [of since "now - loginFailureWindow" fs] assms(2) later
    show ?thesis by (auto simp: limiter_ok_def)
  next
    case False
    with Allowed_result [OF assms(3), of key] early assms(2) show ?thesis by (intro exI [of _ since]) simp
  qed
  moreover have "int (recent now fs + p') < loginFailureLimit + int m"
  proof (cases "ok \<and> k = key")
    case True
    with Allowed_recent [OF assms(1,2)] assms(3) have "int (recent now fs) < loginFailureLimit" by blast
    with True assms(4,5) show ?thesis by simp
  next
    case False
    with assms(4) later show ?thesis by (auto simp: limiter_ok_def)
  qed
  ultimately show ?thesis using Allowed_result [OF assms(3)] later by (simp add: limiter_ok_def)
qed

lemma Fail_limiter:
  assumes "limiter_ok key m l t fs p" "t \<le> now" "now \<le> at" "Fail now at k l = (blocked, l')" "k = key \<Longrightarrow> 0 < p"
  shows "limiter_ok key m l' at (if k = key then fs @ [at] else fs) (if k = key then p - 1 else p)"
proof -
  have "t \<le> at" using assms(2,3) by simp
  note later = limiter_ok_later [OF assms(1) this]
  have res: "failures_of l' key = (if key = k then filter (\<lambda>t. t > now - ll_window l) (failures_of l k) @ [at] else failures_of l key)"
    "ll_window l' = ll_window l" "ll_limit l' = ll_limit l"
    using Fail_result [OF assms(4), of key] by simp_all
  from assms(1) obtain since where early: "since \<le> t - loginFailureWindow" "failures_of l key = filter (\<lambda>at. since < at) fs"
    "ll_window l = loginFailureWindow" by (auto simp: limiter_ok_def)
  show ?thesis
  proof (cases "k = key")
    case True
    have "failures_of l' key = filter (\<lambda>x. now - loginFailureWindow < x) (fs @ [at])"
      using res(1) early True filter_cuts [of since "now - loginFailureWindow" fs] assms(2,3)
      by (auto simp: loginFailureWindow_def second_def)
    then have "\<exists>since. since \<le> at - loginFailureWindow \<and> failures_of l' key = filter (\<lambda>x. since < x) (fs @ [at])"
      using assms(3) by (intro exI [of _ "now - loginFailureWindow"]) simp
    with later True assms(5) recent_snoc [of at fs at] res(2,3) show ?thesis by (auto simp: limiter_ok_def)
  next
    case False
    with later res show ?thesis by (simp add: limiter_ok_def)
  qed
qed

lemma login_begin_limiter:
  assumes "login_begin env ne r s = (x, s')"
  shows "(\<exists>m. checkSameOrigin ne r = Some m \<and> x \<noteq> None \<and> s' = s)
    \<or> checkSameOrigin ne r = None
      \<and> (\<exists>l. Allowed (le_allowed env) (clientKey ne r) (api_limiter s) = (x = None, l) \<and> s' = s\<lparr>api_limiter := l\<rparr>
             \<and> (x \<noteq> None \<longrightarrow> x = Some (Failed 429 ''too many failed login attempts; try again later'')))"
proof (cases "checkSameOrigin ne r")
  case None
  obtain ok l where "Allowed (le_allowed env) (clientKey ne r) (api_limiter s) = (ok, l)" by fastforce
  with assms None show ?thesis by (cases ok) (auto simp: login_begin_def)
next
  case (Some m)
  with assms show ?thesis by (auto simp: login_begin_def)
qed

lemma login_run_ok:
  assumes "login_run key m s t fs p"
  shows "limiter_ok key m (api_limiter s) t fs p"
  using assms
proof induction
  case (opened c a f t)
  have "\<exists>b. b \<le> t - loginFailureWindow" by auto
  then show ?case by (auto simp: limiter_ok_def newControllerAPI_def newLoginLimiter_def failures_of_def recent_def
      loginFailureWindow_def loginFailureLimit_def second_def)
next
  case (begun s t fs p env ne r x s' p')
  from login_begin_limiter [OF begun(3)] show ?case
  proof
    assume "\<exists>m. checkSameOrigin ne r = Some m \<and> x \<noteq> None \<and> s' = s"
    with begun limiter_ok_later show ?case by auto
  next
    assume "checkSameOrigin ne r = None
      \<and> (\<exists>l. Allowed (le_allowed env) (clientKey ne r) (api_limiter s) = (x = None, l) \<and> s' = s\<lparr>api_limiter := l\<rparr>
             \<and> (x \<noteq> None \<longrightarrow> x = Some (Failed 429 ''too many failed login attempts; try again later'')))"
    with Allowed_limiter [OF begun(6,2) _ begun(4,5)] show ?case by auto
  qed
next
  case (finished s t fs p env ne r resp s')
  have "t \<le> le_failAt env" using finished(2,3) by simp
  note later = limiter_ok_later [OF finished(6) this]
  have fewer: "limiter_ok key m (api_limiter s) (le_failAt env) fs (if clientKey ne r = key then p - 1 else p)"
    using later by (auto simp: limiter_ok_def)
  from finished(5) show ?case
  proof (cases rule: login_finish_cases)
    case (wrong user password err a blocked l)
    with Fail_limiter [OF finished(6,2,3) wrong(4)] finished(4) show ?thesis by (auto simp: failures_after_def)
  next
    case (right user password a se ss)
    then show ?thesis using fewer
      by (auto simp: failures_after_def limiter_ok_def recent_def intro: exI [of _ "le_failAt env - loginFailureWindow"])
  next
    case undecoded
    with fewer show ?thesis by (auto simp: failures_after_def split: if_splits)
  next
    case (no_admin user password a)
    with fewer show ?thesis by (auto simp: failures_after_def)
  qed
next
  case (other s t fs p t' s')
  with limiter_ok_later show ?case by auto
qed

text \<open>C32. Guessing is slowed down.  At every moment of every run of the service, the wrong passwords that were
  looked at for one client address in the last five minutes, since its last successful login, together with
  its logins in flight, are fewer than five plus the number \<open>m\<close> of logins it has in flight at a time (so at
  most five failures when it tries one password after the other); and once five failures are on record in
  that window, a further login is refused without looking at the password.\<close>

theorem login_failures_bounded:
  assumes "login_run key m s t fs p"
  shows "length (filter (\<lambda>at. at > t - 5 * 60 * second) fs) + p < 5 + m
    \<and> (t \<le> le_allowed env \<longrightarrow> clientKey ne r = key \<longrightarrow> checkSameOrigin ne r = None
        \<longrightarrow> 5 \<le> length (filter (\<lambda>at. at > le_allowed env - 5 * 60 * second) fs)
        \<longrightarrow> fst (login_begin env ne r s) = Some (Failed 429 ''too many failed login attempts; try again later''))"
proof -
  have ok: "limiter_ok key m (api_limiter s) t fs p" by (rule login_run_ok [OF assms])
  have n: "loginFailureLimit = 5" "loginFailureWindow = 5 * 60 * second"
    by (simp_all add: loginFailureLimit_def loginFailureWindow_def)
  have "fst (login_begin env ne r s) = Some (Failed 429 ''too many failed login attempts; try again later'')"
    if a: "t \<le> le_allowed env" "clientKey ne r = key" "checkSameOrigin ne r = None" "5 \<le> recent (le_allowed env) fs"
  proof -
    obtain x s' where b: "login_begin env ne r s = (x, s')" by fastforce
    from login_begin_limiter [OF b] a(2,3) obtain l where "Allowed (le_allowed env) key (api_limiter s) = (x = None, l)"
      "x \<noteq> None \<longrightarrow> x = Some (Failed 429 ''too many failed login attempts; try again later'')" by auto
    with Allowed_recent [OF ok a(1)] a(4) n b show ?thesis by auto
  qed
  with ok n show ?thesis unfolding limiter_ok_def recent_def by auto
qed

text \<open>One wrong guess.\<close>

definition sample_guess_env :: login_env where
  "sample_guess_env = sample_login_env\<lparr>le_body := Some (''admin'', ''guess'')\<rparr>"

theorem login_failures_bounded_witness:
  "\<exists>s. login_run ''10.0.0.7'' 1 (s :: ControllerConfig ControllerAPI) 52 [52] 0
     \<and> length (filter (\<lambda>at. at > 52 - 5 * 60 * second) [52]) + 0 < 5 + (1 :: nat)"
proof -
  fix c
  let ?begun = "login_begin sample_guess_env sample_net sample_login (sample_service c)"
  have t: "le_allowed sample_guess_env = 50" "le_failNow sample_guess_env = 51" "le_failAt sample_guess_env = 52"
    by (simp_all add: sample_guess_env_def sample_login_env_def)
  have k: "clientKey sample_net sample_login = ''10.0.0.7''" by code_simp
  have "(case fst ?begun of None \<Rightarrow> True | Some _ \<Rightarrow> False)" by code_simp
  then have b: "?begun = (None, snd ?begun)" by (cases ?begun) (auto split: option.splits)
  have "login_run ''10.0.0.7'' 1 (sample_service c) 50 [] 0" unfolding sample_service_def by (rule login_run.opened)
  then have "login_run ''10.0.0.7'' 1 (snd ?begun) 50 [] 1"
    by (rule login_run.begun [where env = sample_guess_env, OF _ _ b, unfolded t]) (simp_all add: k)
  moreover have "failures_after ''10.0.0.7'' sample_guess_env sample_net sample_login (snd ?begun) [] = [52]" by code_simp
  moreover obtain resp s' where "login_finish sample_guess_env sample_net sample_login (snd ?begun) = (resp, s')" by fastforce
  ultimately have r: "login_run ''10.0.0.7'' 1 s' 52 [52] 0"
    using login_run.finished [of "''10.0.0.7''" 1 "snd ?begun" 50 "[]" 1 sample_guess_env sample_net sample_login resp s'] k t
    by simp
  from r login_failures_bounded [OF r] show ?thesis by (intro exI [of _ s']) simp
qed

end
