(* ===== verification/Runner.thy ===== *)
theory Runner
  imports Migrate_Import Agent_Exec
begin

text \<open>
  The standalone runner: \<^verbatim>\<open>runner.go\<close>, \<^verbatim>\<open>runner_exec.go\<close>, the types of \<^verbatim>\<open>types.go\<close> and
  \<^verbatim>\<open>writeFileAtomic\<close> of \<^verbatim>\<open>util.go\<close>.  A runner keeps its runs in request order, executes one at a
  time, writes \<^verbatim>\<open>runs.json\<close> after every change and keeps a bounded number of finished runs.

  The record \<^verbatim>\<open>Runner\<close> has the fields of the Go struct; \<^verbatim>\<open>runner_proc\<close> extends it by what
  surrounds it: the files of the log directory, the contexts made by \<^verbatim>\<open>dispatchLocked\<close> and the
  goroutines that run \<^verbatim>\<open>execute\<close>.  The pointers of the map \<^verbatim>\<open>byID\<close> are recovered from its keys:
  an identifier that is a key points to the last run with that identifier, since a run is entered when
  it is appended and the key is deleted with any run of that identifier.  Every operation that holds the
  lock is one function; what the file system and the clock answer are arguments.
\<close>

section \<open>Data\<close>

record TaskInputConfig =
  in_ID :: string
  in_Name :: string
  in_Description :: string
  in_Type :: string
  in_Default :: string
  in_Required :: bool
  in_Options :: "string list"

record TaskConfig =
  tc_ID :: string
  tc_Name :: string
  tc_Description :: string
  tc_Script :: string
  tc_Timeout :: string
  tc_ScriptHeader :: string
  tc_Inputs :: "TaskInputConfig list"

text \<open>\<open>ru_cancel\<close> names the context the cancel function belongs to (\<open>None\<close> is nil) and
  \<open>ru_done\<close> tells whether the channel \<^verbatim>\<open>done\<close> is closed.\<close>

record Run =
  ru_ID :: string
  ru_TaskID :: string
  ru_TaskName :: string
  ru_Script :: string
  ru_Inputs :: "string gomap"
  ru_TaskSnapshot :: TaskConfig
  ru_LogPath :: string
  ru_Timeout :: int
  ru_TimeoutText :: string
  ru_Status :: string
  ru_RequestedAt :: time
  ru_StartedAt :: time
  ru_FinishedAt :: time
  ru_CanceledAt :: time
  ru_ExitCode :: int
  ru_Error :: string
  ru_cancel :: "nat option"
  ru_done :: bool

record RunSummary =
  sm_ID :: string
  sm_TaskID :: string
  sm_TaskName :: string
  sm_Script :: string
  sm_Inputs :: "string gomap"
  sm_TaskSnapshot :: TaskConfig
  sm_LogPath :: string
  sm_TimeoutText :: string
  sm_Status :: string
  sm_RequestedAt :: time
  sm_StartedAt :: time
  sm_FinishedAt :: time
  sm_CanceledAt :: time
  sm_ExitCode :: int
  sm_Error :: string

record Runner =
  rr_logDir :: string
  rr_statePath :: string
  rr_maxHistory :: int
  rr_runs :: "Run list"
  rr_byID :: "string list"
  rr_activeID :: string

text \<open>Files: the state file holds the exported fields of the runs (an entry may be null), everything
  else is text, and a write that failed half-way leaves a torn file.\<close>

datatype file_data = RunsJSON "Run option list" | PlainText string | Torn

datatype ctx_state = CtxLive | CtxCanceled | CtxDeadline

record run_ctx =
  cx_timeout :: int
  cx_state :: ctx_state

text \<open>A goroutine in \<^verbatim>\<open>execute\<close> has been started, or it holds the arguments with which it will
  call \<^verbatim>\<open>finish\<close>.\<close>

datatype thread_state = Launched | Ending bool int string

record exec_thread =
  th_ctx :: nat
  th_run :: string
  th_state :: thread_state

record runner_proc = Runner +
  rp_disk :: "file_data gomap"
  rp_ctxs :: "run_ctx list"
  rp_threads :: "exec_thread list"

datatype run_error = errRunActive | errRunNotFound | ErrRunTimeout string

section \<open>Files\<close>

datatype write_result = WriteRefused | WriteTorn | RenameFails | WriteOk

definition writeFileAtomic ::
    "write_result \<Rightarrow> string \<Rightarrow> file_data \<Rightarrow> file_data gomap \<Rightarrow> bool \<times> file_data gomap" where
  "writeFileAtomic w path data disk =
     (let tmp = path @ ''.tmp'' in
      case w of
        WriteRefused \<Rightarrow> (False, disk)
      | WriteTorn \<Rightarrow> (False, AList.update tmp Torn disk)
      | RenameFails \<Rightarrow> (False, AList.update tmp data disk)
      | WriteOk \<Rightarrow> (True, AList.update path data (AList.delete tmp disk)))"

text \<open>What one operation gets from outside: two readings of the clock, the outcome of its first and
  of its second save, and the paths that cannot be removed.\<close>

record runner_io =
  io_now :: time
  io_later :: time
  io_save :: write_result
  io_save2 :: write_result
  io_unremovable :: "string \<Rightarrow> bool"

section \<open>Inputs of a run\<close>

definition cloneInputs :: "string gomap \<Rightarrow> string gomap" where
  "cloneInputs inputs =
     (if inputs = [] then [] else fold (\<lambda>(key, value) clone. AList.update key value clone) inputs [])"

definition taskInputEnvName :: "string \<Rightarrow> string" where
  "taskInputEnvName inputID = ''BUILDA_INPUT_'' @ map env_char inputID"

definition inputEnv :: "string gomap \<Rightarrow> string list" where
  "inputEnv inputs = sort (map (\<lambda>(key, value). taskInputEnvName key @ ''='' @ value) inputs)"

definition taskEnvironment :: "string list \<Rightarrow> string gomap \<Rightarrow> string list" where
  "taskEnvironment environ inputs = environ @ inputEnv inputs"

section \<open>The list of runs\<close>

definition has_id :: "string \<Rightarrow> Run \<Rightarrow> bool" where
  "has_id i run \<longleftrightarrow> ru_ID run = i"

definition terminal_run :: "Run \<Rightarrow> bool" where
  "terminal_run run \<longleftrightarrow> isTerminal (ru_Status run)"

definition queued_run :: "Run \<Rightarrow> bool" where
  "queued_run run \<longleftrightarrow> ru_Status run = StatusQueued"

definition running_run :: "Run \<Rightarrow> bool" where
  "running_run run \<longleftrightarrow> ru_Status run = StatusRunning"

text \<open>\<^verbatim>\<open>r.byID[id]\<close>, and an update through that pointer.\<close>

definition byID_get :: "('a) Runner_scheme \<Rightarrow> string \<Rightarrow> Run option" where
  "byID_get r i = (if i \<in> set (rr_byID r) then find (has_id i) (rev (rr_runs r)) else None)"

definition byID_upd :: "string \<Rightarrow> (Run \<Rightarrow> Run) \<Rightarrow> ('a) Runner_scheme \<Rightarrow> ('a) Runner_scheme" where
  "byID_upd i f r = r\<lparr>rr_runs := rev (upd_first (has_id i) f (rev (rr_runs r)))\<rparr>"

definition closeDone :: "Run \<Rightarrow> Run" where
  "closeDone run = run\<lparr>ru_done := True\<rparr>"

definition run_log_file :: "string \<Rightarrow> string \<Rightarrow> string" where
  "run_log_file logDir i = path_join logDir (path_base i @ ''.log'')"

fun run_prune_loop :: "int \<Rightarrow> Run list \<Rightarrow> Run list \<times> Run list" where
  "run_prune_loop removeCount [] = ([], [])"
| "run_prune_loop removeCount (run # runs) =
     (if removeCount > 0 \<and> terminal_run run
      then (case run_prune_loop (removeCount - 1) runs of (kept, pruned) \<Rightarrow> (kept, run # pruned))
      else (case run_prune_loop removeCount runs of (kept, pruned) \<Rightarrow> (run # kept, pruned)))"

definition pruneHistoryLocked :: "('a) Runner_scheme \<Rightarrow> Run list \<times> ('a) Runner_scheme" where
  "pruneHistoryLocked r =
     (let maxHistory = normalizeMaxHistory (rr_maxHistory r);
          r = r\<lparr>rr_maxHistory := maxHistory\<rparr>;
          terminalCount = int (length (filter terminal_run (rr_runs r)));
          removeCount = terminalCount - maxHistory
      in if removeCount \<le> 0 then ([], r)
         else case run_prune_loop removeCount (rr_runs r) of (kept, pruned) \<Rightarrow>
           (pruned, r\<lparr>rr_runs := kept, rr_byID := filter (\<lambda>i. i \<notin> ru_ID ` set pruned) (rr_byID r)\<rparr>))"

definition removePrunedLogs ::
    "(string \<Rightarrow> bool) \<Rightarrow> string \<Rightarrow> Run list \<Rightarrow> file_data gomap \<Rightarrow> file_data gomap" where
  "removePrunedLogs unremovable logDir pruned disk =
     fold (\<lambda>run disk.
             if ru_ID run = '''' then disk
             else let path = run_log_file logDir (ru_ID run)
                  in if unremovable path then disk else AList.delete path disk) pruned disk"

text \<open>The JSON form of a run carries the exported fields only.\<close>

definition exported :: "Run \<Rightarrow> Run" where
  "exported run = run\<lparr>ru_cancel := None, ru_done := False\<rparr>"

definition saveLocked :: "write_result \<Rightarrow> (string \<Rightarrow> bool) \<Rightarrow> runner_proc \<Rightarrow> runner_proc" where
  "saveLocked w unremovable r =
     (case pruneHistoryLocked r of (pruned, r) \<Rightarrow>
        (case writeFileAtomic w (rr_statePath r) (RunsJSON (map (\<lambda>run. Some (exported run)) (rr_runs r)))
                (rp_disk r) of (ok, disk) \<Rightarrow>
           if \<not> ok then r\<lparr>rp_disk := disk\<rparr>
           else r\<lparr>rp_disk := removePrunedLogs unremovable (rr_logDir r) pruned disk\<rparr>))"

section \<open>Operations\<close>

definition dispatchLocked :: "time \<Rightarrow> write_result \<Rightarrow> (string \<Rightarrow> bool) \<Rightarrow> runner_proc \<Rightarrow> runner_proc" where
  "dispatchLocked now w unremovable r =
     (if rr_activeID r \<noteq> '''' then r
      else case find queued_run (rr_runs r) of
        None \<Rightarrow> r
      | Some nxt \<Rightarrow>
          (let k = length (rp_ctxs r);
               r = r\<lparr>rp_ctxs := rp_ctxs r @
                       [\<lparr>cx_timeout = (if ru_Timeout nxt > 0 then ru_Timeout nxt else 0), cx_state = CtxLive\<rparr>],
                     rr_runs := upd_first queued_run
                       (\<lambda>run. run\<lparr>ru_cancel := Some k, ru_Status := StatusRunning, ru_StartedAt := now\<rparr>)
                       (rr_runs r),
                     rr_activeID := ru_ID nxt\<rparr>;
               r = saveLocked w unremovable r
           in r\<lparr>rp_threads := rp_threads r @ [\<lparr>th_ctx = k, th_run = ru_ID nxt, th_state = Launched\<rparr>]\<rparr>))"

definition Runner_SetMaxHistory :: "runner_io \<Rightarrow> int \<Rightarrow> runner_proc \<Rightarrow> runner_proc" where
  "Runner_SetMaxHistory io maxHistory r =
     (let nxt = normalizeMaxHistory maxHistory in
      if rr_maxHistory r = nxt then r
      else saveLocked (io_save io) (io_unremovable io) (r\<lparr>rr_maxHistory := nxt\<rparr>))"

definition new_run :: "time \<Rightarrow> string \<Rightarrow> string \<Rightarrow> TaskConfig \<Rightarrow> string gomap \<Rightarrow> int \<Rightarrow> Run" where
  "new_run now logDir i task inputs timeout =
     \<lparr>ru_ID = i, ru_TaskID = tc_ID task, ru_TaskName = tc_Name task, ru_Script = tc_Script task,
      ru_Inputs = cloneInputs inputs, ru_TaskSnapshot = task,
      ru_LogPath = path_join logDir (i @ ''.log''), ru_Timeout = timeout, ru_TimeoutText = tc_Timeout task,
      ru_Status = StatusQueued, ru_RequestedAt = now, ru_StartedAt = 0, ru_FinishedAt = 0,
      ru_CanceledAt = 0, ru_ExitCode = - 1, ru_Error = '''', ru_cancel = None, ru_done = False\<rparr>"

text \<open>\<open>parse\<close> is \<^verbatim>\<open>time.ParseDuration\<close> and \<open>i\<close> the identifier \<^verbatim>\<open>newRunID\<close> draws.\<close>

definition Runner_Start ::
    "(string \<Rightarrow> int option) \<Rightarrow> runner_io \<Rightarrow> string \<Rightarrow> TaskConfig \<Rightarrow> string gomap \<Rightarrow> runner_proc
      \<Rightarrow> (run_error + Run) \<times> runner_proc" where
  "Runner_Start parse io i task inputs r =
     (case (if tc_Timeout task \<noteq> '''' then parse (tc_Timeout task) else Some 0) of
        None \<Rightarrow> (Inl (ErrRunTimeout (tc_ID task)), r)
      | Some timeout \<Rightarrow>
          (let run = new_run (io_now io) (rr_logDir r) i task inputs timeout;
               r = r\<lparr>rr_runs := rr_runs r @ [run], rr_byID := List.insert i (rr_byID r)\<rparr>;
               r = saveLocked (io_save io) (io_unremovable io) r;
               r = dispatchLocked (io_later io) (io_save2 io) (io_unremovable io) r
           in (Inr run, r)))"

definition Runner_Delete :: "runner_io \<Rightarrow> string \<Rightarrow> runner_proc \<Rightarrow> run_error option \<times> runner_proc" where
  "Runner_Delete io i r =
     (case find (has_id i) (rr_runs r) of
        None \<Rightarrow> (Some errRunNotFound, r)
      | Some run \<Rightarrow>
          if \<not> terminal_run run then (Some errRunActive, r)
          else
            (let r = r\<lparr>rr_runs := del_first (has_id i) (rr_runs r), rr_byID := filter (\<lambda>j. j \<noteq> i) (rr_byID r)\<rparr>;
                 r = saveLocked (io_save io) (io_unremovable io) r
             in (None, r\<lparr>rp_disk := removePrunedLogs (io_unremovable io) (rr_logDir r) [run] (rp_disk r)\<rparr>)))"

definition finish_run :: "time \<Rightarrow> bool \<Rightarrow> int \<Rightarrow> string \<Rightarrow> Run \<Rightarrow> Run" where
  "finish_run now canceled exitCode errText run =
     (let run = run\<lparr>ru_ExitCode := exitCode, ru_Error := errText, ru_FinishedAt := now\<rparr>;
          run = (if canceled \<or> ru_CanceledAt run \<noteq> 0
                 then (let run = run\<lparr>ru_Status := StatusCanceled\<rparr>
                       in if ru_CanceledAt run = 0 then run\<lparr>ru_CanceledAt := ru_FinishedAt run\<rparr> else run)
                 else if exitCode = 0 then run\<lparr>ru_Status := StatusSuccess\<rparr>
                 else run\<lparr>ru_Status := StatusFailed\<rparr>)
      in run\<lparr>ru_cancel := None\<rparr>)"

text \<open>The run is finished, the state is saved, the waiters are released through the pointer the
  function still holds (the run may have been pruned by the save), and the next run is started.\<close>

definition Runner_finish :: "runner_io \<Rightarrow> string \<Rightarrow> bool \<Rightarrow> int \<Rightarrow> string \<Rightarrow> runner_proc \<Rightarrow> runner_proc" where
  "Runner_finish io i canceled exitCode errText r =
     (case byID_get r i of
        None \<Rightarrow> r
      | Some run \<Rightarrow>
          (let r = byID_upd i (finish_run (io_now io) canceled exitCode errText) r;
               r = (if rr_activeID r = i then r\<lparr>rr_activeID := ''''\<rparr> else r);
               r = saveLocked (io_save io) (io_unremovable io) r;
               r = (case byID_get r i of None \<Rightarrow> r | Some _ \<Rightarrow> byID_upd i closeDone r)
           in dispatchLocked (io_later io) (io_save2 io) (io_unremovable io) r))"

text \<open>Calling a cancel function cancels its context, unless that has ended before.\<close>

definition cancel_ctx :: "nat option \<Rightarrow> runner_proc \<Rightarrow> runner_proc" where
  "cancel_ctx cancel r =
     (case cancel of
        None \<Rightarrow> r
      | Some k \<Rightarrow>
          if k < length (rp_ctxs r) \<and> cx_state (rp_ctxs r ! k) = CtxLive
          then r\<lparr>rp_ctxs := (rp_ctxs r)[k := (rp_ctxs r ! k)\<lparr>cx_state := CtxCanceled\<rparr>]\<rparr> else r)"

definition Runner_Cancel :: "runner_io \<Rightarrow> string \<Rightarrow> runner_proc \<Rightarrow> bool \<times> runner_proc" where
  "Runner_Cancel io i r =
     (case byID_get r i of
        None \<Rightarrow> (False, r)
      | Some run \<Rightarrow>
          let now = io_now io in
          if queued_run run then
            (True, saveLocked (io_save io) (io_unremovable io)
               (byID_upd i (\<lambda>run. closeDone (run\<lparr>ru_Status := StatusCanceled, ru_CanceledAt := now,
                  ru_FinishedAt := now, ru_Error := ''canceled before start''\<rparr>)) r))
          else if running_run run then
            (True, cancel_ctx (ru_cancel run)
               (saveLocked (io_save io) (io_unremovable io)
                 (byID_upd i (\<lambda>run. if ru_CanceledAt run = 0 then run\<lparr>ru_CanceledAt := now\<rparr> else run) r)))
          else (False, r))"

section \<open>Starting up\<close>

definition restored_run :: "time \<Rightarrow> Run \<Rightarrow> Run" where
  "restored_run now run =
     (let run = (if tc_ID (ru_TaskSnapshot run) = ''''
                 then run\<lparr>ru_TaskSnapshot :=
                   \<lparr>tc_ID = ru_TaskID run, tc_Name = ru_TaskName run, tc_Description = '''',
                    tc_Script = ru_Script run, tc_Timeout = ru_TimeoutText run, tc_ScriptHeader = '''',
                    tc_Inputs = []\<rparr>\<rparr> else run);
          run = run\<lparr>ru_cancel := None, ru_done := False\<rparr>;
          run = (if ru_ExitCode run = 0 \<and> \<not> isTerminal (ru_Status run) then run\<lparr>ru_ExitCode := - 1\<rparr> else run)
      in if ru_Status run = StatusRunning
         then closeDone (run\<lparr>ru_Status := StatusAborted,
                ru_Error := ''program restarted while run was in progress'', ru_FinishedAt := now\<rparr>)
         else if isTerminal (ru_Status run) then closeDone run else run)"

fun restore_loop :: "time \<Rightarrow> Run option list \<Rightarrow> runner_proc \<Rightarrow> runner_proc" where
  "restore_loop now [] r = r"
| "restore_loop now (entry # entries) r =
     (case entry of
        None \<Rightarrow> restore_loop now entries r
      | Some run \<Rightarrow>
          if ru_ID run = '''' then restore_loop now entries r
          else restore_loop now entries
                 (r\<lparr>rr_runs := rr_runs r @ [restored_run now run],
                    rr_byID := List.insert (ru_ID run) (rr_byID r)\<rparr>))"

text \<open>\<open>unreadable\<close>: reading the state file fails for another reason than its absence.\<close>

definition loadState :: "bool \<Rightarrow> runner_io \<Rightarrow> runner_proc \<Rightarrow> ctrl_error option \<times> runner_proc" where
  "loadState unreadable io r =
     (if unreadable then (Some ErrIO, r)
      else case map_of (rp_disk r) (rr_statePath r) of
        None \<Rightarrow> (None, r)
      | Some (RunsJSON entries) \<Rightarrow>
          (None, saveLocked (io_save io) (io_unremovable io) (restore_loop (io_now io) entries r))
      | Some _ \<Rightarrow> (Some ErrIO, r))"

definition NewRunner ::
    "bool \<Rightarrow> runner_io \<Rightarrow> string \<Rightarrow> int option \<Rightarrow> file_data gomap \<Rightarrow> runner_proc" where
  "NewRunner unreadable io logDir maxHistory disk =
     (let r = \<lparr>rr_logDir = logDir, rr_statePath = path_join logDir ''runs.json'',
               rr_maxHistory = (case maxHistory of None \<Rightarrow> defaultMaxHistory | Some n \<Rightarrow> normalizeMaxHistory n),
               rr_runs = [], rr_byID = [], rr_activeID = '''',
               rp_disk = disk, rp_ctxs = [], rp_threads = []\<rparr>
      in dispatchLocked (io_later io) (io_save2 io) (io_unremovable io) (snd (loadState unreadable io r)))"

section \<open>Reading\<close>

definition summaryLocked :: "Run \<Rightarrow> RunSummary" where
  "summaryLocked r =
     \<lparr>sm_ID = ru_ID r, sm_TaskID = ru_TaskID r, sm_TaskName = ru_TaskName r, sm_Script = ru_Script r,
      sm_Inputs = cloneInputs (ru_Inputs r), sm_TaskSnapshot = ru_TaskSnapshot r, sm_LogPath = ru_LogPath r,
      sm_TimeoutText = ru_TimeoutText r, sm_Status = ru_Status r, sm_RequestedAt = ru_RequestedAt r,
      sm_StartedAt = ru_StartedAt r, sm_FinishedAt = ru_FinishedAt r, sm_CanceledAt = ru_CanceledAt r,
      sm_ExitCode = ru_ExitCode r, sm_Error = ru_Error r\<rparr>"

text \<open>A stable sort by descending request time.\<close>

definition snapshotLocked :: "string \<Rightarrow> ('a) Runner_scheme \<Rightarrow> RunSummary list" where
  "snapshotLocked taskID r =
     sort_key (\<lambda>s. - sm_RequestedAt s)
       (map summaryLocked (filter (\<lambda>run. taskID = '''' \<or> ru_TaskID run = taskID) (rr_runs r)))"

definition Runner_Snapshot :: "('a) Runner_scheme \<Rightarrow> RunSummary list" where
  "Runner_Snapshot r = snapshotLocked '''' r"

definition Runner_SnapshotByTask :: "string \<Rightarrow> ('a) Runner_scheme \<Rightarrow> RunSummary list" where
  "Runner_SnapshotByTask taskID r = snapshotLocked taskID r"

definition Runner_Find :: "('a) Runner_scheme \<Rightarrow> string \<Rightarrow> RunSummary option" where
  "Runner_Find r i = map_option summaryLocked (byID_get r i)"

text \<open>\<^verbatim>\<open>Wait\<close> looks the run up in one state (\<open>r0\<close>) and then waits on its channel.  In a later
  state \<open>r\<close> the channel is closed when the run says so, or when the run has left the list, which only
  finished runs do.  \<open>None\<close> means that the call is still blocked; \<open>prefer_ctx\<close> is the choice
  \<^verbatim>\<open>select\<close> makes when both channels are ready.\<close>

definition Runner_Wait ::
    "('a) Runner_scheme \<Rightarrow> ('a) Runner_scheme \<Rightarrow> bool \<Rightarrow> bool \<Rightarrow> string \<Rightarrow> bool option" where
  "Runner_Wait r0 r ctx_ended prefer_ctx i =
     (case byID_get r0 i of
        None \<Rightarrow> Some False
      | Some _ \<Rightarrow>
          (let closed = (case byID_get r i of None \<Rightarrow> True | Some run \<Rightarrow> ru_done run)
           in if closed \<and> \<not> (ctx_ended \<and> prefer_ctx) then Some True
              else if ctx_ended then Some False
              else None))"

end
