(* ===== verification/Runner_Exec.thy ===== *)
theory Runner_Exec
  imports Runner
begin

text \<open>
  Executing a run: the rest of \<^verbatim>\<open>runner_exec.go\<close>.  \<^verbatim>\<open>copyPrefixed\<close> turns the output of a script into
  log lines; it reads through \<^verbatim>\<open>bufio.Reader.ReadLine\<close>, whose behaviour on a buffer of a given size
  is modelled here.  \<^verbatim>\<open>execute\<close> is the goroutine of a run up to the call of \<^verbatim>\<open>finish\<close>.  The last
  section composes the operations to the step relation of a runner process.
\<close>

section \<open>Log lines\<close>

definition writeLog :: "string \<Rightarrow> string \<Rightarrow> string \<Rightarrow> string" where
  "writeLog stamp label message =
     ''['' @ stamp @ ''] '' @ label @ replicate (8 - length label) CHR '' '' @ '' '' @ message @ [CHR 0x0A]"

text \<open>\<^verbatim>\<open>json.Marshal\<close> of a map of strings: the keys are sorted, and a string is quoted with the
  escapes of \<^verbatim>\<open>encoding/json\<close>.  Bytes outside ASCII stay as they are; text that is not UTF-8 and the
  two separators U+2028 and U+2029 are beyond this definition.\<close>

definition json_hex :: "nat \<Rightarrow> char" where
  "json_hex n = char_of (if n < 10 then 48 + n else 87 + n)"

definition json_char :: "char \<Rightarrow> string" where
  "json_char c =
     (if c = CHR 0x22 then [CHR 0x5C, CHR 0x22]
      else if c = CHR 0x5C then [CHR 0x5C, CHR 0x5C]
      else if c = CHR 0x08 then [CHR 0x5C, CHR ''b'']
      else if c = CHR 0x0C then [CHR 0x5C, CHR ''f'']
      else if c = CHR 0x0A then [CHR 0x5C, CHR ''n'']
      else if c = CHR 0x0D then [CHR 0x5C, CHR ''r'']
      else if c = CHR 0x09 then [CHR 0x5C, CHR ''t'']
      else if of_char c < (32 :: nat) \<or> c \<in> {CHR ''<'', CHR ''>'', CHR ''&''}
      then [CHR 0x5C, CHR ''u'', CHR ''0'', CHR ''0'', json_hex (of_char c div 16), json_hex (of_char c mod 16)]
      else [c])"

definition json_quote :: "string \<Rightarrow> string" where
  "json_quote s = [CHR 0x22] @ concat (map json_char s) @ [CHR 0x22]"

definition formatInputLog :: "string gomap \<Rightarrow> string" where
  "formatInputLog inputs =
     ''{'' @ join_with '',''
        (map (\<lambda>key. json_quote key @ '':'' @ json_quote (case map_of inputs key of None \<Rightarrow> '''' | Some value \<Rightarrow> value))
          (sorted_list_of_set (set (map fst inputs))))
      @ ''}''"

section \<open>Copying a pipe\<close>

definition LF :: char where "LF = CHR 0x0A"
definition CR :: char where "CR = CHR 0x0D"

definition maxLogLineBytes :: nat where "maxLogLineBytes = 65536"

text \<open>What a reader gives after its last byte.\<close>

datatype read_end = ReadEOF | ReadFails string

text \<open>\<^verbatim>\<open>ReadLine\<close> on the bytes still to come: the chunk, whether the line goes on, the error, and
  what is left.  A buffer has at least 16 bytes.  A carriage return at the end of a full buffer is put
  back, since a line feed may follow; one before the line feed is dropped.  An error is reported only
  with an empty chunk.\<close>

definition drop_cr :: "string \<Rightarrow> string" where
  "drop_cr l = (if l \<noteq> [] \<and> last l = CR then butlast l else l)"

definition readLine :: "nat \<Rightarrow> read_end \<Rightarrow> string \<Rightarrow> (string \<times> bool \<times> read_end option) \<times> string" where
  "readLine bufsize fin s =
     (let n = max 16 bufsize; buf = take n s in
      if LF \<in> set buf then
        (let l = takeWhile (\<lambda>c. c \<noteq> LF) buf in ((drop_cr l, False, None), drop (Suc (length l)) s))
      else if n \<le> length s then
        (if last buf = CR then ((butlast buf, True, None), drop (n - 1) s) else ((buf, True, None), drop n s))
      else if s \<noteq> [] then ((s, False, None), [])
      else (([], False, Some fin), []))"

text \<open>The inner loop: full pieces are written, the remainder is kept.  (The bound is a positive
  constant of the source.)\<close>

function full_pieces :: "nat \<Rightarrow> string \<Rightarrow> string list \<times> string" where
  "full_pieces m line =
     (if m = 0 \<or> length line < m then ([], line)
      else (case full_pieces m (drop m line) of (pieces, rest) \<Rightarrow> (take m line # pieces, rest)))"
  by pat_completeness auto
termination by (relation "measure (\<lambda>(m, line). length line)") auto

declare full_pieces.simps [simp del]

lemma readLine_shrinks:
  assumes "readLine n fin s = ((chunk, isPrefix, err), rest)" "isPrefix \<or> err = None"
  shows "length rest < length s"
proof -
  have "16 \<le> max 16 n" by simp
  then show ?thesis using assms
    by (cases s) (auto simp: readLine_def Let_def split: if_splits)
qed

text \<open>The messages \<^verbatim>\<open>copyPrefixed\<close> writes; \<open>line\<close> is the part of the current line that is not
  yet written.  A reader that has failed keeps failing.\<close>

function copy_loop :: "nat \<Rightarrow> nat \<Rightarrow> read_end \<Rightarrow> string \<Rightarrow> string \<Rightarrow> string list" where
  "copy_loop n m fin line s =
     (case readLine n fin s of ((chunk, isPrefix, err), rest) \<Rightarrow>
        (case (if chunk \<noteq> [] then full_pieces m (line @ chunk) else ([], line)) of (pieces, line) \<Rightarrow>
           if isPrefix then pieces @ copy_loop n m fin line rest
           else pieces @ (if line \<noteq> [] \<or> err = None then [line] else []) @
             (case err of
                None \<Rightarrow> copy_loop n m fin [] rest
              | Some ReadEOF \<Rightarrow> []
              | Some (ReadFails e) \<Rightarrow> [''read error: '' @ e])))"
  by pat_completeness auto
termination
  by (relation "measure (\<lambda>(n, m, fin, line, s). length s)") (auto dest!: readLine_shrinks [OF sym])

declare copy_loop.simps [simp del]

definition copyPrefixed :: "read_end \<Rightarrow> string \<Rightarrow> string list" where
  "copyPrefixed fin s = copy_loop (64 * 1024) maxLogLineBytes fin [] s"

text \<open>Two copying goroutines write to one file, a whole line at a time; \<open>sched\<close> tells whose turn
  it is.\<close>

fun interleave :: "bool list \<Rightarrow> 'a list \<Rightarrow> 'a list \<Rightarrow> 'a list" where
  "interleave sched [] ys = ys"
| "interleave sched xs [] = xs"
| "interleave [] (x # xs) ys = x # interleave [] xs ys"
| "interleave (turn # sched) (x # xs) (y # ys) =
     (if turn then x # interleave sched xs (y # ys) else y # interleave sched (x # xs) ys)"

section \<open>The goroutine of a run\<close>

datatype script_io = ScriptOk | CreateFails string | WriteFails string | CloseFails string | ChmodFails string

text \<open>\<open>name\<close> is the name \<^verbatim>\<open>os.CreateTemp\<close> makes; a file that could not be completed is
  removed again.\<close>

definition writeTaskScript ::
    "script_io \<Rightarrow> string \<Rightarrow> string \<Rightarrow> string \<Rightarrow> string \<Rightarrow> file_data gomap
      \<Rightarrow> (string + string) \<times> file_data gomap" where
  "writeTaskScript sio dir name header script disk =
     (let path = path_join dir name in
      case sio of
        CreateFails e \<Rightarrow> (Inl e, disk)
      | WriteFails e \<Rightarrow> (Inl e, AList.delete path disk)
      | CloseFails e \<Rightarrow> (Inl e, AList.delete path disk)
      | ChmodFails e \<Rightarrow> (Inl e, AList.delete path disk)
      | ScriptOk \<Rightarrow> (Inr path, AList.update path (PlainText (taskScriptContent header script)) disk))"

text \<open>What the operating system does to one execution.\<close>

record exec_env =
  ee_stamp :: "nat \<Rightarrow> string"
  ee_environ :: "string list"
  ee_create :: "string option"
  ee_name :: string
  ee_script :: script_io
  ee_pipe :: "string option"
  ee_start :: "string option"
  ee_stdout :: "string \<times> read_end"
  ee_stderr :: "string \<times> read_end"
  ee_sched :: "bool list"
  ee_wait :: "string option"
  ee_finished :: string
  ee_code :: int

definition execute_task :: "Run \<Rightarrow> TaskConfig" where
  "execute_task run =
     (let task = ru_TaskSnapshot run in
      if tc_ID task = ''''
      then \<lparr>tc_ID = ru_TaskID run, tc_Name = ru_TaskName run, tc_Description = '''',
            tc_Script = ru_Script run, tc_Timeout = ru_TimeoutText run, tc_ScriptHeader = '''', tc_Inputs = []\<rparr>
      else task)"

definition log_text :: "(nat \<Rightarrow> string) \<Rightarrow> (string \<times> string) list \<Rightarrow> string" where
  "log_text stamp ls = concat (map2 (\<lambda>k (label, message). writeLog (stamp k) label message) [0..<length ls] ls)"

definition head_lines :: "string \<Rightarrow> Run \<Rightarrow> (string \<times> string) list" where
  "head_lines started run =
     [(''started'', started), (''task'', ru_TaskName run), (''script'', ru_Script run)]
     @ (if cloneInputs (ru_Inputs run) \<noteq> [] then [(''params'', formatInputLog (cloneInputs (ru_Inputs run)))] else [])"

definition output_lines :: "exec_env \<Rightarrow> (string \<times> string) list" where
  "output_lines env =
     interleave (ee_sched env)
       (map (Pair ''stdout'') (copyPrefixed (snd (ee_stdout env)) (fst (ee_stdout env))))
       (map (Pair ''stderr'') (copyPrefixed (snd (ee_stderr env)) (fst (ee_stderr env))))"

text \<open>The command and its environment.\<close>

definition execute_command :: "exec_env \<Rightarrow> Run \<Rightarrow> string \<times> string list" where
  "execute_command env run =
     (taskScriptContent (tc_ScriptHeader (execute_task run)) (ru_Script run),
      taskEnvironment (ee_environ env) (cloneInputs (ru_Inputs run)))"

text \<open>The result text after the process was reaped: the error of \<^verbatim>\<open>cmd.Wait\<close>, unless the
  deadline has passed.\<close>

definition result_text :: "exec_env \<Rightarrow> ctx_state \<Rightarrow> string" where
  "result_text env cs =
     (if cs = CtxDeadline then ''task timed out''
      else case ee_wait env of None \<Rightarrow> '''' | Some e \<Rightarrow> e)"

text \<open>The run is looked up, its log is created and written, the script is written, run and removed;
  the value is the arguments for \<^verbatim>\<open>finish\<close>, or \<open>None\<close> when the run is not known.\<close>

definition execute_run ::
    "exec_env \<Rightarrow> (time \<Rightarrow> string) \<Rightarrow> ctx_state \<Rightarrow> string \<Rightarrow> Run \<Rightarrow> file_data gomap
      \<Rightarrow> (bool \<times> int \<times> string) \<times> file_data gomap" where
  "execute_run env fmt cs logDir run disk =
     (case ee_create env of
        Some e \<Rightarrow> ((False, - 1, e), disk)
      | None \<Rightarrow>
          (let head = head_lines (fmt (ru_StartedAt run)) run;
               logged = (\<lambda>ls disk. AList.update (ru_LogPath run) (PlainText (log_text (ee_stamp env) ls)) disk);
               disk = logged head disk
           in case writeTaskScript (ee_script env) logDir (ee_name env)
                     (tc_ScriptHeader (execute_task run)) (ru_Script run) disk of
                (Inl e, disk) \<Rightarrow> ((False, - 1, e), disk)
              | (Inr scriptPath, disk) \<Rightarrow>
                  (case ee_pipe env of
                     Some e \<Rightarrow> ((False, - 1, e), AList.delete scriptPath disk)
                   | None \<Rightarrow>
                       (case ee_start env of
                          Some e \<Rightarrow> ((cs \<noteq> CtxLive, - 1, e), AList.delete scriptPath disk)
                        | None \<Rightarrow>
                            (let errText = result_text env cs;
                                 ls = head @ output_lines env @ [(''finished'', ee_finished env)]
                                      @ (if errText \<noteq> '''' then [(''result'', errText)] else [])
                             in ((cs \<noteq> CtxLive, ee_code env, errText),
                                 AList.delete scriptPath (logged ls disk)))))))"

definition thread_ctx :: "runner_proc \<Rightarrow> exec_thread \<Rightarrow> ctx_state" where
  "thread_ctx r th =
     (if th_ctx th < length (rp_ctxs r) then cx_state (rp_ctxs r ! th_ctx th) else CtxLive)"

definition execute :: "exec_env \<Rightarrow> (time \<Rightarrow> string) \<Rightarrow> nat \<Rightarrow> runner_proc \<Rightarrow> runner_proc" where
  "execute env fmt n r =
     (let th = rp_threads r ! n in
      case byID_get r (th_run th) of
        None \<Rightarrow> r\<lparr>rp_threads := take n (rp_threads r) @ drop (Suc n) (rp_threads r)\<rparr>
      | Some run \<Rightarrow>
          (case execute_run env fmt (thread_ctx r th) (rr_logDir r) run (rp_disk r) of
             ((canceled, exitCode, errText), disk) \<Rightarrow>
               r\<lparr>rp_disk := disk,
                 rp_threads := (rp_threads r)[n := th\<lparr>th_state := Ending canceled exitCode errText\<rparr>]\<rparr>))"

text \<open>The call of \<^verbatim>\<open>finish\<close>, with which the goroutine ends.\<close>

definition execute_end :: "runner_io \<Rightarrow> nat \<Rightarrow> runner_proc \<Rightarrow> runner_proc" where
  "execute_end io n r =
     (let th = rp_threads r ! n in
      case th_state th of
        Launched \<Rightarrow> r
      | Ending canceled exitCode errText \<Rightarrow>
          Runner_finish io (th_run th) canceled exitCode errText
            (r\<lparr>rp_threads := take n (rp_threads r) @ drop (Suc n) (rp_threads r)\<rparr>))"

text \<open>The timer of a context with a timeout.\<close>

definition expire_ctx :: "nat \<Rightarrow> runner_proc \<Rightarrow> runner_proc" where
  "expire_ctx k r =
     (if k < length (rp_ctxs r) \<and> cx_state (rp_ctxs r ! k) = CtxLive \<and> cx_timeout (rp_ctxs r ! k) > 0
      then r\<lparr>rp_ctxs := (rp_ctxs r)[k := (rp_ctxs r ! k)\<lparr>cx_state := CtxDeadline\<rparr>]\<rparr> else r)"

section \<open>Steps\<close>

text \<open>One step of a living process, and of a process that may also crash.  An identifier that \<^verbatim>\<open>newRunID\<close> draws (a time stamp and 48
  random bits) is taken to be new.  A crash loses everything but the files; the next process reads
  them.\<close>

inductive runner_act :: "(string \<Rightarrow> int option) \<Rightarrow> runner_proc \<Rightarrow> runner_proc \<Rightarrow> bool"
  for parse where
  step_start: "i \<noteq> '''' \<Longrightarrow> i \<notin> ru_ID ` set (rr_runs r) \<Longrightarrow>
      runner_act parse r (snd (Runner_Start parse io i task inputs r))"
| step_cancel: "runner_act parse r (snd (Runner_Cancel io i r))"
| step_delete: "runner_act parse r (snd (Runner_Delete io i r))"
| step_history: "runner_act parse r (Runner_SetMaxHistory io n r)"
| step_expire: "runner_act parse r (expire_ctx k r)"
| step_execute: "n < length (rp_threads r) \<Longrightarrow> th_state (rp_threads r ! n) = Launched \<Longrightarrow>
      runner_act parse r (execute env fmt n r)"
| step_finish: "n < length (rp_threads r) \<Longrightarrow> th_state (rp_threads r ! n) \<noteq> Launched \<Longrightarrow>
      runner_act parse r (execute_end io n r)"

inductive runner_step :: "(string \<Rightarrow> int option) \<Rightarrow> runner_proc \<Rightarrow> runner_proc \<Rightarrow> bool"
  for parse where
  step_act: "runner_act parse r r' \<Longrightarrow> runner_step parse r r'"
| step_restart: "runner_step parse r (NewRunner unreadable io (rr_logDir r) maxHistory (rp_disk r))"

end
