(* ===== verification/Copy_Props.thy ===== *)
theory Copy_Props
  imports Runner_Exec
begin

text \<open>
  What \<^verbatim>\<open>copyPrefixed\<close> writes.  The reference is written without a buffer: the lines of the output
  are the parts between line feeds, and each is cut into pieces of the maximal length and a remainder.
\<close>

definition log_pieces :: "nat \<Rightarrow> string \<Rightarrow> string list" where
  "log_pieces m l = map (\<lambda>k. take m (drop (k * m) l)) [0..<Suc (length l div m)]"

section \<open>The inner loop\<close>

lemma full_pieces_short [simp]: "length line < m \<Longrightarrow> full_pieces m line = ([], line)"
  by (subst full_pieces.simps) simp

lemma full_pieces_long:
  "0 < m \<Longrightarrow> m \<le> length line \<Longrightarrow>
    full_pieces m line = (take m line # fst (full_pieces m (drop m line)), snd (full_pieces m (drop m line)))"
  by (subst full_pieces.simps) (simp add: case_prod_beta not_less)

lemma full_pieces_props:
  assumes "0 < m"
  shows "length (snd (full_pieces m line)) < m"
    and "concat (fst (full_pieces m line)) @ snd (full_pieces m line) = line"
    and "\<forall>p \<in> set (fst (full_pieces m line)). length p = m"
proof -
  have "length (snd (full_pieces m line)) < m \<and> concat (fst (full_pieces m line)) @ snd (full_pieces m line) = line
    \<and> (\<forall>p \<in> set (fst (full_pieces m line)). length p = m)"
    using assms
  proof (induction m line rule: full_pieces.induct)
    case (1 m line)
    show ?case
    proof (cases "length line < m")
      case False
      obtain ps q where q: "full_pieces m (drop m line) = (ps, q)" by fastforce
      have e: "full_pieces m line = (take m line # ps, q)"
        using False 1(2) full_pieces_long [of m line] q by simp
      have ih: "length q < m \<and> concat ps @ q = drop m line \<and> (\<forall>p \<in> set ps. length p = m)"
        using 1 False unfolding q by simp
      then have "(take m line @ concat ps) @ q = line" by (metis append_assoc append_take_drop_id)
      with ih False show ?thesis unfolding e by simp
    qed simp
  qed
  then show "length (snd (full_pieces m line)) < m"
    and "concat (fst (full_pieces m line)) @ snd (full_pieces m line) = line"
    and "\<forall>p \<in> set (fst (full_pieces m line)). length p = m" by simp_all
qed

lemma log_pieces_long:
  assumes "0 < m" "m \<le> length l"
  shows "log_pieces m l = take m l # log_pieces m (drop m l)"
proof -
  have div: "length l div m = Suc ((length l - m) div m)"
    using assms by (metis le_div_geq)
  have "[0..<Suc (length l div m)] = 0 # map Suc [0..<Suc ((length l - m) div m)]"
    by (simp add: div map_Suc_upt upt_conv_Cons del: upt_Suc)
  then show ?thesis by (simp add: log_pieces_def add.commute comp_def del: upt_Suc)
qed

lemma log_pieces_full: "0 < m \<Longrightarrow> log_pieces m l = fst (full_pieces m l) @ [snd (full_pieces m l)]"
proof (induction m l rule: full_pieces.induct)
  case (1 m line)
  show ?case
  proof (cases "length line < m")
    case True
    then show ?thesis by (simp add: log_pieces_def)
  next
    case False
    with 1 show ?thesis by (simp add: full_pieces_long log_pieces_long not_less)
  qed
qed

lemma full_pieces_append:
  assumes "0 < m"
  shows "full_pieces m (a @ x) =
    (fst (full_pieces m a) @ fst (full_pieces m (snd (full_pieces m a) @ x)),
     snd (full_pieces m (snd (full_pieces m a) @ x)))"
  using assms
proof (induction m a rule: full_pieces.induct)
  case (1 m line)
  show ?case
  proof (cases "length line < m")
    case False
    with 1 have "full_pieces m (line @ x) =
        (take m line # fst (full_pieces m (drop m line @ x)), snd (full_pieces m (drop m line @ x)))"
      by (subst full_pieces_long) (auto simp: not_less)
    with 1 False show ?thesis by (simp add: full_pieces_long not_less)
  qed simp
qed

section \<open>Reading a line\<close>

text \<open>A line that is not yet ended is read by its next buffer: the chunk never ends between a
  carriage return and a line feed.\<close>

lemma readLine_more:
  assumes "LF \<notin> set (take (max 16 n) s)" "max 16 n \<le> length s"
  obtains chunk rest where "readLine n fin s = ((chunk, True, None), rest)" "s = chunk @ rest"
    "chunk \<noteq> []" "LF \<notin> set chunk" "\<And>l x. rest = l @ LF # x \<Longrightarrow> drop_cr (chunk @ l) = chunk @ drop_cr l"
proof -
  let ?k = "max 16 n"
  let ?buf = "take ?k s"
  have k: "16 \<le> ?k" by simp
  have ne: "?buf \<noteq> []" using assms(2) k by (cases s) auto
  show thesis
  proof (cases "last ?buf = CR")
    case True
    have bl: "butlast ?buf = take (?k - 1) s"
      using assms(2) by (simp add: butlast_take)
    have cr: "drop (?k - 1) s = CR # drop ?k s"
    proof -
      have "?k - 1 < length s" "Suc (?k - 1) = ?k" using assms(2) by auto
      moreover have "s ! (?k - 1) = CR"
        using True ne assms(2) k by (simp add: last_conv_nth min_absorb2 del: max.bounded_iff)
      ultimately show ?thesis by (metis Cons_nth_drop_Suc)
    qed
    have r: "readLine n fin s = ((take (?k - 1) s, True, None), drop (?k - 1) s)"
      using assms True ne bl by (simp add: readLine_def Let_def)
    have nl: "LF \<notin> set (take (?k - 1) s)"
      using assms(1) by (metis bl in_set_butlastD)
    have d: "drop_cr (take (?k - 1) s @ l) = take (?k - 1) s @ drop_cr l" if "drop (?k - 1) s = l @ LF # x" for l x
    proof -
      have "l \<noteq> []" using that cr by (auto simp: CR_def LF_def)
      then show ?thesis by (simp add: drop_cr_def butlast_append)
    qed
    have "take (?k - 1) s \<noteq> []" using assms(2) by auto
    from that [OF r _ this nl d] show thesis by simp
  next
    case False
    have r: "readLine n fin s = ((?buf, True, None), drop ?k s)"
      using assms False ne by (simp add: readLine_def Let_def)
    have d: "drop_cr (?buf @ l) = ?buf @ drop_cr l" for l
      using False ne by (cases "l = []") (simp_all add: drop_cr_def butlast_append)
    from that [OF r _ ne assms(1) d] show thesis by simp
  qed
qed

lemma readLine_line:
  assumes "LF \<in> set (take (max 16 n) s)" "s = l @ LF # x" "LF \<notin> set l"
  shows "readLine n fin s = ((drop_cr l, False, None), x)"
proof -
  have lt: "length l < max 16 n"
  proof (rule ccontr)
    assume "\<not> length l < max 16 n"
    then have "max 16 n \<le> length l" by linarith
    then have "take (max 16 n) s = take (max 16 n) l" using assms(2) by simp
    with assms(1,3) show False by (metis in_set_takeD)
  qed
  then have "takeWhile (\<lambda>c. c \<noteq> LF) (take (max 16 n) s) = l"
    using assms(2,3) by (auto simp: take_Cons' takeWhile_append2 takeWhile_tail)
  with assms show ?thesis by (simp add: readLine_def Let_def)
qed

section \<open>Copying\<close>

lemma copy_loop_more:
  assumes "readLine n fin s = ((chunk, True, None), rest)" "chunk \<noteq> []"
  shows "copy_loop n m fin line s =
    fst (full_pieces m (line @ chunk)) @ copy_loop n m fin (snd (full_pieces m (line @ chunk))) rest"
  by (subst copy_loop.simps) (simp add: assms case_prod_beta)

lemma copy_loop_line:
  assumes "0 < m" "s = l @ LF # x" "LF \<notin> set l" "length line < m"
  shows "copy_loop n m fin line s = log_pieces m (line @ drop_cr l) @ copy_loop n m fin [] x"
  using assms
proof (induction "length s" arbitrary: s l line rule: less_induct)
  case less
  show ?case
  proof (cases "LF \<in> set (take (max 16 n) s)")
    case True
    have "(if drop_cr l \<noteq> [] then full_pieces m (line @ drop_cr l) else ([], line)) = full_pieces m (line @ drop_cr l)"
      using less.prems by simp
    with readLine_line [OF True less.prems(2,3)] less.prems(1,4) show ?thesis
      by (subst copy_loop.simps) (simp add: case_prod_beta log_pieces_full)
  next
    case False
    have long: "max 16 n \<le> length s"
    proof (rule ccontr)
      assume "\<not> max 16 n \<le> length s"
      then have "length s \<le> max 16 n" by linarith
      then have "take (max 16 n) s = s" by (rule take_all)
      with False show False unfolding less.prems(2) by (metis in_set_conv_decomp)
    qed
    obtain chunk rest where r: "readLine n fin s = ((chunk, True, None), rest)" "s = chunk @ rest"
        "chunk \<noteq> []" "LF \<notin> set chunk" "\<And>l x. rest = l @ LF # x \<Longrightarrow> drop_cr (chunk @ l) = chunk @ drop_cr l"
      using readLine_more [OF False long] by blast
    obtain l' where l': "l = chunk @ l'" "rest = l' @ LF # x"
    proof -
      have "chunk @ rest = l @ LF # x" using r(2) less.prems(2) by simp
      then consider us where "chunk = l @ us" "us @ rest = LF # x" | us where "chunk @ us = l" "rest = us @ LF # x"
        by (auto simp: append_eq_append_conv2)
      then show thesis
      proof cases
        case 1
        then have "us = []" using r(4) by (cases us) auto
        with 1 that [of "[]"] show thesis by simp
      next
        case 2
        with that show thesis by metis
      qed
    qed
    let ?q = "full_pieces m (line @ chunk)"
    have "length (snd ?q) < m" using full_pieces_props(1) [OF less.prems(1)] .
    moreover have "length rest < length s" "LF \<notin> set l'" using r(2,3) l' less.prems(3) by auto
    ultimately have ih: "copy_loop n m fin (snd ?q) rest
        = log_pieces m (snd ?q @ drop_cr l') @ copy_loop n m fin [] x"
      using less.hyps [of rest l' "snd ?q"] l'(2) less.prems(1) by simp
    have "drop_cr l = chunk @ drop_cr l'" using r(5) [OF l'(2)] l'(1) by simp
    with ih r(1,3) less.prems(1) show ?thesis
      by (simp add: copy_loop_more log_pieces_full full_pieces_append [of m "line @ chunk" "drop_cr l'", simplified])
  qed
qed

lemma log_pieces_concat: "0 < m \<Longrightarrow> concat (log_pieces m l) = l"
  by (simp add: log_pieces_full full_pieces_props(2))

definition end_lines :: "read_end \<Rightarrow> string list" where
  "end_lines fin = (case fin of ReadEOF \<Rightarrow> [] | ReadFails e \<Rightarrow> [''read error: '' @ e])"

lemma copy_loop_nil:
  "copy_loop n m fin line [] = (if line \<noteq> [] then [line] else []) @ end_lines fin"
  by (subst copy_loop.simps) (simp add: readLine_def end_lines_def split: read_end.splits)

lemma copy_loop_tail:
  assumes "0 < m" "LF \<notin> set s" "length line < m"
  shows "\<exists>out. copy_loop n m fin line s = out @ end_lines fin \<and> concat out = line @ s
    \<and> (\<forall>p \<in> set out. length p \<le> m)"
  using assms
proof (induction "length s" arbitrary: s line rule: less_induct)
  case less
  consider (nil) "s = []" | (short) "s \<noteq> []" "length s < max 16 n" | (long) "max 16 n \<le> length s" by linarith
  then show ?case
  proof cases
    case nil
    then show ?thesis using less.prems
      by (intro exI [of _ "if line \<noteq> [] then [line] else []"]) (simp add: copy_loop_nil)
  next
    case short
    let ?q = "full_pieces m (line @ s)"
    have "readLine n fin s = ((s, False, None), [])"
      using short less.prems(2) by (auto simp: readLine_def Let_def)
    then have "copy_loop n m fin line s = (fst ?q @ [snd ?q]) @ end_lines fin"
      using short by (subst copy_loop.simps) (simp add: case_prod_beta copy_loop_nil)
    moreover obtain ps q where q: "?q = (ps, q)" by fastforce
    moreover have "length q < m" "concat ps @ q = line @ s" "\<forall>p \<in> set ps. length p = m"
      using full_pieces_props [OF less.prems(1), of "line @ s"] unfolding q by simp_all
    ultimately show ?thesis by (intro exI [of _ "ps @ [q]"]) auto
  next
    case long
    have "LF \<notin> set (take (max 16 n) s)" using less.prems(2) by (meson in_set_takeD)
    then obtain chunk rest where r: "readLine n fin s = ((chunk, True, None), rest)" "s = chunk @ rest" "chunk \<noteq> []"
      using readLine_more [OF _ long] by metis
    let ?q = "full_pieces m (line @ chunk)"
    have p: "length (snd ?q) < m" "concat (fst ?q) @ snd ?q = line @ chunk" "\<forall>p \<in> set (fst ?q). length p = m"
      using full_pieces_props [OF less.prems(1)] by auto
    have "length rest < length s" "LF \<notin> set rest" using r less.prems(2) by auto
    with less.hyps [of rest "snd ?q"] less.prems(1) p(1) obtain out where
      "copy_loop n m fin (snd ?q) rest = out @ end_lines fin" "concat out = snd ?q @ rest" "\<forall>p \<in> set out. length p \<le> m"
      by blast
    note out = this
    have "copy_loop n m fin line s = (fst ?q @ out) @ end_lines fin"
      using copy_loop_more [OF r(1,3), of m line] out(1) by simp
    moreover have "concat (fst ?q @ out) = line @ s"
      unfolding concat_append out(2) append_assoc [symmetric] p(2) using r(2) by simp
    moreover have "\<forall>x \<in> set (fst ?q @ out). length x \<le> m" using p(3) out(3) unfolding set_append
      by (metis Un_iff order_refl)
    ultimately show ?thesis by blast
  qed
qed

lemma split_on_line: "d \<notin> set l \<Longrightarrow> split_on d (l @ d # x) = l # split_on d x"
  by (induction l) auto

lemma split_on_single: "d \<notin> set s \<Longrightarrow> split_on d s = [s]"
  by (induction s) auto

lemma copy_loop_spec:
  assumes "0 < m"
  shows "\<exists>out. copy_loop n m fin [] s =
      concat (map (\<lambda>l. log_pieces m (drop_cr l)) (butlast (split_on LF s))) @ out @ end_lines fin
    \<and> concat out = last (split_on LF s) \<and> (\<forall>p \<in> set out. length p \<le> m)"
proof (induction "length s" arbitrary: s rule: less_induct)
  case less
  show ?case
  proof (cases "LF \<in> set s")
    case False
    with copy_loop_tail [OF assms this, of "[]" n fin] assms show ?thesis by (simp add: split_on_single)
  next
    case True
    then obtain l x where s: "s = l @ LF # x" "LF \<notin> set l" by (meson split_list_first)
    with less.hyps [of x] obtain out where
      "copy_loop n m fin [] x = concat (map (\<lambda>l. log_pieces m (drop_cr l)) (butlast (split_on LF x))) @ out @ end_lines fin"
      "concat out = last (split_on LF x)" "\<forall>p \<in> set out. length p \<le> m" by auto
    with copy_loop_line [OF assms s, of "[]" n fin] assms s show ?thesis
      by (intro exI [of _ out]) (simp add: split_on_line)
  qed
qed

text \<open>C38. Copying the output of a script to the log loses nothing and never stops early, however the
  output is cut into buffers: each line that ends with a line feed appears, without that line feed and
  without a carriage return before it, as log lines of at most 64 KiB followed by its remainder; what
  comes after the last line feed appears in full, in log lines of at most 64 KiB; a read error is
  reported after that.\<close>

theorem copyPrefixed_complete:
  "\<exists>out. copyPrefixed fin s =
      concat (map (\<lambda>l. log_pieces maxLogLineBytes (drop_cr l)) (butlast (split_on LF s)))
      @ out @ end_lines fin
    \<and> concat out = last (split_on LF s) \<and> list_all (\<lambda>p. length p \<le> maxLogLineBytes) out"
  unfolding copyPrefixed_def list_all_iff by (rule copy_loop_spec) (simp add: maxLogLineBytes_def)

end
