(* ===== verification/Run_Config.thy ===== *)
theory Run_Config
  imports Runner_Exec Ctrl_Config
begin

text \<open>
  The configuration of the standalone role, \<^verbatim>\<open>config.go\<close>: parsing and checking the tasks and their
  inputs, the values of one request, and the values derived at run time.  The YAML decoder and
  \<^verbatim>\<open>time.ParseDuration\<close> are arguments.
\<close>

section \<open>Data\<close>

record ServerConfig =
  sc_Address :: string
  sc_Addresses :: "string list"
  sc_LogDir :: string
  sc_MaxHistory :: int
  sc_ConfigPassword :: string
  sc_ScriptHeader :: string

record Config =
  cf_Server :: ServerConfig
  cf_Tasks :: "TaskConfig list"

datatype option_error = OptNone | OptEmpty | OptDuplicate string

datatype run_config_error =
    CfgIO
  | CfgYAML
  | CfgMaxHistory
  | CfgTaskID nat
  | CfgTaskDuplicate string
  | CfgTaskScript nat
  | CfgTaskTimeout nat
  | CfgInputID nat nat
  | CfgInputReserved nat nat string
  | CfgInputChars nat nat string
  | CfgInputDuplicate nat nat string
  | CfgInputConflict nat nat string string string
  | CfgInputType nat nat
  | CfgInputOptions nat nat option_error
  | CfgInputDefault nat nat
  | CfgInputNoChoice nat nat

definition taskRunWaitParam :: string where "taskRunWaitParam = ''wait''"

section \<open>Checks\<close>

definition normalizeInputType :: "string \<Rightarrow> string option" where
  "normalizeInputType inputType =
     (let t = to_lower (trim_space inputType) in
      if t = '''' \<or> t = ''string'' \<or> t = ''input'' then Some ''string''
      else if t = ''choice'' then Some ''choice''
      else None)"

fun choice_loop :: "string list \<Rightarrow> string list \<Rightarrow> option_error + string list" where
  "choice_loop seen [] = Inr []"
| "choice_loop seen (raw # rest) =
     (let opt = trim_space raw in
      if opt = '''' then Inl OptEmpty
      else if opt \<in> set seen then Inl (OptDuplicate opt)
      else case choice_loop (opt # seen) rest of Inl e \<Rightarrow> Inl e | Inr opts \<Rightarrow> Inr (opt # opts))"

definition normalizeChoiceOptions :: "string list \<Rightarrow> option_error + string list" where
  "normalizeChoiceOptions options = (if options = [] then Inl OptNone else choice_loop [] options)"

definition validInputID :: "string \<Rightarrow> bool" where
  "validInputID inputID \<longleftrightarrow> inputID \<noteq> '''' \<and> list_all ident_char inputID"

definition containsString :: "string list \<Rightarrow> string \<Rightarrow> bool" where
  "containsString values target = list_ex (\<lambda>v. v = target) values"

text \<open>The loop over the inputs of task \<open>i\<close>: \<open>ids\<close> are the identifiers met, \<open>envs\<close> the
  variables they become.\<close>

fun input_loop ::
    "nat \<Rightarrow> nat \<Rightarrow> string list \<Rightarrow> string gomap \<Rightarrow> TaskInputConfig list
      \<Rightarrow> run_config_error + TaskInputConfig list" where
  "input_loop i j ids envs [] = Inr []"
| "input_loop i j ids envs (input # inputs) =
     (let inputID = trim_space (in_ID input) in
      if inputID = '''' then Inl (CfgInputID i j)
      else if inputID = taskRunWaitParam then Inl (CfgInputReserved i j inputID)
      else if \<not> validInputID inputID then Inl (CfgInputChars i j inputID)
      else if inputID \<in> set ids then Inl (CfgInputDuplicate i j inputID)
      else
        let envName = taskInputEnvName inputID in
        case map_of envs envName of
          Some previous \<Rightarrow> Inl (CfgInputConflict i j inputID previous envName)
        | None \<Rightarrow>
            (case normalizeInputType (in_Type input) of
               None \<Rightarrow> Inl (CfgInputType i j)
             | Some inputType \<Rightarrow>
                 (let checked = input\<lparr>in_ID := inputID, in_Type := inputType,
                        in_Name := (if trim_space (in_Name input) = '''' then inputID else in_Name input)\<rparr>;
                      continue = (\<lambda>input.
                        case input_loop i (Suc j) (inputID # ids) ((envName, inputID) # envs) inputs of
                          Inl e \<Rightarrow> Inl e
                        | Inr inputs \<Rightarrow> Inr (input # inputs))
                  in if inputType = ''choice'' then
                       (case normalizeChoiceOptions (in_Options input) of
                          Inl e \<Rightarrow> Inl (CfgInputOptions i j e)
                        | Inr options \<Rightarrow>
                            if in_Default input \<noteq> '''' \<and> \<not> containsString options (in_Default input)
                            then Inl (CfgInputDefault i j)
                            else continue (checked\<lparr>in_Options := options\<rparr>))
                     else if in_Options input \<noteq> [] then Inl (CfgInputNoChoice i j)
                     else continue checked)))"

fun task_loop ::
    "(string \<Rightarrow> int option) \<Rightarrow> nat \<Rightarrow> string list \<Rightarrow> TaskConfig list \<Rightarrow> run_config_error + TaskConfig list" where
  "task_loop parse i seen [] = Inr []"
| "task_loop parse i seen (task # tasks) =
     (let script = trim_space (tc_Script task) in
      if trim_space (tc_ID task) = '''' then Inl (CfgTaskID i)
      else if tc_ID task \<in> set seen then Inl (CfgTaskDuplicate (tc_ID task))
      else if script = '''' then Inl (CfgTaskScript i)
      else if trim_space (tc_Timeout task) \<noteq> '''' \<and> parse (tc_Timeout task) = None then Inl (CfgTaskTimeout i)
      else case input_loop i 0 [] [] (tc_Inputs task) of
        Inl e \<Rightarrow> Inl e
      | Inr inputs \<Rightarrow>
          (case task_loop parse (Suc i) (tc_ID task # seen) tasks of
             Inl e \<Rightarrow> Inl e
           | Inr tasks \<Rightarrow>
               Inr (task\<lparr>tc_Inputs := inputs,
                         tc_Name := (if tc_Name task = '''' then tc_ID task else tc_Name task)\<rparr> # tasks)))"

definition check_server :: "ServerConfig \<Rightarrow> run_config_error + ServerConfig" where
  "check_server server =
     (let header = trim_right_set [CHR 0x0D, CHR 0x0A] (sc_ScriptHeader server);
          header = (if trim_space header = '''' then defaultScriptHeader else header)
      in if sc_MaxHistory server < 0 then Inl CfgMaxHistory
         else Inr (server\<lparr>sc_ScriptHeader := header,
                sc_MaxHistory := (if sc_MaxHistory server = 0 then defaultMaxHistory else sc_MaxHistory server)\<rparr>))"

text \<open>\<open>unmarshal\<close> is \<^verbatim>\<open>yaml.Unmarshal\<close> into the zero configuration.\<close>

definition parseConfig ::
    "(string \<Rightarrow> int option) \<Rightarrow> (string \<Rightarrow> Config option) \<Rightarrow> string \<Rightarrow> run_config_error + Config" where
  "parseConfig parse unmarshal data =
     (case unmarshal data of
        None \<Rightarrow> Inl CfgYAML
      | Some cfg \<Rightarrow>
          (case check_server (cf_Server cfg) of
             Inl e \<Rightarrow> Inl e
           | Inr server \<Rightarrow>
               (case task_loop parse 0 [] (cf_Tasks cfg) of
                  Inl e \<Rightarrow> Inl e
                | Inr tasks \<Rightarrow> Inr (cfg\<lparr>cf_Server := server, cf_Tasks := tasks\<rparr>))))"

section \<open>Values at run time\<close>

definition defaultConfigPath :: "string \<Rightarrow> string option \<Rightarrow> string" where
  "defaultConfigPath xdg userConfigDir =
     (let dir = trim_space xdg in
      if dir \<noteq> '''' then path_join (path_join dir ''builda'') ''config.yaml''
      else case userConfigDir of
        None \<Rightarrow> ''config.yaml''
      | Some dir \<Rightarrow>
          if trim_space dir = '''' then ''config.yaml'' else path_join (path_join dir ''builda'') ''config.yaml'')"

text \<open>The configuration file with its stamp; \<open>stat_error\<close>: it cannot be examined for another reason
  than its absence.\<close>

type_synonym text_file = "(string \<times> fileStamp) option"

definition ensureDefaultConfig ::
    "bool \<Rightarrow> bool \<Rightarrow> bool \<Rightarrow> string \<Rightarrow> fileStamp \<Rightarrow> text_file \<Rightarrow> bool \<times> text_file" where
  "ensureDefaultConfig stat_error mkdir_fails write_fails sampleConfig stamp f =
     (if stat_error then (False, f)
      else if f \<noteq> None then (True, f)
      else if mkdir_fails \<or> write_fails then (False, f)
      else (True, Some (sampleConfig, stamp)))"

definition resolveLogDir :: "string \<Rightarrow> string \<Rightarrow> string" where
  "resolveLogDir configPath logDir =
     (let logDir = trim_space logDir;
          logDir = (if logDir = '''' then ''logs'' else logDir)
      in if is_abs logDir then clean logDir
         else let base = path_dir configPath
              in if trim_space base = '''' \<or> base = ''.'' then clean logDir else clean (path_join base logDir))"

definition configuredListenAddresses :: "ServerConfig \<Rightarrow> string list" where
  "configuredListenAddresses server =
     normalizeListenAddresses
       ((if trim_space (sc_Address server) \<noteq> '''' then [sc_Address server] else []) @ sc_Addresses server)"

definition resolveListenAddresses :: "string list \<Rightarrow> string list \<Rightarrow> string list" where
  "resolveListenAddresses configAddresses flagAddresses =
     (if flagAddresses = [] then normalizeListenAddresses configAddresses
      else normalizeListenAddresses flagAddresses)"

definition normalizeRuntimeConfig :: "string \<Rightarrow> Config \<Rightarrow> Config" where
  "normalizeRuntimeConfig configPath cfg =
     (let server = cf_Server cfg;
          listenAddrs = configuredListenAddresses server;
          server = (if listenAddrs = [defaultListenAddress] \<and> trim_space (sc_Address server) = '''' \<and> sc_Addresses server = []
                    then server\<lparr>sc_Address := defaultListenAddress\<rparr> else server);
          logDir = (if sc_LogDir server = '''' then ''logs'' else sc_LogDir server);
          server = server\<lparr>sc_LogDir := resolveLogDir configPath logDir\<rparr>
      in cfg\<lparr>cf_Server := server,
             cf_Tasks := map (\<lambda>task. task\<lparr>tc_ScriptHeader := sc_ScriptHeader server\<rparr>) (cf_Tasks cfg)\<rparr>)"

definition loadConfig ::
    "(string \<Rightarrow> int option) \<Rightarrow> (string \<Rightarrow> Config option) \<Rightarrow> text_file \<Rightarrow> run_config_error + Config" where
  "loadConfig parse unmarshal f =
     (case f of None \<Rightarrow> Inl CfgIO | Some (data, _) \<Rightarrow> parseConfig parse unmarshal data)"

definition loadRuntimeConfig ::
    "(string \<Rightarrow> int option) \<Rightarrow> (string \<Rightarrow> Config option) \<Rightarrow> string \<Rightarrow> text_file \<Rightarrow> run_config_error + Config" where
  "loadRuntimeConfig parse unmarshal path f =
     (case loadConfig parse unmarshal f of Inl e \<Rightarrow> Inl e | Inr cfg \<Rightarrow> Inr (normalizeRuntimeConfig path cfg))"

definition configEditingEnabled :: "Config \<Rightarrow> bool" where
  "configEditingEnabled cfg \<longleftrightarrow> trim_space (sc_ConfigPassword (cf_Server cfg)) \<noteq> ''''"

definition fileStamp_equal :: "fileStamp \<Rightarrow> fileStamp \<Rightarrow> bool" where
  "fileStamp_equal s other \<longleftrightarrow> fs_size s = fs_size other \<and> fs_modTime s = fs_modTime other"

definition buildTaskMap :: "TaskConfig list \<Rightarrow> TaskConfig gomap" where
  "buildTaskMap tasks = fold (\<lambda>task m. AList.update (tc_ID task) task m) tasks []"

section \<open>One request\<close>

datatype input_error =
    UnknownInput string string
  | InputRequired string
  | InputChoice string "string list"

fun collect_loop :: "url_values \<Rightarrow> TaskInputConfig list \<Rightarrow> string gomap \<Rightarrow> input_error + string gomap" where
  "collect_loop values [] inputs = Inr inputs"
| "collect_loop values (input # rest) inputs =
     (let v = values_Get values (in_ID input);
          v = (if v = '''' then in_Default input else v)
      in if in_Required input \<and> v = '''' then Inl (InputRequired (in_ID input))
         else if in_Type input = ''choice'' \<and> v \<noteq> '''' \<and> \<not> containsString (in_Options input) v
         then Inl (InputChoice (in_ID input) (in_Options input))
         else collect_loop values rest (AList.update (in_ID input) v inputs))"

definition collectTaskInputs :: "TaskConfig \<Rightarrow> url_values \<Rightarrow> input_error + string gomap" where
  "collectTaskInputs task values =
     (case find (\<lambda>key. key \<noteq> ''task_id'' \<and> key \<noteq> taskRunWaitParam \<and> key \<notin> in_ID ` set (tc_Inputs task))
             (map fst values) of
        Some key \<Rightarrow> Inl (UnknownInput key (tc_ID task))
      | None \<Rightarrow> collect_loop values (tc_Inputs task) [])"

definition taskRunWaitRequested :: "url_values \<Rightarrow> bool option" where
  "taskRunWaitRequested values =
     (let v = to_lower (trim_space (values_Get values taskRunWaitParam)) in
      if v = '''' then Some False
      else if v \<in> {''1'', ''true'', ''yes'', ''on''} then Some True
      else if v \<in> {''0'', ''false'', ''no'', ''off''} then Some False
      else None)"

section \<open>The version\<close>

record versionDetails =
  vd_Version :: string
  vd_Commit :: string
  vd_BuildDate :: string
  vd_Modified :: bool

text \<open>\<^verbatim>\<open>debug.ReadBuildInfo\<close>: the version of the main module and the build settings.\<close>

definition setting_step :: "string \<times> string \<Rightarrow> string \<times> string \<times> bool \<Rightarrow> string \<times> string \<times> bool" where
  "setting_step = (\<lambda>(key, v) (rev, built, modified).
     if key = ''vcs.revision'' then (if rev = '''' then v else rev, built, modified)
     else if key = ''vcs.time'' then (rev, if built = '''' then v else built, modified)
     else if key = ''vcs.modified'' then (rev, built, modified \<or> v = ''true'')
     else (rev, built, modified))"

definition currentVersionDetails ::
    "string \<Rightarrow> string \<Rightarrow> string \<Rightarrow> (string \<times> (string \<times> string) list) option \<Rightarrow> versionDetails" where
  "currentVersionDetails version commit date info =
     (let v = trim_space version; rev = trim_space commit; built = trim_space date;
          v' = (case info of
                  Some (main, _) \<Rightarrow> if (v = '''' \<or> v = ''dev'') \<and> main \<noteq> '''' \<and> main \<noteq> ''(devel)'' then main else v
                | None \<Rightarrow> v)
      in case (case info of Some (_, settings) \<Rightarrow> fold setting_step settings (rev, built, False)
               | None \<Rightarrow> (rev, built, False)) of (rev, built, modified) \<Rightarrow>
           \<lparr>vd_Version = (if v' = '''' then ''dev'' else v'), vd_Commit = rev, vd_BuildDate = built, vd_Modified = modified\<rparr>)"

definition versionInfo :: "versionDetails \<Rightarrow> string" where
  "versionInfo details =
     (let commitText = (if vd_Commit details = '''' then ''unknown''
                        else if vd_Modified details then vd_Commit details @ '' dirty'' else vd_Commit details);
          built = (if vd_BuildDate details \<noteq> '''' then vd_BuildDate details else ''unknown'')
      in join_with '', '' [''builda '' @ vd_Version details, ''commit '' @ commitText, ''built '' @ built])"

definition addressFlags_Set :: "string list \<Rightarrow> string \<Rightarrow> string list option" where
  "addressFlags_Set flags v = (let v = trim_space v in if v = '''' then None else Some (flags @ [v]))"

definition addressFlags_String :: "string list \<Rightarrow> string" where
  "addressFlags_String flags = join_with '','' flags"

end
