(* ===== verification/Runner_Http.thy ===== *)
theory Runner_Http
  imports Run_Config
begin

text \<open>
  The JSON API of the standalone role, \<^verbatim>\<open>handlers.go\<close>: starting tasks, reading, cancelling and
  deleting runs, and reading and saving the configuration, which is also reloaded when its file changes.
  A request is what the handlers read of \<^verbatim>\<open>http.Request\<close>; \<^verbatim>\<open>Form\<close> holds the parsed body and
  \<^verbatim>\<open>Body\<close> what is left of it to read.  A request that waits for its run is in two parts: what
  happens before \<^verbatim>\<open>Wait\<close> blocks, and what happens in the later state in which it returns.
\<close>

section \<open>State, requests, responses\<close>

record App =
  ap_cfg :: Config
  ap_tasks :: "TaskConfig gomap"
  ap_configPath :: string
  ap_runner :: runner_proc
  ap_logDir :: string
  ap_hostname :: string
  ap_started :: time
  ap_configFile :: fileStamp
  ap_file :: text_file

record app_request =
  aq_Method :: string
  aq_Path :: string
  aq_EscapedPath :: string
  aq_Query :: url_values
  aq_Form :: url_values
  aq_Body :: "string option"
  aq_ConfigPassword :: string

datatype app_payload =
    AP_OK
  | AP_Meta string string time string bool versionDetails string
  | AP_State "TaskConfig list" "RunSummary list" string
  | AP_Content string
  | AP_Saved "TaskConfig list"
  | AP_Summary "RunSummary option"
  | AP_RunLog "RunSummary option" string
  | AP_Refused string

datatype app_response =
    RespondJSON nat app_payload
  | HttpError nat string
  | HttpNotFound
  | PlainReply nat string
  | HttpRedirect string
  | WaitFor string

text \<open>What one request gets from outside: \<^verbatim>\<open>time.ParseDuration\<close>, the YAML decoder, the disk and the
  clock of the runner, the identifier a new run would get, how the write of the configuration ends and the
  stamp of the new file, whether reading or examining files fails, and the build.\<close>

record app_env =
  ax_parse :: "string \<Rightarrow> int option"
  ax_unmarshal :: "string \<Rightarrow> Config option"
  ax_io :: runner_io
  ax_id :: string
  ax_write_fails :: bool
  ax_stamp :: fileStamp
  ax_read_fails :: bool
  ax_stat_fails :: bool
  ax_log_fails :: bool
  ax_build :: versionDetails

section \<open>Reading\<close>

definition legacyUINotice :: string where
  "legacyUINotice =
     ''The standalone Builda role no longer ships a Web UI.'' @ [CHR 0x0A, CHR 0x0A]
     @ ''Its JSON API under /api is still served so an existing installation can keep'' @ [CHR 0x0A]
     @ ''running while its history is migrated. Run '' @ [CHR 0x22] @ ''builda controller serve'' @ [CHR 0x22]
     @ '' for the'' @ [CHR 0x0A]
     @ ''Web UI, and see '' @ [CHR 0x22] @ ''builda migrate --help'' @ [CHR 0x22]
     @ '' to move this installation over.'' @ [CHR 0x0A]"

definition handleLegacyPage :: "app_request \<Rightarrow> app_response" where
  "handleLegacyPage r =
     (if aq_Method r \<noteq> ''GET'' \<and> aq_Method r \<noteq> ''HEAD'' then HttpError 405 ''method not allowed''
      else PlainReply 410 legacyUINotice)"

definition App_handleMeta :: "app_env \<Rightarrow> App \<Rightarrow> app_response" where
  "App_handleMeta env a =
     (let build = ax_build env;
          commit = (if vd_Commit build = '''' then ''unknown'' else vd_Commit build);
          buildDate = (if vd_BuildDate build = '''' then ''unknown'' else vd_BuildDate build)
      in RespondJSON 200 (AP_Meta (ap_hostname a) (ap_logDir a) (ap_started a) (ap_configPath a)
           (configEditingEnabled (ap_cfg a)) (build\<lparr>vd_Commit := commit, vd_BuildDate := buildDate\<rparr>)
           (versionInfo build)))"

definition handleState :: "app_request \<Rightarrow> App \<Rightarrow> app_response" where
  "handleState r a =
     (let taskFilter = values_Get (aq_Query r) ''task'';
          runs = (if taskFilter \<noteq> '''' then Runner_SnapshotByTask taskFilter (ap_runner a)
                  else Runner_Snapshot (ap_runner a))
      in RespondJSON 200 (AP_State (cf_Tasks (ap_cfg a)) runs taskFilter))"

definition runLogPath :: "string \<Rightarrow> string \<Rightarrow> string" where
  "runLogPath logDir i = path_join logDir (path_base i @ ''.log'')"

text \<open>Log files are text; only the state file and its temporary file are not.\<close>

definition file_bytes :: "file_data \<Rightarrow> string" where
  "file_bytes d = (case d of PlainText s \<Rightarrow> s | _ \<Rightarrow> '''')"

definition readRunLog :: "bool \<Rightarrow> string \<Rightarrow> string \<Rightarrow> file_data gomap \<Rightarrow> string option" where
  "readRunLog fails logDir i disk =
     (if fails then None
      else case map_of disk (runLogPath logDir i) of
        None \<Rightarrow> Some (''Log file is not available.'' @ [CHR 0x0A])
      | Some d \<Rightarrow> Some (file_bytes d))"

definition handleLog :: "app_env \<Rightarrow> app_request \<Rightarrow> string \<Rightarrow> App \<Rightarrow> app_response" where
  "handleLog env r i a =
     (if aq_Method r \<noteq> ''GET'' then HttpError 405 ''method not allowed''
      else case readRunLog (ax_log_fails env) (ap_logDir a) i (rp_disk (ap_runner a)) of
        None \<Rightarrow> HttpError 500 ''''
      | Some data \<Rightarrow> PlainReply 200 data)"

section \<open>The configuration\<close>

text \<open>\<^verbatim>\<open>FormValue\<close>: the values of the body come before those of the URL.\<close>

definition FormValue :: "app_request \<Rightarrow> string \<Rightarrow> string" where
  "FormValue r key =
     (case map_of (aq_Form r) key of Some (v # _) \<Rightarrow> v | _ \<Rightarrow> values_Get (aq_Query r) key)"

definition currentConfigPassword :: "App \<Rightarrow> string" where
  "currentConfigPassword a = trim_space (sc_ConfigPassword (cf_Server (ap_cfg a)))"

definition authorizeConfigRequest :: "app_request \<Rightarrow> App \<Rightarrow> app_response option" where
  "authorizeConfigRequest r a =
     (let expected = currentConfigPassword a in
      if expected = '''' then Some (RespondJSON 403 (AP_Refused ''config editing is disabled''))
      else
        let password = (if aq_ConfigPassword r = '''' then FormValue r ''password'' else aq_ConfigPassword r)
        in if password \<noteq> expected then Some (RespondJSON 401 (AP_Refused ''config password did not match''))
           else None)"

definition App_applyConfig :: "app_env \<Rightarrow> Config \<Rightarrow> fileStamp \<Rightarrow> App \<Rightarrow> App" where
  "App_applyConfig env cfg stamp a =
     (let a = a\<lparr>ap_cfg := cfg, ap_tasks := buildTaskMap (cf_Tasks cfg), ap_configFile := stamp\<rparr>
      in a\<lparr>ap_runner := Runner_SetMaxHistory (ax_io env) (sc_MaxHistory (cf_Server cfg)) (ap_runner a)\<rparr>)"

definition handleGetConfig :: "app_env \<Rightarrow> app_request \<Rightarrow> App \<Rightarrow> app_response" where
  "handleGetConfig env r a =
     (case authorizeConfigRequest r a of
        Some resp \<Rightarrow> resp
      | None \<Rightarrow>
          (case (if ax_read_fails env then None else ap_file a) of
             None \<Rightarrow> HttpError 500 ''''
           | Some (data, _) \<Rightarrow> RespondJSON 200 (AP_Content data)))"

definition statFileStamp :: "bool \<Rightarrow> text_file \<Rightarrow> fileStamp option" where
  "statFileStamp fails f = (if fails then None else map_option snd f)"

definition handleSaveConfig :: "app_env \<Rightarrow> app_request \<Rightarrow> App \<Rightarrow> app_response \<times> App" where
  "handleSaveConfig env r a =
     (case authorizeConfigRequest r a of
        Some resp \<Rightarrow> (resp, a)
      | None \<Rightarrow>
          (let content = FormValue r ''content'' in
           case (if content = '''' then aq_Body r else Some content) of
             None \<Rightarrow> (HttpError 400 '''', a)
           | Some content \<Rightarrow>
               (case parseConfig (ax_parse env) (ax_unmarshal env) content of
                  Inl e \<Rightarrow> (RespondJSON 400 (AP_Refused ''''), a)
                | Inr cfg \<Rightarrow>
                    if ax_write_fails env then (HttpError 500 '''', a)
                    else
                      (let a = a\<lparr>ap_file := Some (content, ax_stamp env)\<rparr>;
                           cfg = normalizeRuntimeConfig (ap_configPath a) cfg;
                           stamp = (case statFileStamp (ax_stat_fails env) (ap_file a) of
                                      None \<Rightarrow> zero_stamp | Some stamp \<Rightarrow> stamp)
                       in (RespondJSON 200 (AP_Saved (cf_Tasks cfg)), App_applyConfig env cfg stamp a)))))"

definition handleConfig :: "app_env \<Rightarrow> app_request \<Rightarrow> App \<Rightarrow> app_response \<times> App" where
  "handleConfig env r a =
     (if aq_Method r = ''GET'' then (handleGetConfig env r a, a)
      else if aq_Method r = ''POST'' then handleSaveConfig env r a
      else (HttpError 405 ''method not allowed'', a))"

text \<open>One tick of \<^verbatim>\<open>watchConfig\<close>; the value tells whether an error is logged.\<close>

definition App_reloadConfigIfChanged :: "app_env \<Rightarrow> App \<Rightarrow> bool \<times> App" where
  "App_reloadConfigIfChanged env a =
     (if trim_space (ap_configPath a) = '''' then (False, a)
      else case statFileStamp (ax_stat_fails env) (ap_file a) of
        None \<Rightarrow> (True, a)
      | Some stamp \<Rightarrow>
          if fileStamp_equal stamp (ap_configFile a) then (False, a)
          else case loadRuntimeConfig (ax_parse env) (ax_unmarshal env) (ap_configPath a)
                      (if ax_read_fails env then None else ap_file a) of
            Inl e \<Rightarrow> (True, a)
          | Inr cfg \<Rightarrow> (False, App_applyConfig env cfg stamp a))"

definition reloadConfigFromDisk :: "app_env \<Rightarrow> App \<Rightarrow> bool \<times> App" where
  "reloadConfigFromDisk env a =
     (if trim_space (ap_configPath a) = '''' then (True, a)
      else case loadRuntimeConfig (ax_parse env) (ax_unmarshal env) (ap_configPath a)
                  (if ax_read_fails env then None else ap_file a) of
        Inl e \<Rightarrow> (True, a)
      | Inr cfg \<Rightarrow>
          (False, App_applyConfig env cfg
             (case statFileStamp (ax_stat_fails env) (ap_file a) of None \<Rightarrow> zero_stamp | Some stamp \<Rightarrow> stamp) a))"

section \<open>Tasks and runs\<close>

definition startTask :: "app_env \<Rightarrow> string \<Rightarrow> url_values \<Rightarrow> App \<Rightarrow> app_response \<times> App" where
  "startTask env taskID values a =
     (case map_of (ap_tasks a) taskID of
        None \<Rightarrow> (HttpError 400 ''unknown task'', a)
      | Some task \<Rightarrow>
          (case taskRunWaitRequested values of
             None \<Rightarrow> (HttpError 400 ''wait must be 1 or 0'', a)
           | Some wait \<Rightarrow>
               (case collectTaskInputs task values of
                  Inl e \<Rightarrow> (HttpError 400 '''', a)
                | Inr inputs \<Rightarrow>
                    (case Runner_Start (ax_parse env) (ax_io env) (ax_id env) task inputs (ap_runner a) of
                       (Inl e, runner) \<Rightarrow> (HttpError 400 '''', a\<lparr>ap_runner := runner\<rparr>)
                     | (Inr run, runner) \<Rightarrow>
                         (if \<not> wait then RespondJSON 200 (AP_Summary (Runner_Find runner (ru_ID run)))
                          else WaitFor (ru_ID run),
                          a\<lparr>ap_runner := runner\<rparr>)))))"

text \<open>The rest of a request that waits: \<open>r0\<close> is the runner when \<^verbatim>\<open>Wait\<close> was called.\<close>

definition startTask_wait ::
    "app_env \<Rightarrow> runner_proc \<Rightarrow> bool \<Rightarrow> bool \<Rightarrow> string \<Rightarrow> App \<Rightarrow> app_response" where
  "startTask_wait env r0 ctx_ended prefer_ctx i a =
     (case Runner_Wait r0 (ap_runner a) ctx_ended prefer_ctx i of
        None \<Rightarrow> WaitFor i
      | Some False \<Rightarrow> if ctx_ended then HttpError 408 '''' else HttpError 404 ''run not found''
      | Some True \<Rightarrow>
          (case readRunLog (ax_log_fails env) (ap_logDir a) i (rp_disk (ap_runner a)) of
             None \<Rightarrow> HttpError 500 ''''
           | Some data \<Rightarrow> RespondJSON 200 (AP_RunLog (Runner_Find (ap_runner a) i) data)))"

definition handleStart :: "app_env \<Rightarrow> app_request \<Rightarrow> App \<Rightarrow> app_response \<times> App" where
  "handleStart env r a =
     (if aq_Method r \<noteq> ''POST'' then (HttpError 405 ''method not allowed'', a)
      else startTask env (FormValue r ''task_id'') (aq_Query r) a)"

text \<open>\<^verbatim>\<open>url.PathUnescape\<close>.\<close>

definition url_hex :: "char \<Rightarrow> nat option" where
  "url_hex c =
     (if CHR ''0'' \<le> c \<and> c \<le> CHR ''9'' then Some (of_char c - 48)
      else if CHR ''a'' \<le> c \<and> c \<le> CHR ''f'' then Some (of_char c - 87)
      else if CHR ''A'' \<le> c \<and> c \<le> CHR ''F'' then Some (of_char c - 55)
      else None)"

fun PathUnescape :: "string \<Rightarrow> string option" where
  "PathUnescape [] = Some []"
| "PathUnescape (c # s) =
     (if c = CHR ''%'' then
        (case s of
           a # b # rest \<Rightarrow>
             (case (url_hex a, url_hex b) of
                (Some x, Some y) \<Rightarrow> map_option (\<lambda>t. char_of (16 * x + y) # t) (PathUnescape rest)
              | _ \<Rightarrow> None)
         | _ \<Rightarrow> None)
      else map_option (\<lambda>t. c # t) (PathUnescape s))"

definition after_prefix :: "string \<Rightarrow> string \<Rightarrow> string" where
  "after_prefix p s = (if has_prefix s p then drop (length p) s else s)"

definition handleTaskAPI :: "app_env \<Rightarrow> app_request \<Rightarrow> App \<Rightarrow> app_response \<times> App" where
  "handleTaskAPI env r a =
     (let escapedPath = (if aq_EscapedPath r = '''' then aq_Path r else aq_EscapedPath r);
          path = trim_set ''/'' (after_prefix ''/api/tasks/'' escapedPath)
      in case split_on (CHR ''/'') path of
           [task, action] \<Rightarrow>
             if task = '''' \<or> action \<noteq> ''run'' then (HttpNotFound, a)
             else if aq_Method r \<noteq> ''POST'' then (HttpError 405 ''method not allowed'', a)
             else (case PathUnescape task of
                     None \<Rightarrow> (HttpError 400 ''invalid task id'', a)
                   | Some taskID \<Rightarrow> startTask env taskID (aq_Query r) a)
         | _ \<Rightarrow> (HttpNotFound, a))"

definition delete_response :: "run_error option \<Rightarrow> app_response" where
  "delete_response err =
     (case err of
        None \<Rightarrow> RespondJSON 200 AP_OK
      | Some errRunNotFound \<Rightarrow> HttpNotFound
      | Some errRunActive \<Rightarrow> HttpError 409 ''cannot delete active runs''
      | Some (ErrRunTimeout _) \<Rightarrow> HttpError 500 '''')"

definition handleRunAPI :: "app_env \<Rightarrow> app_request \<Rightarrow> App \<Rightarrow> app_response \<times> App" where
  "handleRunAPI env r a =
     (case split_on (CHR ''/'') (trim_set ''/'' (after_prefix ''/api/runs/'' (aq_Path r))) of
        [i] \<Rightarrow>
          if i = '''' then (HttpNotFound, a)
          else if aq_Method r = ''DELETE'' then
            (case Runner_Delete (ax_io env) i (ap_runner a) of
               (err, runner) \<Rightarrow> (delete_response err, a\<lparr>ap_runner := runner\<rparr>))
          else if aq_Method r \<noteq> ''GET'' then (HttpError 405 ''method not allowed'', a)
          else (case Runner_Find (ap_runner a) i of
                  None \<Rightarrow> (HttpNotFound, a)
                | Some run \<Rightarrow> (RespondJSON 200 (AP_Summary (Some run)), a))
      | [i, action] \<Rightarrow>
          if action = ''cancel'' then
            if aq_Method r \<noteq> ''POST'' then (HttpError 405 ''method not allowed'', a)
            else (case Runner_Cancel (ax_io env) i (ap_runner a) of
                    (ok, runner) \<Rightarrow>
                      (if ok then RespondJSON 200 AP_OK else HttpNotFound, a\<lparr>ap_runner := runner\<rparr>))
          else if action = ''log'' then (handleLog env r i a, a)
          else (HttpNotFound, a)
      | _ \<Rightarrow> (HttpNotFound, a))"

section \<open>Routes\<close>

text \<open>\<^verbatim>\<open>http.ServeMux\<close>: a path that is not clean is redirected, and so is the name of a subtree
  without its final slash; otherwise the longest pattern decides.\<close>

definition cleanPath :: "string \<Rightarrow> string" where
  "cleanPath p =
     (if p = '''' then ''/''
      else let p = (if has_prefix p ''/'' then p else CHR ''/'' # p); np = clean p
           in if has_suffix p ''/'' \<and> np \<noteq> ''/'' then np @ ''/'' else np)"

definition App_routes :: "app_env \<Rightarrow> app_request \<Rightarrow> App \<Rightarrow> app_response \<times> App" where
  "App_routes env r a =
     (let path = cleanPath (aq_EscapedPath r) in
      if path = ''/api/tasks'' \<or> path = ''/api/runs'' then (HttpRedirect (path @ ''/''), a)
      else if path \<noteq> aq_EscapedPath r then (HttpRedirect path, a)
      else if path = ''/api/meta'' then (App_handleMeta env a, a)
      else if path = ''/api/state'' then (handleState r a, a)
      else if path = ''/api/config'' then handleConfig env r a
      else if path = ''/api/tasks/start'' then handleStart env r a
      else if has_prefix path ''/api/tasks/'' then handleTaskAPI env r a
      else if has_prefix path ''/api/runs/'' then handleRunAPI env r a
      else (handleLegacyPage r, a))"

text \<open>The beginning of \<^verbatim>\<open>builda serve\<close> (\<^verbatim>\<open>cli_legacy.go\<close>), up to the loops that listen and that
  watch the configuration file: the addresses and the application.\<close>

datatype serve_error = ServeInit | ServeLoad run_config_error | ServeLogDir

record serve_env =
  sv_stat_error :: bool
  sv_mkdir_fails :: bool
  sv_sample :: string
  sv_logdir_fails :: bool
  sv_hostname :: "string option"
  sv_unreadable :: bool
  sv_now :: time
  sv_app :: app_env

definition runServer ::
    "serve_env \<Rightarrow> string \<Rightarrow> string list \<Rightarrow> bool \<Rightarrow> file_data gomap \<Rightarrow> text_file
      \<Rightarrow> serve_error + string list \<times> App" where
  "runServer env configPath addrs ensureConfig disk f =
     (let ax = sv_app env in
      case (if ensureConfig
            then ensureDefaultConfig (sv_stat_error env) (sv_mkdir_fails env) (ax_write_fails ax) (sv_sample env) (ax_stamp ax) f
            else (True, f)) of (ok, f) \<Rightarrow>
        if \<not> ok then Inl ServeInit
        else case loadRuntimeConfig (ax_parse ax) (ax_unmarshal ax) configPath (if ax_read_fails ax then None else f) of
          Inl e \<Rightarrow> Inl (ServeLoad e)
        | Inr cfg \<Rightarrow>
            (let listenAddrs = resolveListenAddresses (configuredListenAddresses (cf_Server cfg)) addrs in
             if sv_logdir_fails env then Inl ServeLogDir
             else
               Inr (listenAddrs,
                 \<lparr>ap_cfg = cfg, ap_tasks = buildTaskMap (cf_Tasks cfg), ap_configPath = configPath,
                  ap_runner = NewRunner (sv_unreadable env) (ax_io ax) (sc_LogDir (cf_Server cfg))
                    (Some (sc_MaxHistory (cf_Server cfg))) disk,
                  ap_logDir = sc_LogDir (cf_Server cfg),
                  ap_hostname = (case sv_hostname env of None \<Rightarrow> ''unknown-host''
                                 | Some h \<Rightarrow> if h = '''' then ''unknown-host'' else h),
                  ap_started = sv_now env,
                  ap_configFile = (case statFileStamp (ax_stat_fails ax) f of None \<Rightarrow> zero_stamp | Some stamp \<Rightarrow> stamp),
                  ap_file = f\<rparr>)))"
end
