(* ===== verification/Runner_Props.thy ===== *)
theory Runner_Props
  imports Runner_Exec
begin

text \<open>
  The standalone runner over all its steps.  The invariant is the conjunction of what the map, the
  history bound, the queue, the goroutines and the channels promise; each operation is shown to keep it
  through lemmas about saving and dispatching, which every operation ends with.
\<close>

section \<open>The list of runs under distinct identifiers\<close>

definition ids_ok :: "runner_proc \<Rightarrow> bool" where
  "ids_ok r \<longleftrightarrow> distinct (map ru_ID (rr_runs r)) \<and> '''' \<notin> ru_ID ` set (rr_runs r)
     \<and> set (rr_byID r) = ru_ID ` set (rr_runs r)"

lemma find_rev_distinct:
  assumes "distinct (map ru_ID runs)"
  shows "find (has_id i) (rev runs) = find (has_id i) runs"
proof (cases "find (has_id i) runs")
  case None
  then have "find (has_id i) (rev runs) = None" by (simp add: find_None_iff_all)
  with None show ?thesis by simp
next
  case (Some x)
  obtain y where y: "find (has_id i) (rev runs) = Some y"
    using find_Some_mem [OF Some] by (cases "find (has_id i) (rev runs)") (auto simp: find_None_iff_all)
  have "x \<in> set runs" "y \<in> set runs" "ru_ID x = ru_ID y"
    using find_Some_mem [OF Some] find_Some_mem [OF y] by (auto simp: has_id_def)
  then have "x = y" using assms by (meson distinct_map inj_onD)
  with y Some show ?thesis by simp
qed

lemma upd_first_id:
  assumes "distinct (map ru_ID runs)"
  shows "upd_first (has_id i) f runs = map (\<lambda>run. if ru_ID run = i then f run else run) runs"
  using assms by (induction runs) (auto simp: has_id_def image_iff intro!: map_idI [symmetric])

lemma byID_get_find: "ids_ok r \<Longrightarrow> byID_get r i = find (has_id i) (rr_runs r)"
  unfolding byID_get_def ids_ok_def
  by (auto simp: find_rev_distinct find_None_iff_all has_id_def image_iff eq_commute [of None])

lemma find_id_mem:
  "distinct (map ru_ID runs) \<Longrightarrow> run \<in> set runs \<Longrightarrow> find (has_id (ru_ID run)) runs = Some run"
  by (induction runs) (auto simp: has_id_def image_iff)

lemma byID_get_Some: "ids_ok r \<Longrightarrow> byID_get r i = Some run \<longleftrightarrow> run \<in> set (rr_runs r) \<and> ru_ID run = i"
  using find_Some_mem [of "has_id i" "rr_runs r" run] find_id_mem [of "rr_runs r" run]
  by (auto simp: byID_get_find has_id_def ids_ok_def)

lemma byID_get_None: "ids_ok r \<Longrightarrow> byID_get r i = None \<longleftrightarrow> i \<notin> ru_ID ` set (rr_runs r)"
  by (auto simp: byID_get_find find_None_iff_all has_id_def)

lemma byID_upd_map:
  "ids_ok r \<Longrightarrow> byID_upd i f r = r\<lparr>rr_runs := map (\<lambda>run. if ru_ID run = i then f run else run) (rr_runs r)\<rparr>"
  by (simp add: byID_upd_def ids_ok_def upd_first_id rev_map [symmetric])

section \<open>The parts of the invariant\<close>

definition hist_ok :: "runner_proc \<Rightarrow> bool" where
  "hist_ok r \<longleftrightarrow> int (length (filter terminal_run (rr_runs r))) \<le> rr_maxHistory r"

text \<open>At most one run is running, and it is the active one.\<close>

definition active_ok :: "runner_proc \<Rightarrow> bool" where
  "active_ok r \<longleftrightarrow> (\<forall>run \<in> set (rr_runs r). running_run run \<longrightarrow> ru_ID run = rr_activeID r)
     \<and> (rr_activeID r \<noteq> '''' \<longrightarrow> (\<exists>run \<in> set (rr_runs r). running_run run))"

text \<open>No run waits while the runner is idle, and no run that waits was requested before the running
  one.\<close>

definition queue_ok :: "runner_proc \<Rightarrow> bool" where
  "queue_ok r \<longleftrightarrow> (rr_activeID r = '''' \<longrightarrow> (\<forall>run \<in> set (rr_runs r). \<not> queued_run run))"

definition fifo :: "Run list \<Rightarrow> bool" where
  "fifo runs \<longleftrightarrow> sorted_wrt (\<lambda>a b. \<not> (queued_run a \<and> running_run b)) runs"

text \<open>The active run has exactly one goroutine, which its cancel function reaches.\<close>

definition thread_ok :: "runner_proc \<Rightarrow> bool" where
  "thread_ok r \<longleftrightarrow> map th_run (rp_threads r) = (if rr_activeID r = '''' then [] else [rr_activeID r])
     \<and> (\<forall>th \<in> set (rp_threads r). th_ctx th < length (rp_ctxs r)
          \<and> (\<forall>run \<in> set (rr_runs r). running_run run \<longrightarrow> ru_cancel run = Some (th_ctx th)))"

definition done_ok :: "string set \<Rightarrow> runner_proc \<Rightarrow> bool" where
  "done_ok X r \<longleftrightarrow> (\<forall>run \<in> set (rr_runs r). ru_ID run \<notin> X \<longrightarrow> ru_done run = terminal_run run)"

text \<open>The state file, if it can be read, has no identifier twice.\<close>

definition entry_ids :: "Run option list \<Rightarrow> string list" where
  "entry_ids entries = filter (\<lambda>i. i \<noteq> '''') (map ru_ID (map the (filter (\<lambda>e. e \<noteq> None) entries)))"

definition disk_ok :: "string \<Rightarrow> file_data gomap \<Rightarrow> bool" where
  "disk_ok path disk \<longleftrightarrow>
     (case map_of disk path of Some (RunsJSON entries) \<Rightarrow> distinct (entry_ids entries) | _ \<Rightarrow> True)"

text \<open>What holds between the steps of an operation, apart from the goroutines and the channels.\<close>

definition base_ok :: "runner_proc \<Rightarrow> bool" where
  "base_ok r \<longleftrightarrow> ids_ok r \<and> 0 < rr_maxHistory r \<and> active_ok r \<and> fifo (rr_runs r)
     \<and> rr_statePath r = path_join (rr_logDir r) ''runs.json'' \<and> disk_ok (rr_statePath r) (rp_disk r)"

definition runner_inv :: "runner_proc \<Rightarrow> bool" where
  "runner_inv r \<longleftrightarrow> base_ok r \<and> hist_ok r \<and> queue_ok r \<and> thread_ok r \<and> done_ok {} r"

lemma run_kinds:
  "terminal_run run \<Longrightarrow> \<not> queued_run run" "terminal_run run \<Longrightarrow> \<not> running_run run"
  "queued_run run \<Longrightarrow> \<not> running_run run"
  by (auto simp: terminal_run_def queued_run_def running_run_def isTerminal_def status_defs)

section \<open>Pruning and saving\<close>

lemma prune_loop_Cons:
  "run_prune_loop n (run # runs) =
    (if n > 0 \<and> terminal_run run
     then (fst (run_prune_loop (n - 1) runs), run # snd (run_prune_loop (n - 1) runs))
     else (run # fst (run_prune_loop n runs), snd (run_prune_loop n runs)))"
  by (simp add: case_prod_beta)

lemma prune_loop_sets:
  "set (fst (run_prune_loop n runs)) \<union> set (snd (run_prune_loop n runs)) = set runs"
  "\<forall>run \<in> set (snd (run_prune_loop n runs)). terminal_run run"
  by (induction runs arbitrary: n) (auto simp: prune_loop_Cons simp del: run_prune_loop.simps(2))

lemma prune_loop_keeps:
  assumes "run_prune_loop n runs = (kept, pruned)"
  shows "set runs = set kept \<union> set pruned" "\<forall>run \<in> set pruned. terminal_run run"
  using prune_loop_sets [of n runs] assms by auto

lemma prune_loop_sorted: "sorted_wrt P runs \<Longrightarrow> sorted_wrt P (fst (run_prune_loop n runs))"
proof (induction runs arbitrary: n)
  case (Cons run runs)
  have "set (fst (run_prune_loop n runs)) \<subseteq> set runs" using prune_loop_sets(1) by blast
  with Cons show ?case by (auto simp: prune_loop_Cons simp del: run_prune_loop.simps(2))
qed simp

lemma history_prune_distinct:
  assumes "distinct (map f runs)"
  shows "distinct (map f (fst (run_prune_loop n runs)))
    \<and> f ` set (fst (run_prune_loop n runs)) \<inter> f ` set (snd (run_prune_loop n runs)) = {}"
  using assms
proof (induction runs arbitrary: n)
  case (Cons run runs)
  have "f ` set (fst (run_prune_loop m runs)) \<union> f ` set (snd (run_prune_loop m runs)) = f ` set runs" for m
    using prune_loop_sets(1) [of m runs] by blast
  then have "f run \<notin> f ` set (fst (run_prune_loop m runs))" "f run \<notin> f ` set (snd (run_prune_loop m runs))" for m
    using Cons.prems by auto
  with Cons show ?case by (simp add: prune_loop_Cons del: run_prune_loop.simps(2))
qed simp

lemma prune_loop_count:
  assumes "run_prune_loop n runs = (kept, pruned)" "0 \<le> n" "n \<le> int (length (filter terminal_run runs))"
  shows "int (length (filter terminal_run kept)) = int (length (filter terminal_run runs)) - n"
  using assms
proof (induction n runs arbitrary: kept pruned rule: run_prune_loop.induct)
  case (2 n run runs)
  show ?case
  proof (cases "n > 0 \<and> terminal_run run")
    case True
    with 2 show ?thesis by (auto split: prod.splits)
  next
    case False
    obtain k p where kp: "run_prune_loop n runs = (k, p)" by fastforce
    have "n = 0 \<or> \<not> terminal_run run" using False "2.prems"(2) by linarith
    with False 2 kp show ?thesis by auto
  qed
qed auto

lemma normalizeMaxHistory_pos [simp]: "0 < n \<Longrightarrow> normalizeMaxHistory n = n" "0 < normalizeMaxHistory n"
  by (simp_all add: normalizeMaxHistory_def defaultMaxHistory_def)

text \<open>The effect of pruning and saving, as the other proofs need it.\<close>

lemma prune_effect:
  assumes "pruneHistoryLocked r = (pruned, r')" "ids_ok r" "0 < rr_maxHistory r"
  shows "r' = r\<lparr>rr_runs := rr_runs r', rr_byID := rr_byID r'\<rparr>" "ids_ok r'" "hist_ok r'"
    "set (rr_runs r') \<subseteq> set (rr_runs r)"
    "\<And>run. run \<in> set (rr_runs r) \<Longrightarrow> \<not> terminal_run run \<Longrightarrow> run \<in> set (rr_runs r')"
    "\<And>P. sorted_wrt P (rr_runs r) \<Longrightarrow> sorted_wrt P (rr_runs r')"
proof -
  let ?n = "int (length (filter terminal_run (rr_runs r))) - rr_maxHistory r"
  have goal: "r' = r\<lparr>rr_runs := rr_runs r', rr_byID := rr_byID r'\<rparr> \<and> ids_ok r' \<and> hist_ok r'
      \<and> set (rr_runs r') \<subseteq> set (rr_runs r)
      \<and> (\<forall>run \<in> set (rr_runs r). \<not> terminal_run run \<longrightarrow> run \<in> set (rr_runs r'))
      \<and> (\<forall>P. sorted_wrt P (rr_runs r) \<longrightarrow> sorted_wrt P (rr_runs r'))"
  proof (cases "?n \<le> 0")
    case True
    with assms have "r' = r" by (simp add: pruneHistoryLocked_def Let_def)
    with True assms show ?thesis by (simp add: hist_ok_def)
  next
    case False
    obtain kept pr where kp: "run_prune_loop ?n (rr_runs r) = (kept, pr)" by fastforce
    with False assms have r': "r' = r\<lparr>rr_runs := kept, rr_byID := filter (\<lambda>i. i \<notin> ru_ID ` set pr) (rr_byID r)\<rparr>"
      by (auto simp: pruneHistoryLocked_def Let_def)
    have ids: "distinct (map ru_ID kept) \<and> ru_ID ` set kept \<inter> ru_ID ` set pr = {}"
      using history_prune_distinct [of ru_ID "rr_runs r" ?n] kp assms(2) by (simp add: ids_ok_def)
    have "set (rr_byID r') = ru_ID ` set kept"
      using ids assms(2) prune_loop_keeps(1) [OF kp] by (auto simp: r' ids_ok_def)
    then have "ids_ok r'" using ids assms(2) prune_loop_keeps(1) [OF kp] by (auto simp: r' ids_ok_def)
    moreover have "hist_ok r'" using prune_loop_count [OF kp] False assms(3) by (simp add: r' hist_ok_def)
    ultimately show ?thesis
      using prune_loop_keeps [OF kp] prune_loop_sorted [of _ "rr_runs r" ?n] kp by (auto simp: r')
  qed
  from goal show "r' = r\<lparr>rr_runs := rr_runs r', rr_byID := rr_byID r'\<rparr>" "ids_ok r'" "hist_ok r'"
    "set (rr_runs r') \<subseteq> set (rr_runs r)" by blast+
  from goal show "\<And>run. run \<in> set (rr_runs r) \<Longrightarrow> \<not> terminal_run run \<Longrightarrow> run \<in> set (rr_runs r')"
    "\<And>P. sorted_wrt P (rr_runs r) \<Longrightarrow> sorted_wrt P (rr_runs r')" by blast+
qed

lemma disk_ok_update: "disk_ok path disk \<Longrightarrow> (\<And>es. d = RunsJSON es \<Longrightarrow> distinct (entry_ids es)) \<Longrightarrow>
    disk_ok path (AList.update p d disk)"
  by (cases d) (auto simp: disk_ok_def update_conv')

lemma disk_ok_delete: "disk_ok path disk \<Longrightarrow> disk_ok path (AList.delete p disk)"
  by (simp add: disk_ok_def delete_conv' map_fun_upd split: option.splits)

lemma disk_ok_removePruned: "disk_ok path disk \<Longrightarrow> disk_ok path (removePrunedLogs u dir pruned disk)"
  unfolding removePrunedLogs_def
  by (induction pruned arbitrary: disk) (auto simp: Let_def disk_ok_delete)

lemma entry_ids_exported: "distinct (map ru_ID runs) \<Longrightarrow> distinct (entry_ids (map (\<lambda>run. Some (exported run)) runs))"
proof -
  assume d: "distinct (map ru_ID runs)"
  have "entry_ids (map (\<lambda>run. Some (exported run)) runs) = filter (\<lambda>i. i \<noteq> '''') (map ru_ID runs)"
    by (induction runs) (auto simp: entry_ids_def exported_def)
  with d show ?thesis by (simp del: filter_map)
qed

lemma disk_ok_write:
  assumes "disk_ok path disk" "distinct (entry_ids es)"
  shows "disk_ok path (snd (writeFileAtomic w p (RunsJSON es) disk))"
  using assms by (cases w) (auto simp: writeFileAtomic_def Let_def intro!: disk_ok_update disk_ok_delete)

text \<open>Saving keeps the base of the invariant and establishes the bound on the history; it only drops
  finished runs.\<close>

lemma save_effect:
  assumes "base_ok r"
  shows "saveLocked w u r =
      r\<lparr>rr_runs := rr_runs (saveLocked w u r), rr_byID := rr_byID (saveLocked w u r),
        rp_disk := rp_disk (saveLocked w u r)\<rparr>"
    and "base_ok (saveLocked w u r)" "hist_ok (saveLocked w u r)"
    and "set (rr_runs (saveLocked w u r)) \<subseteq> set (rr_runs r)"
    and "\<And>run. run \<in> set (rr_runs r) \<Longrightarrow> \<not> terminal_run run \<Longrightarrow> run \<in> set (rr_runs (saveLocked w u r))"
proof -
  obtain pruned r' where p: "pruneHistoryLocked r = (pruned, r')" by fastforce
  have ids: "ids_ok r" "0 < rr_maxHistory r" using assms by (auto simp: base_ok_def)
  note eff = prune_effect [OF p ids]
  obtain d where d: "saveLocked w u r = r'\<lparr>rp_disk := d\<rparr>"
      "disk_ok (rr_statePath r') (rp_disk r') \<Longrightarrow> disk_ok (rr_statePath r') d"
  proof -
    let ?x = "writeFileAtomic w (rr_statePath r') (RunsJSON (map (\<lambda>run. Some (exported run)) (rr_runs r'))) (rp_disk r')"
    have x: "disk_ok (rr_statePath r') (rp_disk r') \<Longrightarrow> disk_ok (rr_statePath r') (snd ?x)"
      using eff(2) by (intro disk_ok_write) (auto simp: ids_ok_def entry_ids_exported)
    show thesis
    proof (cases "fst ?x")
      case True
      then have "saveLocked w u r = r'\<lparr>rp_disk := removePrunedLogs u (rr_logDir r') pruned (snd ?x)\<rparr>"
        by (simp add: saveLocked_def p case_prod_beta)
      with that x disk_ok_removePruned show thesis by blast
    next
      case False
      then have "saveLocked w u r = r'\<lparr>rp_disk := snd ?x\<rparr>" by (simp add: saveLocked_def p case_prod_beta)
      with that x show thesis by blast
    qed
  qed
  have same: "rr_activeID r' = rr_activeID r" "rr_maxHistory r' = rr_maxHistory r" "rr_logDir r' = rr_logDir r"
      "rr_statePath r' = rr_statePath r" "rp_disk r' = rp_disk r"
    by (subst eff(1), simp)+
  show "saveLocked w u r = r\<lparr>rr_runs := rr_runs (saveLocked w u r), rr_byID := rr_byID (saveLocked w u r),
        rp_disk := rp_disk (saveLocked w u r)\<rparr>"
    unfolding d by (subst (1) eff(1)) simp
  show "hist_ok (saveLocked w u r)" unfolding d using eff(3) by (simp add: hist_ok_def)
  show "set (rr_runs (saveLocked w u r)) \<subseteq> set (rr_runs r)" unfolding d using eff(4) by simp
  show keep: "run \<in> set (rr_runs (saveLocked w u r))" if "run \<in> set (rr_runs r)" "\<not> terminal_run run" for run
    unfolding d using eff(5) that by simp
  have "active_ok (r'\<lparr>rp_disk := d\<rparr>)"
    using assms eff(4) keep run_kinds(2) unfolding base_ok_def active_ok_def d(1)
    by (simp add: same) blast
  moreover have "fifo (rr_runs r')" using assms eff(6) by (simp add: base_ok_def fifo_def)
  ultimately show "base_ok (saveLocked w u r)"
    using assms eff(2) d(2) unfolding base_ok_def d(1) by (auto simp: same ids_ok_def)
qed

lemma save_fields [simp]:
  assumes "base_ok r"
  shows "rr_activeID (saveLocked w u r) = rr_activeID r" "rr_maxHistory (saveLocked w u r) = rr_maxHistory r"
    "rr_logDir (saveLocked w u r) = rr_logDir r" "rr_statePath (saveLocked w u r) = rr_statePath r"
    "rp_ctxs (saveLocked w u r) = rp_ctxs r" "rp_threads (saveLocked w u r) = rp_threads r"
  by (subst save_effect(1) [OF assms], simp)+

lemma save_keeps:
  assumes "base_ok r"
  shows "queue_ok r \<Longrightarrow> queue_ok (saveLocked w u r)" "done_ok X r \<Longrightarrow> done_ok X (saveLocked w u r)"
    "thread_ok r \<Longrightarrow> thread_ok (saveLocked w u r)"
  using save_effect(4) [OF assms, of w u] assms
  by (auto simp: queue_ok_def done_ok_def thread_ok_def)

section \<open>Dispatching\<close>

lemma find_upd_split:
  assumes "find P xs = Some x"
  obtains ys zs where "xs = ys @ x # zs" "\<forall>y \<in> set ys. \<not> P y" "\<And>f. upd_first P f xs = ys @ f x # zs" "P x"
  using assms
proof (induction xs arbitrary: thesis)
  case (Cons a xs)
  show ?case
  proof (cases "P a")
    case True
    with Cons.prems show ?thesis by (intro Cons.prems(1) [of "[]" xs]) auto
  next
    case False
    with Cons.prems(2) have "find P xs = Some x" by simp
    then obtain ys zs where "xs = ys @ x # zs" "\<forall>y \<in> set ys. \<not> P y" "\<And>f. upd_first P f xs = ys @ f x # zs" "P x"
      using Cons.IH by metis
    with False show ?thesis by (intro Cons.prems(1) [of "a # ys" zs]) auto
  qed
qed simp

lemma threads_irrelevant [simp]:
  "base_ok (r\<lparr>rp_threads := t\<rparr>) = base_ok r" "hist_ok (r\<lparr>rp_threads := t\<rparr>) = hist_ok r"
  "queue_ok (r\<lparr>rp_threads := t\<rparr>) = queue_ok r" "done_ok X (r\<lparr>rp_threads := t\<rparr>) = done_ok X r"
  by (simp_all add: base_ok_def ids_ok_def active_ok_def hist_ok_def queue_ok_def done_ok_def)

definition started :: "time \<Rightarrow> nat \<Rightarrow> Run \<Rightarrow> Run" where
  "started now k x = x\<lparr>ru_cancel := Some k, ru_Status := StatusRunning, ru_StartedAt := now\<rparr>"

lemma started_fields [simp]:
  "ru_ID (started now k x) = ru_ID x" "ru_cancel (started now k x) = Some k" "ru_done (started now k x) = ru_done x"
  "running_run (started now k x)" "\<not> queued_run (started now k x)" "\<not> terminal_run (started now k x)"
  by (auto simp: started_def running_run_def queued_run_def terminal_run_def isTerminal_def status_defs)

text \<open>\<^verbatim>\<open>dispatchLocked\<close> does nothing, or it starts the first run that waits.\<close>

lemma dispatch_cases:
  assumes "base_ok r"
  shows "dispatchLocked now w u r = r \<and> queue_ok r
    \<or> (\<exists>x ys zs cx. rr_activeID r = '''' \<and> rr_runs r = ys @ x # zs \<and> queued_run x
        \<and> (\<forall>y \<in> set ys. \<not> queued_run y) \<and> (\<forall>y \<in> set ys \<union> set zs. \<not> running_run y) \<and> ru_ID x \<noteq> ''''
        \<and> (let r1 = r\<lparr>rp_ctxs := rp_ctxs r @ [cx], rr_runs := ys @ started now (length (rp_ctxs r)) x # zs,
                      rr_activeID := ru_ID x\<rparr>
           in base_ok r1 \<and> dispatchLocked now w u r =
                (saveLocked w u r1)\<lparr>rp_threads := rp_threads r @
                   [\<lparr>th_ctx = length (rp_ctxs r), th_run = ru_ID x, th_state = Launched\<rparr>]\<rparr>))"
proof (cases "rr_activeID r \<noteq> '''' \<or> find queued_run (rr_runs r) = None")
  case True
  then have "dispatchLocked now w u r = r" by (auto simp: dispatchLocked_def)
  moreover have "queue_ok r" using True by (auto simp: queue_ok_def find_None_iff_all)
  ultimately show ?thesis by blast
next
  case False
  then obtain x where idle: "rr_activeID r = ''''" and x: "find queued_run (rr_runs r) = Some x" by auto
  obtain ys zs where yz: "rr_runs r = ys @ x # zs" "\<forall>y \<in> set ys. \<not> queued_run y"
      "\<And>f. upd_first queued_run f (rr_runs r) = ys @ f x # zs" "queued_run x"
    using find_upd_split [OF x] by metis
  define cx where "cx = \<lparr>cx_timeout = (if ru_Timeout x > 0 then ru_Timeout x else 0), cx_state = CtxLive\<rparr>"
  let ?r = "r\<lparr>rp_ctxs := rp_ctxs r @ [cx], rr_runs := ys @ started now (length (rp_ctxs r)) x # zs, rr_activeID := ru_ID x\<rparr>"
  have "ru_ID y \<noteq> ''''" "\<not> running_run y \<or> ru_ID y = ''''" if "y \<in> set (rr_runs r)" for y
    using assms idle that by (force simp: base_ok_def active_ok_def ids_ok_def)+
  then have no_run: "\<forall>y \<in> set ys \<union> set zs. \<not> running_run y" "ru_ID x \<noteq> ''''" unfolding yz(1) by fastforce+
  have base: "base_ok ?r"
    using assms no_run yz(1,2) by (auto simp: base_ok_def ids_ok_def active_ok_def fifo_def sorted_wrt_append)
  then have "dispatchLocked now w u r =
      (saveLocked w u ?r)\<lparr>rp_threads := rp_threads r @
         [\<lparr>th_ctx = length (rp_ctxs r), th_run = ru_ID x, th_state = Launched\<rparr>]\<rparr>"
    using idle x yz(3) by (simp add: dispatchLocked_def Let_def cx_def started_def)
  with idle yz no_run base show ?thesis unfolding Let_def by blast
qed

lemma dispatch_inv:
  assumes "base_ok r" "hist_ok r" "thread_ok r" "done_ok {} r"
  shows "runner_inv (dispatchLocked now w u r)"
  using dispatch_cases [OF assms(1), of now w u]
proof (elim disjE exE conjE)
  assume "dispatchLocked now w u r = r" "queue_ok r"
  then show ?thesis using assms by (simp add: runner_inv_def)
next
  fix x ys zs cx
  let ?k = "length (rp_ctxs r)"
  let ?r = "r\<lparr>rp_ctxs := rp_ctxs r @ [cx], rr_runs := ys @ started now ?k x # zs, rr_activeID := ru_ID x\<rparr>"
  let ?s = "saveLocked w u ?r"
  assume x: "rr_activeID r = ''''" "rr_runs r = ys @ x # zs" "queued_run x"
    "\<forall>y \<in> set ys \<union> set zs. \<not> running_run y" "ru_ID x \<noteq> ''''"
    and "let r1 = ?r in base_ok r1 \<and> dispatchLocked now w u r =
           (saveLocked w u r1)\<lparr>rp_threads := rp_threads r @ [\<lparr>th_ctx = ?k, th_run = ru_ID x, th_state = Launched\<rparr>]\<rparr>"
  then have base: "base_ok ?r" and eq: "dispatchLocked now w u r =
      ?s\<lparr>rp_threads := rp_threads r @ [\<lparr>th_ctx = ?k, th_run = ru_ID x, th_state = Launched\<rparr>]\<rparr>"
    by (simp_all add: Let_def)
  have "rp_threads r = []" using assms(3) x(1) by (simp add: thread_ok_def)
  then have "thread_ok (dispatchLocked now w u r)"
    unfolding eq thread_ok_def using save_effect(4) [OF base, of w u] x base by auto
  moreover have "done_ok {} ?r"
    using assms(4) x(2,3) run_kinds(1) by (auto simp: done_ok_def)
  then have "done_ok {} ?s" by (rule save_keeps(2) [OF base])
  moreover have "base_ok ?s" "hist_ok ?s" "queue_ok ?s"
    using save_effect(2,3) [OF base, of w u] base x(5) by (simp_all add: queue_ok_def)
  ultimately show ?thesis unfolding eq by (simp add: runner_inv_def)
qed

section \<open>The operations keep the invariant\<close>
section \<open>The operations keep the invariant\<close>

lemma inv_parts:
  assumes "runner_inv r"
  shows "base_ok r" "ids_ok r" "0 < rr_maxHistory r" "active_ok r" "fifo (rr_runs r)"
    "hist_ok r" "queue_ok r" "thread_ok r" "done_ok {} r" "disk_ok (rr_statePath r) (rp_disk r)"
  using assms by (auto simp: runner_inv_def base_ok_def)

text \<open>An operation that saves and keeps everything but the history bound.\<close>

lemma save_inv:
  assumes "base_ok r" "queue_ok r" "thread_ok r" "done_ok {} r"
  shows "runner_inv (saveLocked w u r)"
  using assms save_effect(2,3) [OF assms(1)] save_keeps [OF assms(1)] by (simp add: runner_inv_def)

lemma inv_Start:
  assumes "runner_inv r" "i \<noteq> ''''" "i \<notin> ru_ID ` set (rr_runs r)"
  shows "runner_inv (snd (Runner_Start parse io i task inputs r))"
proof (cases "if tc_Timeout task \<noteq> '''' then parse (tc_Timeout task) else Some 0")
  case None
  then show ?thesis using assms(1) by (simp add: Runner_Start_def)
next
  case (Some timeout)
  let ?run = "new_run (io_now io) (rr_logDir r) i task inputs timeout"
  let ?r = "r\<lparr>rr_runs := rr_runs r @ [?run], rr_byID := List.insert i (rr_byID r)\<rparr>"
  have run: "ru_ID ?run = i" "queued_run ?run" "\<not> running_run ?run" "\<not> terminal_run ?run" "\<not> ru_done ?run"
    by (auto simp: new_run_def queued_run_def running_run_def terminal_run_def isTerminal_def status_defs)
  note p = inv_parts [OF assms(1)]
  have base: "base_ok ?r"
    using p(1) run assms(2,3) by (auto simp: base_ok_def ids_ok_def active_ok_def fifo_def sorted_wrt_append)
  have "thread_ok ?r" "done_ok {} ?r"
    using p(8,9) run by (auto simp: thread_ok_def done_ok_def)
  then have "runner_inv (dispatchLocked (io_later io) (io_save2 io) (io_unremovable io)
      (saveLocked (io_save io) (io_unremovable io) ?r))"
    using save_effect(2,3) [OF base] save_keeps [OF base] by (intro dispatch_inv) auto
  then show ?thesis using Some by (simp add: Runner_Start_def Let_def)
qed

lemma inv_SetMaxHistory:
  assumes "runner_inv r"
  shows "runner_inv (Runner_SetMaxHistory io n r)"
proof -
  note p = inv_parts [OF assms]
  let ?r = "r\<lparr>rr_maxHistory := normalizeMaxHistory n\<rparr>"
  have "base_ok ?r" "queue_ok ?r" "thread_ok ?r" "done_ok {} ?r"
    using p by (auto simp: base_ok_def ids_ok_def active_ok_def queue_ok_def thread_ok_def done_ok_def)
  then have "runner_inv (saveLocked (io_save io) (io_unremovable io) ?r)" by (rule save_inv)
  with assms show ?thesis by (simp add: Runner_SetMaxHistory_def Let_def)
qed

lemma inv_disk:
  "runner_inv r \<Longrightarrow> disk_ok (rr_statePath r) d \<Longrightarrow> runner_inv (r\<lparr>rp_disk := d\<rparr>)"
  by (auto simp: runner_inv_def base_ok_def ids_ok_def active_ok_def hist_ok_def queue_ok_def thread_ok_def done_ok_def)

lemma del_first_ids:
  assumes "distinct (map ru_ID runs)" "find (has_id i) runs = Some run"
  shows "ru_ID ` set (del_first (has_id i) runs) = ru_ID ` set runs - {i}"
  using assms
proof (induction runs)
  case (Cons a runs)
  show ?case
  proof (cases "ru_ID a = i")
    case True
    with Cons.prems show ?thesis by (simp add: has_id_def)
  next
    case False
    then have na: "\<not> has_id i a" by (simp add: has_id_def)
    then have "ru_ID ` set (del_first (has_id i) runs) = ru_ID ` set runs - {i}"
      using Cons by simp
    with False na show ?thesis by (simp add: insert_Diff_if)
  qed
qed simp

lemma sorted_wrt_del_first: "sorted_wrt P runs \<Longrightarrow> sorted_wrt P (del_first Q runs)"
proof (induction runs)
  case (Cons run runs)
  then show ?case using set_del_first [of Q runs] by auto
qed simp

lemma inv_Delete:
  assumes "runner_inv r"
  shows "runner_inv (snd (Runner_Delete io i r))"
proof (cases "find (has_id i) (rr_runs r)")
  case None
  then show ?thesis using assms by (simp add: Runner_Delete_def)
next
  case (Some run)
  show ?thesis
  proof (cases "terminal_run run")
    case False
    with Some show ?thesis using assms by (simp add: Runner_Delete_def)
  next
    case True
    note p = inv_parts [OF assms]
    let ?r = "r\<lparr>rr_runs := del_first (has_id i) (rr_runs r), rr_byID := filter (\<lambda>j. j \<noteq> i) (rr_byID r)\<rparr>"
    let ?s = "saveLocked (io_save io) (io_unremovable io) ?r"
    have sub: "set (rr_runs ?r) \<subseteq> set (rr_runs r)" using set_del_first by simp
    have "ids_ok ?r"
      using p(2) del_first_ids [OF _ Some] sub distinct_map_del_first [of ru_ID "rr_runs r"]
      unfolding ids_ok_def by auto
    moreover have "x \<in> set (rr_runs ?r)" if "x \<in> set (rr_runs r)" "running_run x" for x
    proof -
      have "x \<noteq> run" using True that run_kinds(2) by blast
      then have "\<not> has_id i x"
        using p(2) find_Some_mem [OF Some] that(1) by (auto simp: ids_ok_def has_id_def distinct_map inj_on_def)
      with that show ?thesis by (simp add: del_first_remaining)
    qed
    with p(4) sub have "active_ok ?r" unfolding active_ok_def by (simp add: subset_iff) blast
    ultimately have base: "base_ok ?r"
      using p(1) sorted_wrt_del_first by (auto simp: base_ok_def fifo_def)
    have "queue_ok ?r" "thread_ok ?r" "done_ok {} ?r"
      using p(7,8,9) sub by (auto simp: queue_ok_def thread_ok_def done_ok_def)
    with base have s: "runner_inv ?s" by (rule save_inv)
    then have "disk_ok (rr_statePath ?s) (removePrunedLogs (io_unremovable io) (rr_logDir ?s) [run] (rp_disk ?s))"
      by (intro disk_ok_removePruned inv_parts(10))
    with s True Some show ?thesis by (simp add: Runner_Delete_def Let_def inv_disk)
  qed
qed

text \<open>Changing the fields of a run that the queue does not look at, and ending a run.\<close>

lemma base_map_status:
  assumes "base_ok r" "\<And>run. ru_ID (f run) = ru_ID run" "\<And>run. ru_Status (f run) = ru_Status run"
  shows "base_ok (r\<lparr>rr_runs := map f (rr_runs r)\<rparr>)"
proof -
  have "queued_run (f run) = queued_run run" "running_run (f run) = running_run run" for run
    using assms(3) by (simp_all add: queued_run_def running_run_def)
  with assms show ?thesis
    by (auto simp: base_ok_def ids_ok_def active_ok_def fifo_def sorted_wrt_map comp_def image_image)
qed

lemma base_map_terminal:
  assumes "base_ok r" "\<And>run. ru_ID (f run) = ru_ID run"
    "\<And>run. run \<in> set (rr_runs r) \<Longrightarrow> f run = run \<or> terminal_run (f run)"
    "a = rr_activeID r \<or> a = ''''" "a \<noteq> '''' \<Longrightarrow> \<exists>run \<in> set (rr_runs r). running_run run \<and> f run = run"
    "\<And>run. run \<in> set (rr_runs r) \<Longrightarrow> a = '''' \<Longrightarrow> running_run run \<Longrightarrow> terminal_run (f run)"
  shows "base_ok (r\<lparr>rr_runs := map f (rr_runs r), rr_activeID := a\<rparr>)"
proof -
  have k: "queued_run (f run) \<Longrightarrow> queued_run run" "running_run (f run) \<Longrightarrow> running_run run \<and> f run = run"
    if "run \<in> set (rr_runs r)" for run
    using assms(3) [OF that] run_kinds [of "f run"] by auto
  have "fifo (map f (rr_runs r))"
    using assms(1) k unfolding base_ok_def fifo_def sorted_wrt_map
    by (elim conjE sorted_wrt_mono_rel [rotated]) blast
  moreover have "active_ok (r\<lparr>rr_runs := map f (rr_runs r), rr_activeID := a\<rparr>)"
    using assms(1,4,5,6) k run_kinds(2) unfolding base_ok_def active_ok_def by (simp add: image_iff) metis
  moreover have "ids_ok (r\<lparr>rr_runs := map f (rr_runs r), rr_activeID := a\<rparr>)"
    using assms(1,2) by (auto simp: base_ok_def ids_ok_def comp_def image_image)
  ultimately show ?thesis using assms(1) by (auto simp: base_ok_def)
qed

lemma finish_run_fields [simp]:
  "ru_ID (finish_run now c e t run) = ru_ID run" "terminal_run (finish_run now c e t run)"
  by (auto simp: finish_run_def terminal_run_def isTerminal_def Let_def)

lemma closeDone_fields [simp]:
  "ru_ID (closeDone run) = ru_ID run" "ru_Status (closeDone run) = ru_Status run" "ru_done (closeDone run)"
  "ru_cancel (closeDone run) = ru_cancel run" "terminal_run (closeDone run) = terminal_run run"
  "running_run (closeDone run) = running_run run" "queued_run (closeDone run) = queued_run run"
  by (simp_all add: closeDone_def terminal_run_def running_run_def queued_run_def)

lemma filter_map_length:
  "(\<And>x. P (f x) = P x) \<Longrightarrow> length (filter P (map f xs)) = length (filter P xs)"
  by (induction xs) auto

text \<open>The state after the active run has ended and before the next one is started.\<close>

definition finished :: "runner_io \<Rightarrow> string \<Rightarrow> bool \<Rightarrow> int \<Rightarrow> string \<Rightarrow> runner_proc \<Rightarrow> runner_proc" where
  "finished io i c e t r =
     saveLocked (io_save io) (io_unremovable io)
       (r\<lparr>rr_runs := map (\<lambda>run. if ru_ID run = i then finish_run (io_now io) c e t run else run) (rr_runs r),
          rr_activeID := ''''\<rparr>)"

lemma finished_ok:
  assumes "base_ok r" "done_ok {} r" "rp_threads r = []" "rr_activeID r = i" "i \<noteq> ''''"
  shows "base_ok (finished io i c e t r)" "hist_ok (finished io i c e t r)" "thread_ok (finished io i c e t r)"
    "done_ok {i} (finished io i c e t r)"
    "\<And>run. run \<in> set (rr_runs (finished io i c e t r)) \<Longrightarrow> ru_ID run = i \<Longrightarrow> terminal_run run"
proof -
  let ?f = "\<lambda>run. if ru_ID run = i then finish_run (io_now io) c e t run else run"
  let ?r = "r\<lparr>rr_runs := map ?f (rr_runs r), rr_activeID := ''''\<rparr>"
  have base: "base_ok ?r"
    using assms(1,4) by (intro base_map_terminal) (auto simp: base_ok_def active_ok_def)
  then show "base_ok (finished io i c e t r)" "hist_ok (finished io i c e t r)"
    using save_effect(2,3) by (simp_all add: finished_def)
  have "thread_ok ?r" "done_ok {i} ?r" using assms(2,3) by (auto simp: thread_ok_def done_ok_def)
  then show "thread_ok (finished io i c e t r)" "done_ok {i} (finished io i c e t r)"
    using save_keeps [OF base] by (simp_all add: finished_def)
  show "terminal_run run" if "run \<in> set (rr_runs (finished io i c e t r))" "ru_ID run = i" for run
  proof -
    have "run \<in> set (rr_runs ?r)" using save_effect(4) [OF base] that(1) unfolding finished_def by blast
    then have "run \<in> ?f ` set (rr_runs r)" by simp
    then obtain x where "run = ?f x" by (elim imageE)
    with that(2) show ?thesis by (cases "ru_ID x = i") simp_all
  qed
qed

lemma finish_eq:
  assumes "base_ok r" "rr_activeID r = i" "i \<noteq> ''''"
  shows "Runner_finish io i c e t r =
    dispatchLocked (io_later io) (io_save2 io) (io_unremovable io)
      ((finished io i c e t r)\<lparr>rr_runs :=
         map (\<lambda>run. if ru_ID run = i then closeDone run else run) (rr_runs (finished io i c e t r))\<rparr>)"
proof -
  let ?f = "\<lambda>run. if ru_ID run = i then finish_run (io_now io) c e t run else run"
  let ?r = "r\<lparr>rr_runs := map ?f (rr_runs r), rr_activeID := ''''\<rparr>"
  have ids: "ids_ok r" using assms(1) by (simp add: base_ok_def)
  have base: "base_ok ?r"
    using assms by (intro base_map_terminal) (auto simp: base_ok_def active_ok_def)
  obtain run where "run \<in> set (rr_runs r)" "ru_ID run = i"
    using assms by (auto simp: base_ok_def active_ok_def)
  then have get: "byID_get r i = Some run" using ids by (simp add: byID_get_Some)
  have fin: "ids_ok (finished io i c e t r)"
    using save_effect(2) [OF base] by (simp add: finished_def base_ok_def)
  have "map (\<lambda>run. if ru_ID run = i then closeDone run else run) (rr_runs (finished io i c e t r))
      = rr_runs (finished io i c e t r)" if "byID_get (finished io i c e t r) i = None"
    using that fin by (auto simp: byID_get_None intro!: map_idI)
  then have "(case byID_get (finished io i c e t r) i of None \<Rightarrow> finished io i c e t r
       | Some _ \<Rightarrow> byID_upd i closeDone (finished io i c e t r))
     = (finished io i c e t r)\<lparr>rr_runs :=
         map (\<lambda>run. if ru_ID run = i then closeDone run else run) (rr_runs (finished io i c e t r))\<rparr>"
    using fin by (auto simp: byID_upd_map split: option.splits)
  note closed = this
  have "Runner_finish io i c e t r = dispatchLocked (io_later io) (io_save2 io) (io_unremovable io)
      (case byID_get (finished io i c e t r) i of None \<Rightarrow> finished io i c e t r
       | Some _ \<Rightarrow> byID_upd i closeDone (finished io i c e t r))"
    unfolding Runner_finish_def get finished_def using ids assms(2) by (simp add: byID_upd_map Let_def)
  then show ?thesis unfolding closed .
qed

lemma inv_finish:
  assumes "base_ok r" "done_ok {} r" "rp_threads r = []" "rr_activeID r = i" "i \<noteq> ''''"
  shows "runner_inv (Runner_finish io i c e t r)"
proof -
  let ?s = "finished io i c e t r"
  let ?f = "\<lambda>run. if ru_ID run = i then closeDone run else run"
  let ?r = "?s\<lparr>rr_runs := map ?f (rr_runs ?s)\<rparr>"
  note f = finished_ok [OF assms, where io = io and c = c and e = e and t = t]
  have "base_ok ?r" using f(1) by (intro base_map_status) auto
  moreover have "hist_ok ?r"
    using f(2) filter_map_length [of terminal_run ?f "rr_runs ?s"] by (simp add: hist_ok_def)
  moreover have "thread_ok ?r" using f(3) by (auto simp: thread_ok_def)
  moreover have "done_ok {} ?r" using f(4,5) by (auto simp: done_ok_def)
  ultimately show ?thesis
    unfolding finish_eq [OF assms(1,4,5)] by (rule dispatch_inv)
qed

lemma inv_thread:
  assumes "runner_inv r" "n < length (rp_threads r)"
  obtains th where "rp_threads r = [th]" "n = 0" "th_run th = rr_activeID r" "rr_activeID r \<noteq> ''''"
    "th_ctx th < length (rp_ctxs r)"
proof -
  have t: "map th_run (rp_threads r) = (if rr_activeID r = '''' then [] else [rr_activeID r])"
    using assms(1) by (simp add: runner_inv_def thread_ok_def)
  then have a: "rr_activeID r \<noteq> ''''" using assms(2) by (auto split: if_splits)
  with t obtain th where "rp_threads r = [th]" "th_run th = rr_activeID r" by auto
  with a assms that show thesis by (auto simp: runner_inv_def thread_ok_def)
qed

lemma inv_execute_end:
  assumes "runner_inv r" "n < length (rp_threads r)"
  shows "runner_inv (execute_end io n r)"
proof -
  obtain th where th: "rp_threads r = [th]" "n = 0" "th_run th = rr_activeID r" "rr_activeID r \<noteq> ''''"
    using inv_thread [OF assms] .
  note p = inv_parts [OF assms(1)]
  have "runner_inv (Runner_finish io (rr_activeID r) c e t (r\<lparr>rp_threads := []\<rparr>))" for c e t
    using p(1,9) th(4) by (intro inv_finish) auto
  with th assms(1) show ?thesis by (auto simp: execute_end_def split: thread_state.splits)
qed

lemma inv_execute:
  assumes "runner_inv r" "n < length (rp_threads r)"
  shows "runner_inv (execute env fmt n r)"
proof -
  obtain th where th: "rp_threads r = [th]" "n = 0" "th_run th = rr_activeID r" "rr_activeID r \<noteq> ''''"
    using inv_thread [OF assms] .
  note p = inv_parts [OF assms(1)]
  obtain run where run: "byID_get r (rr_activeID r) = Some run"
    using p(2,4) th(4) by (fastforce simp: active_ok_def byID_get_Some)
  let ?x = "execute_run env fmt (thread_ctx r th) (rr_logDir r) run (rp_disk r)"
  have d: "disk_ok (rr_statePath r) (snd ?x)"
    using p(10) unfolding execute_run_def writeTaskScript_def
    by (auto simp: Let_def split: option.splits script_io.splits intro!: disk_ok_update disk_ok_delete)
  obtain c e t where x: "?x = ((c, e, t), snd ?x)" by (metis prod.collapse)
  have "execute env fmt n r = (r\<lparr>rp_threads := [th\<lparr>th_state := Ending c e t\<rparr>]\<rparr>)\<lparr>rp_disk := snd ?x\<rparr>"
    unfolding execute_def Let_def using th run by (simp, subst x, simp)
  moreover have "runner_inv (r\<lparr>rp_threads := [th\<lparr>th_state := Ending c e t\<rparr>]\<rparr>)"
    using assms(1) th by (auto simp: runner_inv_def thread_ok_def)
  ultimately show ?thesis using d by (simp add: inv_disk)
qed

lemma cancel_ctx_inv: "runner_inv r \<Longrightarrow> runner_inv (cancel_ctx k r)"
  by (auto simp: cancel_ctx_def runner_inv_def base_ok_def ids_ok_def active_ok_def hist_ok_def queue_ok_def
      thread_ok_def done_ok_def split: option.splits)

lemma expire_ctx_inv: "runner_inv r \<Longrightarrow> runner_inv (expire_ctx k r)"
  by (auto simp: expire_ctx_def runner_inv_def base_ok_def ids_ok_def active_ok_def hist_ok_def queue_ok_def
      thread_ok_def done_ok_def)

definition cancel_waiting :: "time \<Rightarrow> Run \<Rightarrow> Run" where
  "cancel_waiting now run = closeDone (run\<lparr>ru_Status := StatusCanceled, ru_CanceledAt := now,
     ru_FinishedAt := now, ru_Error := ''canceled before start''\<rparr>)"

definition cancel_active :: "time \<Rightarrow> Run \<Rightarrow> Run" where
  "cancel_active now run = (if ru_CanceledAt run = 0 then run\<lparr>ru_CanceledAt := now\<rparr> else run)"

lemma cancel_fields [simp]:
  "ru_ID (cancel_waiting now run) = ru_ID run" "terminal_run (cancel_waiting now run)" "ru_done (cancel_waiting now run)"
  "\<not> running_run (cancel_waiting now run)" "\<not> queued_run (cancel_waiting now run)"
  "ru_ID (cancel_active now run) = ru_ID run" "ru_Status (cancel_active now run) = ru_Status run"
  "running_run (cancel_active now run) = running_run run" "queued_run (cancel_active now run) = queued_run run"
  "terminal_run (cancel_active now run) = terminal_run run" "ru_done (cancel_active now run) = ru_done run"
  "ru_cancel (cancel_active now run) = ru_cancel run"
  by (auto simp: cancel_waiting_def cancel_active_def terminal_run_def running_run_def queued_run_def
      isTerminal_def status_defs closeDone_def)

lemma Cancel_eq:
  assumes "byID_get r i = Some run"
  shows "Runner_Cancel io i r =
    (if queued_run run
     then (True, saveLocked (io_save io) (io_unremovable io) (byID_upd i (cancel_waiting (io_now io)) r))
     else if running_run run
     then (True, cancel_ctx (ru_cancel run)
             (saveLocked (io_save io) (io_unremovable io) (byID_upd i (cancel_active (io_now io)) r)))
     else (False, r))"
  using assms by (simp add: Runner_Cancel_def Let_def cancel_waiting_def [abs_def] cancel_active_def [abs_def])

lemma byID_get_unique:
  assumes "ids_ok r" "byID_get r i = Some run"
  shows "run \<in> set (rr_runs r)" "ru_ID run = i" "\<And>x. x \<in> set (rr_runs r) \<Longrightarrow> ru_ID x = i \<Longrightarrow> x = run"
  using assms by (auto simp: byID_get_Some) (auto simp: ids_ok_def distinct_map inj_on_def)

lemma cancel_waiting_ok:
  assumes "runner_inv r" "byID_get r i = Some run" "queued_run run"
  shows "base_ok (byID_upd i (cancel_waiting now) r)" "queue_ok (byID_upd i (cancel_waiting now) r)"
    "thread_ok (byID_upd i (cancel_waiting now) r)" "done_ok {} (byID_upd i (cancel_waiting now) r)"
proof -
  note p = inv_parts [OF assms(1)]
  note run = byID_get_unique [OF p(2) assms(2)]
  let ?f = "\<lambda>run. if ru_ID run = i then cancel_waiting now run else run"
  have upd: "byID_upd i (cancel_waiting now) r = r\<lparr>rr_runs := map ?f (rr_runs r), rr_activeID := rr_activeID r\<rparr>"
    using p(2) by (simp add: byID_upd_map)
  have act: "\<exists>x \<in> set (rr_runs r). running_run x \<and> ?f x = x" if a: "rr_activeID r \<noteq> ''''"
  proof -
    obtain x where x: "x \<in> set (rr_runs r)" "running_run x" using p(4) a by (auto simp: active_ok_def)
    then have "ru_ID x \<noteq> i" using run(3) assms(3) run_kinds(3) by blast
    with x show ?thesis by auto
  qed
  have idle: "\<not> running_run x" if "x \<in> set (rr_runs r)" "rr_activeID r = ''''" for x
    using p(2,4) that by (force simp: active_ok_def ids_ok_def)
  show "base_ok (byID_upd i (cancel_waiting now) r)"
    unfolding upd using p(1) act idle by (intro base_map_terminal) auto
  show "queue_ok (byID_upd i (cancel_waiting now) r)" "thread_ok (byID_upd i (cancel_waiting now) r)"
    "done_ok {} (byID_upd i (cancel_waiting now) r)"
    unfolding upd using p(7,8,9) by (auto simp: queue_ok_def thread_ok_def done_ok_def)
qed

lemma cancel_active_ok:
  assumes "runner_inv r"
  shows "base_ok (byID_upd i (cancel_active now) r)" "queue_ok (byID_upd i (cancel_active now) r)"
    "thread_ok (byID_upd i (cancel_active now) r)" "done_ok {} (byID_upd i (cancel_active now) r)"
proof -
  note p = inv_parts [OF assms]
  have upd: "byID_upd i (cancel_active now) r =
      r\<lparr>rr_runs := map (\<lambda>run. if ru_ID run = i then cancel_active now run else run) (rr_runs r)\<rparr>"
    using p(2) by (simp add: byID_upd_map)
  show "base_ok (byID_upd i (cancel_active now) r)" unfolding upd using p(1) by (intro base_map_status) auto
  show "queue_ok (byID_upd i (cancel_active now) r)" "thread_ok (byID_upd i (cancel_active now) r)"
    "done_ok {} (byID_upd i (cancel_active now) r)"
    unfolding upd using p(7,8,9) by (auto simp: queue_ok_def thread_ok_def done_ok_def)
qed

lemma inv_Cancel:
  assumes "runner_inv r"
  shows "runner_inv (snd (Runner_Cancel io i r))"
proof (cases "byID_get r i")
  case None
  then show ?thesis using assms by (simp add: Runner_Cancel_def)
next
  case (Some run)
  then show ?thesis
    using assms save_inv [OF cancel_waiting_ok [OF assms Some]] save_inv [OF cancel_active_ok [OF assms]]
    by (simp add: Cancel_eq cancel_ctx_inv)
qed

section \<open>Starting up\<close>

lemma restored_run_fields:
  "ru_ID (restored_run now run) = ru_ID run" "\<not> running_run (restored_run now run)"
  "ru_done (restored_run now run) = terminal_run (restored_run now run)"
  "queued_run (restored_run now run) = queued_run run"
  by (auto simp: restored_run_def Let_def running_run_def terminal_run_def queued_run_def isTerminal_def status_defs
      closeDone_def)

lemma restore_loop_eq:
  "restore_loop now entries r =
    (let runs = filter (\<lambda>run. ru_ID run \<noteq> '''') (map the (filter (\<lambda>e. e \<noteq> None) entries))
     in r\<lparr>rr_runs := rr_runs r @ map (restored_run now) runs,
          rr_byID := fold List.insert (map ru_ID runs) (rr_byID r)\<rparr>)"
  by (induction entries arbitrary: r) (auto simp: Let_def restored_run_fields split: option.splits)

lemma restored_ids: "map ru_ID (map (restored_run now) runs) = map ru_ID runs"
  by (simp add: restored_run_fields)

lemma set_fold_insert: "set (fold List.insert xs ys) = set xs \<union> set ys"
  by (induction xs arbitrary: ys) auto

lemma inv_NewRunner:
  assumes "disk_ok (path_join logDir ''runs.json'') disk"
  shows "runner_inv (NewRunner unreadable io logDir maxHistory disk)"
proof -
  let ?r = "\<lparr>rr_logDir = logDir, rr_statePath = path_join logDir ''runs.json'',
               rr_maxHistory = (case maxHistory of None \<Rightarrow> defaultMaxHistory | Some n \<Rightarrow> normalizeMaxHistory n),
               rr_runs = [], rr_byID = [], rr_activeID = '''',
               rp_disk = disk, rp_ctxs = [], rp_threads = []\<rparr>"
  have pos: "0 < (case maxHistory of None \<Rightarrow> defaultMaxHistory | Some n \<Rightarrow> normalizeMaxHistory n)"
    by (simp add: defaultMaxHistory_def split: option.splits)
  have empty: "base_ok ?r" "hist_ok ?r" "thread_ok ?r" "done_ok {} ?r"
    using assms pos
    by (auto simp: base_ok_def ids_ok_def active_ok_def fifo_def hist_ok_def thread_ok_def done_ok_def less_imp_le)
  show ?thesis
  proof (cases "\<exists>entries. \<not> unreadable \<and> map_of disk (path_join logDir ''runs.json'') = Some (RunsJSON entries)")
    case False
    then have "snd (loadState unreadable io ?r) = ?r"
      by (auto simp: loadState_def split: option.splits file_data.splits)
    with empty dispatch_inv show ?thesis by (simp add: NewRunner_def)
  next
    case True
    then obtain entries where e: "\<not> unreadable" "map_of disk (path_join logDir ''runs.json'') = Some (RunsJSON entries)"
      by blast
    let ?s = "restore_loop (io_now io) entries ?r"
    define runs where "runs = filter (\<lambda>run. ru_ID run \<noteq> '''') (map the (filter (\<lambda>e. e \<noteq> None) entries))"
    have s: "?s = ?r\<lparr>rr_runs := map (restored_run (io_now io)) runs, rr_byID := fold List.insert (map ru_ID runs) []\<rparr>"
      by (simp add: restore_loop_eq Let_def runs_def del: filter_map)
    have "entry_ids entries = map ru_ID runs"
      unfolding entry_ids_def runs_def by (simp add: filter_map comp_def)
    then have "distinct (map ru_ID runs)" using assms e(2) by (simp add: disk_ok_def)
    then have ids: "distinct (map ru_ID (map (restored_run (io_now io)) runs))"
      unfolding restored_ids .
    have "'''' \<notin> ru_ID ` set runs" by (auto simp: runs_def)
    then have "ids_ok ?s"
      unfolding s ids_ok_def using ids by (simp add: set_fold_insert restored_run_fields image_image)
    then have "base_ok ?s"
      unfolding base_ok_def active_ok_def fifo_def
      using pos assms by (auto simp: s restored_run_fields sorted_wrt_iff_nth_less)
    moreover have "thread_ok ?s" "done_ok {} ?s"
      unfolding s thread_ok_def done_ok_def using restored_run_fields by auto
    ultimately have "runner_inv (dispatchLocked (io_later io) (io_save2 io) (io_unremovable io)
        (saveLocked (io_save io) (io_unremovable io) ?s))"
      using save_effect(2,3) save_keeps by (intro dispatch_inv) blast+
    then show ?thesis using e by (simp add: NewRunner_def loadState_def)
  qed
qed

lemma runner_act_inv: "runner_act parse r r' \<Longrightarrow> runner_inv r \<Longrightarrow> runner_inv r'"
  by (induction rule: runner_act.induct)
    (auto intro: inv_Start inv_Cancel inv_Delete inv_SetMaxHistory expire_ctx_inv inv_execute inv_execute_end)

lemma inv_statePath: "runner_inv r \<Longrightarrow> rr_statePath r = path_join (rr_logDir r) ''runs.json''"
  by (simp add: runner_inv_def base_ok_def)

lemma runner_step_inv:
  assumes "runner_step parse r r'" "runner_inv r"
  shows "runner_inv r'"
  using assms(1)
proof cases
  case step_act
  with assms(2) show ?thesis by (blast intro: runner_act_inv)
next
  case (step_restart unreadable io maxHistory)
  show ?thesis
    unfolding step_restart using inv_parts(10) [OF assms(2)] inv_statePath [OF assms(2)] by (intro inv_NewRunner) simp
qed

end
