(* ===== verification/Runner_Life.thy ===== *)
theory Runner_Life
  imports Runner_Props
begin

text \<open>
  What the invariant of the runner gives: one run at a time in request order, results that do not
  change any more, a queue that drains, cancellation, and recovery after a restart.
\<close>

section \<open>One run at a time\<close>

lemma runner_reachable_inv:
  assumes "(runner_step parse)\<^sup>*\<^sup>* (NewRunner unreadable io logDir maxHistory disk) r"
    "disk_ok (path_join logDir ''runs.json'') disk"
  shows "runner_inv r"
  using assms(1) by (induction rule: rtranclp_induct) (auto intro: runner_step_inv inv_NewRunner assms(2))

lemma inv_running_count:
  assumes "runner_inv r"
  shows "length (filter running_run (rr_runs r)) = (if rr_activeID r = '''' then 0 else 1)"
proof -
  note p = inv_parts [OF assms]
  have ids: "ru_ID run = rr_activeID r" "ru_ID run \<noteq> ''''" if "run \<in> set (filter running_run (rr_runs r))" for run
    using p(2,4) that by (force simp: active_ok_def ids_ok_def)+
  show ?thesis
  proof (cases "rr_activeID r = ''''")
    case True
    then have "filter running_run (rr_runs r) = []" using ids by (metis list.set_intros(1) neq_Nil_conv)
    with True show ?thesis by simp
  next
    case False
    then obtain run where run: "run \<in> set (filter running_run (rr_runs r))" using p(4) by (auto simp: active_ok_def)
    have "distinct (map ru_ID (filter running_run (rr_runs r)))" using p(2) by (simp add: ids_ok_def distinct_map_filter_sub)
    moreover have "set (map ru_ID (filter running_run (rr_runs r))) = {rr_activeID r}"
      using ids run by force
    ultimately have "length (map ru_ID (filter running_run (rr_runs r))) = card {rr_activeID r}"
      using distinct_card by metis
    with False show ?thesis by simp
  qed
qed

text \<open>C33. In every state the standalone runner can reach, through requests, cancellations, deletions,
  timeouts, failures of the disk and crashes, identifiers are unique, at most one run is running, it is
  the active one and has exactly one goroutine, no run waits while the runner is idle, and the number of
  finished runs does not exceed the bound; a run that waits was never requested before the one that is
  running; and the waiters of a run are released exactly when it has ended.\<close>

theorem runner_serializes:
  assumes "(runner_step parse)\<^sup>*\<^sup>* (NewRunner unreadable io logDir maxHistory disk) r"
    "disk_ok (path_join logDir ''runs.json'') disk"
  shows "distinct (map ru_ID (rr_runs r))
    \<and> length (filter running_run (rr_runs r)) = (if rr_activeID r = '''' then 0 else 1)
    \<and> map th_run (rp_threads r) = (if rr_activeID r = '''' then [] else [rr_activeID r])
    \<and> (rr_activeID r = '''' \<longrightarrow> filter queued_run (rr_runs r) = [])
    \<and> int (length (filter terminal_run (rr_runs r))) \<le> rr_maxHistory r
    \<and> (\<forall>before run after. rr_runs r = before @ run # after \<and> running_run run \<longrightarrow> filter queued_run before = [])
    \<and> list_all (\<lambda>run. ru_done run = terminal_run run) (rr_runs r)"
proof -
  have inv: "runner_inv r" using runner_reachable_inv [OF assms] .
  note p = inv_parts [OF inv]
  have "filter queued_run before = []" if "rr_runs r = before @ run # after" "running_run run" for before run after
    using p(5) that by (auto simp: fifo_def sorted_wrt_append filter_empty_conv)
  with p inv_running_count [OF inv] show ?thesis
    by (auto simp: ids_ok_def thread_ok_def queue_ok_def hist_ok_def done_ok_def filter_empty_conv list_all_iff)
qed

section \<open>Ended runs do not change\<close>

text \<open>Every run of the later state is a run of the earlier one, or replaces one that had not ended,
  or its identifier is new.  A replacement of a running run keeps the mark of a cancellation.\<close>

definition cancel_kept :: "Run \<Rightarrow> Run \<Rightarrow> bool" where
  "cancel_kept z y \<longleftrightarrow> (running_run z \<and> ru_CanceledAt z \<noteq> 0 \<longrightarrow>
     ru_CanceledAt y \<noteq> 0 \<and> (running_run y \<or> ru_Status y = StatusCanceled))"

lemma cancel_kept_trans: "\<not> terminal_run z \<Longrightarrow> cancel_kept x z \<Longrightarrow> cancel_kept z y \<Longrightarrow> cancel_kept x y"
  by (auto simp: cancel_kept_def terminal_run_def isTerminal_def)

definition run_derived :: "runner_proc \<Rightarrow> Run \<Rightarrow> bool" where
  "run_derived r y \<longleftrightarrow> y \<in> set (rr_runs r)
     \<or> (\<exists>z \<in> set (rr_runs r). ru_ID z = ru_ID y \<and> \<not> terminal_run z \<and> cancel_kept z y)"

definition run_evolves :: "runner_proc \<Rightarrow> runner_proc \<Rightarrow> bool" where
  "run_evolves r r' \<longleftrightarrow> (\<forall>y \<in> set (rr_runs r'). run_derived r y)"

lemma run_evolves_refl [simp]: "run_evolves r r"
  by (simp add: run_evolves_def run_derived_def)

lemma run_derived_trans: "run_evolves r s \<Longrightarrow> run_derived s y \<Longrightarrow> run_derived r y"
proof -
  assume ev: "run_evolves r s" and d: "run_derived s y"
  show "run_derived r y"
  proof (cases "y \<in> set (rr_runs s)")
    case True
    with ev show ?thesis by (simp add: run_evolves_def)
  next
    case False
    then obtain z where z: "z \<in> set (rr_runs s)" "ru_ID z = ru_ID y" "\<not> terminal_run z" "cancel_kept z y"
      using d by (auto simp: run_derived_def)
    with ev have "run_derived r z" by (simp add: run_evolves_def)
    with z cancel_kept_trans [OF z(3) _ z(4)] show ?thesis unfolding run_derived_def by metis
  qed
qed

lemma run_evolves_trans: "run_evolves r s \<Longrightarrow> run_evolves s t \<Longrightarrow> run_evolves r t"
  using run_derived_trans by (fastforce simp: run_evolves_def)

lemma save_subset: "set (rr_runs (saveLocked w u s)) \<subseteq> set (rr_runs s)"
  using prune_loop_sets(1)
  by (fastforce simp: saveLocked_def pruneHistoryLocked_def Let_def case_prod_beta split: if_splits)

lemma run_evolves_save: "base_ok r \<Longrightarrow> run_evolves r (saveLocked w u r)"
  using save_effect(4) by (fastforce simp: run_evolves_def run_derived_def)

lemma run_evolves_subset: "set (rr_runs r') \<subseteq> set (rr_runs r) \<Longrightarrow> run_evolves r r'"
  by (auto simp: run_evolves_def run_derived_def)


lemma run_evolves_dispatch:
  assumes "base_ok r"
  shows "run_evolves r (dispatchLocked now w u r)"
  using dispatch_cases [OF assms, of now w u]
proof (elim disjE exE conjE)
  assume "dispatchLocked now w u r = r" "queue_ok r"
  then show ?thesis by simp
next
  fix x ys zs cx
  let ?r = "r\<lparr>rp_ctxs := rp_ctxs r @ [cx], rr_runs := ys @ started now (length (rp_ctxs r)) x # zs, rr_activeID := ru_ID x\<rparr>"
  assume x: "rr_runs r = ys @ x # zs" "queued_run x"
    and "let r1 = ?r in base_ok r1 \<and> dispatchLocked now w u r = (saveLocked w u r1)\<lparr>rp_threads := rp_threads r @
           [\<lparr>th_ctx = length (rp_ctxs r), th_run = ru_ID x, th_state = Launched\<rparr>]\<rparr>"
  then have "set (rr_runs (dispatchLocked now w u r)) \<subseteq> set (rr_runs ?r)"
    using save_effect(4) [of ?r w u] by (simp add: Let_def)
  moreover have "run_evolves r ?r" using x run_kinds(1,3) by (auto simp: run_evolves_def run_derived_def cancel_kept_def)
  ultimately show ?thesis using run_evolves_subset run_evolves_trans by blast
qed

lemma run_evolves_same_runs: "rr_runs r' = rr_runs r \<Longrightarrow> run_evolves r r'"
  by (simp add: run_evolves_subset)

lemma run_evolves_Start:
  assumes "runner_inv r" "i \<notin> ru_ID ` set (rr_runs r)" "i \<noteq> ''''"
    "y \<in> set (rr_runs (snd (Runner_Start parse io i task inputs r)))"
  shows "run_derived r y \<or> ru_ID y = i"
proof (cases "if tc_Timeout task \<noteq> '''' then parse (tc_Timeout task) else Some 0")
  case None
  then show ?thesis using assms(4) by (simp add: Runner_Start_def run_derived_def)
next
  case (Some timeout)
  let ?run = "new_run (io_now io) (rr_logDir r) i task inputs timeout"
  let ?r = "r\<lparr>rr_runs := rr_runs r @ [?run], rr_byID := List.insert i (rr_byID r)\<rparr>"
  have run: "ru_ID ?run = i" "\<not> running_run ?run"
    by (auto simp: new_run_def running_run_def status_defs)
  have base: "base_ok ?r"
    using inv_parts(1) [OF assms(1)] run assms(2,3)
    by (auto simp: base_ok_def ids_ok_def active_ok_def fifo_def sorted_wrt_append)
  have "run_evolves ?r (snd (Runner_Start parse io i task inputs r))"
    using Some run_evolves_trans [OF run_evolves_save [OF base] run_evolves_dispatch [OF save_effect(2) [OF base]]]
    by (simp add: Runner_Start_def Let_def)
  then have "run_derived ?r y" using assms(4) by (simp add: run_evolves_def)
  then show ?thesis using run by (auto simp: run_derived_def)
qed

lemma finish_run_cancel: "cancel_kept z (closeDone (finish_run now c e t z))"
  by (auto simp: cancel_kept_def finish_run_def closeDone_def Let_def)

lemma run_evolves_finish:
  assumes "base_ok r" "done_ok {} r" "rp_threads r = []" "rr_activeID r = i" "i \<noteq> ''''"
  shows "run_evolves r (Runner_finish io i c e t r)"
proof -
  let ?f = "\<lambda>run. if ru_ID run = i then finish_run (io_now io) c e t run else run"
  let ?r = "r\<lparr>rr_runs := map ?f (rr_runs r), rr_activeID := ''''\<rparr>"
  let ?s = "finished io i c e t r"
  let ?g = "\<lambda>run. if ru_ID run = i then closeDone run else run"
  let ?t = "?s\<lparr>rr_runs := map ?g (rr_runs ?s)\<rparr>"
  note ok = finished_ok [OF assms, where io = io and c = c and e = e and t = t]
  have base: "base_ok ?r" using assms by (intro base_map_terminal) (auto simp: base_ok_def active_ok_def)
  obtain z where z: "z \<in> set (rr_runs r)" "ru_ID z = i" "\<not> terminal_run z"
    using assms run_kinds(2) by (fastforce simp: base_ok_def active_ok_def)
  have sub: "set (rr_runs ?s) \<subseteq> set (map ?f (rr_runs r))"
    using save_effect(4) [OF base] by (simp add: finished_def)
  have "run_derived r (?g y)" if "y \<in> set (rr_runs ?s)" for y
  proof (cases "ru_ID y = i")
    case True
    from sub that have "y \<in> ?f ` set (rr_runs r)" by auto
    then obtain x where "y = ?f x" "x \<in> set (rr_runs r)" by (elim imageE)
    moreover from this True have "ru_ID x = i" by (cases "ru_ID x = i") simp_all
    ultimately have "y = finish_run (io_now io) c e t z"
      using z(1,2) assms(1) by (auto simp: base_ok_def ids_ok_def distinct_map inj_on_def)
    with z True finish_run_cancel show ?thesis by (auto simp: run_derived_def)
  next
    case False
    from sub that have "y \<in> ?f ` set (rr_runs r)" by auto
    then obtain x where "y = ?f x" "x \<in> set (rr_runs r)" by (elim imageE)
    with False show ?thesis by (cases "ru_ID x = i") (auto simp: run_derived_def)
  qed
  moreover have runs_t: "set (rr_runs ?t) = ?g ` set (rr_runs ?s)" by simp
  ultimately have "run_evolves r ?t" unfolding run_evolves_def runs_t by blast
  moreover have "base_ok ?t" using ok(1) by (intro base_map_status) auto
  ultimately show ?thesis
    unfolding finish_eq [OF assms(1,4,5)] using run_evolves_dispatch run_evolves_trans by blast
qed

lemma run_evolves_upd:
  assumes "ids_ok r" "byID_get r i = Some run" "\<not> terminal_run run" "ru_ID (f run) = i" "cancel_kept run (f run)"
  shows "run_evolves r (byID_upd i f r)"
  unfolding run_evolves_def
proof
  note run = byID_get_unique [OF assms(1,2)]
  fix y
  assume "y \<in> set (rr_runs (byID_upd i f r))"
  then have "y \<in> (\<lambda>x. if ru_ID x = i then f x else x) ` set (rr_runs r)"
    using assms(1) by (simp add: byID_upd_map)
  then obtain x where "y = (if ru_ID x = i then f x else x)" "x \<in> set (rr_runs r)" by (elim imageE)
  then have "y = f run \<or> y \<in> set (rr_runs r)" using run(3) by (cases "ru_ID x = i") auto
  moreover have "run_derived r (f run)"
    unfolding run_derived_def using run(1,2) assms(3-5) by (intro disjI2 bexI [of _ run]) simp_all
  ultimately show "run_derived r y" by (auto simp: run_derived_def)
qed

lemma cancel_kept_intros:
  "queued_run run \<Longrightarrow> cancel_kept run run'" "cancel_kept run (cancel_active now run)"
  using run_kinds(3) by (auto simp: cancel_kept_def cancel_active_def)

lemma run_evolves_Cancel:
  assumes "runner_inv r"
  shows "run_evolves r (snd (Runner_Cancel io i r))"
proof (cases "byID_get r i")
  case None
  then show ?thesis by (simp add: Runner_Cancel_def)
next
  case (Some run)
  note p = inv_parts [OF assms]
  note run = byID_get_unique [OF p(2) Some]
  have ctx: "run_evolves r (cancel_ctx k s) = run_evolves r s" for k s
    by (auto simp: cancel_ctx_def run_evolves_def split: option.splits)
  have save: "run_evolves r s \<Longrightarrow> run_evolves r (saveLocked w u s)" for w u s
    using run_evolves_trans run_evolves_subset [OF save_subset] by blast
  have "run_evolves r (byID_upd i (cancel_waiting (io_now io)) r)" if "queued_run run"
    using that run(2) run_kinds(1) cancel_kept_intros(1) by (intro run_evolves_upd [OF p(2) Some]) auto
  moreover have "run_evolves r (byID_upd i (cancel_active (io_now io)) r)" if "running_run run"
    using that run(2) run_kinds(2) cancel_kept_intros(2) by (intro run_evolves_upd [OF p(2) Some]) auto
  ultimately show ?thesis by (simp add: Cancel_eq [OF Some] ctx save)
qed

lemma execute_end_eq:
  assumes "runner_inv r" "n < length (rp_threads r)" "th_state (rp_threads r ! n) \<noteq> Launched"
  obtains c e t where "execute_end io n r = Runner_finish io (rr_activeID r) c e t (r\<lparr>rp_threads := []\<rparr>)"
    "th_state (rp_threads r ! n) = Ending c e t" "rr_activeID r \<noteq> ''''"
proof -
  obtain th where "rp_threads r = [th]" "n = 0" "th_run th = rr_activeID r" "rr_activeID r \<noteq> ''''"
    using inv_thread [OF assms(1,2)] .
  with assms(3) that show thesis by (cases "th_state th") (auto simp: execute_end_def)
qed

lemma execute_same_runs:
  "rr_runs (execute env fmt n r) = rr_runs r" "rr_activeID (execute env fmt n r) = rr_activeID r"
  by (auto simp: execute_def Let_def case_prod_beta split: option.splits)

lemma run_evolves_act:
  assumes "runner_act parse r r'" "runner_inv r" "y \<in> set (rr_runs r')"
  shows "run_derived r y \<or> ru_ID y \<notin> ru_ID ` set (rr_runs r)"
  using assms
proof (induction rule: runner_act.induct)
  case (step_start i r io task inputs)
  then show ?case using run_evolves_Start [of r i y parse io task inputs] by auto
next
  case (step_cancel r io i)
  then show ?case using run_evolves_Cancel [of r io i] by (simp add: run_evolves_def)
next
  case (step_delete r io i)
  have "set (rr_runs (snd (Runner_Delete io i r))) \<subseteq> set (rr_runs r)"
  proof -
    have "set (rr_runs (saveLocked w u (r\<lparr>rr_runs := del_first (has_id i) (rr_runs r), rr_byID := b\<rparr>))) \<subseteq> set (rr_runs r)"
      for w u b using save_subset [of w u "r\<lparr>rr_runs := del_first (has_id i) (rr_runs r), rr_byID := b\<rparr>"]
        set_del_first [of "has_id i" "rr_runs r"] by simp
    then show ?thesis by (auto simp: Runner_Delete_def Let_def split: option.splits)
  qed
  with step_delete show ?case by (auto simp: run_derived_def)
next
  case (step_history r io n)
  have "base_ok (r\<lparr>rr_maxHistory := normalizeMaxHistory n\<rparr>)"
    using inv_parts(1) [OF step_history(1)] by (auto simp: base_ok_def ids_ok_def active_ok_def)
  from save_effect(4) [OF this] step_history show ?case
    by (fastforce simp: Runner_SetMaxHistory_def Let_def run_derived_def split: if_splits)
next
  case (step_expire r k)
  then show ?case by (auto simp: expire_ctx_def run_derived_def split: if_splits)
next
  case (step_execute n r env fmt)
  then show ?case by (simp add: execute_same_runs run_derived_def)
next
  case (step_finish n r io)
  then obtain c e t where eq: "execute_end io n r = Runner_finish io (rr_activeID r) c e t (r\<lparr>rp_threads := []\<rparr>)"
      "rr_activeID r \<noteq> ''''" using execute_end_eq by metis
  have "run_evolves (r\<lparr>rp_threads := []\<rparr>) (execute_end io n r)"
    unfolding eq(1) using inv_parts(1,9) [OF step_finish(3)] eq(2) by (intro run_evolves_finish) auto
  with step_finish show ?case by (auto simp: run_evolves_def run_derived_def)
qed

text \<open>C34. A run that has ended never changes: no later operation of the process, a late cancellation
  or the end of another run included, alters its status, exit code, times or error as long as it is
  listed.\<close>

theorem runner_ended_final:
  assumes "runner_act parse r r'" "runner_inv r"
    "run \<in> set (rr_runs r)" "terminal_run run" "run' \<in> set (rr_runs r')" "ru_ID run' = ru_ID run"
  shows "run' = run"
  using run_evolves_act [OF assms(1,2,5)] assms(3,4,6) inv_parts(2) [OF assms(2)]
  by (auto simp: run_derived_def ids_ok_def distinct_map inj_on_def)

section \<open>The queue drains\<close>

definition pending_run :: "Run \<Rightarrow> bool" where
  "pending_run run \<longleftrightarrow> queued_run run \<or> running_run run"

lemma prune_filter:
  assumes "\<And>run. terminal_run run \<Longrightarrow> \<not> P run"
  shows "filter P (fst (run_prune_loop n runs)) = filter P runs"
  using assms by (induction runs arbitrary: n) (auto simp: prune_loop_Cons simp del: run_prune_loop.simps(2))

lemma save_filter:
  assumes "\<And>run. terminal_run run \<Longrightarrow> \<not> P run"
  shows "filter P (rr_runs (saveLocked w u r)) = filter P (rr_runs r)"
  using prune_filter [of P] assms
  by (simp add: saveLocked_def pruneHistoryLocked_def Let_def case_prod_beta)

lemma pending_not_terminal: "terminal_run run \<Longrightarrow> \<not> pending_run run"
  using run_kinds by (auto simp: pending_run_def)

lemma pending_intros: "queued_run run \<Longrightarrow> pending_run run" "pending_run (started now k run)"
    "running_run run \<Longrightarrow> pending_run run"
  by (simp_all add: pending_run_def)

lemma dispatch_pending:
  assumes "base_ok r"
  shows "length (filter pending_run (rr_runs (dispatchLocked now w u r))) = length (filter pending_run (rr_runs r))"
  using dispatch_cases [OF assms, of now w u]
  by (elim disjE exE conjE)
    (auto simp: Let_def save_filter [OF pending_not_terminal] pending_intros)

lemma finish_pending:
  assumes "base_ok r" "done_ok {} r" "rp_threads r = []" "rr_activeID r = i" "i \<noteq> ''''"
  shows "Suc (length (filter pending_run (rr_runs (Runner_finish io i c e t r)))) = length (filter pending_run (rr_runs r))"
proof -
  let ?f = "\<lambda>run. if ru_ID run = i then finish_run (io_now io) c e t run else run"
  let ?s = "finished io i c e t r"
  let ?g = "\<lambda>run. if ru_ID run = i then closeDone run else run"
  let ?t = "?s\<lparr>rr_runs := map ?g (rr_runs ?s)\<rparr>"
  have base: "base_ok ?t"
    using finished_ok(1) [OF assms] by (intro base_map_status) auto
  obtain x where x: "x \<in> set (rr_runs r)" "running_run x" "ru_ID x = i"
    using assms by (auto simp: base_ok_def active_ok_def)
  obtain ys zs where yz: "rr_runs r = ys @ x # zs" using x(1) by (meson split_list)
  have other: "\<forall>y \<in> set ys \<union> set zs. ru_ID y \<noteq> i"
    using assms(1) x(3) unfolding base_ok_def ids_ok_def yz by (auto simp: image_iff)
  have "length (filter pending_run (rr_runs ?t)) = length (filter pending_run (rr_runs ?s))"
    using filter_map_length [of pending_run ?g "rr_runs ?s"] by (simp add: pending_run_def)
  also have "\<dots> = length (filter pending_run (map ?f (rr_runs r)))"
    unfolding finished_def by (simp add: save_filter [OF pending_not_terminal])
  also have "map ?f (rr_runs r) = ys @ finish_run (io_now io) c e t x # zs"
    unfolding yz using other x(3) by (auto intro!: map_idI)
  finally have "Suc (length (filter pending_run (rr_runs ?t))) = length (filter pending_run (rr_runs r))"
    using x(2) pending_not_terminal [of "finish_run (io_now io) c e t x"] by (simp add: yz pending_intros(3))
  then show ?thesis unfolding finish_eq [OF assms(1,4,5)] dispatch_pending [OF base] .
qed

text \<open>Whatever the scripts do, one after the other: each outcome ends the active run.\<close>

fun drain :: "(time \<Rightarrow> string) \<Rightarrow> (exec_env \<times> runner_io) list \<Rightarrow> runner_proc \<Rightarrow> runner_proc" where
  "drain fmt [] r = r"
| "drain fmt ((env, io) # outcomes) r = drain fmt outcomes (execute_end io 0 (execute env fmt 0 r))"

lemma execute_Ending:
  assumes "runner_inv r" "rr_activeID r \<noteq> ''''"
  shows "0 < length (rp_threads (execute env fmt 0 r))" "th_state (rp_threads (execute env fmt 0 r) ! 0) \<noteq> Launched"
proof -
  note p = inv_parts [OF assms(1)]
  obtain th where th: "rp_threads r = [th]" "th_run th = rr_activeID r"
    using p(8) assms(2) by (auto simp: thread_ok_def)
  obtain run where "byID_get r (rr_activeID r) = Some run"
    using p(2,4) assms(2) by (fastforce simp: active_ok_def byID_get_Some)
  with th show "0 < length (rp_threads (execute env fmt 0 r))" "th_state (rp_threads (execute env fmt 0 r) ! 0) \<noteq> Launched"
    by (simp_all add: execute_def Let_def case_prod_beta)
qed

lemma drain_one:
  assumes "runner_inv r" "rr_activeID r \<noteq> ''''"
  shows "runner_inv (execute_end io 0 (execute env fmt 0 r))"
    and "Suc (length (filter pending_run (rr_runs (execute_end io 0 (execute env fmt 0 r)))))
      = length (filter pending_run (rr_runs r))"
proof -
  let ?r = "execute env fmt 0 r"
  note e = execute_Ending [OF assms, of env fmt]
  have "0 < length (rp_threads r)" using inv_parts(8) [OF assms(1)] assms(2) by (auto simp: thread_ok_def)
  then have inv: "runner_inv ?r" by (rule inv_execute [OF assms(1)])
  then show "runner_inv (execute_end io 0 ?r)" using e(1) by (rule inv_execute_end)
  obtain c x t where eq: "execute_end io 0 ?r = Runner_finish io (rr_activeID ?r) c x t (?r\<lparr>rp_threads := []\<rparr>)"
      "rr_activeID ?r \<noteq> ''''" using execute_end_eq [OF inv e] by metis
  show "Suc (length (filter pending_run (rr_runs (execute_end io 0 ?r)))) = length (filter pending_run (rr_runs r))"
    unfolding eq(1) using inv_parts(1,9) [OF inv] eq(2) execute_same_runs
    by (subst finish_pending) auto
qed

text \<open>C35. The queue drains: from any state, whatever each script does and however it ends, and even if
  every write of the state file fails, after as many outcomes as there were runs waiting or running the
  runner is idle and every one of them has ended.\<close>

theorem runner_drains:
  assumes "runner_inv r" "length outcomes = length (filter pending_run (rr_runs r))"
  shows "rr_activeID (drain fmt outcomes r) = '''' \<and> filter pending_run (rr_runs (drain fmt outcomes r)) = []"
  using assms
proof (induction fmt outcomes r rule: drain.induct)
  case (1 fmt r)
  then have "filter running_run (rr_runs r) = []" by (auto simp: pending_run_def filter_empty_conv)
  with 1 inv_running_count [OF 1(1)] show ?case by (auto split: if_splits)
next
  case (2 fmt env io outcomes r)
  have "rr_activeID r \<noteq> ''''"
  proof
    assume idle: "rr_activeID r = ''''"
    then have "filter running_run (rr_runs r) = []" using inv_running_count [OF 2(2)] by simp
    with idle inv_parts(7) [OF 2(2)] have "filter pending_run (rr_runs r) = []"
      by (auto simp: pending_run_def queue_ok_def filter_empty_conv)
    with 2(3) show False by simp
  qed
  from drain_one [OF 2(2) this, of io env fmt] 2 show ?case by simp
qed

section \<open>Cancelling\<close>

definition marked :: "string \<Rightarrow> runner_proc \<Rightarrow> bool" where
  "marked i r \<longleftrightarrow> (\<forall>run \<in> set (rr_runs r). ru_ID run = i \<longrightarrow>
     ru_CanceledAt run \<noteq> 0 \<and> (running_run run \<or> ru_Status run = StatusCanceled))"

lemma marked_act:
  assumes "runner_act parse r r'" "runner_inv r" "marked i r" "i \<in> ru_ID ` set (rr_runs r)"
  shows "marked i r'"
  unfolding marked_def
proof (intro ballI impI)
  fix run
  assume run: "run \<in> set (rr_runs r')" "ru_ID run = i"
  with run_evolves_act [OF assms(1,2) run(1)] assms(4) have "run_derived r run" by auto
  with assms(3) run(2) show "ru_CanceledAt run \<noteq> 0 \<and> (running_run run \<or> ru_Status run = StatusCanceled)"
    by (auto simp: run_derived_def marked_def cancel_kept_def terminal_run_def isTerminal_def)
qed

lemma marked_Cancel:
  assumes "runner_inv r" "io_now io \<noteq> 0" "fst (Runner_Cancel io i r)"
  shows "marked i (snd (Runner_Cancel io i r))"
proof -
  note p = inv_parts [OF assms(1)]
  obtain run where run: "byID_get r i = Some run" using assms(3) by (cases "byID_get r i") (auto simp: Runner_Cancel_def)
  have mono: "marked i s \<Longrightarrow> marked i (saveLocked w u s)" for w u s
    using save_subset [of w u s] by (auto simp: marked_def)
  have ctx: "marked i (cancel_ctx k s) = marked i s" for k s
    by (auto simp: cancel_ctx_def marked_def split: option.splits)
  have upd: "marked i (byID_upd i f r)"
    if f: "ru_CanceledAt (f run) \<noteq> 0" "running_run (f run) \<or> ru_Status (f run) = StatusCanceled" for f
  proof -
    have "rr_runs (byID_upd i f r) = map (\<lambda>x. if ru_ID x = i then f run else x) (rr_runs r)"
      using p(2) byID_get_unique(3) [OF p(2) run] by (auto simp: byID_upd_map)
    with f show ?thesis by (auto simp: marked_def)
  qed
  have "ru_CanceledAt (cancel_waiting (io_now io) run) \<noteq> 0" "ru_Status (cancel_waiting (io_now io) run) = StatusCanceled"
    "ru_CanceledAt (cancel_active (io_now io) run) \<noteq> 0"
    using assms(2) by (auto simp: cancel_waiting_def cancel_active_def closeDone_def)
  with assms(3) show ?thesis
    by (auto simp: Cancel_eq [OF run] ctx split: if_splits intro!: mono upd)
qed

text \<open>C36. An accepted cancellation decides the result of a run: from then on, whatever else happens and
  whatever the script returns, even success, the run is running or recorded as canceled.\<close>

theorem cancel_decides:
  assumes "runner_inv r" "io_now io \<noteq> 0" "fst (Runner_Cancel io i r)"
    "(\<lambda>a b. runner_act parse a b \<and> i \<in> ru_ID ` set (rr_runs a))\<^sup>*\<^sup>* (snd (Runner_Cancel io i r)) r'"
    "run \<in> set (rr_runs r')" "ru_ID run = i"
  shows "running_run run \<or> ru_Status run = StatusCanceled"
proof -
  have "runner_inv r' \<and> marked i r'"
    using assms(4)
    by (induction rule: rtranclp_induct)
      (auto simp: inv_Cancel assms(1-3) marked_Cancel intro: marked_act runner_act_inv)
  with assms(5,6) show ?thesis by (auto simp: marked_def)
qed

end
