(* ===== verification/Path_Names.thy ===== *)
theory Path_Names
  imports Path_Safe
begin

text \<open>
  The last element of a path survives \<^verbatim>\<open>filepath.Join\<close> and \<^verbatim>\<open>filepath.Clean\<close>: what tells the files
  of one directory apart.
\<close>

lemma split_on_append_plain:
  assumes "d \<notin> set t"
  shows "split_on d (s @ t) = butlast (split_on d s) @ [last (split_on d s) @ t]"
proof (induction s)
  case Nil
  from assms have "split_on d t = [t]" by (induction t) auto
  then show ?case by simp
next
  case (Cons c s)
  then show ?case by (cases "split_on d s") (auto split: list.splits)
qed

lemma split_on_sep_last: "last (split_on d (a @ d # b)) = last (split_on d b)"
proof (induction a)
  case Nil
  show ?case by simp
next
  case (Cons c a)
  have "length (split_on d (a @ d # b)) \<ge> 2"
    by (induction a) (auto split: list.splits simp: Suc_le_eq)
  then show ?case using Cons by (auto split: list.splits)
qed

lemma clean_segs_snoc:
  assumes "seg \<notin> {'''', ''.'', ''..''}"
  shows "clean_segs rooted out (segs @ [seg]) = clean_segs rooted out segs @ [seg]"
  using assms by (induction rooted out segs rule: clean_segs.induct) (auto split: list.splits)

lemma join_with_snoc_last:
  "seg \<noteq> '''' \<Longrightarrow> join_with ''/'' (xs @ [seg]) \<noteq> '''' \<and> last (join_with ''/'' (xs @ [seg])) = last seg"
proof (induction xs)
  case (Cons x xs)
  then show ?case by (cases xs) auto
qed simp

lemma clean_last:
  assumes "last (split_on CHR ''/'' p) = seg" "seg \<notin> {'''', ''.'', ''..''}"
  shows "last (clean p) = last seg"
proof -
  have "split_on CHR ''/'' p = butlast (split_on CHR ''/'' p) @ [seg]"
    using assms(1) by (metis append_butlast_last_id split_on_nonempty)
  then obtain xs where xs: "clean_segs (is_abs p) [] (split_on CHR ''/'' p) = xs @ [seg]"
    using clean_segs_snoc [OF assms(2)] by metis
  with join_with_snoc_last [of seg xs] assms(2) show ?thesis by (simp add: clean_def Let_def)
qed

lemma path_join_last:
  assumes "last (split_on CHR ''/'' b) = seg" "seg \<notin> {'''', ''.'', ''..''}"
  shows "last (path_join a b) = last seg"
proof -
  have "b \<noteq> ''''" using assms by auto
  moreover have "last (split_on CHR ''/'' (a @ ''/'' @ b)) = seg" using assms(1) split_on_sep_last by simp
  ultimately show ?thesis using clean_last assms by (simp add: path_join_def)
qed

text \<open>The last element of a cleaned path, and files of one directory.\<close>

lemma clean_last_segment:
  assumes "last (split_on CHR ''/'' p) = seg" "seg \<notin> {'''', ''.'', ''..''}"
  shows "last (split_on CHR ''/'' (clean p)) = seg"
proof -
  have "split_on CHR ''/'' p = butlast (split_on CHR ''/'' p) @ [seg]"
    using assms(1) by (metis append_butlast_last_id split_on_nonempty)
  then obtain xs where xs: "clean_segs (is_abs p) [] (split_on CHR ''/'' p) = xs @ [seg]"
    using clean_segs_snoc [OF assms(2)] by metis
  have "CHR ''/'' \<notin> set w" if "w \<in> set (xs @ [seg])" for w
    using clean_segs_set [of w "is_abs p" "[]" "split_on CHR ''/'' p"] that split_on_no_sep xs by fastforce
  then have "split_on CHR ''/'' (join_with ''/'' (xs @ [seg])) = xs @ [seg]" by (intro split_join) auto
  moreover have "join_with ''/'' (xs @ [seg]) \<noteq> ''''" using join_with_snoc_last assms(2) by blast
  ultimately show ?thesis by (simp add: clean_def Let_def xs)
qed

lemma path_join_last_segment:
  assumes "last (split_on CHR ''/'' b) = seg" "seg \<notin> {'''', ''.'', ''..''}"
  shows "last (split_on CHR ''/'' (path_join a b)) = seg"
proof -
  have "b \<noteq> ''''" using assms by auto
  moreover have "last (split_on CHR ''/'' (a @ ''/'' @ b)) = seg" using assms(1) split_on_sep_last by simp
  ultimately show ?thesis using clean_last_segment assms by (simp add: path_join_def)
qed

lemma path_base_cases: "path_base i = ''/'' \<or> (path_base i \<noteq> '''' \<and> CHR ''/'' \<notin> set (path_base i))"
  using split_on_no_sep [OF last_in_set [OF split_on_nonempty], of "CHR ''/''" "strip_trailing_slashes i"]
  by (simp add: path_base_def Let_def)

lemma log_name_inj:
  assumes "path_join a (path_base i @ ''.log'') = path_join a (path_base j @ ''.log'')"
  shows "path_base i = path_base j"
proof -
  have seg: "last (split_on CHR ''/'' (path_join a (path_base i @ ''.log'')))
      = (if path_base i = ''/'' then ''.log'' else path_base i @ ''.log'')" for i
    by (rule path_join_last_segment) (use path_base_cases [of i] in \<open>auto simp: split_on_append_plain split_on_id\<close>)
  have "(if path_base i = ''/'' then '''' else path_base i) @ ''.log''
      = (if path_base j = ''/'' then '''' else path_base j) @ ''.log''"
    using arg_cong [OF assms, of "\<lambda>p. last (split_on CHR ''/'' p)"] unfolding seg by (simp split: if_split_asm)
  then have "(if path_base i = ''/'' then '''' else path_base i) = (if path_base j = ''/'' then '''' else path_base j)"
    by (rule append_same_eq [THEN iffD1])
  with path_base_cases [of i] path_base_cases [of j] show ?thesis by (metis)
qed

end
