(* ===== verification/Runner_Recovery.thy ===== *)
theory Runner_Recovery
  imports Runner_Life Path_Names
begin

text \<open>
  The state file of the runner: after every operation whose writes succeed it holds the runs, and a new
  process that finds it takes up the queue and records an interrupted run as aborted.  The last section
  shows what the bound on the history can do to a run that has just ended.
\<close>

section \<open>Names of files\<close>

lemma run_log_file_not_state: "run_log_file dir i \<noteq> path_join dir' ''runs.json''"
proof -
  have "last (split_on CHR ''/'' (path_base i @ ''.log'')) = last (split_on CHR ''/'' (path_base i)) @ ''.log''"
    by (subst split_on_append_plain) auto
  then have "last (run_log_file dir i) = CHR ''g''"
    unfolding run_log_file_def by (subst path_join_last) auto
  moreover have "last (path_join dir' ''runs.json'') = CHR ''n''" by (subst path_join_last) auto
  ultimately show ?thesis by auto
qed

section \<open>The state file\<close>

definition saved :: "runner_proc \<Rightarrow> bool" where
  "saved r \<longleftrightarrow> map_of (rp_disk r) (rr_statePath r) = Some (RunsJSON (map (\<lambda>run. Some (exported run)) (rr_runs r)))"

lemma removePruned_other:
  "(\<And>run. run \<in> set pruned \<Longrightarrow> run_log_file dir (ru_ID run) \<noteq> path) \<Longrightarrow>
    map_of (removePrunedLogs u dir pruned disk) path = map_of disk path"
  unfolding removePrunedLogs_def
  by (induction pruned arbitrary: disk) (auto simp: Let_def delete_conv')

lemma save_saved:
  assumes "base_ok r"
  shows "saved (saveLocked WriteOk u r)"
proof -
  obtain pruned r' where p: "pruneHistoryLocked r = (pruned, r')" by fastforce
  have eff: "r' = r\<lparr>rr_runs := rr_runs r', rr_byID := rr_byID r'\<rparr>"
    using prune_effect(1) [OF p] assms by (simp add: base_ok_def)
  have "rr_statePath r' = rr_statePath r" "rr_logDir r' = rr_logDir r" by (subst eff, simp)+
  then have "rr_statePath r' = path_join (rr_logDir r') ''runs.json''"
    using assms by (simp add: base_ok_def)
  then have "run_log_file (rr_logDir r') i \<noteq> rr_statePath r'" for i
    using run_log_file_not_state by simp
  then show ?thesis
    by (simp add: saveLocked_def p writeFileAtomic_def Let_def saved_def removePruned_other update_conv')
qed

lemma saved_runs:
  "saved r \<Longrightarrow> map exported runs = map exported (rr_runs r) \<Longrightarrow> saved (r\<lparr>rr_runs := runs\<rparr>)"
proof -
  assume s: "saved r" "map exported runs = map exported (rr_runs r)"
  have "map (\<lambda>run. Some (exported run)) xs = map Some (map exported xs)" for xs by simp
  then have "map (\<lambda>run. Some (exported run)) runs = map (\<lambda>run. Some (exported run)) (rr_runs r)"
    using s(2) by metis
  with s(1) show ?thesis by (simp add: saved_def)
qed

lemma saved_irrelevant [simp]:
  "saved (r\<lparr>rp_threads := t\<rparr>) = saved r" "saved (r\<lparr>rp_ctxs := cs\<rparr>) = saved r"
  by (simp_all add: saved_def)

lemma dispatch_saved:
  assumes "base_ok r" "saved r"
  shows "saved (dispatchLocked now WriteOk u r)"
  using dispatch_cases [OF assms(1), of now WriteOk u] assms(2)
  by (auto simp: Let_def save_saved)

lemma finish_saved:
  assumes "base_ok r" "done_ok {} r" "rp_threads r = []" "rr_activeID r = i" "i \<noteq> ''''"
    "io_save io = WriteOk" "io_save2 io = WriteOk"
  shows "saved (Runner_finish io i c e t r)"
proof -
  let ?f = "\<lambda>run. if ru_ID run = i then finish_run (io_now io) c e t run else run"
  let ?s = "finished io i c e t r"
  let ?g = "\<lambda>run. if ru_ID run = i then closeDone run else run"
  have "base_ok (r\<lparr>rr_runs := map ?f (rr_runs r), rr_activeID := ''''\<rparr>)"
    using assms by (intro base_map_terminal) (auto simp: base_ok_def active_ok_def)
  then have "saved ?s" using assms(6) by (simp add: finished_def save_saved)
  then have "saved (?s\<lparr>rr_runs := map ?g (rr_runs ?s)\<rparr>)"
    by (rule saved_runs) (simp add: exported_def closeDone_def)
  moreover have "base_ok (?s\<lparr>rr_runs := map ?g (rr_runs ?s)\<rparr>)"
    using finished_ok(1) [OF assms(1-5)] by (intro base_map_status) auto
  ultimately show ?thesis
    unfolding finish_eq [OF assms(1,4,5)] assms(7) using dispatch_saved by blast
qed

lemma Start_saved:
  assumes "runner_inv r" "i \<noteq> ''''" "i \<notin> ru_ID ` set (rr_runs r)" "io_save io = WriteOk" "io_save2 io = WriteOk"
    "fst (Runner_Start parse io i task inputs r) = Inr run"
  shows "saved (snd (Runner_Start parse io i task inputs r))"
proof -
  obtain timeout where timeout: "(if tc_Timeout task \<noteq> '''' then parse (tc_Timeout task) else Some 0) = Some timeout"
    using assms(6) by (auto simp: Runner_Start_def split: option.splits)
  let ?run = "new_run (io_now io) (rr_logDir r) i task inputs timeout"
  let ?r = "r\<lparr>rr_runs := rr_runs r @ [?run], rr_byID := List.insert i (rr_byID r)\<rparr>"
  have "ru_ID ?run = i" "\<not> running_run ?run" by (auto simp: new_run_def running_run_def status_defs)
  then have base: "base_ok ?r"
    using inv_parts(1) [OF assms(1)] assms(2,3)
    by (auto simp: base_ok_def ids_ok_def active_ok_def fifo_def sorted_wrt_append)
  then have "saved (dispatchLocked (io_later io) WriteOk (io_unremovable io) (saveLocked WriteOk (io_unremovable io) ?r))"
    using save_effect(2) save_saved dispatch_saved by blast
  then show ?thesis using timeout assms(4,5) by (simp add: Runner_Start_def Let_def)
qed

lemma saved_cancel_ctx [simp]: "saved (cancel_ctx k r) = saved r"
  by (simp add: cancel_ctx_def split: option.splits)

lemma Cancel_saved:
  assumes "runner_inv r" "io_save io = WriteOk" "fst (Runner_Cancel io i r)"
  shows "saved (snd (Runner_Cancel io i r))"
proof -
  obtain run where run: "byID_get r i = Some run" using assms(3) by (cases "byID_get r i") (auto simp: Runner_Cancel_def)
  show ?thesis
    using assms save_saved [OF cancel_waiting_ok(1) [OF assms(1) run]] save_saved [OF cancel_active_ok(1) [OF assms(1)]]
    by (auto simp: Cancel_eq [OF run] split: if_splits)
qed

lemma execute_end_saved:
  assumes "runner_inv r" "n < length (rp_threads r)" "th_state (rp_threads r ! n) \<noteq> Launched"
    "io_save io = WriteOk" "io_save2 io = WriteOk"
  shows "saved (execute_end io n r)"
proof -
  obtain c e t where eq: "execute_end io n r = Runner_finish io (rr_activeID r) c e t (r\<lparr>rp_threads := []\<rparr>)"
      "rr_activeID r \<noteq> ''''" using execute_end_eq [OF assms(1-3)] by metis
  show ?thesis
    unfolding eq(1) using inv_parts(1,9) [OF assms(1)] eq(2) assms(4,5) by (intro finish_saved) auto
qed

text \<open>Every answer the runner gives is on disk: when the writes succeed, after a run has been
  accepted, after a cancellation has been accepted and after a run has ended, the state file holds
  exactly the runs of the process.\<close>

theorem runner_persists:
  assumes "runner_inv r" "io_save io = WriteOk" "io_save2 io = WriteOk"
  shows "(i \<noteq> '''' \<and> i \<notin> ru_ID ` set (rr_runs r) \<and> fst (Runner_Start parse io i task inputs r) = Inr run
      \<longrightarrow> saved (snd (Runner_Start parse io i task inputs r)))
    \<and> (fst (Runner_Cancel io j r) \<longrightarrow> saved (snd (Runner_Cancel io j r)))
    \<and> (n < length (rp_threads r) \<and> th_state (rp_threads r ! n) \<noteq> Launched \<longrightarrow> saved (execute_end io n r))"
  using assms Start_saved Cancel_saved execute_end_saved by blast

section \<open>Taking up the state file\<close>

lemma restored_run_status:
  "terminal_run run \<Longrightarrow> ru_Status (restored_run now run) = ru_Status run \<and> ru_ExitCode (restored_run now run) = ru_ExitCode run
     \<and> ru_Error (restored_run now run) = ru_Error run"
  "running_run run \<Longrightarrow> ru_Status (restored_run now run) = StatusAborted"
  "ru_TaskID (restored_run now run) = ru_TaskID run" "ru_Inputs (restored_run now run) = ru_Inputs run"
  by (auto simp: restored_run_def Let_def terminal_run_def running_run_def isTerminal_def status_defs closeDone_def)

text \<open>What a new process makes of a run: it is as it was, aborted if it was running, and the first one
  that waits may have been started.\<close>

definition taken_up :: "Run \<Rightarrow> Run \<Rightarrow> bool" where
  "taken_up run run' \<longleftrightarrow> ru_ID run' = ru_ID run \<and> ru_TaskID run' = ru_TaskID run \<and> ru_Inputs run' = ru_Inputs run
     \<and> (terminal_run run \<longrightarrow> ru_Status run' = ru_Status run \<and> ru_ExitCode run' = ru_ExitCode run \<and> ru_Error run' = ru_Error run)
     \<and> (running_run run \<longrightarrow> ru_Status run' = StatusAborted)
     \<and> (queued_run run \<longrightarrow> queued_run run' \<or> running_run run')"

lemma exported_fields [simp]:
  "ru_ID (exported run) = ru_ID run" "ru_TaskID (exported run) = ru_TaskID run" "ru_Inputs (exported run) = ru_Inputs run"
  "ru_Status (exported run) = ru_Status run" "ru_ExitCode (exported run) = ru_ExitCode run"
  "ru_Error (exported run) = ru_Error run" "terminal_run (exported run) = terminal_run run"
  "running_run (exported run) = running_run run" "queued_run (exported run) = queued_run run"
  by (simp_all add: exported_def terminal_run_def running_run_def queued_run_def)

lemma started_inputs [simp]:
  "ru_TaskID (started now k run) = ru_TaskID run" "ru_Inputs (started now k run) = ru_Inputs run"
  by (simp_all add: started_def)

lemma taken_up_restored:
  "taken_up run (restored_run now (exported run))"
  "queued_run run \<Longrightarrow> taken_up run (started now' k (restored_run now (exported run)))"
proof -
  let ?x = "restored_run now (exported run)"
  have x: "ru_ID ?x = ru_ID run" "ru_TaskID ?x = ru_TaskID run" "ru_Inputs ?x = ru_Inputs run"
    "queued_run ?x = queued_run run"
    using restored_run_fields(1,4) restored_run_status(3,4) by simp_all
  show "taken_up run ?x"
    unfolding taken_up_def using x restored_run_status(1,2) [where now = now and run = "exported run"] by simp
  show "taken_up run (started now' k ?x)" if "queued_run run"
    unfolding taken_up_def using x that run_kinds(1,3) [of run] by auto
qed

lemma exported_entries:
  "\<forall>run \<in> set runs. ru_ID run \<noteq> '''' \<Longrightarrow>
    filter (\<lambda>run. ru_ID run \<noteq> '''') (map the (filter (\<lambda>e. e \<noteq> None) (map (\<lambda>run. Some (exported run)) runs)))
      = map exported runs"
  by (induction runs) simp_all

lemma NewRunner_saved:
  assumes "runner_inv r" "saved r"
  shows "\<exists>s. base_ok s \<and> rr_runs s = map (\<lambda>run. restored_run (io_now io) (exported run)) (rr_runs r)
    \<and> NewRunner False io (rr_logDir r) maxHistory (rp_disk r) =
        dispatchLocked (io_later io) (io_save2 io) (io_unremovable io) (saveLocked (io_save io) (io_unremovable io) s)"
proof -
  let ?r = "\<lparr>rr_logDir = rr_logDir r, rr_statePath = path_join (rr_logDir r) ''runs.json'',
               rr_maxHistory = (case maxHistory of None \<Rightarrow> defaultMaxHistory | Some n \<Rightarrow> normalizeMaxHistory n),
               rr_runs = [], rr_byID = [], rr_activeID = '''',
               rp_disk = rp_disk r, rp_ctxs = [], rp_threads = []\<rparr>"
  let ?entries = "map (\<lambda>run. Some (exported run)) (rr_runs r)"
  let ?s = "restore_loop (io_now io) ?entries ?r"
  note p = inv_parts [OF assms(1)]
  have path: "rr_statePath r = path_join (rr_logDir r) ''runs.json''" using inv_statePath [OF assms(1)] .
  have ids: "distinct (map ru_ID (rr_runs r))" "'''' \<notin> ru_ID ` set (rr_runs r)" using p(2) by (auto simp: ids_ok_def)
  have ids': "\<forall>run \<in> set (rr_runs r). ru_ID run \<noteq> ''''" using ids(2) by force
  have "filter (\<lambda>run. ru_ID run \<noteq> '''') (map the (filter (\<lambda>e. e \<noteq> None) ?entries)) = map exported (rr_runs r)"
    using exported_entries [OF ids'] .
  then have s: "?s = ?r\<lparr>rr_runs := map (\<lambda>run. restored_run (io_now io) (exported run)) (rr_runs r),
      rr_byID := fold List.insert (map ru_ID (rr_runs r)) []\<rparr>"
    by (simp add: restore_loop_eq Let_def comp_def exported_def del: filter_map)
  have pos: "0 < (case maxHistory of None \<Rightarrow> defaultMaxHistory | Some n \<Rightarrow> normalizeMaxHistory n)"
    by (simp add: defaultMaxHistory_def split: option.splits)
  have "ru_ID (restored_run (io_now io) (exported run)) = ru_ID run" for run
    by (simp add: restored_run_fields exported_def)
  then have "ids_ok ?s"
    unfolding s ids_ok_def using ids by (simp add: set_fold_insert image_image comp_def)
  then have "base_ok ?s"
    unfolding base_ok_def active_ok_def fifo_def
    using pos p(10) path by (auto simp: s restored_run_fields sorted_wrt_iff_nth_less)
  moreover have "map_of (rp_disk r) (path_join (rr_logDir r) ''runs.json'') = Some (RunsJSON ?entries)"
    using assms(2) path by (simp add: saved_def)
  then have "NewRunner False io (rr_logDir r) maxHistory (rp_disk r) =
      dispatchLocked (io_later io) (io_save2 io) (io_unremovable io) (saveLocked (io_save io) (io_unremovable io) ?s)"
    by (simp add: NewRunner_def loadState_def)
  ultimately show ?thesis using s by (intro exI [of _ ?s]) simp
qed


end
