(* ===== verification/Runner_Samples.thy ===== *)
theory Runner_Samples
  imports Runner_Recovery
begin

text \<open>
  Concrete runs of the standalone runner, on which the theorems about it are applied, and two states in
  which the bound on the history removes a run that has only just ended.
\<close>

definition sample_run_io :: runner_io where
  "sample_run_io = \<lparr>io_now = 10, io_later = 11, io_save = WriteOk, io_save2 = WriteOk, io_unremovable = (\<lambda>_. False)\<rparr>"

definition sample_run_task :: TaskConfig where
  "sample_run_task = \<lparr>tc_ID = ''build'', tc_Name = ''Build'', tc_Description = '''', tc_Script = ''make'',
     tc_Timeout = '''', tc_ScriptHeader = '''', tc_Inputs = []\<rparr>"

definition sample_exec_env :: exec_env where
  "sample_exec_env = \<lparr>ee_stamp = (\<lambda>_. ''t''), ee_environ = [], ee_create = Some ''no space'', ee_name = ''x.sh'',
     ee_script = ScriptOk, ee_pipe = None, ee_start = None, ee_stdout = ('''', ReadEOF), ee_stderr = ('''', ReadEOF),
     ee_sched = [], ee_wait = None, ee_finished = ''t'', ee_code = 0\<rparr>"

definition sample_r0 :: runner_proc where
  "sample_r0 = NewRunner False sample_run_io ''/logs'' (Some 1) []"

definition sample_r1 :: runner_proc where
  "sample_r1 = snd (Runner_Start (\<lambda>_. None) sample_run_io ''a'' sample_run_task [] sample_r0)"

definition sample_r2 :: runner_proc where
  "sample_r2 = snd (Runner_Start (\<lambda>_. None) sample_run_io ''b'' sample_run_task [] sample_r1)"

definition sample_r3 :: runner_proc where
  "sample_r3 = execute_end sample_run_io 0 (execute sample_exec_env (\<lambda>_. ''t'') 0 sample_r2)"

lemma sample_disk_ok: "disk_ok (path_join ''/logs'' ''runs.json'') []"
  by (simp add: disk_ok_def)

lemma sample_r1_fresh: "''a'' \<notin> ru_ID ` set (rr_runs sample_r0)"
  by code_simp

lemma sample_r2_fresh: "''b'' \<notin> ru_ID ` set (rr_runs sample_r1)"
  by code_simp

lemma sample_reach: "(runner_step (\<lambda>_. None))\<^sup>*\<^sup>* sample_r0 sample_r2"
proof -
  have "runner_step (\<lambda>_. None) sample_r0 sample_r1" "runner_step (\<lambda>_. None) sample_r1 sample_r2"
    unfolding sample_r1_def sample_r2_def
    using sample_r1_fresh sample_r2_fresh by (auto intro!: step_act step_start simp: sample_r1_def)
  then show ?thesis by (meson r_into_rtranclp rtranclp_trans)
qed

lemma sample_r2_inv: "runner_inv sample_r2"
  using runner_reachable_inv [OF _ sample_disk_ok] sample_reach unfolding sample_r0_def by blast

lemma sample_r3_facts:
  "map (\<lambda>run. (ru_ID run, ru_Status run)) (rr_runs sample_r2) = [(''a'', StatusRunning), (''b'', StatusQueued)]"
  "map (\<lambda>run. (ru_ID run, ru_Status run)) (rr_runs sample_r3) = [(''a'', StatusFailed), (''b'', StatusRunning)]"
  by code_simp+

section \<open>The theorems at these states\<close>

theorem runner_serializes_witness:
  "distinct (map ru_ID (rr_runs sample_r2)) \<and> length (filter running_run (rr_runs sample_r2)) = 1"
proof -
  have "rr_activeID sample_r2 \<noteq> ''''" by code_simp
  then show ?thesis
    using runner_serializes [OF sample_reach [unfolded sample_r0_def] sample_disk_ok] by simp
qed

lemma sample_r3_inv: "runner_inv sample_r3"
  unfolding sample_r3_def using sample_r2_inv
  by (intro drain_one(1)) (auto simp: sample_r2_def, code_simp)

theorem runner_ended_final_witness:
  "ru_Status (hd (rr_runs (snd (Runner_Cancel sample_run_io ''b'' sample_r3)))) = StatusFailed"
proof -
  let ?r = "snd (Runner_Cancel sample_run_io ''b'' sample_r3)"
  have "rr_runs sample_r3 \<noteq> []" "rr_runs ?r \<noteq> []" "terminal_run (hd (rr_runs sample_r3))"
    "ru_ID (hd (rr_runs ?r)) = ru_ID (hd (rr_runs sample_r3))" "ru_Status (hd (rr_runs sample_r3)) = StatusFailed"
    by code_simp+
  moreover from this have "hd (rr_runs ?r) = hd (rr_runs sample_r3)"
    by (intro runner_ended_final [where parse = "\<lambda>_. None", OF step_cancel [of _ sample_r3 sample_run_io "''b''"] sample_r3_inv]) auto
  ultimately show ?thesis by simp
qed

theorem runner_drains_witness:
  "rr_activeID (drain (\<lambda>_. ''t'') [(sample_exec_env, sample_run_io), (sample_exec_env, sample_run_io)] sample_r2) = ''''"
proof -
  have "length [(sample_exec_env, sample_run_io), (sample_exec_env, sample_run_io)]
      = length (filter pending_run (rr_runs sample_r2))" by code_simp
  from runner_drains [OF sample_r2_inv this] show ?thesis by simp
qed

theorem cancel_decides_witness:
  "running_run (hd (rr_runs (snd (Runner_Cancel sample_run_io ''a'' sample_r2))))
    \<or> ru_Status (hd (rr_runs (snd (Runner_Cancel sample_run_io ''a'' sample_r2)))) = StatusCanceled"
proof -
  let ?r = "snd (Runner_Cancel sample_run_io ''a'' sample_r2)"
  have "rr_runs ?r \<noteq> []" "ru_ID (hd (rr_runs ?r)) = ''a''" "fst (Runner_Cancel sample_run_io ''a'' sample_r2)"
    "io_now sample_run_io \<noteq> 0" by code_simp+
  then show ?thesis
    by (intro cancel_decides [where parse = "\<lambda>_. None", OF sample_r2_inv _ _ rtranclp.rtrancl_refl]) auto
qed

theorem runner_persists_witness: "saved (snd (Runner_Cancel sample_run_io ''a'' sample_r2))"
proof -
  have "io_save sample_run_io = WriteOk" "io_save2 sample_run_io = WriteOk" by (simp_all add: sample_run_io_def)
  moreover have "fst (Runner_Cancel sample_run_io ''a'' sample_r2)" by code_simp
  ultimately show ?thesis using runner_persists [OF sample_r2_inv] by blast
qed

lemma sample_r2_saved: "saved sample_r2"
  by code_simp


section \<open>The history bound and a run that has just ended\<close>

text \<open>The bound counts finished runs in request order, not in the order in which they ended.  When a
  later request is cancelled while it waits, the older run is the first to be dropped as soon as it
  ends: its waiter is told that it is done, and neither the run nor its log can be found.\<close>

definition sample_r5 :: runner_proc where
  "sample_r5 = execute_end sample_run_io 0 (execute sample_exec_env (\<lambda>_. ''t'') 0
     (snd (Runner_Cancel sample_run_io ''b'' sample_r2)))"

lemma ended_run_vanishes:
  "Runner_Wait sample_r2 sample_r5 False False ''a'' = Some True \<and> Runner_Find sample_r5 ''a'' = None"
  by code_simp

end
