(* ===== verification/Run_Config_Props.thy ===== *)
theory Run_Config_Props
  imports Run_Config Validate_Props
begin

text \<open>
  What a configuration of the standalone role promises once it has been accepted: its tasks and inputs
  are well formed, and the values a request gets through are declared ones and become environment
  variables with different names.
\<close>

section \<open>Accepted configurations\<close>

definition input_ok :: "TaskInputConfig \<Rightarrow> bool" where
  "input_ok input \<longleftrightarrow> validInputID (in_ID input) \<and> in_ID input \<noteq> taskRunWaitParam \<and> trim_space (in_Name input) \<noteq> ''''
     \<and> (in_Type input = ''string'' \<and> in_Options input = []
        \<or> in_Type input = ''choice'' \<and> in_Options input \<noteq> [] \<and> distinct (in_Options input)
          \<and> '''' \<notin> set (in_Options input) \<and> (in_Default input = '''' \<or> in_Default input \<in> set (in_Options input)))"

definition task_ok :: "(string \<Rightarrow> int option) \<Rightarrow> TaskConfig \<Rightarrow> bool" where
  "task_ok parse task \<longleftrightarrow> trim_space (tc_ID task) \<noteq> '''' \<and> tc_Name task \<noteq> '''' \<and> trim_space (tc_Script task) \<noteq> ''''
     \<and> (trim_space (tc_Timeout task) = '''' \<or> parse (tc_Timeout task) \<noteq> None)
     \<and> list_all input_ok (tc_Inputs task) \<and> distinct (map (\<lambda>input. taskInputEnvName (in_ID input)) (tc_Inputs task))"

lemma containsString_set [simp]: "containsString xs v \<longleftrightarrow> v \<in> set xs"
  by (auto simp: containsString_def list_ex_iff)

lemma choice_loop_ok:
  "choice_loop seen options = Inr out \<Longrightarrow>
    '''' \<notin> set out \<and> distinct out \<and> set out \<inter> set seen = {} \<and> (options \<noteq> [] \<longrightarrow> out \<noteq> [])"
proof (induction options arbitrary: seen out)
  case (Cons raw rest)
  then obtain opts where "choice_loop (trim_space raw # seen) rest = Inr opts" "out = trim_space raw # opts"
    "trim_space raw \<noteq> []" "trim_space raw \<notin> set seen"
    by (auto simp: Let_def split: if_splits sum.splits)
  with Cons.IH [of "trim_space raw # seen" opts] show ?case by auto
qed simp

lemma normalizeChoiceOptions_ok:
  "normalizeChoiceOptions options = Inr out \<Longrightarrow> out \<noteq> [] \<and> '''' \<notin> set out \<and> distinct out"
  by (auto simp: normalizeChoiceOptions_def split: if_splits dest: choice_loop_ok)

lemma validInputID_trim: "validInputID i \<Longrightarrow> trim_space i = i" "validInputID i \<Longrightarrow> i \<noteq> ''''"
  by (auto simp: validInputID_def trim_ident)

text \<open>One input passes and the loop goes on.\<close>

lemma input_loop_Cons:
  assumes "input_loop i j ids envs (input # inputs) = Inr out"
  obtains input' rest where "out = input' # rest" "input_ok input'" "in_ID input' = trim_space (in_ID input)"
    "map_of envs (taskInputEnvName (in_ID input')) = None"
    "input_loop i (Suc j) (in_ID input' # ids) ((taskInputEnvName (in_ID input'), in_ID input') # envs) inputs = Inr rest"
proof -
  let ?i = "trim_space (in_ID input)"
  have g: "?i \<noteq> taskRunWaitParam" "validInputID ?i" "map_of envs (taskInputEnvName ?i) = None"
    using assms by (auto simp: Let_def split: if_splits option.splits)
  have name: "trim_space (if trim_space (in_Name input) = '''' then ?i else in_Name input) \<noteq> ''''"
    using validInputID_trim [OF g(2)] by simp
  obtain t where t: "normalizeInputType (in_Type input) = Some t"
    using assms by (auto simp: Let_def split: if_splits option.splits)
  have "t = ''string'' \<or> t = ''choice''"
    using t by (auto simp: normalizeInputType_def Let_def split: if_splits)
  then show thesis
  proof
    assume s: "t = ''string''"
    let ?c = "input\<lparr>in_ID := ?i, in_Type := t, in_Name := (if trim_space (in_Name input) = '''' then ?i else in_Name input)\<rparr>"
    from assms s t g obtain rest where rest: "out = ?c # rest" "in_Options input = []"
      "input_loop i (Suc j) (?i # ids) ((taskInputEnvName ?i, ?i) # envs) inputs = Inr rest"
      by (auto simp: Let_def split: if_splits sum.splits)
    moreover have "input_ok ?c" using g name rest(2) s by (simp add: input_ok_def)
    ultimately show thesis using that [of ?c rest] g(3) by simp
  next
    assume s: "t = ''choice''"
    from assms s t g obtain opts rest where rest: "normalizeChoiceOptions (in_Options input) = Inr opts"
      "in_Default input = '''' \<or> in_Default input \<in> set opts"
      "out = input\<lparr>in_ID := ?i, in_Type := t, in_Name := (if trim_space (in_Name input) = '''' then ?i else in_Name input),
         in_Options := opts\<rparr> # rest"
      "input_loop i (Suc j) (?i # ids) ((taskInputEnvName ?i, ?i) # envs) inputs = Inr rest"
      by (auto simp: Let_def split: if_splits sum.splits)
    have "input_ok (hd out)"
      using g name rest s normalizeChoiceOptions_ok [OF rest(1)] by (auto simp: input_ok_def)
    then show thesis using that [of "hd out" rest] rest g(3) by simp
  qed
qed

lemma input_loop_ok:
  "input_loop i j ids envs inputs = Inr out \<Longrightarrow>
    list_all input_ok out \<and> distinct (map (\<lambda>input. taskInputEnvName (in_ID input)) out)
    \<and> (\<forall>input \<in> set out. map_of envs (taskInputEnvName (in_ID input)) = None)"
proof (induction inputs arbitrary: j ids envs out)
  case (Cons input inputs)
  obtain input' rest where r: "out = input' # rest" "input_ok input'"
    "map_of envs (taskInputEnvName (in_ID input')) = None"
    "input_loop i (Suc j) (in_ID input' # ids) ((taskInputEnvName (in_ID input'), in_ID input') # envs) inputs = Inr rest"
    using input_loop_Cons [OF Cons.prems] by metis
  from Cons.IH [OF r(4)] r(1-3) show ?case by (auto split: if_splits)
qed simp

lemma task_loop_ok:
  "task_loop parse i seen tasks = Inr out \<Longrightarrow>
    list_all (task_ok parse) out \<and> distinct (map tc_ID out) \<and> tc_ID ` set out \<inter> set seen = {}"
proof (induction tasks arbitrary: i seen out)
  case (Cons task tasks)
  then obtain inputs rest where r: "input_loop i 0 [] [] (tc_Inputs task) = Inr inputs"
    "task_loop parse (Suc i) (tc_ID task # seen) tasks = Inr rest"
    "out = task\<lparr>tc_Inputs := inputs, tc_Name := (if tc_Name task = '''' then tc_ID task else tc_Name task)\<rparr> # rest"
    "trim_space (tc_ID task) \<noteq> ''''" "tc_ID task \<notin> set seen" "trim_space (tc_Script task) \<noteq> ''''"
    "trim_space (tc_Timeout task) = '''' \<or> parse (tc_Timeout task) \<noteq> None"
    by (auto simp: Let_def split: if_splits sum.splits)
  have "tc_ID task \<noteq> ''''" using r(4) by auto
  then have "task_ok parse (hd out)" using r(3-7) input_loop_ok [OF r(1)] by (simp add: task_ok_def)
  with Cons.IH [OF r(2)] r(3,5) show ?case by auto
qed simp

lemma parseConfig_ok:
  assumes "parseConfig parse unmarshal data = Inr cfg"
  shows "list_all (task_ok parse) (cf_Tasks cfg)" "distinct (map tc_ID (cf_Tasks cfg))"
    "0 < sc_MaxHistory (cf_Server cfg)" "trim_space (sc_ScriptHeader (cf_Server cfg)) \<noteq> ''''"
proof -
  obtain c server tasks where c: "check_server (cf_Server c) = Inr server" "task_loop parse 0 [] (cf_Tasks c) = Inr tasks"
      "cfg = c\<lparr>cf_Server := server, cf_Tasks := tasks\<rparr>"
    using assms by (auto simp: parseConfig_def split: option.splits sum.splits)
  with task_loop_ok [OF c(2)] show "list_all (task_ok parse) (cf_Tasks cfg)" "distinct (map tc_ID (cf_Tasks cfg))"
    by simp_all
  have "trim_space defaultScriptHeader \<noteq> ''''" unfolding defaultScriptHeader_def by code_simp
  with c show "0 < sc_MaxHistory (cf_Server cfg)" "trim_space (sc_ScriptHeader (cf_Server cfg)) \<noteq> ''''"
    by (auto simp: check_server_def Let_def defaultMaxHistory_def split: if_splits)
qed

section \<open>The values of a request\<close>

lemma collect_loop_keys:
  assumes "collect_loop values inputs acc = Inr out" "distinct (map in_ID inputs)" "set (map fst acc) \<inter> in_ID ` set inputs = {}"
  shows "map fst out = map fst acc @ map in_ID inputs"
  using assms
proof (induction inputs arbitrary: acc)
  case (Cons input inputs)
  then obtain v where "collect_loop values inputs (AList.update (in_ID input) v acc) = Inr out"
    by (auto simp: Let_def split: if_splits)
  have "in_ID input \<notin> set (map fst acc)" using Cons.prems(3) by auto
  then have "map fst (AList.update (in_ID input) v acc) = map fst acc @ [in_ID input]" for v :: string
    by (simp add: update_keys)
  note keys = this
  have "set (map fst (AList.update (in_ID input) v acc)) \<inter> in_ID ` set inputs = {}"
    using Cons.prems(2,3) unfolding keys by auto
  with Cons.IH [OF \<open>collect_loop values inputs (AList.update (in_ID input) v acc) = Inr out\<close>] Cons.prems(2)
  show ?case unfolding keys by simp
qed simp

definition request_value :: "url_values \<Rightarrow> TaskInputConfig \<Rightarrow> string" where
  "request_value values input = (let v = values_Get values (in_ID input) in if v = '''' then in_Default input else v)"

lemma collect_loop_values:
  assumes "collect_loop values inputs acc = Inr out" "distinct (map in_ID inputs)"
  shows "(\<forall>input \<in> set inputs. map_of out (in_ID input) = Some (request_value values input)
      \<and> (in_Required input \<longrightarrow> request_value values input \<noteq> '''')
      \<and> (in_Type input = ''choice'' \<longrightarrow> request_value values input \<in> insert '''' (set (in_Options input))))
    \<and> (\<forall>k. k \<notin> in_ID ` set inputs \<longrightarrow> map_of out k = map_of acc k)"
  using assms
proof (induction inputs arbitrary: acc)
  case (Cons input inputs)
  let ?v = "request_value values input"
  have nxt: "collect_loop values inputs (AList.update (in_ID input) ?v acc) = Inr out"
    "in_Required input \<longrightarrow> ?v \<noteq> ''''" "in_Type input = ''choice'' \<longrightarrow> ?v \<in> insert '''' (set (in_Options input))"
    using Cons.prems(1) by (auto simp: request_value_def Let_def split: if_splits)
  have d: "distinct (map in_ID inputs)" "in_ID input \<notin> in_ID ` set inputs" using Cons.prems(2) by auto
  note ih = Cons.IH [OF nxt(1) d(1)]
  have "map_of out (in_ID input) = Some ?v" using ih d(2) by (simp add: update_conv')
  with ih nxt(2,3) show ?case by (simp add: update_conv')
qed simp

lemma task_ids_distinct: "task_ok parse task \<Longrightarrow> distinct (map in_ID (tc_Inputs task))"
  unfolding task_ok_def by (auto simp: distinct_map inj_on_def)

text \<open>C39. The values a run of the standalone role gets are the declared ones: for a task of an accepted
  configuration, a request is refused if it names an undeclared input; otherwise every declared input,
  and nothing else, has the value of the request or its default, required inputs are present, a choice
  has one of its options, and the inputs become environment variables with pairwise different names.\<close>

theorem run_inputs_declared:
  assumes "parseConfig parse unmarshal data = Inr cfg" "task \<in> set (cf_Tasks cfg)"
    "collectTaskInputs task values = Inr inputs"
  shows "map fst inputs = map in_ID (tc_Inputs task)
    \<and> distinct (map taskInputEnvName (map fst inputs))
    \<and> set (map fst values) \<subseteq> {''task_id'', taskRunWaitParam} \<union> in_ID ` set (tc_Inputs task)
    \<and> (\<forall>input \<in> set (tc_Inputs task). map_of inputs (in_ID input) = Some (request_value values input)
        \<and> (in_Required input \<longrightarrow> request_value values input \<noteq> '''')
        \<and> (in_Type input = ''choice'' \<longrightarrow> request_value values input \<in> insert '''' (set (in_Options input))))"
proof -
  have ok: "task_ok parse task" using parseConfig_ok(1) [OF assms(1)] assms(2) by (simp add: list_all_iff)
  note ids = task_ids_distinct [OF ok]
  have c: "collect_loop values (tc_Inputs task) [] = Inr inputs"
    "\<forall>key \<in> set (map fst values). \<not> (key \<noteq> ''task_id'' \<and> key \<noteq> taskRunWaitParam \<and> key \<notin> in_ID ` set (tc_Inputs task))"
    using assms(3) by (auto simp: collectTaskInputs_def find_None_iff split: option.splits)
  have keys: "map fst inputs = map in_ID (tc_Inputs task)" using collect_loop_keys [OF c(1) ids] by simp
  moreover have "distinct (map taskInputEnvName (map fst inputs))"
    using ok unfolding keys task_ok_def by (simp add: comp_def)
  ultimately show ?thesis using collect_loop_values [OF c(1) ids] c(2) by auto
qed

text \<open>An accepted configuration of the standalone role is usable: task identifiers are present and
  distinct, every task has a name and a script, every input has a valid identifier that is not reserved,
  a known type and, exactly if it is a choice, non-empty distinct options among which its default is; no two
  inputs of a task become the same environment variable; the history bound is positive and the script
  header is not blank.\<close>

theorem accepted_run_config:
  assumes "parseConfig parse unmarshal data = Inr cfg"
  shows "list_all (task_ok parse) (cf_Tasks cfg) \<and> distinct (map tc_ID (cf_Tasks cfg))
    \<and> 0 < sc_MaxHistory (cf_Server cfg) \<and> trim_space (sc_ScriptHeader (cf_Server cfg)) \<noteq> ''''"
  using parseConfig_ok [OF assms] by simp

section \<open>A sample\<close>

definition sample_input :: TaskInputConfig where
  "sample_input = \<lparr>in_ID = '' target '', in_Name = '''', in_Description = '''', in_Type = ''Choice'',
     in_Default = ''web'', in_Required = True, in_Options = [''web'', '' api'']\<rparr>"

definition sample_config :: "string \<Rightarrow> Config" where
  "sample_config timeout =
     \<lparr>cf_Server = \<lparr>sc_Address = '''', sc_Addresses = [], sc_LogDir = '''', sc_MaxHistory = 0,
        sc_ConfigPassword = '''', sc_ScriptHeader = ''''\<rparr>,
      cf_Tasks = [\<lparr>tc_ID = ''build'', tc_Name = '''', tc_Description = '''', tc_Script = ''make'', tc_Timeout = timeout,
        tc_ScriptHeader = '''', tc_Inputs = [sample_input]\<rparr>]\<rparr>"

definition sample_parsed :: Config where
  "sample_parsed = (case parseConfig (\<lambda>_. None) (\<lambda>_. Some (sample_config '''')) '''' of Inr cfg \<Rightarrow> cfg | Inl _ \<Rightarrow> sample_config '''')"

lemma sample_parse: "parseConfig (\<lambda>_. None) (\<lambda>_. Some (sample_config '''')) '''' = Inr sample_parsed"
  by code_simp

theorem accepted_run_config_witness: "0 < sc_MaxHistory (cf_Server sample_parsed)"
  using accepted_run_config [OF sample_parse] by simp

theorem run_inputs_declared_witness:
  "case collectTaskInputs (hd (cf_Tasks sample_parsed)) [(''target'', [''api''])] of
     Inr inputs \<Rightarrow> map fst inputs = [''target''] | Inl _ \<Rightarrow> False"
proof -
  have t: "hd (cf_Tasks sample_parsed) \<in> set (cf_Tasks sample_parsed)"
    "map in_ID (tc_Inputs (hd (cf_Tasks sample_parsed))) = [''target'']"
    "collectTaskInputs (hd (cf_Tasks sample_parsed)) [(''target'', [''api''])] = Inr [(''target'', ''api'')]"
    by code_simp+
  show ?thesis
    using run_inputs_declared [OF sample_parse t(1,3)] t(2,3) by simp
qed

text \<open>A timeout of blanks is not examined when the configuration is read, but every attempt to start
  the task parses it: the task is accepted and can never be run.\<close>

lemma blank_timeout_accepted:
  assumes "parse '' '' = None"
  shows "\<exists>cfg task. parseConfig parse (\<lambda>_. Some (sample_config '' '')) '''' = Inr cfg \<and> task \<in> set (cf_Tasks cfg)
    \<and> (\<forall>io i inputs r. Runner_Start parse io i task inputs r = (Inl (ErrRunTimeout (tc_ID task)), r))"
proof -
  define cfg where "cfg = (case parseConfig (\<lambda>_. None) (\<lambda>_. Some (sample_config '' '')) '''' of Inr cfg \<Rightarrow> cfg | Inl _ \<Rightarrow> sample_config '''')"
  have "parseConfig parse (\<lambda>_. Some (sample_config '' '')) '''' = Inr cfg" "map tc_Timeout (cf_Tasks cfg) = ['' '']"
    unfolding cfg_def by code_simp+
  with assms show ?thesis
    by (intro exI [of _ cfg] exI [of _ "hd (cf_Tasks cfg)"]) (cases "cf_Tasks cfg", auto simp: Runner_Start_def)
qed

end
