(* ===== verification/Runner_Http_Props.thy ===== *)
theory Runner_Http_Props
  imports Runner_Http Runner_Samples Run_Config_Props
begin

text \<open>
  The JSON API of the standalone role: which requests can read or change the configuration, what a
  successful save leaves behind, and that every request keeps the invariant of the runner.
\<close>

section \<open>Access to the configuration\<close>

text \<open>The request carries the configured password, and there is one.\<close>

definition config_authorized :: "app_request \<Rightarrow> App \<Rightarrow> bool" where
  "config_authorized r a \<longleftrightarrow> currentConfigPassword a \<noteq> ''''
     \<and> (if aq_ConfigPassword r = '''' then FormValue r ''password'' else aq_ConfigPassword r) = currentConfigPassword a"

lemma authorize_None: "authorizeConfigRequest r a = None \<longleftrightarrow> config_authorized r a"
  by (auto simp: authorizeConfigRequest_def config_authorized_def Let_def)

lemma authorize_refuses: "authorizeConfigRequest r a = Some resp \<Longrightarrow> \<exists>st msg. resp = RespondJSON st (AP_Refused msg) \<and> st \<in> {401, 403}"
  by (auto simp: authorizeConfigRequest_def Let_def split: if_splits)

definition replied_ok :: "app_response \<Rightarrow> bool" where
  "replied_ok resp \<longleftrightarrow> (case resp of RespondJSON st _ \<Rightarrow> st = 200 | _ \<Rightarrow> False)"

definition shows_config :: "app_response \<Rightarrow> bool" where
  "shows_config resp \<longleftrightarrow> (case resp of RespondJSON _ (AP_Content _) \<Rightarrow> True | _ \<Rightarrow> False)"

lemma shows_config_simps [simp]:
  "\<not> shows_config (HttpError n m)" "\<not> shows_config HttpNotFound" "\<not> shows_config (PlainReply n m)"
  "\<not> shows_config (HttpRedirect m)" "\<not> shows_config (WaitFor m)" "shows_config (RespondJSON n (AP_Content m))"
  "\<not> shows_config (RespondJSON n AP_OK)" "\<not> shows_config (RespondJSON n (AP_Summary x))"
  "\<not> shows_config (RespondJSON n (AP_Refused m))" "\<not> shows_config (RespondJSON n (AP_Saved ts))"
  "\<not> shows_config (RespondJSON n (AP_State ts rs m))" "\<not> shows_config (RespondJSON n (AP_Meta a b c d e f g))"
  by (simp_all add: shows_config_def)

lemma save_cases:
  assumes "handleSaveConfig env r a = (resp, a')"
  shows "a' = a \<and> \<not> replied_ok resp \<or> (config_authorized r a \<and> (\<exists>content cfg stamp.
      parseConfig (ax_parse env) (ax_unmarshal env) content = Inr cfg \<and>
      resp = RespondJSON 200 (AP_Saved (cf_Tasks (normalizeRuntimeConfig (ap_configPath a) cfg))) \<and>
      stamp = (if ax_stat_fails env then zero_stamp else ax_stamp env) \<and>
      a' = App_applyConfig env (normalizeRuntimeConfig (ap_configPath a) cfg) stamp
             (a\<lparr>ap_file := Some (content, ax_stamp env)\<rparr>)))"
proof (cases "authorizeConfigRequest r a")
  case (Some x)
  then show ?thesis using assms authorize_refuses [OF Some] by (auto simp: handleSaveConfig_def replied_ok_def)
next
  case None
  then have auth: "config_authorized r a" by (simp add: authorize_None)
  let ?c = "if FormValue r ''content'' = '''' then aq_Body r else Some (FormValue r ''content'')"
  show ?thesis
  proof (cases ?c)
    case None
    with \<open>authorizeConfigRequest r a = None\<close> show ?thesis using assms by (auto simp: handleSaveConfig_def Let_def replied_ok_def)
  next
    case (Some content)
    show ?thesis
    proof (cases "parseConfig (ax_parse env) (ax_unmarshal env) content")
      case (Inl e)
      with \<open>authorizeConfigRequest r a = None\<close> Some show ?thesis
        using assms by (auto simp: handleSaveConfig_def Let_def replied_ok_def)
    next
      case (Inr cfg)
      with \<open>authorizeConfigRequest r a = None\<close> Some assms auth show ?thesis
        by (auto simp: handleSaveConfig_def Let_def statFileStamp_def replied_ok_def split: if_splits)
    qed
  qed
qed

section \<open>The handlers keep the invariant of the runner\<close>

lemma applyConfig_inv: "runner_inv (ap_runner a) \<Longrightarrow> runner_inv (ap_runner (App_applyConfig env cfg stamp a))"
  by (simp add: App_applyConfig_def Let_def inv_SetMaxHistory)

definition frame :: "App \<Rightarrow> App \<Rightarrow> bool" where
  "frame a a' \<longleftrightarrow> ap_cfg a' = ap_cfg a \<and> ap_file a' = ap_file a \<and> ap_tasks a' = ap_tasks a"

lemma startTask_keeps:
  assumes "startTask env taskID values a = (resp, a')" "runner_inv (ap_runner a)"
    "ax_id env \<noteq> ''''" "ax_id env \<notin> ru_ID ` set (rr_runs (ap_runner a))"
  shows "runner_inv (ap_runner a') \<and> frame a a' \<and> \<not> shows_config resp"
proof -
  have inv: "runner_inv (snd (Runner_Start (ax_parse env) (ax_io env) (ax_id env) task inputs (ap_runner a)))" for task inputs
    using inv_Start [OF assms(2-4)] .
  have inv': "runner_inv r'" if "Runner_Start (ax_parse env) (ax_io env) (ax_id env) task inputs (ap_runner a) = (x, r')" for task inputs x r'
    using inv [of task inputs] that by simp
  show ?thesis
    using assms(1,2) by (auto simp: startTask_def frame_def split: option.splits sum.splits prod.splits if_splits dest: inv')
qed

lemma handleRunAPI_keeps:
  assumes "handleRunAPI env r a = (resp, a')" "runner_inv (ap_runner a)"
  shows "runner_inv (ap_runner a') \<and> frame a a' \<and> \<not> shows_config resp"
proof -
  have inv: "runner_inv r'" if "Runner_Delete io i (ap_runner a) = (x, r')" for io i x r'
    using inv_Delete [OF assms(2), of io i] that by simp
  have inv2: "runner_inv r'" if "Runner_Cancel io i (ap_runner a) = (x, r')" for io i x r'
    using inv_Cancel [OF assms(2), of io i] that by simp
  show ?thesis
    using assms unfolding handleRunAPI_def
    by (auto simp: frame_def delete_response_def handleLog_def
        split: list.splits option.splits prod.splits if_splits run_error.splits dest: inv inv2)
qed

lemma handleTaskAPI_keeps:
  assumes "handleTaskAPI env r a = (resp, a')" "runner_inv (ap_runner a)"
    "ax_id env \<noteq> ''''" "ax_id env \<notin> ru_ID ` set (rr_runs (ap_runner a))"
  shows "runner_inv (ap_runner a') \<and> frame a a' \<and> \<not> shows_config resp"
  using assms unfolding handleTaskAPI_def
  by (auto simp: frame_def Let_def split: list.splits option.splits if_splits dest: startTask_keeps [OF _ assms(2-4)])

lemma handleConfig_keeps:
  assumes "handleConfig env r a = (resp, a')" "runner_inv (ap_runner a)"
  shows "runner_inv (ap_runner a') \<and> (config_authorized r a \<or> frame a a' \<and> \<not> shows_config resp)"
proof (cases "aq_Method r = ''POST''")
  case True
  then have s: "handleSaveConfig env r a = (resp, a')" using assms(1) by (simp add: handleConfig_def)
  have "a' = a \<or> config_authorized r a" "runner_inv (ap_runner a')"
    using save_cases [OF s] assms(2) applyConfig_inv by auto
  moreover have "\<not> shows_config resp" if "\<not> config_authorized r a"
    using s that authorize_None [of r a] authorize_refuses [of r a]
    by (cases "authorizeConfigRequest r a") (auto simp: handleSaveConfig_def)
  ultimately show ?thesis by (auto simp: frame_def)
next
  case False
  have "\<not> shows_config resp" if "\<not> config_authorized r a"
    using assms(1) False that authorize_None [of r a] authorize_refuses [of r a]
    by (cases "authorizeConfigRequest r a") (auto simp: handleConfig_def handleGetConfig_def split: if_splits)
  moreover have "a' = a" using assms(1) False by (auto simp: handleConfig_def split: if_splits)
  ultimately show ?thesis using assms(2) by (auto simp: frame_def)
qed

lemma routes_cases:
  "App_routes env r a = (resp, a') \<Longrightarrow> a' = a \<and> \<not> shows_config resp \<or> handleConfig env r a = (resp, a')
    \<or> handleStart env r a = (resp, a') \<or> handleTaskAPI env r a = (resp, a') \<or> handleRunAPI env r a = (resp, a')"
  by (auto simp: App_routes_def App_handleMeta_def handleState_def handleLegacyPage_def Let_def split: if_splits)


section \<open>Saving the configuration\<close>

text \<open>Saving the configuration through the API is all or nothing: a request that is refused, or whose
  text is not a valid configuration, or whose file cannot be written, changes nothing; after a success the file holds the
  text of the request, loading that file gives the configuration in effect, and the next check of the file
  does not reload it.\<close>

theorem run_config_saved:
  "case handleSaveConfig env r a of (resp, a') \<Rightarrow>
    if replied_ok resp
    then loadRuntimeConfig (ax_parse env) (ax_unmarshal env) (ap_configPath a') (ap_file a') = Inr (ap_cfg a')
      \<and> ap_tasks a' = buildTaskMap (cf_Tasks (ap_cfg a'))
      \<and> (ax_stat_fails env \<or> App_reloadConfigIfChanged env a' = (False, a'))
    else a' = a"
proof -
  obtain resp a' where s: "handleSaveConfig env r a = (resp, a')" by fastforce
  show ?thesis
    unfolding s using save_cases [OF s]
    by (auto simp: App_applyConfig_def Let_def loadRuntimeConfig_def loadConfig_def App_reloadConfigIfChanged_def
        statFileStamp_def fileStamp_equal_def replied_ok_def)
qed

section \<open>Samples\<close>

definition sample_app_env :: app_env where
  "sample_app_env = \<lparr>ax_parse = (\<lambda>_. None), ax_unmarshal = (\<lambda>_. None), ax_io = sample_run_io, ax_id = ''c'',
     ax_write_fails = False, ax_stamp = \<lparr>fs_modTime = 2, fs_size = 2\<rparr>, ax_read_fails = False, ax_stat_fails = False,
     ax_log_fails = False,
     ax_build = \<lparr>vd_Version = ''dev'', vd_Commit = '''', vd_BuildDate = '''', vd_Modified = False\<rparr>\<rparr>"

definition sample_app :: "runner_proc \<Rightarrow> App" where
  "sample_app runner = \<lparr>ap_cfg = sample_parsed, ap_tasks = buildTaskMap (cf_Tasks sample_parsed), ap_configPath = ''/etc/config.yaml'',
     ap_runner = runner, ap_logDir = ''/logs'', ap_hostname = ''host'', ap_started = 1,
     ap_configFile = \<lparr>fs_modTime = 1, fs_size = 1\<rparr>, ap_file = Some (''text'', \<lparr>fs_modTime = 1, fs_size = 1\<rparr>)\<rparr>"

definition sample_request :: app_request where
  "sample_request = \<lparr>aq_Method = ''GET'', aq_Path = ''/api/config'', aq_EscapedPath = ''/api/config'', aq_Query = [],
     aq_Form = [], aq_Body = Some '''', aq_ConfigPassword = ''guess''\<rparr>"


text \<open>The request that started a run and waited for it is told that it succeeded, without the run and
  without its log, when the bound on the history has removed the run in the moment it ended.\<close>

lemma waited_run_is_lost:
  "startTask_wait sample_app_env sample_r2 False False ''a'' (sample_app sample_r5) =
     RespondJSON 200 (AP_RunLog None (''Log file is not available.'' @ [CHR 0x0A]))"
  by code_simp

end
