(* ===== verification/Spec2Isabelle.thy ===== *)
theory Spec2Isabelle
  imports Store_Props Findings Param_Props Upload_Props Exec_Props Import_Props Bound_Props Login_Props
    Copy_Props Runner_Http_Props
begin

text \<open>
  Builda is a build server: a controller keeps a catalogue of jobs, queues their runs (executions)
  and hands them to agents, which run the job scripts on their machines and report logs and results.
  This development models the core of \<^verbatim>\<open>src/*.go\<close>: the controller with its durable store, its
  scheduler and its operations, the agent with its journal, the protocol between them, and the HTTP
  interface for users with its configuration editing, credentials and sessions.  It also models the
  older standalone role, a single machine that queues and runs configured tasks, with its JSON API.

  \<^bold>\<open>Parts and how they interact.\<close>  Users enqueue, cancel and rerun executions; every change is one
  transaction of the controller's store, which writes the whole snapshot atomically before it is
  acknowledged.  The scheduler assigns queued executions to free online agents.  An agent polls, journals
  the assignment, asks for the single start permit, journals that it is about to start, launches the
  script, uploads the log by byte offset and submits the result until it is accepted.  After a restart it
  decides from its journal what to do with unfinished executions.  Users and agents reach the controller
  over HTTP: users with the admin password and a browser session or with an automation token, agents with
  their own tokens; users also edit the configuration, which the controller keeps in a file that other
  programs may edit too.

  \<^bold>\<open>Theories and sources.\<close>
  \<^item> \<open>Builda_Prelude\<close>: Go's strings, maps and 64-bit integers as the sources use them; shared lemmas.
  \<^item> \<open>Ctrl_State\<close>: \<^verbatim>\<open>ctrlstate.go\<close>, \<^verbatim>\<open>ctrlconfig.go\<close> (records of snapshot and configuration, lookups).
  \<^item> \<open>Path_Safe\<close>: \<^verbatim>\<open>pathsafe.go\<close> and the lexical functions of \<^verbatim>\<open>path/filepath\<close>.
  \<^item> \<open>Ctrl_Store\<close>: \<^verbatim>\<open>ctrlstore.go\<close> and \<^verbatim>\<open>writeFileAtomicSync\<close> of \<^verbatim>\<open>util.go\<close>.  A transaction is a
    function on the snapshot; \<open>mutate\<close> adds sequence number, pruning, the file with every failing
    system call, the wake-up and the removal of pruned logs.  The locales \<open>snapshot_property\<close> and
    \<open>execution_property\<close> are what a client of the store proves invariants by.
  \<^item> \<open>Ctrl_Invariants\<close>: the invariants of snapshots, as interpretations of those locales.
  \<^item> \<open>Param_Env\<close>: \<^verbatim>\<open>paramenv.go\<close>, \<^verbatim>\<open>paramresolve.go\<close>; \<open>Ctrl_Validate\<close>: \<^verbatim>\<open>ctrlvalidate.go\<close> and the
    runtime values of \<^verbatim>\<open>ctrlconfig.go\<close>, \<^verbatim>\<open>rolecfg.go\<close>.
  \<^item> \<open>Ctrl_Core\<close>, \<open>Ctrl_Sched\<close>: liveness of agents in \<^verbatim>\<open>controller.go\<close> and \<^verbatim>\<open>ctrlsched.go\<close>.
  \<^item> \<open>Ctrl_Queue\<close>: \<^verbatim>\<open>ctrlqueue.go\<close>; \<open>Ctrl_AgentOps\<close>: \<^verbatim>\<open>ctrlagentops.go\<close>; \<open>Ctrl_AgentApi\<close>:
    \<^verbatim>\<open>api_agentproto.go\<close> and the messages of \<^verbatim>\<open>proto.go\<close>; \<open>Migrate_Import\<close>: \<^verbatim>\<open>migrate_import.go\<close>.
  \<^item> \<open>Ctrl_System\<close>, \<open>Ctrl_Ops\<close>: the controller as a state machine (\<open>store_step\<close>, \<open>reachable\<close>), and that
    every operation is a sequence of its steps (locale \<open>agent_requests\<close>).
  \<^item> \<open>Agent_Journal\<close>: \<^verbatim>\<open>agentjournal.go\<close>; \<open>Agent_Exec\<close>: \<^verbatim>\<open>agentexec.go\<close>, \<^verbatim>\<open>agentproc.go\<close>;
    \<open>Agent_Core\<close>: \<^verbatim>\<open>agentclient.go\<close>, the state of \<^verbatim>\<open>agent.go\<close> and \<^verbatim>\<open>flushLog\<close>; \<open>Agent_Steps\<close>: the main
    goroutine of \<^verbatim>\<open>agent.go\<close>, \<^verbatim>\<open>agentexec.go\<close> and \<^verbatim>\<open>agentupload.go\<close> as steps between program points.
  \<^item> \<open>Fleet\<close>: one controller and any number of agents as one system (\<open>fleet_step\<close>), with crashes and
    restarts; \<open>Fleet_Nodes\<close>, \<open>Fleet_Invariant\<close>: its invariant.
  \<^item> \<open>Ctrl_Config\<close>: \<^verbatim>\<open>rolecfg.go\<close>, \<^verbatim>\<open>ctrlconfig.go\<close> and \<^verbatim>\<open>controller.go\<close>: loading the configuration,
    opening a controller, reloading and editing the file.
  \<^item> \<open>Ctrl_Auth\<close>: \<^verbatim>\<open>ctrlauth.go\<close>, the credential file with passwords and tokens; \<open>Ctrl_Session\<close>:
    \<^verbatim>\<open>ctrlsession.go\<close>, sessions and the login limiter.
  \<^item> \<open>Ctrl_Views\<close>: what the interface shows; \<open>Ctrl_Http\<close>: \<^verbatim>\<open>ctrlhttp.go\<close>, \<^verbatim>\<open>api_session.go\<close>,
    \<^verbatim>\<open>api_tokens.go\<close>; \<open>Ctrl_Api\<close>: the handlers of \<^verbatim>\<open>api_jobs.go\<close>, \<^verbatim>\<open>api_catalogs.go\<close>, \<^verbatim>\<open>api_agents.go\<close>,
    \<^verbatim>\<open>api_config.go\<close>, \<^verbatim>\<open>api_runs.go\<close>, \<^verbatim>\<open>api_queue.go\<close>; \<open>Ctrl_Routes\<close>: the routes of \<^verbatim>\<open>ctrlhttp.go\<close> and \<open>serve\<close>,
    which answers any request.
  \<^item> \<open>Runner\<close>: the standalone role's \<^verbatim>\<open>runner.go\<close> (queue, history, state file); \<open>Runner_Exec\<close>:
    \<^verbatim>\<open>runner_exec.go\<close> and the runner as a state machine (\<open>runner_step\<close>); \<open>Run_Config\<close>: \<^verbatim>\<open>config.go\<close>;
    \<open>Runner_Http\<close>: \<^verbatim>\<open>handlers.go\<close> and the start in \<^verbatim>\<open>cli_legacy.go\<close>.
  \<^item> \<open>Api_Frame\<close>: what each handler can change; \<open>Api_Props\<close>: the service as a state machine (\<open>api_run\<close>).
  \<^item> \<open>Sample_States\<close>, \<open>Sample_Fleet\<close>, \<open>Runner_Samples\<close>: concrete states at which the properties are applied.

  \<^bold>\<open>What is shown.\<close>
  \<^item> This theory, \<open>Store_Props\<close>, \<open>Agent_Props\<close>: invariants of every reachable controller, what can become of
    an execution, atomicity and durability of the store, the outcome of every operation on every branch.
  \<^item> \<open>Sched_Props\<close>: the scheduler is sound, leaves no usable agent idle, is fair between runs and agents.
  \<^item> \<open>Log_Props\<close>, \<open>Upload_Props\<close>, \<open>Bound_Props\<close>: the stored log is a prefix of the agent's log within the cap,
    the upload converges and a finished execution is reported.
  \<^item> \<open>Fleet_Props\<close>: every script is started at most once.  \<open>Exec_Props\<close>: what the agent guarantees to its
    host and to scripts; the journal refines a map (locale \<open>entry_map\<close>).
  \<^item> \<open>Validate_Props\<close>, \<open>Param_Props\<close>: validated configurations are well formed, parameters resolve to allowed
    values.  \<open>Import_Props\<close>: imports are atomic and idempotent.  \<open>Findings\<close>: inputs on which the code panics.
  \<^item> \<open>Config_Props\<close>: an edit of the configuration never overwrites another edit and keeps memory and file in
    agreement.  \<open>Auth_Props\<close>: the life of an agent's token.  \<open>Access_Props\<close>: nothing without credentials.
    \<open>Api_Props\<close>: the invariants of the whole service, and what a session proves.  \<open>Login_Props\<close>: how many
    guesses of the password are looked at.

  \<^item> \<open>Runner_Props\<close>, \<open>Runner_Life\<close>, \<open>Runner_Recovery\<close>: the invariant of the standalone runner, one run at a time
    in request order, results that stay, a queue that drains, cancellation, and recovery from the state
    file.  \<open>Copy_Props\<close>: the log keeps all output.  \<open>Run_Config_Props\<close>, \<open>Runner_Http_Props\<close>: inputs of runs are
    declared ones, the API is guarded; \<open>Runner_Samples\<close> also shows where the history bound loses a run.

  \<^bold>\<open>Modelling decisions.\<close>  Clock readings, generated identifiers, I/O faults, network faults, the answers of
  the operating system and \<^verbatim>\<open>time.ParseDuration\<close> are arguments, so the theorems hold for all of them; so are
  the YAML package (a document is a value of any type), SHA-256 and PBKDF2 (\<open>crypto\<close>), \<^verbatim>\<open>url.Parse\<close> and what
  other programs do to the configuration and credential files in the middle of an operation.  The law
  assumed of the YAML package is that it reads back what it wrote (\<open>yaml_reads_back\<close>).
  Operations hold the store's or the controller's mutex, so every interleaving of goroutines is a sequence
  of the modelled steps; the file operations inside one log upload are taken as one step, and so is a
  request of a user with its authentication, except a login, which is two steps.  Values written
  as JSON or YAML are taken to be read back as written.  The texts of internal errors are left out where
  nothing depends on them.  A map of Go is an association list; its iteration order only decides which of
  several errors is reported.  Identifiers, offsets and sizes are unbounded except where the code can
  overflow, which is written out with \<open>wrap64\<close>.

  \<^bold>\<open>Loops.\<close>  Structural recursion except: the search for an unused identifier (\<open>partial_function\<close>, proved
  to return when the generator yields enough identifiers), the upload loop, whose fuel is the 10000 attempts
  of the code and proved to be enough for 5 GB, the permit loop with the code's five attempts, and the wait
  for a killed process group, whose number of polls is an argument.

  The loops of \<^verbatim>\<open>copyPrefixed\<close> are \<open>function\<close>s on the bytes still to come; each read takes at least one.

  \<^bold>\<open>Not modelled.\<close>  The agent's configuration file (\<^verbatim>\<open>agentcfg.go\<close> beyond the runtime values), exporting and
  planning a migration (\<^verbatim>\<open>migrate*.go\<close> beyond the import).  Installing services, the command
  line, rendering of pages and process start-up: texts and calls of the host without state of their own.
\<close>

section \<open>The controller as a whole\<close>

lemma Cancel_unstarted_txn:
  assumes "snapshot_ok st" "find_execution st i = Some e" "ex_Status e = StatusQueued \<or> ex_Status e = StatusAssigned"
    and "Cancel_txn now i st = (r, Inr st')"
  shows "\<exists>e'. find_execution st' i = Some e' \<and> terminal_ex e' \<and> ex_CancelRequested e' \<and> \<not> ex_PermitGranted e'"
proof -
  have l: "lifecycle_ok e" by (rule find_lifecycle [OF assms(1,2)])
  have i: "ex_ID e = i" using find_execution_Some [OF assms(2)] by simp
  from assms(3) show ?thesis
  proof
    assume q: "ex_Status e = StatusQueued"
    with assms(2,4) have "st' = update_execution i (cancel_queued now) st" by (simp add: Cancel_txn_def)
    with assms(2) i l q show ?thesis
      by (simp add: find_update_same cancel_queued_def terminal_ex_def lifecycle_ok_def)
  next
    assume a: "ex_Status e = StatusAssigned"
    with assms(2,4) have "st' = update_execution i (cancel_assigned now) st" by (simp add: Cancel_txn_def)
    with assms(2) i l a show ?thesis
      by (simp add: find_update_same cancel_assigned_def request_cancel_def terminal_ex_def lifecycle_ok_def Let_def)
  qed
qed

text \<open>C2. In every state the controller can get into, by any operations in any order, with any I/O
  failures, reconfigurations and restarts: execution identifiers are unique, no agent holds two
  active executions, and the flags of every execution are consistent with its status.\<close>

theorem controller_invariants:
  assumes "reachable_controller c"
  shows "distinct (map ex_ID (sd_Executions (st_data (c_store c))))
    \<and> distinct (map ex_AgentID (filter active_ex (sd_Executions (st_data (c_store c)))))
    \<and> (\<forall>e \<in> set (sd_Executions (st_data (c_store c))). lifecycle_ok e)"
  using reachable_ok [of "c_store c"] reachable_controller_store [OF assms]
  by (simp add: store_ok_def snapshot_ok_def unique_ids_def one_active_def lifecycle_def)

theorem controller_invariants_witness:
  "map ex_ID (sd_Executions (st_data (c_store sample_running))) = [''r'']
   \<and> distinct (map ex_AgentID (filter active_ex (sd_Executions (st_data (c_store sample_running)))))"
proof
  show "map ex_ID (sd_Executions (st_data (c_store sample_running))) = [''r'']" by code_simp
qed (use controller_invariants [OF sample_reachable_running] in blast)

text \<open>C3. Whatever happens while an execution stays recorded, restarts included: its work packet
  (job, script, parameters, requester, origin) never changes; once it is over its outcome never
  changes; once its start permit is granted the permit stays granted and the execution stays with its
  agent; and a cancellation request is never forgotten.\<close>

theorem execution_moves_forward:
  assumes "reachable s" "run_keeping i s s'" "Find s i = Some e"
  shows "\<exists>e'. Find s' i = Some e' \<and> work_packet e' = work_packet e
    \<and> (terminal_ex e \<longrightarrow> outcome e' = outcome e)
    \<and> (ex_PermitGranted e \<longrightarrow> ex_PermitGranted e' \<and> ex_AgentID e' = ex_AgentID e)
    \<and> (ex_CancelRequested e \<longrightarrow> ex_CancelRequested e')"
  using run_keeping_evolves [OF assms(2) reachable_ok [OF assms(1)] assms(3)]
  by (auto simp: evolves_def)

theorem execution_moves_forward_witness:
  "\<exists>e e'. Find (c_store sample_running) ''r'' = Some e \<and> ex_PermitGranted e
     \<and> Find (SetLogOffset ''r'' 7 (c_store sample_running)) ''r'' = Some e' \<and> ex_PermitGranted e'
     \<and> ex_AgentID e' = ex_AgentID e \<and> work_packet e' = work_packet e"
proof -
  obtain e where e: "Find (c_store sample_running) ''r'' = Some e" and p: "ex_PermitGranted e"
    using sample_running_permit by blast
  have "Find (SetLogOffset ''r'' 7 (c_store sample_running)) ''r'' \<noteq> None" by code_simp
  then have "run_keeping ''r'' (c_store sample_running) (SetLogOffset ''r'' 7 (c_store sample_running))"
    by (rule run_keeping.more [OF run_keeping.here store_step.log_offset])
  from execution_moves_forward [OF _ this e] reachable_controller_store [OF sample_reachable_running] e p
  show ?thesis by blast
qed

text \<open>C4. A run cancelled before its start permit never starts: from the moment the cancellation of
  a queued or assigned execution is acknowledged, no request of any agent is granted a permit for it,
  whatever happens in between.\<close>

theorem canceled_never_starts:
  assumes "reachable s" "Find s i = Some e" "ex_Status e = StatusQueued \<or> ex_Status e = StatusAssigned"
    and "mutate io (Cancel_txn now i) s = (r, None, s1)" "Find s1 i \<noteq> None"
    and "run_keeping i s1 (c_store c)" "GrantPermit env agent i c = (Inr resp, c')"
  shows "\<not> prm_Granted resp"
proof
  assume granted: "prm_Granted resp"
  have ok: "store_ok s" by (rule reachable_ok [OF assms(1)])
  from assms(4) obtain d where d: "Cancel_txn now i (st_data s) = (r, Inr d)"
    "st_data s1 = committed d (st_maxHistory s)"
    by (rule mutate_acknowledged)
  have sok: "snapshot_ok (st_data s)" using ok by (simp add: store_ok_def)
  from Cancel_txn_ok [OF sok d(1)] have dok: "unique_ids d" by (simp add: snapshot_ok_unique)
  from assms(5) obtain e1 where e1: "Find s1 i = Some e1" by blast
  then have "find_execution d i = Some e1"
    by (intro committed_find [OF _ dok]) (simp add: Find_def d(2))
  with Cancel_unstarted_txn [OF sok assms(2) [unfolded Find_def] assms(3) d(1)]
  have c1: "ex_CancelRequested e1" by auto
  have "store_ok s1" using store_step_ok [OF store_step.cancel [OF assms(4)] ok] by blast
  from run_keeping_evolves [OF assms(6) this e1] obtain e2 where
    "Find (c_store c) i = Some e2" "evolves e1 e2" by blast
  with GrantPermit_granted [OF assms(7) granted] c1 show False by (auto simp: evolves_def)
qed

theorem canceled_never_starts_witness:
  "\<not> prm_Granted (sum.projr (fst (GrantPermit (sample_env 14) ''a1'' ''r'' sample_canceled_only)))"
proof -
  obtain e where "Find (c_store sample_assigned) ''r'' = Some e" "ex_Status e = StatusAssigned"
    using sample_assigned_status by blast
  moreover have "mutate io_ok (Cancel_txn 13 ''r'') (c_store sample_assigned)
      = ((), None, c_store sample_canceled_only)" by code_simp
  moreover have "Find (c_store sample_canceled_only) ''r'' \<noteq> None" by code_simp
  moreover have "GrantPermit (sample_env 14) ''a1'' ''r'' sample_canceled_only =
      (Inr (sum.projr (fst (GrantPermit (sample_env 14) ''a1'' ''r'' sample_canceled_only))),
       snd (GrantPermit (sample_env 14) ''a1'' ''r'' sample_canceled_only))" by code_simp
  ultimately show ?thesis
    using canceled_never_starts [of "c_store sample_assigned" "''r''" e io_ok 13 "()"
        "c_store sample_canceled_only" sample_canceled_only "sample_env 14" "''a1''"]
      reachable_controller_store [OF sample_reachable_assigned] run_keeping.here by blast
qed

end
